(* ===== verification/GoFloat.thy ===== *)
theory GoFloat
  imports Complex_Main
begin

text \<open>
  Go's \<open>float64\<close> (IEEE 754 binary64): the finite values are rationals, and arithmetic
  rounds to the nearest value with 53 significant bits, ties to even. The sources use
  it for every numeric comparison, for SUM and AVERAGE and for the increment transform,
  also when the operands are integers; \<open>f64_of_int_exact\<close> says which integers survive the
  conversion.
\<close>

text \<open>\<open>FInf True\<close> is minus infinity; \<open>FFin 0\<close> is plus zero.\<close>

datatype float64 = FNaN | FInf bool | FNegZero | FFin rat

function ilog2 :: "int \<Rightarrow> int" where
  "ilog2 n = (if n \<le> 1 then 0 else 1 + ilog2 (n div 2))"
  by pat_completeness auto
termination by (relation "measure nat") auto

declare ilog2.simps [simp del]

definition pow2 :: "int \<Rightarrow> rat" where
  "pow2 e = (if 0 \<le> e then 2 ^ nat e else 1 / 2 ^ nat (- e))"

text \<open>The exponent of a positive rational: \<open>pow2 e \<le> q < pow2 (e + 1)\<close>.\<close>

definition floor_log2 :: "rat \<Rightarrow> int" where
  "floor_log2 q =
     (case quotient_of q of
        (n, d) \<Rightarrow>
          let e = ilog2 n - ilog2 d in
          if q < pow2 e then e - 1 else e)"

definition round_half_even :: "rat \<Rightarrow> int" where
  "round_half_even x =
     (let f = \<lfloor>x\<rfloor>; r = x - of_int f in
      if r < 1 / 2 then f else if 1 / 2 < r then f + 1 else if even f then f else f + 1)"

text \<open>
  The significand is \<open>n \<le> 2 ^ 53\<close>, so the rounded value reaches \<open>2 ^ 1024\<close> exactly when the
  exponent passes 971 or the significand was rounded up to \<open>2 ^ 53\<close> there.
\<close>

definition f64_round :: "rat \<Rightarrow> float64" where
  "f64_round q =
     (if q = 0 then FFin 0
      else let e = max (floor_log2 \<bar>q\<bar> - 52) (- 1074);
               n = round_half_even (\<bar>q\<bar> / pow2 e)
           in if 971 < e \<or> (e = 971 \<and> n = 2 ^ 53) then FInf (q < 0)
              else if n = 0 then (if q < 0 then FNegZero else FFin 0)
              else FFin ((if q < 0 then - 1 else 1) * of_int n * pow2 e))"

definition f64_of_int :: "int \<Rightarrow> float64" where
  "f64_of_int i = f64_round (of_int i)"

fun f64_key :: "float64 \<Rightarrow> int \<times> rat" where
  "f64_key FNaN = (0, 0)"
| "f64_key (FInf neg) = (if neg then - 1 else 1, 0)"
| "f64_key FNegZero = (0, 0)"
| "f64_key (FFin q) = (0, q)"

definition f64_lt :: "float64 \<Rightarrow> float64 \<Rightarrow> bool" where
  "f64_lt x y \<longleftrightarrow> x \<noteq> FNaN \<and> y \<noteq> FNaN \<and>
     (fst (f64_key x) < fst (f64_key y) \<or>
      fst (f64_key x) = fst (f64_key y) \<and> snd (f64_key x) < snd (f64_key y))"

definition f64_eq :: "float64 \<Rightarrow> float64 \<Rightarrow> bool" where
  "f64_eq x y \<longleftrightarrow> x \<noteq> FNaN \<and> y \<noteq> FNaN \<and> f64_key x = f64_key y"

fun f64_add :: "float64 \<Rightarrow> float64 \<Rightarrow> float64" where
  "f64_add FNaN y = FNaN"
| "f64_add x FNaN = FNaN"
| "f64_add (FInf a) (FInf b) = (if a = b then FInf a else FNaN)"
| "f64_add (FInf a) y = FInf a"
| "f64_add x (FInf b) = FInf b"
| "f64_add FNegZero FNegZero = FNegZero"
| "f64_add FNegZero (FFin q) = FFin q"
| "f64_add (FFin p) FNegZero = FFin p"
| "f64_add (FFin p) (FFin q) = f64_round (p + q)"

text \<open>Division by the count of an average, which is a positive integer.\<close>

fun f64_div_count :: "float64 \<Rightarrow> nat \<Rightarrow> float64" where
  "f64_div_count (FFin q) n =
     (case f64_of_int (int n) of FFin c \<Rightarrow> f64_round (q / c) | _ \<Rightarrow> FNaN)"
| "f64_div_count x n = x"

text \<open>
  The conversion \<open>int64(f)\<close> truncates; for values that do not fit the Go specification
  leaves the result to the implementation, the parameter \<open>oor\<close>.
\<close>

definition f64_trunc :: "rat \<Rightarrow> int" where
  "f64_trunc q = (if 0 \<le> q then \<lfloor>q\<rfloor> else \<lceil>q\<rceil>)"

fun f64_to_int64 :: "(float64 \<Rightarrow> int) \<Rightarrow> float64 \<Rightarrow> int" where
  "f64_to_int64 oor (FFin q) =
     (if - (2 ^ 63) \<le> f64_trunc q \<and> f64_trunc q < 2 ^ 63 then f64_trunc q else oor (FFin q))"
| "f64_to_int64 oor FNegZero = 0"
| "f64_to_int64 oor x = oor x"

section \<open>Powers of two\<close>

lemma pow2_pos [simp]: "0 < pow2 e"
  by (simp add: pow2_def)

lemma pow2_nat [simp]: "pow2 (int n) = 2 ^ n"
  by (simp add: pow2_def)

lemma pow2_nonpos_int: "e \<le> 0 \<Longrightarrow> 1 / pow2 e = of_int (2 ^ nat (- e))"
  by (cases "e = 0") (simp_all add: pow2_def)

lemma ilog2_nonneg [simp]: "0 \<le> ilog2 n"
proof (induction n rule: ilog2.induct)
  case (1 n)
  then show ?case by (cases "n \<le> 1") (simp_all add: ilog2.simps [of n])
qed

lemma ilog2_less: "0 < k \<Longrightarrow> n < 2 ^ k \<Longrightarrow> ilog2 n < int k"
proof (induction n arbitrary: k rule: ilog2.induct)
  case (1 n)
  show ?case
  proof (cases "n \<le> 1")
    case True
    with "1.prems" show ?thesis by (simp add: ilog2.simps [of n])
  next
    case False
    obtain j where k: "k = Suc j" using "1.prems"(1) by (cases k) auto
    have j: "0 < j"
    proof (rule ccontr)
      assume "\<not> 0 < j"
      with k "1.prems"(2) False show False by simp
    qed
    have "n div 2 < 2 ^ j" using "1.prems"(2) k by simp
    with False j have "ilog2 (n div 2) < int j" by (rule "1.IH")
    with False k show ?thesis by (simp add: ilog2.simps [of n])
  qed
qed

lemma floor_log2_int: "0 < k \<Longrightarrow> i < 2 ^ k \<Longrightarrow> floor_log2 (of_int i) < int k"
  using ilog2_less [of k i]
  by (auto simp: floor_log2_def quotient_of_int Let_def ilog2.simps [of 1])

section \<open>Integers that convert exactly\<close>

lemma round_half_even_int [simp]: "round_half_even (of_int i) = i"
  by (simp add: round_half_even_def)

lemma f64_round_small:
  assumes "i \<noteq> 0" and "\<bar>i\<bar> < 2 ^ 53"
  shows "f64_round (of_int i) = FFin (of_int i)"
proof -
  define e where "e = max (floor_log2 (of_int \<bar>i\<bar>) - 52) (- 1074)"
  have "floor_log2 (of_int \<bar>i\<bar>) < 53"
    using floor_log2_int [of 53 "\<bar>i\<bar>"] assms by simp
  then have e: "e \<le> 0" by (simp add: e_def)
  define n where "n = \<bar>i\<bar> * 2 ^ nat (- e)"
  have "of_int \<bar>i\<bar> / pow2 e = of_int \<bar>i\<bar> * (1 / pow2 e)" by simp
  also have "\<dots> = of_int \<bar>i\<bar> * of_int (2 ^ nat (- e))" by (simp only: pow2_nonpos_int [OF e])
  also have "\<dots> = of_int n" by (simp add: n_def)
  finally have q: "of_int \<bar>i\<bar> / pow2 e = of_int n" .
  then have v: "of_int n * pow2 e = of_int \<bar>i\<bar>"
    by (metis nonzero_eq_divide_eq order_less_irrefl pow2_pos)
  have r: "round_half_even (of_int \<bar>i\<bar> / pow2 e) = n" by (simp only: q round_half_even_int)
  have "n \<noteq> 0" using assms(1) by (simp add: n_def)
  moreover have "(if (of_int i :: rat) < 0 then - 1 else 1) * of_int n * pow2 e = of_int i"
    using v by (simp add: mult.assoc)
  ultimately show ?thesis
    using assms(1) e r by (simp add: f64_round_def Let_def flip: of_int_abs e_def)
qed

lemma f64_of_int_exact: "\<bar>i\<bar> < 2 ^ 53 \<Longrightarrow> f64_of_int i = FFin (of_int i)"
  by (cases "i = 0") (simp_all add: f64_of_int_def f64_round_small, simp add: f64_round_def)

lemma f64_lt_asym: "f64_lt x y \<Longrightarrow> \<not> f64_lt y x"
  by (auto simp: f64_lt_def)

lemma f64_lt_negtrans:
  "y \<noteq> FNaN \<Longrightarrow> \<not> f64_lt x y \<Longrightarrow> \<not> f64_lt y z \<Longrightarrow> \<not> f64_lt x z"
  by (auto simp: f64_lt_def)

lemma f64_add_exact:
  "\<bar>i + j\<bar> < 2 ^ 53 \<Longrightarrow> f64_add (FFin (of_int i)) (FFin (of_int j)) = FFin (of_int (i + j))"
  using f64_of_int_exact [of "i + j"] by (simp add: f64_of_int_def)

lemma f64_to_int64_exact:
  "- (2 ^ 63) \<le> i \<Longrightarrow> i < 2 ^ 63 \<Longrightarrow> f64_to_int64 oor (FFin (of_int i)) = i"
  by (simp add: f64_trunc_def)

section \<open>Integral values\<close>

lemma ilog2_ge: "2 ^ k \<le> n \<Longrightarrow> int k \<le> ilog2 n"
proof (induction n arbitrary: k rule: ilog2.induct)
  case (1 n)
  show ?case
  proof (cases k)
    case (Suc j)
    have "1 \<le> (2 :: int) ^ j" by simp
    with "1.prems" Suc have n: "\<not> n \<le> 1" by (simp del: one_le_power)
    have "2 ^ j \<le> n div 2" using "1.prems" Suc by simp
    from "1.IH" [OF n this] Suc n show ?thesis by (simp add: ilog2.simps [of n])
  qed simp
qed

lemma floor_log2_ge: "2 ^ k \<le> i \<Longrightarrow> int k - 1 \<le> floor_log2 (of_int i)"
  using ilog2_ge [of k i] by (simp add: floor_log2_def quotient_of_int Let_def ilog2.simps [of 1])

lemma pow2_int: "0 \<le> e \<Longrightarrow> pow2 e = of_int (2 ^ nat e)"
  by (simp add: pow2_def)

text \<open>An integer converts to an integer: beyond \<open>2 ^ 53\<close> the unit in the last place is at least one.\<close>

lemma f64_of_int_integral:
  assumes "f64_key (f64_of_int i) = (0, q)"
  shows "q \<in> \<int>"
proof (cases "\<bar>i\<bar> < 2 ^ 53")
  case True
  with assms show ?thesis by (auto simp: f64_of_int_exact)
next
  case False
  define e where "e = max (floor_log2 (of_int \<bar>i\<bar>) - 52) (- 1074)"
  have "52 \<le> floor_log2 (of_int \<bar>i\<bar>)" using floor_log2_ge [of 53 "\<bar>i\<bar>"] False by simp
  then have "pow2 e = of_int (2 ^ nat e)" by (intro pow2_int) (simp add: e_def)
  then have "of_int n * pow2 e \<in> \<int>" for n by simp
  with assms show ?thesis
    by (auto simp: f64_of_int_def f64_round_def Let_def simp flip: of_int_abs e_def split: if_splits)
qed

lemma f64_of_int_finite:
  assumes "- (2 ^ 63) \<le> i" and "i < 2 ^ 63"
  shows "f64_of_int i \<noteq> FInf neg"
proof -
  have "floor_log2 (of_int \<bar>i\<bar>) < 64" using floor_log2_int [of 64 "\<bar>i\<bar>"] assms by simp
  then show ?thesis by (auto simp: f64_of_int_def f64_round_def Let_def simp flip: of_int_abs)
qed

lemma f64_trunc_integral: "q \<in> \<int> \<Longrightarrow> of_int (f64_trunc q) = q"
  by (auto simp: f64_trunc_def elim: Ints_cases)

lemma f64_of_trunc:
  "f64_round q = FFin q \<Longrightarrow> f64_eq (f64_of_int (f64_trunc q)) (FFin q) \<longleftrightarrow> q \<in> \<int>"
  using f64_of_int_integral [of "f64_trunc q" q] f64_trunc_integral [of q]
  by (auto simp: f64_eq_def f64_of_int_def)

end
