(* ===== verification/Prelude.thy ===== *)
theory Prelude
  imports
    Main
    "HOL-Library.AList"
    "HOL-Library.Sublist"
    "HOL-Library.List_Lexorder"
    "HOL-Library.Char_ord"
    "HOL-Library.Multiset"
begin

text \<open>
  The shared vocabulary of the development: results and error-passing state
  transformers (\<open>rbind\<close>, \<open>iobind\<close> and the loops over them), Go maps as association
  lists, Go's stable sort, and the interfaces the components share. Two conventions
  are used everywhere.

  \<^item> A Go map is an association list with distinct keys. The order of the list is the
    order a \<open>range\<close> loop happens to visit the entries in, so a theorem about every
    association list is a theorem about every iteration order.
  \<^item> A Go function that returns a value and an error is a function into a sum,
    \<open>Inl\<close> carrying the error; a function that also changes the outside world takes
    the world and returns the changed world beside the sum, also when it fails.
\<close>

named_theorems res_simps \<open>inversion of successful and failing results\<close>
named_theorems go_map_simps \<open>lookups in updated Go maps\<close>

section \<open>Results\<close>

definition rbind :: "'e + 'a \<Rightarrow> ('a \<Rightarrow> 'e + 'b) \<Rightarrow> 'e + 'b" where
  "rbind m f = (case m of Inl e \<Rightarrow> Inl e | Inr x \<Rightarrow> f x)"

fun rtraverse :: "('a \<Rightarrow> 'e + 'b) \<Rightarrow> 'a list \<Rightarrow> 'e + 'b list" where
  "rtraverse f [] = Inr []"
| "rtraverse f (x # xs) = rbind (f x) (\<lambda>y. rbind (rtraverse f xs) (\<lambda>ys. Inr (y # ys)))"

fun rfilter :: "('a \<Rightarrow> 'e + bool) \<Rightarrow> 'a list \<Rightarrow> 'e + 'a list" where
  "rfilter p [] = Inr []"
| "rfilter p (x # xs) =
     rbind (p x) (\<lambda>b. rbind (rfilter p xs) (\<lambda>ys. Inr (if b then x # ys else ys)))"

fun rcheck :: "('a \<Rightarrow> 'e + unit) \<Rightarrow> 'a list \<Rightarrow> 'e + unit" where
  "rcheck f [] = Inr ()"
| "rcheck f (x # xs) = rbind (f x) (\<lambda>_. rcheck f xs)"

lemma rbind_simps [simp]:
  "rbind (Inl e) f = Inl e"
  "rbind (Inr x) f = f x"
  by (simp_all add: rbind_def)

lemma rbind_eq_Inr [res_simps]: "rbind m f = Inr y \<longleftrightarrow> (\<exists>x. m = Inr x \<and> f x = Inr y)"
  by (cases m) auto

lemma rbind_eq_Inl [res_simps]:
  "rbind m f = Inl e \<longleftrightarrow> m = Inl e \<or> (\<exists>x. m = Inr x \<and> f x = Inl e)"
  by (cases m) auto

lemma rbind_cong: "m = m' \<Longrightarrow> (\<And>x. m' = Inr x \<Longrightarrow> f x = g x) \<Longrightarrow> rbind m f = rbind m' g"
  by (cases m') auto

lemma rtraverse_eq_Inr: "rtraverse f xs = Inr ys \<longleftrightarrow> list_all2 (\<lambda>x y. f x = Inr y) xs ys"
proof (induction xs arbitrary: ys)
  case Nil
  then show ?case by auto
next
  case (Cons x xs)
  then show ?case by (cases ys) (auto simp: res_simps)
qed

lemma rtraverse_length: "rtraverse f xs = Inr ys \<Longrightarrow> length ys = length xs"
  by (simp add: rtraverse_eq_Inr list_all2_lengthD)

lemma rfilter_eq_Inr:
  "rfilter p xs = Inr ys \<longleftrightarrow>
     (\<forall>x \<in> set xs. \<exists>b. p x = Inr b) \<and> ys = filter (\<lambda>x. p x = Inr True) xs"
proof (induction xs arbitrary: ys)
  case Nil
  then show ?case by auto
next
  case (Cons x xs)
  then show ?case by (cases "p x") (auto simp: rbind_eq_Inr)
qed

lemma rcheck_eq_Inr [res_simps]: "rcheck f xs = Inr u \<longleftrightarrow> (\<forall>x \<in> set xs. f x = Inr ())"
  by (induction xs) (auto simp: res_simps)

section \<open>State transformers that can fail\<close>

type_synonym ('s, 'e, 'a) io = "'s \<Rightarrow> ('e + 'a) \<times> 's"

definition ioret :: "'a \<Rightarrow> ('s, 'e, 'a) io" where
  "ioret x = (\<lambda>s. (Inr x, s))"

definition iofail :: "'e \<Rightarrow> ('s, 'e, 'a) io" where
  "iofail e = (\<lambda>s. (Inl e, s))"

definition iolift :: "'e + 'a \<Rightarrow> ('s, 'e, 'a) io" where
  "iolift r = (\<lambda>s. (r, s))"

definition iobind :: "('s, 'e, 'a) io \<Rightarrow> ('a \<Rightarrow> ('s, 'e, 'b) io) \<Rightarrow> ('s, 'e, 'b) io" where
  "iobind m f = (\<lambda>s. case m s of (Inl e, t) \<Rightarrow> (Inl e, t) | (Inr x, t) \<Rightarrow> f x t)"

definition ioguard :: "bool \<Rightarrow> 'e \<Rightarrow> ('s, 'e, unit) io" where
  "ioguard b e = (if b then ioret () else iofail e)"

text \<open>\<open>iocatch m h\<close> hands a failure of \<open>m\<close> to \<open>h\<close>: the \<open>if err != nil\<close> branch.\<close>

definition iocatch :: "('s, 'e, 'a) io \<Rightarrow> ('e \<Rightarrow> ('s, 'e, 'a) io) \<Rightarrow> ('s, 'e, 'a) io" where
  "iocatch m h = (\<lambda>s. case m s of (Inl e, t) \<Rightarrow> h e t | (Inr x, t) \<Rightarrow> (Inr x, t))"

fun iotraverse :: "('a \<Rightarrow> ('s, 'e, 'b) io) \<Rightarrow> 'a list \<Rightarrow> ('s, 'e, 'b list) io" where
  "iotraverse f [] = ioret []"
| "iotraverse f (x # xs) =
     iobind (f x) (\<lambda>y. iobind (iotraverse f xs) (\<lambda>ys. ioret (y # ys)))"

fun ioeach :: "('a \<Rightarrow> ('s, 'e, unit) io) \<Rightarrow> 'a list \<Rightarrow> ('s, 'e, unit) io" where
  "ioeach f [] = ioret ()"
| "ioeach f (x # xs) = iobind (f x) (\<lambda>_. ioeach f xs)"

fun iofilter :: "('a \<Rightarrow> ('s, 'e, bool) io) \<Rightarrow> 'a list \<Rightarrow> ('s, 'e, 'a list) io" where
  "iofilter p [] = ioret []"
| "iofilter p (x # xs) =
     iobind (p x) (\<lambda>b. iobind (iofilter p xs) (\<lambda>ys. ioret (if b then x # ys else ys)))"

fun iofold :: "('b \<Rightarrow> 'a \<Rightarrow> ('s, 'e, 'b) io) \<Rightarrow> 'b \<Rightarrow> 'a list \<Rightarrow> ('s, 'e, 'b) io" where
  "iofold f acc [] = ioret acc"
| "iofold f acc (x # xs) = iobind (f acc x) (\<lambda>acc'. iofold f acc' xs)"

lemmas io_defs = ioret_def iofail_def iolift_def ioguard_def

lemma iobind_eq_Inr [res_simps]:
  "iobind m f s = (Inr y, u) \<longleftrightarrow> (\<exists>x t. m s = (Inr x, t) \<and> f x t = (Inr y, u))"
  by (auto simp: iobind_def split: prod.splits sum.splits)

lemma iobind_eq_Inl [res_simps]:
  "iobind m f s = (Inl e, u) \<longleftrightarrow>
     m s = (Inl e, u) \<or> (\<exists>x t. m s = (Inr x, t) \<and> f x t = (Inl e, u))"
  by (auto simp: iobind_def split: prod.splits sum.splits)

lemma io_eq_simps [res_simps]:
  "ioret x s = (Inr y, t) \<longleftrightarrow> y = x \<and> t = s"
  "ioret x s \<noteq> (Inl e, t)"
  "iofail e s = (Inl d, t) \<longleftrightarrow> d = e \<and> t = s"
  "iofail e s \<noteq> (Inr z, t)"
  "iolift r s = (q, t) \<longleftrightarrow> r = q \<and> t = s"
  "ioguard b d s = (Inr u, t) \<longleftrightarrow> b \<and> t = s"
  "ioguard b d s = (Inl e, t) \<longleftrightarrow> \<not> b \<and> e = d \<and> t = s"
  by (auto simp: io_defs)

lemma iocatch_fail_Inr [res_simps]:
  "iocatch m (\<lambda>e. iofail (f e)) s = (Inr x, t) \<longleftrightarrow> m s = (Inr x, t)"
  by (auto simp: iocatch_def iofail_def split: prod.splits sum.splits)

lemma iofilter_Inr:
  assumes "iofilter p xs s = (Inr ys, t)" and "\<And>x s b t. p x s = (Inr b, t) \<Longrightarrow> q x = Inr b"
  shows "ys = filter (\<lambda>x. q x = Inr True) xs \<and> (\<forall>x \<in> set xs. \<exists>b. q x = Inr b)"
  using assms(1)
proof (induction xs arbitrary: s ys t)
  case Nil
  then show ?case by (simp add: ioret_def)
next
  case (Cons x xs)
  then obtain b u zs v where "p x s = (Inr b, u)" "iofilter p xs u = (Inr zs, v)"
      "ys = (if b then x # zs else zs)"
    by (auto simp: res_simps)
  moreover from this have "q x = Inr b" using assms(2) by blast
  ultimately show ?case using Cons.IH [of u zs v] by auto
qed

lemma iotraverse_Inr:
  assumes "iotraverse f xs s = (Inr ys, t)" and "\<And>x s y t. f x s = (Inr y, t) \<Longrightarrow> g x = Inr y"
  shows "rtraverse g xs = Inr ys"
  using assms(1)
proof (induction xs arbitrary: s ys t)
  case Nil
  then show ?case by (simp add: ioret_def)
next
  case (Cons x xs)
  then obtain y u zs v where "f x s = (Inr y, u)" "iotraverse f xs u = (Inr zs, v)" "ys = y # zs"
    by (auto simp: res_simps)
  with Cons.IH [of u zs v] assms(2) show ?case by auto
qed

lemma iobind_step:
  "m s = (Inr x, t) \<Longrightarrow> iobind m f s = f x t"
  "m s = (Inl e, t) \<Longrightarrow> iobind m f s = (Inl e, t)"
  by (simp_all add: iobind_def)

lemma iobind_assoc: "iobind (iobind m f) g = iobind m (\<lambda>x. iobind (f x) g)"
  by (auto simp: iobind_def fun_eq_iff split: prod.splits sum.splits)

lemma iobind_io [simp]:
  "iobind (ioret x) f = f x"
  "iobind (iofail e) f = iofail e"
  "iobind (iolift (Inr x)) f = f x"
  "iobind (iolift (Inl e)) f = iofail e"
  by (simp_all add: iobind_def io_defs fun_eq_iff)

text \<open>
  An invariant relation between the worlds before and after: what every step of a
  program keeps, the whole program keeps. \<open>iokeeps R m\<close> is used for frame properties
  (no file changes, only these paths change).
\<close>

definition iokeeps :: "('s \<Rightarrow> 's \<Rightarrow> bool) \<Rightarrow> ('s, 'e, 'a) io \<Rightarrow> bool" where
  "iokeeps R m \<longleftrightarrow> (\<forall>s. R s (snd (m s)))"

lemma iokeepsI [intro?]: "(\<And>s. R s (snd (m s))) \<Longrightarrow> iokeeps R m"
  by (simp add: iokeeps_def)

lemma iokeepsD: "iokeeps R m \<Longrightarrow> m s = (r, t) \<Longrightarrow> R s t"
  by (metis iokeeps_def snd_conv)

locale world_frame =
  fixes R :: "'s \<Rightarrow> 's \<Rightarrow> bool"
  assumes frame_refl: "R s s"
    and frame_trans: "R s t \<Longrightarrow> R t u \<Longrightarrow> R s u"
begin

lemma keeps_ret [simp]:
  "iokeeps R (ioret x)" "iokeeps R (iofail e)" "iokeeps R (iolift r)" "iokeeps R (ioguard b e)"
  by (auto simp: iokeeps_def io_defs frame_refl)

lemma keeps_bind:
  assumes "iokeeps R m" and "\<And>x. iokeeps R (f x)"
  shows "iokeeps R (iobind m f)"
proof
  fix s
  show "R s (snd (iobind m f s))"
  proof (cases "m s")
    case (Pair r t)
    with assms(1) have st: "R s t" by (rule iokeepsD)
    show ?thesis
    proof (cases r)
      case (Inl e)
      with Pair st show ?thesis by (simp add: iobind_def)
    next
      case (Inr x)
      have "R t (snd (f x t))" using assms(2) by (simp add: iokeeps_def)
      with st have "R s (snd (f x t))" by (rule frame_trans)
      with Pair Inr show ?thesis by (simp add: iobind_def)
    qed
  qed
qed

lemma keeps_catch:
  assumes "iokeeps R m" and "\<And>e. iokeeps R (h e)"
  shows "iokeeps R (iocatch m h)"
proof
  fix s
  show "R s (snd (iocatch m h s))"
  proof (cases "m s")
    case (Pair r t)
    with assms(1) have st: "R s t" by (rule iokeepsD)
    show ?thesis
    proof (cases r)
      case (Inr x)
      with Pair st show ?thesis by (simp add: iocatch_def)
    next
      case (Inl e)
      have "R t (snd (h e t))" using assms(2) by (simp add: iokeeps_def)
      with st have "R s (snd (h e t))" by (rule frame_trans)
      with Pair Inl show ?thesis by (simp add: iocatch_def)
    qed
  qed
qed

lemma keeps_traverse: "(\<And>x. iokeeps R (f x)) \<Longrightarrow> iokeeps R (iotraverse f xs)"
  by (induction xs) (simp_all add: keeps_bind)

lemma keeps_each: "(\<And>x. iokeeps R (f x)) \<Longrightarrow> iokeeps R (ioeach f xs)"
  by (induction xs) (simp_all add: keeps_bind)

lemma keeps_filter: "(\<And>x. iokeeps R (p x)) \<Longrightarrow> iokeeps R (iofilter p xs)"
  by (induction xs) (simp_all add: keeps_bind)

lemma keeps_fold: "(\<And>acc x. iokeeps R (f acc x)) \<Longrightarrow> iokeeps R (iofold f acc xs)"
  by (induction xs arbitrary: acc) (simp_all add: keeps_bind)

lemma keeps_if: "iokeeps R m \<Longrightarrow> iokeeps R n \<Longrightarrow> iokeeps R (if b then m else n)"
  by simp

lemma traverse_each:
  assumes "iotraverse f xs s = (Inr ys, t)" and "\<And>x. iokeeps R (f x)"
  shows "list_all2 (\<lambda>x y. \<exists>u v. R s u \<and> f x u = (Inr y, v)) xs ys"
  using assms(1)
proof (induction xs arbitrary: s ys t)
  case Nil
  then show ?case by (simp add: ioret_def)
next
  case (Cons x xs)
  then obtain y u zs v where y: "f x s = (Inr y, u)" and zs: "iotraverse f xs u = (Inr zs, v)"
      and ys: "ys = y # zs"
    by (auto simp: res_simps)
  have "R s u" using assms(2) y by (rule iokeepsD)
  with Cons.IH [OF zs] have "list_all2 (\<lambda>x y. \<exists>u v. R s u \<and> f x u = (Inr y, v)) xs zs"
    by (auto elim!: list_all2_mono intro: frame_trans)
  with y ys show ?case using frame_refl by auto
qed

lemma each_each:
  assumes "ioeach f xs s = (Inr u, t)" and "\<And>x. iokeeps R (f x)" and "x \<in> set xs"
  shows "\<exists>v w. R s v \<and> f x v = (Inr (), w)"
  using assms(1,3)
proof (induction xs arbitrary: s)
  case (Cons y ys)
  then obtain v where y: "f y s = (Inr (), v)" and ys: "ioeach f ys v = (Inr u, t)"
    by (auto simp: res_simps)
  have sv: "R s v" using assms(2) y by (rule iokeepsD)
  show ?case
  proof (cases "x = y")
    case True
    with y show ?thesis using frame_refl by blast
  next
    case False
    with Cons.IH [OF ys] Cons.prems(2) obtain a b where "R v a" "f x a = (Inr (), b)" by auto
    with sv show ?thesis using frame_trans by blast
  qed
qed simp

lemmas keeps_intros = keeps_bind keeps_catch keeps_traverse keeps_each keeps_filter keeps_fold

end

section \<open>Go maps\<close>

type_synonym 'v go_map = "(string \<times> 'v) list"

definition wf_map :: "'v go_map \<Rightarrow> bool" where
  "wf_map m \<longleftrightarrow> distinct (map fst m)"

definition go_get :: "'v go_map \<Rightarrow> string \<Rightarrow> 'v option" where
  "go_get m k = map_of m k"

definition go_set :: "string \<Rightarrow> 'v \<Rightarrow> 'v go_map \<Rightarrow> 'v go_map" where
  "go_set k v m = AList.update k v m"

definition go_delete :: "string \<Rightarrow> 'v go_map \<Rightarrow> 'v go_map" where
  "go_delete k m = AList.delete k m"

definition go_keys :: "'v go_map \<Rightarrow> string list" where
  "go_keys m = map fst m"

text \<open>
  The contract of a keyed store, and what follows from it for every client: writes
  to different keys commute and a delete undoes an insert of a fresh key.
\<close>

locale keyed_store =
  fixes lookup :: "'m \<Rightarrow> 'k \<Rightarrow> 'v option"
    and store :: "'k \<Rightarrow> 'v \<Rightarrow> 'm \<Rightarrow> 'm"
    and remove :: "'k \<Rightarrow> 'm \<Rightarrow> 'm"
    and invar :: "'m \<Rightarrow> bool"
  assumes lookup_store: "lookup (store k v m) = (lookup m)(k \<mapsto> v)"
    and lookup_remove: "lookup (remove k m) = (lookup m)(k := None)"
    and invar_store: "invar m \<Longrightarrow> invar (store k v m)"
    and invar_remove: "invar m \<Longrightarrow> invar (remove k m)"
begin

lemma lookup_store_same [simp]: "lookup (store k v m) k = Some v"
  by (simp add: lookup_store)

lemma lookup_store_other: "k \<noteq> j \<Longrightarrow> lookup (store k v m) j = lookup m j"
  by (simp add: lookup_store)

lemma lookup_remove_same [simp]: "lookup (remove k m) k = None"
  by (simp add: lookup_remove)

lemma lookup_remove_other: "k \<noteq> j \<Longrightarrow> lookup (remove k m) j = lookup m j"
  by (simp add: lookup_remove)

lemma store_commute:
  "k \<noteq> j \<Longrightarrow> lookup (store k v (store j w m)) = lookup (store j w (store k v m))"
  by (simp add: lookup_store fun_upd_twist)

lemma remove_undoes_store: "lookup m k = None \<Longrightarrow> lookup (remove k (store k v m)) = lookup m"
  by (auto simp: lookup_store lookup_remove)

lemma store_restores: "lookup m k = Some v \<Longrightarrow> lookup (store k v (remove k m)) = lookup m"
  by (auto simp: lookup_store lookup_remove)

end

interpretation gm: keyed_store go_get go_set go_delete wf_map
  by unfold_locales
    (auto simp: go_get_def go_set_def go_delete_def wf_map_def update_conv' delete_conv'
       distinct_update distinct_delete fun_eq_iff)

lemma go_get_simps [go_map_simps, simp]:
  "go_get [] k = None"
  "go_get ((j, v) # m) k = (if j = k then Some v else go_get m k)"
  by (auto simp: go_get_def)

lemma go_get_set [go_map_simps]:
  "go_get (go_set k v m) j = (if j = k then Some v else go_get m j)"
  by (simp add: gm.lookup_store)

lemma go_get_delete [go_map_simps]:
  "go_get (go_delete k m) j = (if j = k then None else go_get m j)"
  by (simp add: gm.lookup_remove)

lemma go_get_None_iff: "go_get m k = None \<longleftrightarrow> k \<notin> fst ` set m"
  by (simp add: go_get_def map_of_eq_None_iff)

lemma go_get_mem: "wf_map m \<Longrightarrow> go_get m k = Some v \<longleftrightarrow> (k, v) \<in> set m"
  by (simp add: go_get_def wf_map_def)

lemma go_delete_absent: "go_get m k = None \<Longrightarrow> go_delete k m = m"
  by (simp add: go_delete_def go_get_None_iff delete_idem)

lemma set_go_keys: "set (go_keys m) = {k. go_get m k \<noteq> None}"
  by (auto simp: go_keys_def go_get_None_iff)

end
