(* ===== verification/GoStrings.thy ===== *)
theory GoStrings
  imports Prelude
begin

text \<open>
  The functions of Go's \<open>strings\<close>, \<open>unicode\<close>, \<open>path\<close> and \<open>path/filepath\<close> packages
  that the sources call, on strings as lists of bytes. The path functions are the
  Unix ones. Every definition computes.
\<close>

named_theorems path_simps \<open>splitting, joining and cleaning of slash-separated paths\<close>

section \<open>Substrings\<close>

fun strings_Contains :: "string \<Rightarrow> string \<Rightarrow> bool" where
  "strings_Contains s sub =
     (prefix sub s \<or> (case s of [] \<Rightarrow> False | _ # t \<Rightarrow> strings_Contains t sub))"

declare strings_Contains.simps [simp del]

definition strings_ContainsAny :: "string \<Rightarrow> string \<Rightarrow> bool" where
  "strings_ContainsAny s chars \<longleftrightarrow> list_ex (\<lambda>c. c \<in> set chars) s"

definition strings_HasPrefix :: "string \<Rightarrow> string \<Rightarrow> bool" where
  "strings_HasPrefix s pre \<longleftrightarrow> prefix pre s"

definition strings_HasSuffix :: "string \<Rightarrow> string \<Rightarrow> bool" where
  "strings_HasSuffix s suf \<longleftrightarrow> suffix suf s"

definition strings_TrimSuffix :: "string \<Rightarrow> string \<Rightarrow> string" where
  "strings_TrimSuffix s suf = (if suffix suf s then take (length s - length suf) s else s)"

text \<open>\<open>strings.ReplaceAll\<close> with a non-empty \<open>old\<close>: leftmost, non-overlapping.\<close>

fun strings_ReplaceAll :: "string \<Rightarrow> string \<Rightarrow> string \<Rightarrow> string" where
  "strings_ReplaceAll [] old new = []"
| "strings_ReplaceAll (c # s) old new =
     (if old \<noteq> [] \<and> prefix old (c # s)
      then new @ strings_ReplaceAll (drop (length old - 1) s) old new
      else c # strings_ReplaceAll s old new)"

text \<open>\<open>strings.Index\<close>: the position of the first occurrence.\<close>

fun strings_Index :: "string \<Rightarrow> string \<Rightarrow> nat option" where
  "strings_Index s sub =
     (if prefix sub s then Some 0
      else (case s of [] \<Rightarrow> None | _ # t \<Rightarrow> map_option Suc (strings_Index t sub)))"

declare strings_Index.simps [simp del]

text \<open>\<open>strings.Split\<close> at a one-byte separator and \<open>strings.Join\<close>.\<close>

fun strings_Split :: "char \<Rightarrow> string \<Rightarrow> string list" where
  "strings_Split c [] = [[]]"
| "strings_Split c (x # s) =
     (if x = c then [] # strings_Split c s
      else (case strings_Split c s of [] \<Rightarrow> [[x]] | w # ws \<Rightarrow> (x # w) # ws))"

fun strings_Join :: "string list \<Rightarrow> string \<Rightarrow> string" where
  "strings_Join [] sep = []"
| "strings_Join [w] sep = w"
| "strings_Join (w # v # ws) sep = w @ sep @ strings_Join (v # ws) sep"

text \<open>\<open>strings.Cut\<close> at a one-byte separator: before, after, found.\<close>

fun strings_Cut :: "string \<Rightarrow> char \<Rightarrow> string \<times> string \<times> bool" where
  "strings_Cut [] c = ([], [], False)"
| "strings_Cut (x # s) c =
     (if x = c then ([], s, True)
      else (case strings_Cut s c of (b, a, f) \<Rightarrow> (x # b, a, f)))"

definition strings_Compare :: "string \<Rightarrow> string \<Rightarrow> int" where
  "strings_Compare a b = (if a = b then 0 else if a < b then - 1 else 1)"

lemma Contains_iff_sublist: "strings_Contains s sub \<longleftrightarrow> sublist sub s"
proof (induction s)
  case Nil
  then show ?case by (simp add: strings_Contains.simps)
next
  case (Cons c s)
  then show ?case by (simp add: strings_Contains.simps [of "c # s"] sublist_Cons_right)
qed

lemma Contains_singleton: "strings_Contains s [c] \<longleftrightarrow> c \<in> set s"
  by (metis Contains_iff_sublist in_set_conv_decomp sublist_def append_Cons append_Nil)

lemma ContainsAny_iff: "strings_ContainsAny s chars \<longleftrightarrow> set s \<inter> set chars \<noteq> {}"
  by (auto simp: strings_ContainsAny_def list_ex_iff)

lemma Split_nonempty [simp]: "strings_Split c s \<noteq> []"
  by (induction s) (auto split: list.splits)

lemma Split_no_sep [path_simps]: "c \<notin> set s \<Longrightarrow> strings_Split c s = [s]"
  by (induction s) auto

lemma Split_append_sep [path_simps]:
  "c \<notin> set w \<Longrightarrow> strings_Split c (w @ c # s) = w # strings_Split c s"
  by (induction w) auto

lemma Split_parts_no_sep: "w \<in> set (strings_Split c s) \<Longrightarrow> c \<notin> set w"
proof (induction s arbitrary: w)
  case Nil
  then show ?case by simp
next
  case (Cons x s)
  then show ?case by (fastforce split: if_splits list.splits)
qed

lemma Split_Join [path_simps]:
  "ws \<noteq> [] \<Longrightarrow> \<forall>w \<in> set ws. c \<notin> set w \<Longrightarrow> strings_Split c (strings_Join ws [c]) = ws"
  by (induction ws "[c]" rule: strings_Join.induct) (auto simp: path_simps)

lemma Join_Split: "strings_Join (strings_Split c s) [c] = s"
proof (induction s)
  case Nil
  then show ?case by simp
next
  case (Cons x s)
  obtain w ws where "strings_Split c s = w # ws"
    by (metis Split_nonempty neq_Nil_conv)
  with Cons show ?case by (cases ws) auto
qed

lemma Join_inject:
  assumes "strings_Join vs [c] = strings_Join ws [c]" and "vs \<noteq> []" and "ws \<noteq> []"
    and "\<forall>w \<in> set vs. c \<notin> set w" and "\<forall>w \<in> set ws. c \<notin> set w"
  shows "vs = ws"
  using assms by (metis Split_Join)

lemma Join_append [path_simps]:
  "vs \<noteq> [] \<Longrightarrow> ws \<noteq> [] \<Longrightarrow>
   strings_Join (vs @ ws) sep = strings_Join vs sep @ sep @ strings_Join ws sep"
proof (induction vs sep rule: strings_Join.induct)
  case (2 w sep)
  then show ?case by (cases ws) auto
qed auto

lemma ReplaceAll_absent: "\<not> strings_Contains s old \<Longrightarrow> strings_ReplaceAll s old new = s"
proof (induction s)
  case Nil
  then show ?case by simp
next
  case (Cons c s)
  then show ?case by (auto simp: strings_Contains.simps [of "c # s"])
qed

lemma Compare_sign [simp]:
  "strings_Compare a b = 0 \<longleftrightarrow> a = b"
  "strings_Compare a b < 0 \<longleftrightarrow> a < b"
  "strings_Compare a b > 0 \<longleftrightarrow> b < a"
  by (auto simp: strings_Compare_def)

section \<open>Characters: upper case, control characters, white space\<close>

text \<open>
  \<open>strings.ToUpper\<close> restricted to the letters \<open>a\<close> to \<open>z\<close>. The sources only search
  the result for \<open>%2F\<close>, \<open>%5C\<close> and for device names made of letters other than
  \<open>I\<close> and \<open>S\<close>, the only two that a non-ASCII character upper-cases to.
\<close>

definition byte_ToUpper :: "char \<Rightarrow> char" where
  "byte_ToUpper c =
     (if 97 \<le> (of_char c :: nat) \<and> (of_char c :: nat) \<le> 122 then char_of (of_char c - 32 :: nat) else c)"

definition strings_ToUpper :: "string \<Rightarrow> string" where
  "strings_ToUpper s = map byte_ToUpper s"

text \<open>
  Some rune of the string satisfies \<open>unicode.IsControl\<close>: the C0 range and DEL are
  single bytes, the C1 range U+0080 to U+009F is the byte C2 followed by 80 to 9F.
\<close>

fun has_control :: "string \<Rightarrow> bool" where
  "has_control [] = False"
| "has_control (c # s) =
     ((of_char c :: nat) < 32 \<or> (of_char c :: nat) = 127 \<or>
      (case s of [] \<Rightarrow> False
       | d # _ \<Rightarrow> (of_char c :: nat) = 194 \<and> 128 \<le> (of_char d :: nat) \<and> (of_char d :: nat) \<le> 159) \<or>
      has_control s)"

text \<open>The length of the white-space rune a string starts with (0 when it starts with none).\<close>

definition space_len :: "string \<Rightarrow> nat" where
  "space_len s =
     (case map of_char s of
        [] \<Rightarrow> 0
      | b # bs \<Rightarrow>
          if b \<in> {9, 10, 11, 12, 13, 32 :: nat} then 1
          else (case bs of
                  [] \<Rightarrow> 0
                | b2 # bs2 \<Rightarrow>
                    if b = 194 \<and> (b2 = 133 \<or> b2 = 160) then 2
                    else (case bs2 of
                            [] \<Rightarrow> 0
                          | b3 # _ \<Rightarrow>
                              if (b = 225 \<and> b2 = 154 \<and> b3 = 128)
                                \<or> (b = 226 \<and> b2 = 128 \<and> (128 \<le> b3 \<and> b3 \<le> 138 \<or> b3 \<in> {168, 169, 175}))
                                \<or> (b = 226 \<and> b2 = 129 \<and> b3 = 159)
                                \<or> (b = 227 \<and> b2 = 128 \<and> b3 = 128)
                              then 3 else 0)))"

function TrimLeftSpace :: "string \<Rightarrow> string" where
  "TrimLeftSpace s = (if s \<noteq> [] \<and> space_len s > 0 then TrimLeftSpace (drop (space_len s) s) else s)"
  by pat_completeness auto
termination by (relation "measure length") auto

declare TrimLeftSpace.simps [simp del]

text \<open>The last rune is white space when a suffix of one to three bytes is exactly such a rune.\<close>

definition space_len_end :: "string \<Rightarrow> nat" where
  "space_len_end s =
     (let n = length s in
      if 1 \<le> n \<and> space_len (drop (n - 1) s) = 1 then 1
      else if 2 \<le> n \<and> space_len (drop (n - 2) s) = 2 then 2
      else if 3 \<le> n \<and> space_len (drop (n - 3) s) = 3 then 3
      else 0)"

function TrimRightSpace :: "string \<Rightarrow> string" where
  "TrimRightSpace s =
     (if s \<noteq> [] \<and> space_len_end s > 0 then TrimRightSpace (take (length s - space_len_end s) s) else s)"
  by pat_completeness auto
termination by (relation "measure length") auto

declare TrimRightSpace.simps [simp del]

definition strings_TrimSpace :: "string \<Rightarrow> string" where
  "strings_TrimSpace s = TrimRightSpace (TrimLeftSpace s)"

lemma TrimLeftSpace_suffix: "suffix (TrimLeftSpace s) s"
proof (induction s rule: TrimLeftSpace.induct)
  case (1 s)
  then show ?case
    by (subst TrimLeftSpace.simps) (auto intro: suffix_drop suffix_order.trans)
qed

lemma TrimRightSpace_prefix: "prefix (TrimRightSpace s) s"
proof (induction s rule: TrimRightSpace.induct)
  case (1 s)
  then show ?case
    by (subst TrimRightSpace.simps) (auto intro: take_is_prefix prefix_order.trans)
qed

text \<open>A string that trimming leaves alone starts and ends with no white space.\<close>

lemma TrimSpace_id:
  assumes "strings_TrimSpace s = s" and "s \<noteq> []"
  shows "space_len s = 0" and "space_len_end s = 0"
proof -
  have len: "length (TrimLeftSpace s) = length s"
    using TrimRightSpace_prefix [of "TrimLeftSpace s"] TrimLeftSpace_suffix [of s] assms(1)
    by (metis dual_order.antisym prefix_length_le strings_TrimSpace_def suffix_length_le)
  then have left: "TrimLeftSpace s = s"
    using TrimLeftSpace_suffix [of s] by (metis suffix_length_suffix suffix_order.antisym order.refl suffix_order.order_refl)
  then have right: "TrimRightSpace s = s"
    using assms(1) by (simp add: strings_TrimSpace_def)
  show "space_len s = 0"
  proof (rule ccontr)
    assume "space_len s \<noteq> 0"
    then have "length (TrimLeftSpace s) \<le> length (drop (space_len s) s)"
      using assms(2) suffix_length_le [OF TrimLeftSpace_suffix [of "drop (space_len s) s"]]
      by (subst TrimLeftSpace.simps) simp
    with \<open>space_len s \<noteq> 0\<close> assms(2) len show False by (cases s) auto
  qed
  show "space_len_end s = 0"
  proof (rule ccontr)
    assume "space_len_end s \<noteq> 0"
    then have "length (TrimRightSpace s) \<le> length (take (length s - space_len_end s) s)"
      using assms(2)
        prefix_length_le [OF TrimRightSpace_prefix [of "take (length s - space_len_end s) s"]]
      by (subst TrimRightSpace.simps) simp
    with \<open>space_len_end s \<noteq> 0\<close> assms(2) right show False by (cases s) auto
  qed
qed

end
