(* ===== verification/GoSort.thy ===== *)
theory GoSort
  imports Prelude
begin

text \<open>
  Go's \<open>sort.SliceStable\<close> and \<open>sort.Strings\<close>. \<open>SliceStable\<close> is the insertion sort the
  Go library runs on short slices: every element is moved left past the elements it
  is less than. For a strict weak order the sorted stable arrangement of a slice is
  unique (\<open>stable_unique\<close>), so the block merges the library uses on longer slices
  return the same slice.
\<close>

fun sift_left :: "('a \<Rightarrow> 'a \<Rightarrow> bool) \<Rightarrow> 'a \<Rightarrow> 'a list \<Rightarrow> 'a list" where
  "sift_left lt x [] = [x]"
| "sift_left lt x (y # ys) = (if lt x y then y # sift_left lt x ys else x # y # ys)"

definition insert_stable :: "('a \<Rightarrow> 'a \<Rightarrow> bool) \<Rightarrow> 'a list \<Rightarrow> 'a \<Rightarrow> 'a list" where
  "insert_stable lt ys x = rev (sift_left lt x (rev ys))"

definition SliceStable :: "('a \<Rightarrow> 'a \<Rightarrow> bool) \<Rightarrow> 'a list \<Rightarrow> 'a list" where
  "SliceStable lt xs = foldl (insert_stable lt) [] xs"

definition sort_Strings :: "string list \<Rightarrow> string list" where
  "sort_Strings xs = sort xs"

definition key_less :: "('a \<Rightarrow> string) \<Rightarrow> 'a \<Rightarrow> 'a \<Rightarrow> bool" where
  "key_less f x y = (f x < f y)"

lemma mset_sift_left [simp]: "mset (sift_left lt x ys) = add_mset x (mset ys)"
  by (induction ys) auto

lemma mset_insert_stable [simp]: "mset (insert_stable lt ys x) = add_mset x (mset ys)"
  by (simp add: insert_stable_def)

lemma mset_foldl_insert_stable:
  "mset (foldl (insert_stable lt) acc xs) = mset acc + mset xs"
  by (induction xs arbitrary: acc) auto

lemma mset_SliceStable [simp]: "mset (SliceStable lt xs) = mset xs"
  by (simp add: SliceStable_def mset_foldl_insert_stable)

lemma set_SliceStable [simp]: "set (SliceStable lt xs) = set xs"
  by (metis mset_SliceStable set_mset_mset)

lemma length_SliceStable [simp]: "length (SliceStable lt xs) = length xs"
  by (metis mset_SliceStable size_mset)

lemma set_sift_left [simp]: "set (sift_left lt x ys) = insert x (set ys)"
  by (induction ys) auto

locale strict_weak_order =
  fixes lt :: "'a \<Rightarrow> 'a \<Rightarrow> bool"
  assumes less_asym: "lt x y \<Longrightarrow> \<not> lt y x"
    and less_negtrans: "\<not> lt x y \<Longrightarrow> \<not> lt y z \<Longrightarrow> \<not> lt x z"
begin

lemma less_irrefl: "\<not> lt x x"
  using less_asym by blast

lemma less_trans: "lt x y \<Longrightarrow> lt y z \<Longrightarrow> lt x z"
  using less_asym less_negtrans by blast

definition tied :: "'a \<Rightarrow> 'a \<Rightarrow> bool" where
  "tied x y \<longleftrightarrow> \<not> lt x y \<and> \<not> lt y x"

lemma tied_refl [simp]: "tied x x"
  by (simp add: tied_def less_irrefl)

lemma tied_sym: "tied x y \<Longrightarrow> tied y x"
  by (simp add: tied_def)

lemma tied_trans: "tied x y \<Longrightarrow> tied y z \<Longrightarrow> tied x z"
  unfolding tied_def using less_negtrans by blast

lemma sift_left_sorted:
  "sorted_wrt (\<lambda>a b. \<not> lt a b) ys \<Longrightarrow> sorted_wrt (\<lambda>a b. \<not> lt a b) (sift_left lt x ys)"
proof (induction ys)
  case Nil
  then show ?case by simp
next
  case (Cons y ys)
  have "\<not> lt x z" if "\<not> lt x y" "z \<in> set ys" for z
    using that Cons.prems less_negtrans by fastforce
  with Cons show ?case by (auto dest: less_asym)
qed

lemma insert_stable_sorted:
  "sorted_wrt (\<lambda>a b. \<not> lt b a) ys \<Longrightarrow> sorted_wrt (\<lambda>a b. \<not> lt b a) (insert_stable lt ys x)"
  using sift_left_sorted [of "rev ys" x] by (simp add: insert_stable_def sorted_wrt_rev)

lemma foldl_insert_stable_sorted:
  "sorted_wrt (\<lambda>a b. \<not> lt b a) acc \<Longrightarrow>
   sorted_wrt (\<lambda>a b. \<not> lt b a) (foldl (insert_stable lt) acc xs)"
  by (induction xs arbitrary: acc) (auto simp: insert_stable_sorted)

lemma SliceStable_sorted: "sorted_wrt (\<lambda>a b. \<not> lt b a) (SliceStable lt xs)"
  by (simp add: SliceStable_def foldl_insert_stable_sorted)

lemma filter_tied_sift_left:
  "filter (tied a) (sift_left lt x ys) = (if tied a x then [x] else []) @ filter (tied a) ys"
proof (induction ys)
  case Nil
  then show ?case by simp
next
  case (Cons y ys)
  have "\<not> (tied a x \<and> tied a y)" if "lt x y"
    using that tied_sym tied_trans unfolding tied_def by blast
  with Cons show ?case by auto
qed

lemma filter_tied_insert_stable:
  "filter (tied a) (insert_stable lt ys x) = filter (tied a) (ys @ [x])"
  using filter_tied_sift_left [of a x "rev ys"] by (simp add: insert_stable_def rev_filter [symmetric])

lemma filter_tied_foldl:
  "filter (tied a) (foldl (insert_stable lt) acc xs) = filter (tied a) (acc @ xs)"
  by (induction xs arbitrary: acc) (auto simp: filter_tied_insert_stable)

lemma SliceStable_stable: "filter (tied a) (SliceStable lt xs) = filter (tied a) xs"
  by (simp add: SliceStable_def filter_tied_foldl)

lemma sorted_stable_unique:
  assumes "sorted_wrt (\<lambda>a b. \<not> lt b a) xs" and "sorted_wrt (\<lambda>a b. \<not> lt b a) ys"
    and "\<And>a. filter (tied a) xs = filter (tied a) ys"
  shows "xs = ys"
  using assms
proof (induction xs arbitrary: ys)
  case Nil
  have "filter (tied a) ys = []" for a
    using Nil.prems(3) [of a] by simp
  then have "a \<notin> set ys" for a
    by (metis filter_empty_conv tied_refl)
  then show ?case by (metis last_in_set)
next
  case (Cons x xs)
  from Cons.prems(3) [of x] have x_first: "filter (tied x) ys = x # filter (tied x) xs"
    by simp
  then have "x \<in> set ys"
    by (metis filter_is_subset list.set_intros(1) subset_code(1))
  then obtain y ys' where ys: "ys = y # ys'" by (cases ys) auto
  have "y \<in> set (filter (tied y) (x # xs))"
    using Cons.prems(3) [of y] ys by (simp del: filter.simps)
  then have "y \<in> set (x # xs)"
    by (metis filter_is_subset subset_code(1))
  then have "tied x y"
    using Cons.prems(1,2) ys \<open>x \<in> set ys\<close> by (auto simp: tied_def less_irrefl)
  with x_first ys have xy: "x = y" by simp
  have "filter (tied a) xs = filter (tied a) ys'" for a
    using Cons.prems(3) [of a] ys xy by (auto split: if_splits)
  with Cons.IH [of ys'] Cons.prems(1,2) ys xy show ?case by simp
qed

lemma stable_unique:
  assumes "sorted_wrt (\<lambda>a b. \<not> lt b a) ys" and "\<And>a. filter (tied a) ys = filter (tied a) xs"
  shows "ys = SliceStable lt xs"
  using assms SliceStable_sorted SliceStable_stable by (metis sorted_stable_unique)

end

interpretation key_order: strict_weak_order "key_less f" for f :: "'a \<Rightarrow> string"
  by unfold_locales (auto simp: key_less_def)

lemma sort_Strings_props [simp]:
  "set (sort_Strings xs) = set xs" "length (sort_Strings xs) = length xs"
  "mset (sort_Strings xs) = mset xs" "sorted (sort_Strings xs)"
  "distinct (sort_Strings xs) = distinct xs"
  by (simp_all add: sort_Strings_def)

lemma sort_Strings_cong: "mset xs = mset ys \<Longrightarrow> sort_Strings xs = sort_Strings ys"
  by (metis mset_sort properties_for_sort sort_Strings_def sorted_sort)

section \<open>Comparators that are an order on the sorted elements only\<close>

definition swo_on :: "'a set \<Rightarrow> ('a \<Rightarrow> 'a \<Rightarrow> bool) \<Rightarrow> bool" where
  "swo_on S lt \<longleftrightarrow>
     (\<forall>x \<in> S. \<forall>y \<in> S. lt x y \<longrightarrow> \<not> lt y x) \<and>
     (\<forall>x \<in> S. \<forall>y \<in> S. \<forall>z \<in> S. \<not> lt x y \<longrightarrow> \<not> lt y z \<longrightarrow> \<not> lt x z)"

definition lex_less :: "('a \<Rightarrow> 'a \<Rightarrow> bool) \<Rightarrow> ('a \<Rightarrow> 'a \<Rightarrow> bool) \<Rightarrow> 'a \<Rightarrow> 'a \<Rightarrow> bool" where
  "lex_less h t x y \<longleftrightarrow> h x y \<or> (\<not> h y x \<and> t x y)"

lemma swo_onD:
  assumes "swo_on S lt" and "x \<in> S" and "y \<in> S"
  shows "lt x y \<Longrightarrow> \<not> lt y x" and "z \<in> S \<Longrightarrow> \<not> lt x y \<Longrightarrow> \<not> lt y z \<Longrightarrow> \<not> lt x z"
  using assms unfolding swo_on_def by blast+

lemma swo_on_lex:
  assumes "swo_on S h" and "swo_on S t"
  shows "swo_on S (lex_less h t)"
proof -
  have asym: "\<not> lex_less h t y x" if "x \<in> S" "y \<in> S" "lex_less h t x y" for x y
    using swo_onD(1) [OF assms(1) that(1,2)] swo_onD(1) [OF assms(2) that(1,2)] that(3)
    unfolding lex_less_def by blast
  have "\<not> lex_less h t x z"
    if S: "x \<in> S" "y \<in> S" "z \<in> S" and xy: "\<not> lex_less h t x y" and yz: "\<not> lex_less h t y z" for x y z
  proof -
    have h: "\<not> h x z"
      using swo_onD(2) [OF assms(1) S] xy yz unfolding lex_less_def by blast
    moreover have "\<not> t x z" if "\<not> h z x"
    proof -
      have "\<not> h y x" "\<not> h z y"
        using swo_onD(2) [OF assms(1) S(2,3,1)] swo_onD(2) [OF assms(1) S(3,1,2)] that xy yz
        unfolding lex_less_def by blast+
      then show ?thesis
        using swo_onD(2) [OF assms(2) S] xy yz unfolding lex_less_def by blast
    qed
    ultimately show ?thesis unfolding lex_less_def by blast
  qed
  with asym show ?thesis unfolding swo_on_def by blast
qed

lemma sift_left_cong:
  "(\<And>y. y \<in> set ys \<Longrightarrow> lt x y = lt' x y) \<Longrightarrow> sift_left lt x ys = sift_left lt' x ys"
  by (induction ys) auto

lemma foldl_insert_stable_cong:
  "(\<And>a b. a \<in> set (acc @ xs) \<Longrightarrow> b \<in> set (acc @ xs) \<Longrightarrow> lt a b = lt' a b) \<Longrightarrow>
     foldl (insert_stable lt) acc xs = foldl (insert_stable lt') acc xs"
proof (induction xs arbitrary: acc)
  case (Cons x xs)
  have "insert_stable lt acc x = insert_stable lt' acc x"
    unfolding insert_stable_def
    by (rule arg_cong [where f = rev], rule sift_left_cong) (simp add: Cons.prems)
  moreover have "set (insert_stable lt' acc x) = insert x (set acc)"
    by (simp add: insert_stable_def)
  moreover from this have "foldl (insert_stable lt) (insert_stable lt' acc x) xs =
      foldl (insert_stable lt') (insert_stable lt' acc x) xs"
    by (intro Cons.IH Cons.prems) auto
  ultimately show ?case by simp
qed simp

lemma SliceStable_cong:
  "(\<And>a b. a \<in> set xs \<Longrightarrow> b \<in> set xs \<Longrightarrow> lt a b = lt' a b) \<Longrightarrow> SliceStable lt xs = SliceStable lt' xs"
  unfolding SliceStable_def by (rule foldl_insert_stable_cong) simp

text \<open>A relation that is a strict weak order on a set, extended to the whole type.\<close>

lemma swo_on_extend:
  assumes "swo_on S lt" and "s \<in> S"
  shows "strict_weak_order (\<lambda>a b. lt (if a \<in> S then a else s) (if b \<in> S then b else s))"
proof
  let ?f = "\<lambda>a. if a \<in> S then a else s"
  have S: "?f a \<in> S" for a using assms(2) by simp
  show "\<not> lt (?f y) (?f x)" if "lt (?f x) (?f y)" for x y
    using swo_onD(1) [OF assms(1) S S that] .
  show "\<not> lt (?f x) (?f z)" if "\<not> lt (?f x) (?f y)" "\<not> lt (?f y) (?f z)" for x y z
    using swo_onD(2) [OF assms(1) S S S that] .
qed

lemma SliceStable_on:
  assumes "swo_on (set xs) lt"
  shows "sorted_wrt (\<lambda>a b. \<not> lt b a) (SliceStable lt xs)"
    and "a \<in> set xs \<Longrightarrow> filter (\<lambda>b. \<not> lt a b \<and> \<not> lt b a) (SliceStable lt xs) =
           filter (\<lambda>b. \<not> lt a b \<and> \<not> lt b a) xs"
proof -
  show "sorted_wrt (\<lambda>a b. \<not> lt b a) (SliceStable lt xs)"
  proof (cases xs)
    case Nil
    then show ?thesis by (simp add: SliceStable_def)
  next
    case (Cons s zs)
    let ?lt = "\<lambda>a b. lt (if a \<in> set xs then a else s) (if b \<in> set xs then b else s)"
    have "strict_weak_order ?lt" by (rule swo_on_extend [OF assms]) (simp add: Cons)
    then have "sorted_wrt (\<lambda>a b. \<not> ?lt b a) (SliceStable ?lt xs)"
      by (rule strict_weak_order.SliceStable_sorted)
    moreover have "SliceStable ?lt xs = SliceStable lt xs" by (rule SliceStable_cong) simp
    ultimately have "sorted_wrt (\<lambda>a b. \<not> ?lt b a) (SliceStable lt xs)" by simp
    then show ?thesis by (rule sorted_wrt_mono_rel [rotated]) simp
  qed
  assume a: "a \<in> set xs"
  let ?lt = "\<lambda>x y. lt (if x \<in> set xs then x else a) (if y \<in> set xs then y else a)"
  have swo: "strict_weak_order ?lt" by (rule swo_on_extend [OF assms a])
  have "SliceStable ?lt xs = SliceStable lt xs" by (rule SliceStable_cong) simp
  with strict_weak_order.SliceStable_stable [OF swo, of a xs]
  have "filter (strict_weak_order.tied ?lt a) (SliceStable lt xs) = filter (strict_weak_order.tied ?lt a) xs"
    by simp
  moreover have "filter (strict_weak_order.tied ?lt a) ys = filter (\<lambda>b. \<not> lt a b \<and> \<not> lt b a) ys"
    if "set ys \<subseteq> set xs" for ys
    using that a by (intro filter_cong) (auto simp: strict_weak_order.tied_def [OF swo])
  ultimately show "filter (\<lambda>b. \<not> lt a b \<and> \<not> lt b a) (SliceStable lt xs) =
      filter (\<lambda>b. \<not> lt a b \<and> \<not> lt b a) xs" by simp
qed

end
