(* ===== verification/Errors.thy ===== *)
theory Errors
  imports Prelude
begin

text \<open>
  The errors of the adapter, one constructor per place the sources create one, with
  the arguments the message names. \<open>EWrap\<close> is \<open>fmt.Errorf\<close> with a \<open>%w\<close>
  verb: \<open>errors.Is\<close> looks through it (\<open>err_is\<close>). \<open>EPanic\<close> is a run-time panic.
  \<open>EExternal\<close> is an error returned by a package outside the repository. \<open>EMsg\<close> is a message
  that no caller inspects, with its arguments.
\<close>

datatype key_error =
    SegmentName string
  | ControlCharacter string
  | ReservedDevice string
  | ReservedEscape string
  | PathEscapes string string
  | KeyEmpty
  | KeyTooLong nat
  | KeyWhitespace string
  | KeySeparator string
  | KeyTraversal string
  | InvalidID string
  | CollectionNotFoundForID string
  | NoRecordKey string

datatype definition_error =
    NoDefinition
  | CollectionNotInDefinition string
  | NilKey
  | NoRecordFile string
  | UnsupportedRecordType string string

datatype record_error =
    RecordNotFound
  | RecordExists string
  | NoTransportID
  | DuplicateListID string
  | DecodeBytes string
  | StoredComputed string string string
  | Coerce string
  | UnsupportedComputedType string

datatype reference_error =
    ForeignKeyElement string string
  | ForeignKeyMissing string string
  | ForeignKeyConfig string string
  | ForeignKeyViolation string string string
  | Referenced string string string string
  | Config string

datatype query_error =
    NotSupported string
  | UnsupportedExpr string
  | UnsupportedCond string
  | UnsupportedOperator string
  | UnsupportedAggregate string
  | InNeedsArray string
  | BadQuery string
  | RowRange int nat

datatype update_error =
    NotAMap string nat
  | UnsupportedTransform string
  | IncrementDelta
  | IncrementTarget string
  | Preconditions

datatype batch_error =
    BatchSyntax
  | MissingKeyField string
  | KeyFieldType string string
  | KeyFieldEmpty string
  | ColumnCount nat nat
  | KeyColumnMissing string
  | NoKeyColumn

datatype rooted_error =
    FilesClosed
  | LockExpired
  | MaxBytesExceeded
  | MaxBytesInvalid int
  | RootedPathForm string
  | RootedPathEscapes string
  | NotJSONObject
  | InvalidJSONL string nat
  | InterruptedTail string
  | NoProgress
  | ByteCount

datatype dberr =
    EWrap string dberr
  | EAt string nat dberr
  | ERollbackFailed dberr dberr
  | EPanic string
  | EExternal string
  | ECancelled
  | ENotExist
  | EExist
  | EEOF
  | EIO string
  | EMsg string "string list"
  | ELock string
  | EKey key_error
  | EDefn definition_error
  | ERec record_error
  | ERef reference_error
  | EQry query_error
  | EUpd update_error
  | EBat batch_error
  | ERoot rooted_error

abbreviation "ESegmentName a \<equiv> EKey (SegmentName a)"
abbreviation "EControlCharacter a \<equiv> EKey (ControlCharacter a)"
abbreviation "EReservedDevice a \<equiv> EKey (ReservedDevice a)"
abbreviation "EReservedEscape a \<equiv> EKey (ReservedEscape a)"
abbreviation "EPathEscapes a b \<equiv> EKey (PathEscapes a b)"
abbreviation "EKeyEmpty \<equiv> EKey KeyEmpty"
abbreviation "EKeyTooLong a \<equiv> EKey (KeyTooLong a)"
abbreviation "EKeyWhitespace a \<equiv> EKey (KeyWhitespace a)"
abbreviation "EKeySeparator a \<equiv> EKey (KeySeparator a)"
abbreviation "EKeyTraversal a \<equiv> EKey (KeyTraversal a)"
abbreviation "EInvalidID a \<equiv> EKey (InvalidID a)"
abbreviation "ECollectionNotFoundForID a \<equiv> EKey (CollectionNotFoundForID a)"
abbreviation "ENoRecordKey a \<equiv> EKey (NoRecordKey a)"
abbreviation "ENoDefinition \<equiv> EDefn NoDefinition"
abbreviation "ECollectionNotInDefinition a \<equiv> EDefn (CollectionNotInDefinition a)"
abbreviation "ENilKey \<equiv> EDefn NilKey"
abbreviation "ENoRecordFile a \<equiv> EDefn (NoRecordFile a)"
abbreviation "EUnsupportedRecordType a b \<equiv> EDefn (UnsupportedRecordType a b)"
abbreviation "ERecordNotFound \<equiv> ERec RecordNotFound"
abbreviation "ERecordExists a \<equiv> ERec (RecordExists a)"
abbreviation "ENoTransportID \<equiv> ERec NoTransportID"
abbreviation "EDuplicateListID a \<equiv> ERec (DuplicateListID a)"
abbreviation "EDecodeBytes a \<equiv> ERec (DecodeBytes a)"
abbreviation "EStoredComputed a b c \<equiv> ERec (StoredComputed a b c)"
abbreviation "ECoerce a \<equiv> ERec (Coerce a)"
abbreviation "EUnsupportedComputedType a \<equiv> ERec (UnsupportedComputedType a)"
abbreviation "EForeignKeyElement a b \<equiv> ERef (ForeignKeyElement a b)"
abbreviation "EForeignKeyMissing a b \<equiv> ERef (ForeignKeyMissing a b)"
abbreviation "EForeignKeyConfig a b \<equiv> ERef (ForeignKeyConfig a b)"
abbreviation "EForeignKeyViolation a b c \<equiv> ERef (ForeignKeyViolation a b c)"
abbreviation "EReferenced a b c d \<equiv> ERef (Referenced a b c d)"
abbreviation "EConfig a \<equiv> ERef (Config a)"
abbreviation "ENotSupported a \<equiv> EQry (NotSupported a)"
abbreviation "EUnsupportedExpr a \<equiv> EQry (UnsupportedExpr a)"
abbreviation "EUnsupportedCond a \<equiv> EQry (UnsupportedCond a)"
abbreviation "EUnsupportedOperator a \<equiv> EQry (UnsupportedOperator a)"
abbreviation "EUnsupportedAggregate a \<equiv> EQry (UnsupportedAggregate a)"
abbreviation "EInNeedsArray a \<equiv> EQry (InNeedsArray a)"
abbreviation "EBadQuery a \<equiv> EQry (BadQuery a)"
abbreviation "ERowRange a b \<equiv> EQry (RowRange a b)"
abbreviation "ENotAMap a b \<equiv> EUpd (NotAMap a b)"
abbreviation "EUnsupportedTransform a \<equiv> EUpd (UnsupportedTransform a)"
abbreviation "EIncrementDelta \<equiv> EUpd IncrementDelta"
abbreviation "EIncrementTarget a \<equiv> EUpd (IncrementTarget a)"
abbreviation "EPreconditions \<equiv> EUpd Preconditions"
abbreviation "EBatchSyntax \<equiv> EBat BatchSyntax"
abbreviation "EMissingKeyField a \<equiv> EBat (MissingKeyField a)"
abbreviation "EKeyFieldType a b \<equiv> EBat (KeyFieldType a b)"
abbreviation "EKeyFieldEmpty a \<equiv> EBat (KeyFieldEmpty a)"
abbreviation "EColumnCount a b \<equiv> EBat (ColumnCount a b)"
abbreviation "EKeyColumnMissing a \<equiv> EBat (KeyColumnMissing a)"
abbreviation "ENoKeyColumn \<equiv> EBat NoKeyColumn"

type_synonym 'a res = "dberr + 'a"

fun err_is :: "dberr \<Rightarrow> (dberr \<Rightarrow> bool) \<Rightarrow> bool" where
  "err_is (EWrap w e) p = (p (EWrap w e) \<or> err_is e p)"
| "err_is (EAt w n e) p = (p (EAt w n e) \<or> err_is e p)"
| "err_is e p = p e"

fun is_not_exist :: "dberr \<Rightarrow> bool" where
  "is_not_exist ENotExist = True"
| "is_not_exist _ = False"

fun is_exist :: "dberr \<Rightarrow> bool" where
  "is_exist EExist = True"
| "is_exist _ = False"

fun is_unknown_collection :: "dberr \<Rightarrow> bool" where
  "is_unknown_collection (ECollectionNotInDefinition _) = True"
| "is_unknown_collection _ = False"

fun is_record_not_found :: "dberr \<Rightarrow> bool" where
  "is_record_not_found ERecordNotFound = True"
| "is_record_not_found _ = False"

fun is_record_exists :: "dberr \<Rightarrow> bool" where
  "is_record_exists (ERecordExists _) = True"
| "is_record_exists _ = False"

end
