(* ===== verification/GoValues.thy ===== *)
theory GoValues
  imports GoFloat GoStrings GoSort Errors
begin

text \<open>
  The values a record field can hold (Go's \<open>any\<close>), how \<open>fmt\<close> prints them with \<open>%v\<close> and
  \<open>%T\<close>, and \<open>compareValues\<close> of \<open>query.go\<close>. The decimal rendering of floating-point
  numbers is the parameter \<open>ff\<close> (its first argument is \<open>False\<close> for \<open>float32\<close>).
\<close>

datatype int_kind =
    KInt | KInt8 | KInt16 | KInt32 | KInt64 | KUint | KUint8 | KUint16 | KUint32 | KUint64

text \<open>
  \<open>VList\<close> carries the Go type of the slice, \<open>VOther\<close> the type and the printed form of any
  other value (a \<open>time.Time\<close>, a struct).
\<close>

datatype val =
    VNil
  | VBool bool
  | VNum int_kind int
  | VFloat32 float64
  | VFloat64 float64
  | VStr string
  | VBytes string
  | VList string "val list"
  | VMap "(string \<times> val) list"
  | VOther string string

type_synonym row = "(string \<times> val) list"

type_synonym float_fmt = "bool \<Rightarrow> float64 \<Rightarrow> string"

function dec_pos :: "int \<Rightarrow> string" where
  "dec_pos n = (if n < 10 then [char_of (48 + n)] else dec_pos (n div 10) @ [char_of (48 + n mod 10)])"
  by pat_completeness auto
termination by (relation "measure nat") auto

declare dec_pos.simps [simp del]

definition dec_int :: "int \<Rightarrow> string" where
  "dec_int n = (if n < 0 then CHR ''-'' # dec_pos (- n) else dec_pos n)"

fun kind_name :: "int_kind \<Rightarrow> string" where
  "kind_name KInt = ''int''"
| "kind_name KInt8 = ''int8''"
| "kind_name KInt16 = ''int16''"
| "kind_name KInt32 = ''int32''"
| "kind_name KInt64 = ''int64''"
| "kind_name KUint = ''uint''"
| "kind_name KUint8 = ''uint8''"
| "kind_name KUint16 = ''uint16''"
| "kind_name KUint32 = ''uint32''"
| "kind_name KUint64 = ''uint64''"

text \<open>\<open>fmt.Sprintf("%T", v)\<close>.\<close>

fun fmt_T :: "val \<Rightarrow> string" where
  "fmt_T VNil = ''<nil>''"
| "fmt_T (VBool b) = ''bool''"
| "fmt_T (VNum k n) = kind_name k"
| "fmt_T (VFloat32 x) = ''float32''"
| "fmt_T (VFloat64 x) = ''float64''"
| "fmt_T (VStr s) = ''string''"
| "fmt_T (VBytes b) = ''[]uint8''"
| "fmt_T (VList t vs) = t"
| "fmt_T (VMap m) = ''map[string]interface {}''"
| "fmt_T (VOther t s) = t"

text \<open>\<open>fmt.Sprintf("%v", v)\<close>; maps are printed in key order.\<close>

fun fmt_v :: "float_fmt \<Rightarrow> val \<Rightarrow> string" where
  "fmt_v ff VNil = ''<nil>''"
| "fmt_v ff (VBool b) = (if b then ''true'' else ''false'')"
| "fmt_v ff (VNum k n) = dec_int n"
| "fmt_v ff (VFloat32 x) = ff False x"
| "fmt_v ff (VFloat64 x) = ff True x"
| "fmt_v ff (VStr s) = s"
| "fmt_v ff (VBytes b) =
     ''['' @ strings_Join (map (\<lambda>c. dec_int (of_char c)) b) '' '' @ '']''"
| "fmt_v ff (VList t vs) = ''['' @ strings_Join (map (\<lambda>v. fmt_v ff v) vs) '' '' @ '']''"
| "fmt_v ff (VMap m) =
     ''map['' @ strings_Join (map (\<lambda>kv. fst kv @ '':'' @ snd kv)
       (sort_key fst (map (\<lambda>kv. (fst kv, fmt_v ff (snd kv))) m))) '' '' @ '']''"
| "fmt_v ff (VOther t s) = s"

text \<open>\<open>toFloat64\<close> of \<open>query.go\<close> and \<open>toNumericFloat64\<close> of \<open>tx_readwrite.go\<close>.\<close>

fun toFloat64 :: "val \<Rightarrow> float64 option" where
  "toFloat64 (VNum k n) = Some (f64_of_int n)"
| "toFloat64 (VFloat32 x) = Some x"
| "toFloat64 (VFloat64 x) = Some x"
| "toFloat64 _ = None"

fun toNumericFloat64 :: "val \<Rightarrow> float64 option" where
  "toNumericFloat64 (VNum k n) = Some (f64_of_int n)"
| "toNumericFloat64 (VFloat32 x) = Some x"
| "toNumericFloat64 (VFloat64 x) = Some x"
| "toNumericFloat64 _ = None"

definition compareValues :: "float_fmt \<Rightarrow> val \<Rightarrow> val \<Rightarrow> int" where
  "compareValues ff a b =
     (case (toFloat64 a, toFloat64 b) of
        (Some x, Some y) \<Rightarrow> if f64_lt x y then - 1 else if f64_lt y x then 1 else 0
      | _ \<Rightarrow> strings_Compare (fmt_v ff a) (fmt_v ff b))"

lemma compareValues_strings [simp]:
  "compareValues ff (VStr a) (VStr b) = strings_Compare a b"
  by (simp add: compareValues_def)

lemma compareValues_range: "compareValues ff a b \<in> {- 1, 0, 1}"
  by (auto simp: compareValues_def strings_Compare_def split: option.splits)

lemma compareValues_refl [simp]: "compareValues ff a a = 0"
  by (auto simp: compareValues_def f64_lt_def strings_Compare_def split: option.splits)

text \<open>The comparison is antisymmetric in sign, whatever the operands.\<close>

lemma compareValues_flip: "compareValues ff b a = - compareValues ff a b"
  by (auto simp: compareValues_def strings_Compare_def f64_lt_def split: option.splits)

lemma compareValues_ints:
  assumes "\<bar>i\<bar> < 2 ^ 53" and "\<bar>j\<bar> < 2 ^ 53"
  shows "compareValues ff (VNum k i) (VNum l j) = (if i < j then - 1 else if j < i then 1 else 0)"
  using assms by (simp add: compareValues_def f64_of_int_exact f64_lt_def)

text \<open>
  On a column whose values are all numbers other than NaN, or all something other than
  numbers, the comparison is a total preorder: it comes from a rank.
\<close>

definition numeric :: "val \<Rightarrow> bool" where
  "numeric v \<longleftrightarrow> (case toFloat64 v of None \<Rightarrow> False | Some x \<Rightarrow> x \<noteq> FNaN)"

definition comparable :: "val set \<Rightarrow> bool" where
  "comparable V \<longleftrightarrow> (\<forall>v \<in> V. numeric v) \<or> (\<forall>v \<in> V. toFloat64 v = None)"

lemma compareValues_negtrans:
  assumes "comparable {a, b, c}" and "\<not> compareValues ff a b < 0" and "\<not> compareValues ff b c < 0"
  shows "\<not> compareValues ff a c < 0"
proof (cases "toFloat64 b")
  case None
  with assms(1) have "toFloat64 a = None" "toFloat64 c = None"
    by (auto simp: comparable_def numeric_def)
  with None assms(2,3) show ?thesis by (auto simp: compareValues_def)
next
  case (Some y)
  with assms(1) obtain x z where "toFloat64 a = Some x" "toFloat64 c = Some z" "y \<noteq> FNaN"
    by (auto simp: comparable_def numeric_def split: option.splits)
  with Some assms(2,3) f64_lt_negtrans [of y x z] show ?thesis
    by (auto simp: compareValues_def split: if_splits)
qed

end
