(* ===== verification/Schema.thy ===== *)
theory Schema
  imports GoValues
begin

text \<open>
  Collection definitions, the functions of other packages the adapter calls, the
  deterministic column order of \<open>computed_columns.go\<close> and the evaluation and
  coercion of computed columns of \<open>formula.go\<close>.

  The definition types belong to the package \<open>ingitdb\<close>: the datatypes hold the fields
  the adapter reads. The functions of that package, and those of \<open>dal-go/record\<close> and
  \<open>dalgo/condeval\<close>, are the fields of the record \<open>api\<close>, an argument of every
  definition that calls one of them. \<open>DataToMapShares\<close> says whether the map that
  \<open>record.DataToMap\<close> returns is the caller's own map, so that a change of the one is a
  change of the other.
\<close>

section \<open>Collection definitions\<close>

datatype record_type = SingleRecord | MapOfRecords | ListOfRecords | OtherRecordType string

datatype record_format = RecordFormatYAML | RecordFormatCSV | OtherRecordFormat string

record recfile =
  rfName :: string
  rfRecordType :: record_type
  rfFormat :: record_format
  rfCSVCellEncoding :: string

datatype column_type =
    ColumnTypeString | ColumnTypeInt | ColumnTypeFloat | ColumnTypeBool | ColumnTypeAny
  | ColumnTypeDate | ColumnTypeTime | ColumnTypeDateTime | ColumnTypeL10N
  | OtherColumnType string

record column =
  cType :: column_type
  cRequired :: bool
  cForeignKey :: string
  cFormula :: string

record source_field =
  sfName :: string
  sfType :: string
  sfNullable :: bool
  sfAutoIncrement :: bool
  sfLength :: "int option"
  sfPrecision :: int
  sfScale :: int
  sfEncoding :: string
  sfDefaultKind :: string
  sfDefaultType :: string
  sfDefaultJSON :: string

record source_index =
  siName :: string
  siFields :: "string list"
  siUnique :: bool

record source_fkey =
  skName :: string
  skFields :: "string list"
  skReferencedCollection :: string
  skReferencedNamespace :: string
  skReferencedFields :: "string list"
  skSourceEnforcement :: string
  skOnUpdate :: string
  skOnDelete :: string

record source_schema =
  ssKeyMode :: string
  ssFields :: "source_field list"
  ssIndexes :: "source_index list"
  ssForeignKeys :: "source_fkey list"
  ssSourceDefinitionJSON :: string
  ssSourceRightsJSON :: string

text \<open>A column of the map may be a nil pointer, hence the option.\<close>

datatype coldef = CollectionDef
  (cdID: string)
  (cdDirPath: string)
  (cdRecordFile: "recfile option")
  (cdColumns: "(string \<times> column option) list")
  (cdColumnsOrder: "string list")
  (cdSubCollections: "(string \<times> coldef) list")
  (cdSourceSchema: "source_schema option")
  (cdPrimaryKey: "string list")

type_synonym collections = "(string \<times> coldef) list"

text \<open>\<open>scoped := *target; scoped.DirPath = dir\<close>.\<close>

fun with_DirPath :: "string \<Rightarrow> coldef \<Rightarrow> coldef" where
  "with_DirPath dir (CollectionDef i d rf cols ord subs src pk) =
     CollectionDef i dir rf cols ord subs src pk"

lemma with_DirPath_simps [simp]:
  "cdID (with_DirPath dir cd) = cdID cd"
  "cdDirPath (with_DirPath dir cd) = dir"
  "cdRecordFile (with_DirPath dir cd) = cdRecordFile cd"
  "cdColumns (with_DirPath dir cd) = cdColumns cd"
  "cdColumnsOrder (with_DirPath dir cd) = cdColumnsOrder cd"
  "cdSubCollections (with_DirPath dir cd) = cdSubCollections cd"
  "cdSourceSchema (with_DirPath dir cd) = cdSourceSchema cd"
  "cdPrimaryKey (with_DirPath dir cd) = cdPrimaryKey cd"
  by (cases cd; simp)+

section \<open>Functions of other packages\<close>

record api =
  GOOS :: string
  FmtFloat :: float_fmt
  Int64OutOfRange :: "float64 \<Rightarrow> int"
  \<comment> \<open>package \<open>ingitdb\<close>\<close>
  RecordsBasePath :: "recfile \<Rightarrow> string"
  IsExcluded :: "recfile \<Rightarrow> string \<Rightarrow> bool"
  ParseRecordContentForCollection :: "string \<Rightarrow> coldef \<Rightarrow> row res"
  EncodeRecordContentForCollection :: "row \<Rightarrow> coldef \<Rightarrow> string res"
  ParseMapOfRecordsContent :: "string \<Rightarrow> record_format \<Rightarrow> row go_map res"
  EncodeMapOfRecordsContent ::
    "row go_map \<Rightarrow> record_format \<Rightarrow> string \<Rightarrow> string list \<Rightarrow> string res"
  ParseListOfRecordsContent :: "string \<Rightarrow> record_format \<Rightarrow> row list res"
  ResolveListRecordKey :: "row \<Rightarrow> coldef \<Rightarrow> string option"
  ApplyLocaleToRead :: "row \<Rightarrow> column option go_map \<Rightarrow> row"
  ApplyLocaleToWrite :: "row \<Rightarrow> column option go_map \<Rightarrow> row"
  EvaluateFormula :: "string \<Rightarrow> row \<Rightarrow> val res"
  ForeignKeyElements :: "val \<Rightarrow> string list \<times> string list"
  ValidateCollectionID :: "string \<Rightarrow> unit res"
  \<comment> \<open>packages \<open>dal-go/record\<close>, \<open>dalgo/dal\<close> and \<open>dalgo/condeval\<close>\<close>
  DataToMap :: "val \<Rightarrow> row res"
  DataToMapShares :: "val \<Rightarrow> bool"
  MapToData :: "val \<Rightarrow> row \<Rightarrow> val res"
  IsNullValue :: "val \<Rightarrow> bool"

section \<open>Ordered columns\<close>

definition named_in_order :: "coldef \<Rightarrow> (column \<Rightarrow> bool) \<Rightarrow> string list" where
  "named_in_order cd pred =
     filter (\<lambda>f. case go_get (cdColumns cd) f of Some (Some c) \<Rightarrow> pred c | _ \<Rightarrow> False)
       (cdColumnsOrder cd)"

definition orderedColumns :: "coldef option \<Rightarrow> (column \<Rightarrow> bool) \<Rightarrow> string list" where
  "orderedColumns colDef pred =
     (case colDef of
        None \<Rightarrow> []
      | Some cd \<Rightarrow>
          if cdColumns cd = [] then []
          else let fields = named_in_order cd pred;
                   remaining = map fst (filter (\<lambda>(field, column).
                     field \<notin> set fields \<and> (case column of None \<Rightarrow> False | Some c \<Rightarrow> pred c))
                     (cdColumns cd))
               in fields @ sort_Strings remaining)"

definition orderedComputedColumns :: "coldef option \<Rightarrow> string list" where
  "orderedComputedColumns colDef = orderedColumns colDef (\<lambda>c. cFormula c \<noteq> [])"

lemma named_in_order_iff:
  "f \<in> set (named_in_order cd pred) \<longleftrightarrow>
     f \<in> set (cdColumnsOrder cd) \<and> (\<exists>c. go_get (cdColumns cd) f = Some (Some c) \<and> pred c)"
  by (auto simp: named_in_order_def split: option.splits)

text \<open>Exactly the columns that satisfy the predicate are listed.\<close>

lemma orderedColumns_iff:
  assumes "wf_map (cdColumns cd)"
  shows "f \<in> set (orderedColumns (Some cd) pred) \<longleftrightarrow>
           (\<exists>c. go_get (cdColumns cd) f = Some (Some c) \<and> pred c)"
proof -
  have "(f, Some c) \<in> set (cdColumns cd) \<longleftrightarrow> go_get (cdColumns cd) f = Some (Some c)" for c
    using assms by (simp add: go_get_mem)
  then show ?thesis
    by (auto simp: orderedColumns_def Let_def named_in_order_iff image_iff split: option.splits)
qed

text \<open>
  The order is a function of the map and of \<open>ColumnsOrder\<close>: it does not depend on the
  order the runtime visits the map in.
\<close>

lemma orderedColumns_cong:
  assumes "wf_map (cdColumns a)" and "wf_map (cdColumns b)"
    and "go_get (cdColumns a) = go_get (cdColumns b)" and "cdColumnsOrder a = cdColumnsOrder b"
  shows "orderedColumns (Some a) pred = orderedColumns (Some b) pred"
proof -
  have named: "named_in_order a pred = named_in_order b pred"
    using assms by (simp add: named_in_order_def)
  have same: "set (cdColumns a) = set (cdColumns b)"
    using assms(1-3) go_get_mem by (metis (no_types, opaque_lifting) subrelI subset_antisym)
  have nil: "cdColumns a = [] \<longleftrightarrow> cdColumns b = []"
    using same by (metis set_empty)
  have "distinct (cdColumns a)" "distinct (cdColumns b)"
    using assms(1,2) by (simp_all add: wf_map_def distinct_map)
  then have "mset (cdColumns a) = mset (cdColumns b)"
    using same by (simp add: set_eq_iff_mset_eq_distinct)
  then have "mset (map fst (filter p (cdColumns a))) = mset (map fst (filter p (cdColumns b)))" for p
    by (metis mset_filter mset_map)
  with named nil show ?thesis
    by (auto simp: orderedColumns_def Let_def intro!: sort_Strings_cong)
qed

lemma orderedColumns_distinct:
  assumes "wf_map (cdColumns cd)" and "distinct (cdColumnsOrder cd)"
  shows "distinct (orderedColumns (Some cd) pred)"
proof -
  let ?rest = "\<lambda>fields. map fst (filter (\<lambda>(field, column).
    field \<notin> set fields \<and> (case column of None \<Rightarrow> False | Some c \<Rightarrow> pred c)) (cdColumns cd))"
  have "distinct (?rest fields)" for fields
    using assms(1) by (simp add: wf_map_def distinct_map inj_on_def Ball_def) blast
  moreover have "distinct (named_in_order cd pred)"
    using assms(2) by (simp add: named_in_order_def)
  ultimately show ?thesis
    by (auto simp: orderedColumns_def Let_def)
qed

section \<open>Computed columns\<close>

fun type_name :: "column_type \<Rightarrow> string" where
  "type_name ColumnTypeDate = ''date''"
| "type_name ColumnTypeTime = ''time''"
| "type_name ColumnTypeDateTime = ''datetime''"
| "type_name (OtherColumnType n) = n"
| "type_name _ = []"

definition coerceFormulaResult :: "api \<Rightarrow> val \<Rightarrow> column_type \<Rightarrow> val res" where
  "coerceFormulaResult A v t =
     (case t of
        ColumnTypeString \<Rightarrow>
          (case v of VStr s \<Rightarrow> Inr (VStr s) | _ \<Rightarrow> Inl (ECoerce (fmt_T v @ '' to string'')))
      | ColumnTypeInt \<Rightarrow>
          (case v of
             VNum KInt64 n \<Rightarrow> Inr (VNum KInt64 n)
           | VFloat64 x \<Rightarrow>
               (let i = f64_to_int64 (Int64OutOfRange A) x in
                if f64_eq (f64_of_int i) x then Inr (VNum KInt64 i)
                else Inl (ECoerce (''non-integral float '' @ FmtFloat A True x @ '' to int'')))
           | _ \<Rightarrow> Inl (ECoerce (fmt_T v @ '' to int'')))
      | ColumnTypeFloat \<Rightarrow>
          (case v of
             VFloat64 x \<Rightarrow> Inr (VFloat64 x)
           | VNum KInt64 n \<Rightarrow> Inr (VFloat64 (f64_of_int n))
           | _ \<Rightarrow> Inl (ECoerce (fmt_T v @ '' to float'')))
      | ColumnTypeBool \<Rightarrow>
          (case v of VBool b \<Rightarrow> Inr (VBool b) | _ \<Rightarrow> Inl (ECoerce (fmt_T v @ '' to bool'')))
      | ColumnTypeAny \<Rightarrow> Inr v
      | _ \<Rightarrow> Inl (EUnsupportedComputedType (type_name t)))"

definition at_column :: "string \<Rightarrow> string \<Rightarrow> string \<Rightarrow> dberr \<Rightarrow> dberr" where
  "at_column collectionID recordKey colName e =
     EWrap (''collection '' @ collectionID @ '' record '' @ recordKey @ '' column '' @ colName) e"

definition map_err :: "(dberr \<Rightarrow> dberr) \<Rightarrow> 'a res \<Rightarrow> 'a res" where
  "map_err w r = (case r of Inl e \<Rightarrow> Inl (w e) | Inr x \<Rightarrow> Inr x)"

lemma map_err_simps [simp]:
  "map_err w (Inr x) = Inr x" "map_err w (Inl e) = Inl (w e)"
  by (simp_all add: map_err_def)

lemma map_err_eq_Inr [res_simps]: "map_err w r = Inr x \<longleftrightarrow> r = Inr x"
  by (cases r) auto

text \<open>
  The loop of \<open>ApplyFormulasToRead\<close>: every formula is evaluated on the stored fields
  \<open>data\<close>, never on values computed before it. Reading the formula of a nil column
  panics.
\<close>

definition compute_column ::
  "api \<Rightarrow> column option go_map \<Rightarrow> string \<Rightarrow> string \<Rightarrow> row \<Rightarrow> string \<Rightarrow> val res" where
  "compute_column A cols collectionID recordKey data colName =
     (case go_get cols colName of
        Some (Some c) \<Rightarrow>
          map_err (at_column collectionID recordKey colName)
            (rbind (EvaluateFormula A (cFormula c) data)
               (\<lambda>raw. coerceFormulaResult A raw (cType c)))
      | _ \<Rightarrow> Inl (EPanic ''nil column definition''))"

fun compute_loop ::
  "api \<Rightarrow> column option go_map \<Rightarrow> string \<Rightarrow> string \<Rightarrow> row \<Rightarrow> string list \<Rightarrow> row \<Rightarrow> row res" where
  "compute_loop A cols cid key data [] result = Inr result"
| "compute_loop A cols cid key data (n # ns) result =
     rbind (compute_column A cols cid key data n)
       (\<lambda>v. compute_loop A cols cid key data ns (go_set n v result))"

definition computedNames :: "column option go_map \<Rightarrow> string list" where
  "computedNames cols =
     map fst (filter (\<lambda>(n, c). case c of None \<Rightarrow> False | Some c \<Rightarrow> cFormula c \<noteq> []) cols)"

definition ApplyFormulasToRead ::
  "api \<Rightarrow> row \<Rightarrow> column option go_map \<Rightarrow> string \<Rightarrow> string \<Rightarrow> row res" where
  "ApplyFormulasToRead A data cols collectionID recordKey =
     (if None \<in> snd ` set cols then Inl (EPanic ''nil column definition'')
      else if computedNames cols = [] then Inr data
      else compute_loop A cols collectionID recordKey data
             (sort_Strings (computedNames cols)) data)"

lemma set_computedNames:
  "wf_map cols \<Longrightarrow>
     n \<in> set (computedNames cols) \<longleftrightarrow> (\<exists>c. go_get cols n = Some (Some c) \<and> cFormula c \<noteq> [])"
  by (auto simp: computedNames_def go_get_mem image_iff split: option.splits)

lemma compute_loop_get:
  assumes "compute_loop A cols cid key data ns result = Inr out"
  shows "if n \<in> set ns then (\<exists>v. compute_column A cols cid key data n = Inr v \<and> go_get out n = Some v)
         else go_get out n = go_get result n"
  using assms
proof (induction ns arbitrary: result)
  case Nil
  then show ?case by simp
next
  case (Cons m ns)
  then obtain v where v: "compute_column A cols cid key data m = Inr v"
    and rest: "compute_loop A cols cid key data ns (go_set m v result) = Inr out"
    by (auto simp: res_simps)
  from Cons.IH [OF rest] v show ?case by (auto simp: go_get_set split: if_splits)
qed

text \<open>
  What a read returns: a stored field keeps its value and a computed column carries its
  formula's value on the stored fields, coerced to the declared type.
\<close>

lemma ApplyFormulasToRead_get:
  assumes "wf_map cols" and "ApplyFormulasToRead A data cols cid key = Inr out"
  shows "go_get out n =
           (case go_get cols n of
              Some (Some c) \<Rightarrow>
                if cFormula c \<noteq> []
                then (case rbind (EvaluateFormula A (cFormula c) data)
                             (\<lambda>raw. coerceFormulaResult A raw (cType c)) of
                        Inr v \<Rightarrow> Some v | Inl e \<Rightarrow> None)
                else go_get data n
            | _ \<Rightarrow> go_get data n)"
proof (cases "computedNames cols = []")
  case True
  with assms show ?thesis
    using set_computedNames [OF assms(1), of n]
    by (auto simp: ApplyFormulasToRead_def split: if_splits option.splits)
next
  case False
  with assms(2) have loop: "compute_loop A cols cid key data
      (sort_Strings (computedNames cols)) data = Inr out"
    by (auto simp: ApplyFormulasToRead_def split: if_splits)
  from compute_loop_get [OF loop, of n] set_computedNames [OF assms(1), of n] show ?thesis
    by (auto simp: compute_column_def res_simps split: option.splits if_splits sum.splits)
qed

text \<open>The types a computed value can have after coercion.\<close>

definition has_type :: "column_type \<Rightarrow> val \<Rightarrow> bool" where
  "has_type t v =
     (case t of
        ColumnTypeString \<Rightarrow> (case v of VStr s \<Rightarrow> True | _ \<Rightarrow> False)
      | ColumnTypeInt \<Rightarrow> (case v of VNum k n \<Rightarrow> k = KInt64 | _ \<Rightarrow> False)
      | ColumnTypeFloat \<Rightarrow> (case v of VFloat64 x \<Rightarrow> True | _ \<Rightarrow> False)
      | ColumnTypeBool \<Rightarrow> (case v of VBool b \<Rightarrow> True | _ \<Rightarrow> False)
      | ColumnTypeAny \<Rightarrow> True
      | _ \<Rightarrow> False)"

lemma coerce_has_type: "coerceFormulaResult A v t = Inr w \<Longrightarrow> has_type t w"
  by (auto simp: coerceFormulaResult_def has_type_def Let_def
        split: column_type.splits val.splits int_kind.splits if_splits)

lemma coerce_idem:
  "coerceFormulaResult A v t = Inr w \<Longrightarrow> coerceFormulaResult A w t = Inr w"
  by (auto simp: coerceFormulaResult_def Let_def
        split: column_type.splits val.splits int_kind.splits if_splits)

section \<open>Rejecting stored values of computed columns\<close>

definition validateNoStoredComputedValues ::
  "string \<Rightarrow> coldef \<Rightarrow> string \<Rightarrow> row \<Rightarrow> unit res" where
  "validateNoStoredComputedValues collectionID colDef recordKey data =
     rcheck (\<lambda>field.
       if go_get data field \<noteq> None then Inl (EStoredComputed collectionID recordKey field)
       else Inr ()) (orderedComputedColumns (Some colDef))"

lemma validateNoStoredComputedValues_ok:
  assumes "wf_map (cdColumns cd)"
  shows "validateNoStoredComputedValues cid cd key data = Inr u \<longleftrightarrow>
           (\<forall>f c. go_get (cdColumns cd) f = Some (Some c) \<longrightarrow> cFormula c \<noteq> [] \<longrightarrow>
              go_get data f = None)"
  using orderedColumns_iff [OF assms]
  by (auto simp: validateNoStoredComputedValues_def orderedComputedColumns_def rcheck_eq_Inr)

end
