(* ===== verification/GoPaths.thy ===== *)
theory GoPaths
  imports GoStrings
begin

text \<open>
  Lexical path processing: \<open>Clean\<close>, \<open>Join\<close>, \<open>Rel\<close>, \<open>IsLocal\<close>, \<open>Base\<close>, \<open>Ext\<close> and \<open>Dir\<close> of Go's
  \<open>path\<close> and (on Unix) \<open>path/filepath\<close>. A path is read as a root flag and its cleaned
  segments (\<open>csegs\<close>); the lemmas say how \<open>Clean\<close> and \<open>Join\<close> act on segments and that a
  cleaned path determines its segments. \<open>strictly_inside\<close> is the containment the
  adapter promises for every record path.
\<close>

abbreviation slash :: char where
  "slash \<equiv> CHR ''/''"

fun rooted :: "string \<Rightarrow> bool" where
  "rooted [] = False"
| "rooted (c # p) = (c = slash)"

text \<open>A segment that names a file or directory of its own.\<close>

definition plain_seg :: "string \<Rightarrow> bool" where
  "plain_seg s \<longleftrightarrow> s \<noteq> [] \<and> s \<noteq> ''.'' \<and> s \<noteq> ''..'' \<and> slash \<notin> set s"

text \<open>The output stack of \<open>path.Clean\<close>: the segments kept so far, last one first.\<close>

fun clean_step :: "bool \<Rightarrow> string list \<Rightarrow> string \<Rightarrow> string list" where
  "clean_step r acc s =
     (if s = [] \<or> s = ''.'' then acc
      else if s = ''..'' then
        (case acc of
           [] \<Rightarrow> (if r then [] else [''..''])
         | a # as \<Rightarrow> (if a = ''..'' then ''..'' # acc else as))
      else s # acc)"

definition clean_stack :: "bool \<Rightarrow> string list \<Rightarrow> string list \<Rightarrow> string list" where
  "clean_stack r acc ss = foldl (clean_step r) acc ss"

definition csegs :: "string \<Rightarrow> string list" where
  "csegs p = rev (clean_stack (rooted p) [] (strings_Split slash p))"

definition render :: "bool \<Rightarrow> string list \<Rightarrow> string" where
  "render r ss = (if r then slash # strings_Join ss [slash]
                  else if ss = [] then ''.'' else strings_Join ss [slash])"

definition path_Clean :: "string \<Rightarrow> string" where
  "path_Clean p = render (rooted p) (csegs p)"

fun filepath_Join :: "string list \<Rightarrow> string" where
  "filepath_Join [] = []"
| "filepath_Join (e # es) =
     (if e = [] then filepath_Join es else path_Clean (strings_Join (e # es) [slash]))"

fun strip_common :: "'a list \<Rightarrow> 'a list \<Rightarrow> 'a list \<times> 'a list" where
  "strip_common (x # xs) (y # ys) = (if x = y then strip_common xs ys else (x # xs, y # ys))"
| "strip_common xs ys = (xs, ys)"

text \<open>\<open>filepath.Rel\<close>; \<open>None\<close> is its error.\<close>

definition filepath_Rel :: "string \<Rightarrow> string \<Rightarrow> string option" where
  "filepath_Rel base targ =
     (let b = path_Clean base; t = path_Clean targ in
      if t = b then Some ''.''
      else if rooted b \<noteq> rooted t then None
      else case strip_common (csegs b) (csegs t) of
             (br, tr) \<Rightarrow>
               if br \<noteq> [] \<and> hd br = ''..'' then None
               else Some (strings_Join (replicate (length br) ''..'' @ tr) [slash]))"

definition filepath_IsLocal :: "string \<Rightarrow> bool" where
  "filepath_IsLocal p \<longleftrightarrow>
     p \<noteq> [] \<and> \<not> rooted p \<and>
     (let q = path_Clean p in q \<noteq> ''..'' \<and> \<not> strings_HasPrefix q ''../'')"

definition path_Base :: "string \<Rightarrow> string" where
  "path_Base p =
     (if p = [] then ''.''
      else let q = rev (dropWhile (\<lambda>c. c = slash) (rev p)) in
        if q = [] then [slash] else last (strings_Split slash q))"

definition path_Ext :: "string \<Rightarrow> string" where
  "path_Ext p =
     (let w = last (strings_Split slash p) in
      if CHR ''.'' \<in> set w then CHR ''.'' # rev (takeWhile (\<lambda>c. c \<noteq> CHR ''.'') (rev w)) else [])"

definition path_Dir :: "string \<Rightarrow> string" where
  "path_Dir p = path_Clean (strings_Join (butlast (strings_Split slash p) @ [[]]) [slash])"

definition strictly_inside :: "string \<Rightarrow> string \<Rightarrow> bool" where
  "strictly_inside d p \<longleftrightarrow>
     rooted (path_Clean p) = rooted (path_Clean d) \<and> prefix (csegs d) (csegs p) \<and>
     length (csegs d) < length (csegs p) \<and> list_all plain_seg (drop (length (csegs d)) (csegs p))"

section \<open>Clean stacks\<close>

text \<open>
  The shape of a cleaned path: some number of \<open>..\<close> segments (none when rooted), then
  plain segments. \<open>ok_stack\<close> is that shape, last segment first.
\<close>

fun ok_stack :: "bool \<Rightarrow> string list \<Rightarrow> bool" where
  "ok_stack r [] = True"
| "ok_stack r (s # ss) =
     (if s = ''..'' then \<not> r \<and> (\<forall>x \<in> set ss. x = ''..'') else plain_seg s \<and> ok_stack r ss)"

lemma plain_seg_simps [simp]:
  "\<not> plain_seg []" "\<not> plain_seg ''.''" "\<not> plain_seg ''..''"
  by (auto simp: plain_seg_def)

lemma plain_segD: "plain_seg s \<Longrightarrow> s \<noteq> [] \<and> s \<noteq> ''.'' \<and> s \<noteq> ''..'' \<and> slash \<notin> set s"
  by (simp add: plain_seg_def)

lemma ok_stack_ups: "\<forall>x \<in> set ss. x = ''..'' \<Longrightarrow> \<not> r \<Longrightarrow> ok_stack r ss"
  by (induction ss) auto

lemma ok_stack_step:
  assumes "ok_stack r acc" and "slash \<notin> set s"
  shows "ok_stack r (clean_step r acc s)"
proof (cases acc)
  case Nil
  with assms show ?thesis by (auto simp: plain_seg_def)
next
  case (Cons a as)
  with assms show ?thesis by (auto simp: plain_seg_def intro: ok_stack_ups)
qed

lemma ok_stack_clean_stack:
  "ok_stack r acc \<Longrightarrow> \<forall>s \<in> set ss. slash \<notin> set s \<Longrightarrow> ok_stack r (clean_stack r acc ss)"
proof (induction ss arbitrary: acc)
  case Nil
  then show ?case by (simp add: clean_stack_def)
next
  case (Cons s ss)
  then have "ok_stack r (clean_step r acc s)" by (intro ok_stack_step) auto
  with Cons show ?case by (simp add: clean_stack_def del: clean_step.simps)
qed

lemma clean_stack_append: "clean_stack r acc (xs @ ys) = clean_stack r (clean_stack r acc xs) ys"
  by (simp add: clean_stack_def)

lemma clean_stack_plain: "list_all plain_seg ss \<Longrightarrow> clean_stack r acc ss = rev ss @ acc"
  by (induction ss arbitrary: acc) (auto simp: clean_stack_def plain_seg_def)

lemma clean_stack_blank [simp]: "clean_stack r acc [[]] = acc" "clean_stack r acc [] = acc"
  "clean_stack r acc ([] # ss) = clean_stack r acc ss"
  by (simp_all add: clean_stack_def)

lemma ok_stack_fixed: "ok_stack r st \<Longrightarrow> clean_stack r [] (rev st) = st"
proof (induction st)
  case Nil
  then show ?case by simp
next
  case (Cons s ss)
  then have "ok_stack r ss" by (auto split: if_splits intro: ok_stack_ups)
  with Cons.IH have "clean_stack r [] (rev (s # ss)) = clean_step r ss s"
    by (simp add: clean_stack_append) (simp add: clean_stack_def)
  also have "\<dots> = s # ss"
    using Cons.prems by (cases ss) (auto simp: plain_seg_def split: if_splits)
  finally show ?case .
qed

lemma ok_stack_no_slash: "ok_stack r st \<Longrightarrow> s \<in> set st \<Longrightarrow> s \<noteq> [] \<and> s \<noteq> ''.'' \<and> slash \<notin> set s"
proof (induction st)
  case Nil
  then show ?case by simp
next
  case (Cons a st)
  show ?case
  proof (cases "a = ''..''")
    case True
    with Cons.prems have "s = ''..''" by auto
    then show ?thesis by simp
  next
    case False
    with Cons show ?thesis by (auto simp: plain_seg_def)
  qed
qed

lemma csegs_ok: "ok_stack (rooted p) (rev (csegs p))"
  unfolding csegs_def rev_rev_ident
  by (rule ok_stack_clean_stack) (simp, metis Split_parts_no_sep)

lemma csegs_parts: "s \<in> set (csegs p) \<Longrightarrow> s \<noteq> [] \<and> s \<noteq> ''.'' \<and> slash \<notin> set s"
  using ok_stack_no_slash [OF csegs_ok, of s p] by simp

text \<open>After a plain segment a cleaned path never climbs again.\<close>

lemma ok_stack_suffix_plain:
  "ok_stack r (rev ts @ us) \<Longrightarrow> ts \<noteq> [] \<Longrightarrow> hd ts \<noteq> ''..'' \<Longrightarrow> list_all plain_seg ts"
proof (induction ts rule: rev_induct)
  case Nil
  then show ?case by simp
next
  case (snoc t ts)
  show ?case
  proof (cases ts)
    case Nil
    with snoc show ?thesis by (auto split: if_splits)
  next
    case (Cons a as)
    with snoc.prems have "t \<noteq> ''..''" by (auto split: if_splits)
    with snoc Cons show ?thesis by auto
  qed
qed

section \<open>Rendering and cleaning\<close>

lemma rooted_Join: "ws \<noteq> [] \<Longrightarrow> hd ws \<noteq> [] \<Longrightarrow> rooted (strings_Join ws sep) = rooted (hd ws)"
  by (induction ws sep rule: strings_Join.induct) (auto simp: neq_Nil_conv)

lemma Split_slash_cons: "strings_Split slash (slash # p) = [] # strings_Split slash p"
  by simp

lemma csegs_render [path_simps]:
  assumes "ok_stack r (rev ss)"
  shows "csegs (render r ss) = ss" and "rooted (render r ss) = r"
proof -
  have parts: "s \<noteq> []" "slash \<notin> set s" if "s \<in> set ss" for s
    using ok_stack_no_slash [OF assms, of s] that by auto
  have join: "strings_Split slash (strings_Join ss [slash]) = ss" if "ss \<noteq> []"
    using that parts by (intro Split_Join) auto
  have root: "\<not> rooted (strings_Join ss [slash])" if "ss \<noteq> []"
    using that parts [of "hd ss"] rooted_Join [of ss "[slash]"] hd_in_set [OF that]
    by (cases "hd ss") auto
  show "rooted (render r ss) = r"
    using root by (auto simp: render_def)
  then show "csegs (render r ss) = ss"
    using join ok_stack_fixed [OF assms]
    by (cases "ss = []") (auto simp: csegs_def render_def clean_stack_def [of False "[]" "[''.'']"])
qed

lemma csegs_Clean [simp, path_simps]: "csegs (path_Clean p) = csegs p"
  and rooted_Clean [simp, path_simps]: "rooted (path_Clean p) = rooted p"
  by (simp_all add: path_Clean_def csegs_render csegs_ok)

lemma Clean_idem [simp, path_simps]: "path_Clean (path_Clean p) = path_Clean p"
  by (simp add: path_Clean_def [of "path_Clean p"]) (simp add: path_Clean_def)

lemma Clean_eq_iff: "path_Clean p = path_Clean q \<longleftrightarrow> rooted p = rooted q \<and> csegs p = csegs q"
proof
  assume eq: "path_Clean p = path_Clean q"
  show "rooted p = rooted q \<and> csegs p = csegs q"
    using arg_cong [OF eq, of rooted] arg_cong [OF eq, of csegs] by simp
qed (simp add: path_Clean_def)

lemma Join_eq_Nil: "strings_Join ws sep = [] \<Longrightarrow> ws \<noteq> [] \<Longrightarrow> hd ws = []"
  by (induction ws sep rule: strings_Join.induct) auto

lemma Clean_not_empty [simp]: "path_Clean p \<noteq> []"
proof
  assume "path_Clean p = []"
  then have ss: "csegs p \<noteq> []" "strings_Join (csegs p) [slash] = []"
    by (auto simp: path_Clean_def render_def split: if_splits)
  then have "hd (csegs p) = []" by (intro Join_eq_Nil)
  with hd_in_set [OF ss(1)] csegs_parts [of "hd (csegs p)" p] show False by simp
qed

lemma csegs_append:
  "p \<noteq> [] \<Longrightarrow> csegs (p @ slash # q) = rev (clean_stack (rooted p) (rev (csegs p)) (strings_Split slash q))"
proof -
  assume "p \<noteq> []"
  then have r: "rooted (p @ slash # q) = rooted p" by (cases p) auto
  have "strings_Split slash (p @ slash # q) = strings_Split slash p @ strings_Split slash q"
  proof (induction p)
    case Nil
    then show ?case by simp
  next
    case (Cons c p)
    then show ?case by (auto split: list.splits simp: neq_Nil_conv append_eq_Cons_conv)
  qed
  with r show ?thesis by (simp add: csegs_def clean_stack_append)
qed

lemma rooted_append: "p \<noteq> [] \<Longrightarrow> rooted (p @ q) = rooted p"
  by (cases p) auto

text \<open>Joining plain segments to a directory appends them to its cleaned segments.\<close>

lemma Split_app: "strings_Split slash (a @ slash # b) = strings_Split slash a @ strings_Split slash b"
  by (induction a) (auto split: list.splits)

lemma Split_Join_concat:
  "ws \<noteq> [] \<Longrightarrow> strings_Split slash (strings_Join ws [slash]) = concat (map (strings_Split slash) ws)"
proof (induction ws "[slash]" rule: strings_Join.induct)
  case (3 w v ws)
  then show ?case by (simp add: Split_app)
qed auto

lemma filepath_Join_segs:
  assumes "d \<noteq> []"
  shows "csegs (filepath_Join (d # es)) =
      rev (clean_stack (rooted d) (rev (csegs d)) (concat (map (strings_Split slash) es)))"
    and "rooted (filepath_Join (d # es)) = rooted d"
proof -
  have r: "rooted (strings_Join (d # es) [slash]) = rooted d"
    using assms by (simp add: rooted_Join)
  then show "rooted (filepath_Join (d # es)) = rooted d" using assms by simp
  have "csegs (filepath_Join (d # es)) = csegs (strings_Join (d # es) [slash])"
    using assms by simp
  also have "\<dots> = rev (clean_stack (rooted d) [] (concat (map (strings_Split slash) (d # es))))"
    using r Split_Join_concat [of "d # es"] by (simp add: csegs_def)
  also have "\<dots> = rev (clean_stack (rooted d) (rev (csegs d)) (concat (map (strings_Split slash) es)))"
    by (simp add: clean_stack_append) (simp add: csegs_def)
  finally show "csegs (filepath_Join (d # es)) = \<dots>" .
qed

lemma Join_is_clean: "filepath_Join es \<noteq> [] \<Longrightarrow> path_Clean (filepath_Join es) = filepath_Join es"
  by (induction es) (auto split: if_splits)

lemma filepath_Join_plain:
  assumes "d \<noteq> []" and "list_all plain_seg ss"
  shows "csegs (filepath_Join (d # ss)) = csegs d @ ss"
    and "rooted (filepath_Join (d # ss)) = rooted d"
proof -
  have "concat (map (strings_Split slash) ss) = ss"
    using assms(2) by (induction ss) (auto simp: plain_seg_def path_simps)
  with assms show "csegs (filepath_Join (d # ss)) = csegs d @ ss"
    by (simp add: filepath_Join_segs(1) clean_stack_plain del: filepath_Join.simps)
  show "rooted (filepath_Join (d # ss)) = rooted d"
    by (rule filepath_Join_segs(2) [OF assms(1)])
qed

section \<open>Rel and containment\<close>

lemma strip_common_split:
  "strip_common xs ys = (br, tr) \<Longrightarrow> \<exists>c. xs = c @ br \<and> ys = c @ tr"
proof (induction xs ys rule: strip_common.induct)
  case (1 x xs y ys)
  then show ?case by (auto split: if_splits)
qed auto

lemma strip_common_prefix: "strip_common xs (xs @ ys) = ([], ys)"
  by (induction xs) (auto elim: strip_common.elims)

lemma ok_stack_part: "ok_stack r (as @ bs) \<Longrightarrow> ok_stack False as"
proof (induction as)
  case (Cons a as)
  then show ?case by (auto split: if_splits intro: ok_stack_ups)
qed simp

lemma ok_stack_tail: "ok_stack r (as @ bs) \<Longrightarrow> ok_stack r bs"
proof (induction as)
  case (Cons a as)
  then show ?case by (auto split: if_splits intro: ok_stack_ups)
qed simp

lemma csegs_take_ok: "ok_stack (rooted p) (rev (take i (csegs p)))"
proof -
  have "rev (csegs p) = rev (drop i (csegs p)) @ rev (take i (csegs p))"
    by (metis append_take_drop_id rev_append)
  then show ?thesis using csegs_ok [of p] ok_stack_tail by metis
qed

lemma ok_stack_add_ups: "ok_stack False as \<Longrightarrow> ok_stack False (as @ replicate n ''..'')"
proof (induction as)
  case (Cons a as)
  then show ?case by (auto split: if_splits)
qed (simp add: ok_stack_ups)

text \<open>A rendered relative path is local exactly when its first segment is not \<open>..\<close>.\<close>

lemma IsLocal_render:
  assumes ok: "ok_stack False (rev ss)" and ne: "ss \<noteq> []"
  shows "filepath_IsLocal (render False ss) \<longleftrightarrow> hd ss \<noteq> ''..''"
proof -
  let ?p = "render False ss"
  have parts: "\<forall>w \<in> set ss. slash \<notin> set w"
    using ok_stack_no_slash [OF ok] by auto
  then have split: "strings_Split slash ?p = ss"
    using ne by (simp add: render_def Split_Join)
  have clean: "path_Clean ?p = ?p"
    using csegs_render [OF ok] by (simp add: path_Clean_def)
  have "?p = ''..'' \<or> prefix ''../'' ?p \<longleftrightarrow> hd ss = ''..''"
  proof
    assume "?p = ''..'' \<or> prefix ''../'' ?p"
    then show "hd ss = ''..''"
    proof
      assume "?p = ''..''"
      with split have "ss = [''..'']" by (simp add: Split_no_sep)
      then show ?thesis by simp
    next
      assume "prefix ''../'' ?p"
      then obtain q where "?p = ''..'' @ slash # q" by (auto simp: prefix_def)
      moreover have "strings_Split slash (''..'' @ slash # q) = ''..'' # strings_Split slash q"
        by (rule Split_append_sep) simp
      ultimately show ?thesis using split by (metis list.sel(1))
    qed
  next
    assume "hd ss = ''..''"
    with ne obtain ts where "ss = ''..'' # ts" by (cases ss) auto
    then show "?p = ''..'' \<or> prefix ''../'' ?p" by (cases ts) (auto simp: render_def)
  qed
  moreover have "?p \<noteq> []" "\<not> rooted ?p"
    using clean Clean_not_empty [of ?p] csegs_render(2) [OF ok] by auto
  ultimately show ?thesis
    by (auto simp: filepath_IsLocal_def clean strings_HasPrefix_def)
qed

theorem Rel_local_iff_inside:
  "(\<exists>rel. filepath_Rel d p = Some rel \<and> rel \<noteq> ''.'' \<and> filepath_IsLocal rel) \<longleftrightarrow> strictly_inside d p"
proof
  assume "strictly_inside d p"
  then obtain ss where ss: "csegs p = csegs d @ ss" "ss \<noteq> []" "list_all plain_seg ss"
    and r: "rooted p = rooted d"
    by (auto simp: strictly_inside_def prefix_def)
  have ok: "ok_stack False (rev ss)"
    using ok_stack_part [of "rooted p" "rev ss" "rev (csegs d)"] csegs_ok [of p] ss(1) by simp
  have "path_Clean p \<noteq> path_Clean d" using ss by (simp add: Clean_eq_iff)
  then have rel: "filepath_Rel d p = Some (render False ss)"
    using r ss by (simp add: filepath_Rel_def strip_common_prefix render_def)
  have "csegs (render False ss) = ss" by (rule csegs_render(1) [OF ok])
  then have "render False ss \<noteq> ''.''"
    using ss(2) by (auto simp: csegs_def clean_stack_def)
  moreover have "hd ss \<noteq> ''..''"
    using ss(2,3) by (cases ss) auto
  ultimately show "\<exists>rel. filepath_Rel d p = Some rel \<and> rel \<noteq> ''.'' \<and> filepath_IsLocal rel"
    using rel IsLocal_render [OF ok ss(2)] by simp
next
  assume "\<exists>rel. filepath_Rel d p = Some rel \<and> rel \<noteq> ''.'' \<and> filepath_IsLocal rel"
  then obtain rel where rel: "filepath_Rel d p = Some rel" "rel \<noteq> ''.''" "filepath_IsLocal rel" by blast
  then have ne: "path_Clean p \<noteq> path_Clean d" and r: "rooted d = rooted p"
    by (auto simp: filepath_Rel_def Let_def split: if_splits)
  obtain br tr where st: "strip_common (csegs d) (csegs p) = (br, tr)" by fastforce
  then obtain c where c: "csegs d = c @ br" "csegs p = c @ tr"
    using strip_common_split by blast
  let ?ss = "replicate (length br) ''..'' @ tr"
  have eq: "rel = strings_Join ?ss [slash]"
    using rel(1) ne r st by (auto simp: filepath_Rel_def split: if_splits)
  have nonempty: "?ss \<noteq> []"
    using ne r c by (auto simp: Clean_eq_iff)
  have "ok_stack False (rev tr)"
    using ok_stack_part [of "rooted p" "rev tr" "rev c"] csegs_ok [of p] c(2) by simp
  then have ok: "ok_stack False (rev ?ss)"
    using ok_stack_add_ups [of "rev tr" "length br"] by (simp add: rev_replicate)
  have "rel = render False ?ss" using eq nonempty by (simp add: render_def)
  with rel(3) have hd: "hd ?ss \<noteq> ''..''" using IsLocal_render [OF ok nonempty] by simp
  then have br: "br = []" by (cases br) auto
  with hd nonempty have "list_all plain_seg tr"
    using ok_stack_suffix_plain [of "rooted p" tr "rev c"] csegs_ok [of p] c(2) by simp
  with br c r nonempty show "strictly_inside d p" by (simp add: strictly_inside_def)
qed

text \<open>Joining plain segments below a directory stays strictly inside it.\<close>

lemma Join_plain_inside:
  "d \<noteq> [] \<Longrightarrow> list_all plain_seg ss \<Longrightarrow> ss \<noteq> [] \<Longrightarrow> strictly_inside d (filepath_Join (d # ss))"
  by (simp add: strictly_inside_def filepath_Join_plain del: filepath_Join.simps)

text \<open>The base name of a cleaned path is its last segment.\<close>

lemma Split_last_slash: "p \<noteq> [] \<Longrightarrow> last p = slash \<Longrightarrow> last (strings_Split slash p) = []"
  using Split_app [of "butlast p" "[]"] append_butlast_last_id [of p] by simp

lemma path_Base_clean:
  assumes "path_Clean p = p" and "csegs p = ss @ [n]"
  shows "path_Base p = n"
proof -
  have parts: "slash \<notin> set s" if "s \<in> set (ss @ [n])" for s
    using csegs_parts [of s p] that assms(2) by simp
  have n: "n \<noteq> []" using csegs_parts [of n p] assms(2) by simp
  have "p = render (rooted p) (ss @ [n])"
    using assms by (simp add: path_Clean_def)
  then have "strings_Split slash p = (if rooted p then [] # ss @ [n] else ss @ [n])"
    using parts Split_Join [of "ss @ [n]" slash]
    by (metis (no_types, lifting) Nil_is_append_conv Split_slash_cons not_Cons_self2 render_def)
  then have last: "last (strings_Split slash p) = n" by simp
  have "p \<noteq> []" using assms(1) Clean_not_empty by metis
  moreover have "last p \<noteq> slash" using Split_last_slash [OF \<open>p \<noteq> []\<close>] last n by auto
  ultimately have "dropWhile (\<lambda>c. c = slash) (rev p) = rev p"
    by (simp add: dropWhile_eq_self_iff hd_rev)
  with \<open>p \<noteq> []\<close> last show ?thesis by (simp add: path_Base_def)
qed

end
