(* ===== verification/FileSystem.thy ===== *)
theory FileSystem
  imports Schema GoPaths
begin

text \<open>
  The file system the adapter works on, as one process sees it. A path names a node by
  its cleaned form (there are no symbolic links in the model). Every call takes one tick
  of a clock, and the environment decides per tick whether the call fails
  (\<open>osFault\<close>), what a failing write leaves behind (\<open>osTorn\<close>: nothing changed, or a file
  cut after some bytes, or a chain of directories created in part) and whether the
  context has been cancelled. A theorem that quantifies over the environment therefore
  covers every pattern of failures.

  The contract of \<open>filelock.go\<close> on Unix is part of the model: taking a lock opens the
  target with \<open>O_CREATE\<close>, so a missing file comes into being empty. Lock waiting is not
  modelled; the project is single-writer.
\<close>

datatype node = NDir | NFile (fMode: nat) (fData: string)

type_synonym fs = "node go_map"

record osenv =
  osFault :: "nat \<Rightarrow> string option"
  osTorn :: "nat \<Rightarrow> nat option"
  osCancelled :: "nat \<Rightarrow> bool"
  osUmask :: "nat \<Rightarrow> nat"
  osLockPerm :: nat

record world =
  wFs :: fs
  wTick :: nat

section \<open>Paths in the tree\<close>

definition prefixes_of :: "string \<Rightarrow> string list" where
  "prefixes_of p = map (\<lambda>i. render (rooted p) (take i (csegs p))) [1..<Suc (length (csegs p))]"

definition blocked :: "fs \<Rightarrow> string \<Rightarrow> bool" where
  "blocked fs p \<longleftrightarrow>
     list_ex (\<lambda>q. case go_get fs q of Some (NFile m d) \<Rightarrow> True | _ \<Rightarrow> False) (butlast (prefixes_of p))"

definition parent_ok :: "fs \<Rightarrow> string \<Rightarrow> bool" where
  "parent_ok fs p \<longleftrightarrow>
     (case rev (prefixes_of p) of _ # q # _ \<Rightarrow> go_get fs q = Some NDir | _ \<Rightarrow> True)"

definition lookup_node :: "fs \<Rightarrow> string \<Rightarrow> node res" where
  "lookup_node fs p =
     (if p = [] then Inl ENotExist
      else if blocked fs p then Inl (EIO ''not a directory'')
      else case go_get fs (path_Clean p) of None \<Rightarrow> Inl ENotExist | Some n \<Rightarrow> Inr n)"

definition has_children :: "fs \<Rightarrow> string \<Rightarrow> bool" where
  "has_children fs p \<longleftrightarrow> list_ex (\<lambda>(q, n). strictly_inside p q) fs"

section \<open>Calls\<close>

text \<open>One call: a failure at this tick leaves what \<open>torn\<close> says of the tree.\<close>

definition os_call ::
  "osenv \<Rightarrow> (nat option \<Rightarrow> fs \<Rightarrow> fs) \<Rightarrow> (fs \<Rightarrow> 'a res \<times> fs) \<Rightarrow> ('b world_scheme, dberr, 'a) io" where
  "os_call E torn act w =
     (let n = wTick w; w' = w\<lparr>wTick := Suc n\<rparr> in
      case osFault E n of
        Some msg \<Rightarrow> (Inl (EIO msg), w'\<lparr>wFs := torn (osTorn E n) (wFs w)\<rparr>)
      | None \<Rightarrow> (case act (wFs w) of (r, fs) \<Rightarrow> (r, w'\<lparr>wFs := fs\<rparr>)))"

definition intact :: "nat option \<Rightarrow> fs \<Rightarrow> fs" where
  "intact t fs = fs"

definition os_Stat :: "osenv \<Rightarrow> string \<Rightarrow> ('b world_scheme, dberr, node) io" where
  "os_Stat E p = os_call E intact (\<lambda>fs. (lookup_node fs p, fs))"

definition os_ReadFile :: "osenv \<Rightarrow> string \<Rightarrow> ('b world_scheme, dberr, string) io" where
  "os_ReadFile E p =
     os_call E intact (\<lambda>fs.
       (rbind (lookup_node fs p) (\<lambda>n. case n of NFile m d \<Rightarrow> Inr d | NDir \<Rightarrow> Inl (EIO ''is a directory'')),
        fs))"

text \<open>A file that exists keeps its mode, a new one gets the permission bits the umask leaves.\<close>

definition put_file :: "osenv \<Rightarrow> string \<Rightarrow> string \<Rightarrow> nat \<Rightarrow> fs \<Rightarrow> unit res \<times> fs" where
  "put_file E p content perm fs =
     (case lookup_node fs p of
        Inr (NFile m d) \<Rightarrow> (Inr (), go_set (path_Clean p) (NFile m content) fs)
      | Inr NDir \<Rightarrow> (Inl (EIO ''is a directory''), fs)
      | Inl e \<Rightarrow>
          if e = ENotExist \<and> p \<noteq> [] \<and> parent_ok fs p
          then (Inr (), go_set (path_Clean p) (NFile (osUmask E perm) content) fs)
          else (Inl e, fs))"

definition os_WriteFile ::
  "osenv \<Rightarrow> string \<Rightarrow> string \<Rightarrow> nat \<Rightarrow> ('b world_scheme, dberr, unit) io" where
  "os_WriteFile E p content perm =
     os_call E
       (\<lambda>t fs. case t of None \<Rightarrow> fs | Some k \<Rightarrow> snd (put_file E p (take k content) perm fs))
       (put_file E p content perm)"

definition os_Remove :: "osenv \<Rightarrow> string \<Rightarrow> ('b world_scheme, dberr, unit) io" where
  "os_Remove E p =
     os_call E intact (\<lambda>fs.
       (case lookup_node fs p of
          Inl e \<Rightarrow> (Inl e, fs)
        | Inr n \<Rightarrow>
            if n = NDir \<and> has_children fs p then (Inl (EIO ''directory not empty''), fs)
            else (Inr (), go_delete (path_Clean p) fs)))"

fun mkdir_chain :: "fs \<Rightarrow> string list \<Rightarrow> unit res \<times> fs" where
  "mkdir_chain fs [] = (Inr (), fs)"
| "mkdir_chain fs (q # qs) =
     (case go_get fs q of
        None \<Rightarrow> mkdir_chain (go_set q NDir fs) qs
      | Some NDir \<Rightarrow> mkdir_chain fs qs
      | Some (NFile m d) \<Rightarrow> (Inl (EIO ''not a directory''), fs))"

definition os_MkdirAll :: "osenv \<Rightarrow> string \<Rightarrow> ('b world_scheme, dberr, unit) io" where
  "os_MkdirAll E p =
     os_call E
       (\<lambda>t fs. case t of None \<Rightarrow> fs | Some k \<Rightarrow> snd (mkdir_chain fs (take k (prefixes_of p))))
       (\<lambda>fs. if p = [] then (Inl ENotExist, fs) else mkdir_chain fs (prefixes_of p))"

text \<open>\<open>ctx.Err()\<close>.\<close>

definition ctx_Err :: "osenv \<Rightarrow> ('b world_scheme, dberr, unit) io" where
  "ctx_Err E w =
     (if osCancelled E (wTick w) then Inl ECancelled else Inr (), w\<lparr>wTick := Suc (wTick w)\<rparr>)"

section \<open>Locks\<close>

definition flock_open :: "osenv \<Rightarrow> string \<Rightarrow> fs \<Rightarrow> unit res \<times> fs" where
  "flock_open E p fs =
     (case lookup_node fs p of
        Inr (NFile m d) \<Rightarrow> (Inr (), fs)
      | _ \<Rightarrow> put_file E p [] (osLockPerm E) fs)"

definition flock :: "osenv \<Rightarrow> string \<Rightarrow> ('b world_scheme, dberr, unit) io" where
  "flock E p =
     os_call E (\<lambda>t fs. case t of None \<Rightarrow> fs | Some _ \<Rightarrow> snd (flock_open E p fs)) (flock_open E p)"

definition withSharedLock ::
  "osenv \<Rightarrow> string \<Rightarrow> ('b world_scheme, dberr, 'a) io \<Rightarrow> ('b world_scheme, dberr, 'a) io" where
  "withSharedLock E p fn =
     iobind (iocatch (flock E p) (\<lambda>e. iofail (EWrap (''acquire shared lock on '' @ p) e))) (\<lambda>_. fn)"

definition withExclusiveLock ::
  "osenv \<Rightarrow> string \<Rightarrow> ('b world_scheme, dberr, 'a) io \<Rightarrow> ('b world_scheme, dberr, 'a) io" where
  "withExclusiveLock E p fn =
     iobind (iocatch (flock E p) (\<lambda>e. iofail (EWrap (''acquire exclusive lock on '' @ p) e))) (\<lambda>_. fn)"

section \<open>What a call can change\<close>

text \<open>The content of the file a cleaned path names; \<open>None\<close> for directories and missing paths.\<close>

definition file_at :: "fs \<Rightarrow> string \<Rightarrow> (nat \<times> string) option" where
  "file_at fs q = (case go_get fs q of Some (NFile m d) \<Rightarrow> Some (m, d) | _ \<Rightarrow> None)"

definition data_at :: "fs \<Rightarrow> string \<Rightarrow> string option" where
  "data_at fs q = map_option snd (file_at fs q)"

definition same_files_but :: "string set \<Rightarrow> fs \<Rightarrow> fs \<Rightarrow> bool" where
  "same_files_but P fs fs' \<longleftrightarrow> (\<forall>q. q \<notin> P \<longrightarrow> file_at fs' q = file_at fs q)"

lemma same_files_but_refl [simp]: "same_files_but P fs fs"
  by (simp add: same_files_but_def)

lemma same_files_but_trans:
  "same_files_but P fs fs' \<Longrightarrow> same_files_but P fs' fs'' \<Longrightarrow> same_files_but P fs fs''"
  by (simp add: same_files_but_def)

lemma same_files_but_mono: "same_files_but P fs fs' \<Longrightarrow> P \<subseteq> Q \<Longrightarrow> same_files_but Q fs fs'"
  by (auto simp: same_files_but_def)

lemma put_file_frame: "same_files_but {path_Clean p} fs (snd (put_file E p c m fs))"
  by (auto simp: put_file_def same_files_but_def file_at_def go_get_set split: sum.splits node.splits)

lemma mkdir_chain_frame: "same_files_but {} fs (snd (mkdir_chain fs qs))"
proof (induction fs qs rule: mkdir_chain.induct)
  case (2 fs q qs)
  have "same_files_but {} fs (go_set q NDir fs)" if "go_get fs q = None"
    using that by (auto simp: same_files_but_def file_at_def go_get_set)
  with 2 show ?case
    by (auto split: option.splits node.splits intro: same_files_but_trans)
qed simp

lemma flock_open_frame: "same_files_but {path_Clean p} fs (snd (flock_open E p fs))"
  using put_file_frame by (auto simp: flock_open_def split: sum.splits node.splits)

definition frame_rel :: "string set \<Rightarrow> 'b world_scheme \<Rightarrow> 'b world_scheme \<Rightarrow> bool" where
  "frame_rel P w w' \<longleftrightarrow> same_files_but P (wFs w) (wFs w') \<and> world.more w' = world.more w"

definition same_fs :: "'b world_scheme \<Rightarrow> 'b world_scheme \<Rightarrow> bool" where
  "same_fs w w' \<longleftrightarrow> wFs w' = wFs w \<and> world.more w' = world.more w"

interpretation touched: world_frame "frame_rel P" for P :: "string set"
  by unfold_locales (auto simp: frame_rel_def intro: same_files_but_trans)

interpretation untouched: world_frame same_fs
  by unfold_locales (auto simp: same_fs_def)

lemma os_call_frame:
  assumes "\<And>t fs. same_files_but P fs (torn t fs)" and "\<And>fs. same_files_but P fs (snd (act fs))"
  shows "iokeeps (frame_rel P) (os_call E torn act)"
proof
  fix w :: "'b world_scheme"
  show "frame_rel P w (snd (os_call E torn act w))"
    using assms(1) [of "wFs w" "osTorn E (wTick w)"] assms(2) [of "wFs w"]
    by (auto simp: os_call_def frame_rel_def Let_def split: option.splits prod.splits)
qed

lemma os_WriteFile_frame: "iokeeps (frame_rel {path_Clean p}) (os_WriteFile E p c m)"
  unfolding os_WriteFile_def
  by (rule os_call_frame) (auto simp: put_file_frame split: option.splits)

lemma flock_frame: "iokeeps (frame_rel {path_Clean p}) (flock E p)"
  unfolding flock_def
  by (rule os_call_frame) (auto simp: flock_open_frame split: option.splits)

lemma os_Remove_frame: "iokeeps (frame_rel {path_Clean p}) (os_Remove E p)"
  unfolding os_Remove_def
  by (rule os_call_frame)
    (auto simp: intact_def same_files_but_def file_at_def go_get_delete split: sum.splits)

lemma os_MkdirAll_frame: "iokeeps (frame_rel {}) (os_MkdirAll E p)"
  unfolding os_MkdirAll_def
  by (rule os_call_frame) (auto simp: mkdir_chain_frame split: option.splits)

lemma frame_rel_mono: "frame_rel P w w' \<Longrightarrow> P \<subseteq> Q \<Longrightarrow> frame_rel Q w w'"
  by (auto simp: frame_rel_def intro: same_files_but_mono)

lemma iokeeps_mono: "iokeeps R m \<Longrightarrow> (\<And>s t. R s t \<Longrightarrow> Q s t) \<Longrightarrow> iokeeps Q m"
  by (auto simp: iokeeps_def)

lemma same_fs_frame: "same_fs w w' \<Longrightarrow> frame_rel P w w'"
  by (simp add: same_fs_def frame_rel_def)

lemma os_Stat_same: "iokeeps same_fs (os_Stat E p)"
  by (auto simp: iokeeps_def os_Stat_def os_call_def same_fs_def intact_def Let_def split: option.splits)

lemma os_ReadFile_same: "iokeeps same_fs (os_ReadFile E p)"
  by (auto simp: iokeeps_def os_ReadFile_def os_call_def same_fs_def intact_def Let_def split: option.splits)

lemma ctx_Err_same: "iokeeps same_fs (ctx_Err E)"
  by (auto simp: iokeeps_def ctx_Err_def same_fs_def)

text \<open>A call that succeeds did its work: the environment cannot lie about success.\<close>

lemma os_call_Inr:
  "os_call E torn act w = (Inr x, w') \<longleftrightarrow>
     osFault E (wTick w) = None \<and>
     (\<exists>fs. act (wFs w) = (Inr x, fs) \<and> w' = w\<lparr>wTick := Suc (wTick w), wFs := fs\<rparr>)"
  by (auto simp: os_call_def Let_def split: option.splits prod.splits)

lemma os_Stat_Inr:
  "os_Stat E p w = (Inr n, w') \<Longrightarrow> lookup_node (wFs w) p = Inr n \<and> wFs w' = wFs w"
  by (auto simp: os_Stat_def os_call_Inr)

lemma os_Stat_missing:
  "os_Stat E p w = (Inl ENotExist, w') \<Longrightarrow> lookup_node (wFs w) p = Inl ENotExist \<and> wFs w' = wFs w"
  by (auto simp: os_Stat_def os_call_def Let_def intact_def split: option.splits)

lemma os_ReadFile_Inr:
  "os_ReadFile E p w = (Inr d, w') \<Longrightarrow> (\<exists>m. lookup_node (wFs w) p = Inr (NFile m d)) \<and> wFs w' = wFs w"
  by (cases "lookup_node (wFs w) p") (auto simp: os_ReadFile_def os_call_Inr split: node.splits)

lemma lookup_node_file: "lookup_node fs p = Inr (NFile m d) \<Longrightarrow> file_at fs (path_Clean p) = Some (m, d)"
  by (auto simp: lookup_node_def file_at_def split: if_splits option.splits)

lemma lookup_node_missing:
  "p \<noteq> [] \<Longrightarrow> lookup_node fs p = Inl ENotExist \<Longrightarrow> go_get fs (path_Clean p) = None"
  by (auto simp: lookup_node_def split: if_splits option.splits)

lemma os_WriteFile_Inr:
  assumes "os_WriteFile E p c m w = (Inr u, w')"
  shows "data_at (wFs w') (path_Clean p) = Some c"
  using assms
  by (auto simp: os_WriteFile_def os_call_Inr put_file_def data_at_def file_at_def go_get_set
        split: sum.splits node.splits if_splits)

lemma os_Remove_Inr:
  assumes "os_Remove E p w = (Inr u, w')"
  shows "go_get (wFs w') (path_Clean p) = None"
  using assms
  by (auto simp: os_Remove_def os_call_Inr go_get_delete split: sum.splits if_splits)

lemma os_Remove_missing:
  "p \<noteq> [] \<Longrightarrow> os_Remove E p w = (Inl ENotExist, w') \<Longrightarrow>
     go_get (wFs w) (path_Clean p) = None \<and> wFs w' = wFs w"
  by (auto simp: os_Remove_def os_call_def Let_def intact_def split: option.splits sum.splits if_splits
        dest: lookup_node_missing)

lemma withLock_frame:
  assumes "path_Clean p \<in> P" and "iokeeps (frame_rel P) fn"
  shows "iokeeps (frame_rel P) (withSharedLock E p fn)"
    and "iokeeps (frame_rel P) (withExclusiveLock E p fn)"
proof -
  have "iokeeps (frame_rel P) (flock E p)"
    by (rule iokeeps_mono [OF flock_frame]) (use assms(1) in \<open>auto intro: frame_rel_mono\<close>)
  then show "iokeeps (frame_rel P) (withSharedLock E p fn)"
      "iokeeps (frame_rel P) (withExclusiveLock E p fn)"
    unfolding withSharedLock_def withExclusiveLock_def
    by (auto intro!: touched.keeps_intros assms(2))
qed

text \<open>Locking a path that holds a node changes nothing.\<close>

lemma flock_existing:
  assumes "lookup_node (wFs w) p = Inr n"
  shows "same_fs w (snd (flock E p w))"
  using assms
  by (auto simp: flock_def os_call_def flock_open_def put_file_def same_fs_def Let_def
        split: option.splits node.splits)

end
