(* ===== verification/Glob.thy ===== *)
theory Glob
  imports FileSystem
begin

text \<open>
  \<open>filepath.Match\<close> and \<open>filepath.Glob\<close> on Unix. A pattern is parsed per path segment into
  tokens; a malformed segment is \<open>filepath.ErrBadPattern\<close>. \<open>Glob\<close> ignores the errors of
  reading a directory, as the library documents: such a directory contributes no names.
\<close>

section \<open>Runes\<close>

definition cont_byte :: "char list \<Rightarrow> nat \<Rightarrow> nat \<Rightarrow> bool" where
  "cont_byte s lo hi = (case s of [] \<Rightarrow> False | c # _ \<Rightarrow> lo \<le> of_char c \<and> of_char c \<le> hi)"

definition byte_of :: "char list \<Rightarrow> int" where
  "byte_of s = (case s of [] \<Rightarrow> 0 | c # _ \<Rightarrow> of_char c)"

text \<open>\<open>utf8.DecodeRuneInString\<close>: the first rune and its width; \<open>0xFFFD\<close> of width 1 is an invalid byte.\<close>

definition rune_at :: "string \<Rightarrow> int \<times> nat" where
  "rune_at s =
     (let b = byte_of s; t = drop 1 s; u = drop 2 s; v = drop 3 s in
      if b < 0x80 then (b, 1)
      else if 0xC2 \<le> b \<and> b \<le> 0xDF \<and> cont_byte t 0x80 0xBF
      then ((b - 0xC0) * 64 + (byte_of t - 0x80), 2)
      else if 0xE0 \<le> b \<and> b \<le> 0xEF \<and>
              cont_byte t (if b = 0xE0 then 0xA0 else 0x80) (if b = 0xED then 0x9F else 0xBF) \<and>
              cont_byte u 0x80 0xBF
      then ((b - 0xE0) * 4096 + (byte_of t - 0x80) * 64 + (byte_of u - 0x80), 3)
      else if 0xF0 \<le> b \<and> b \<le> 0xF4 \<and>
              cont_byte t (if b = 0xF0 then 0x90 else 0x80) (if b = 0xF4 then 0x8F else 0xBF) \<and>
              cont_byte u 0x80 0xBF \<and> cont_byte v 0x80 0xBF
      then ((b - 0xF0) * 262144 + (byte_of t - 0x80) * 4096 + (byte_of u - 0x80) * 64 + (byte_of v - 0x80), 4)
      else (0xFFFD, 1))"

section \<open>Patterns\<close>

datatype gtok = GLit char | GStar | GAny | GClass bool "(int \<times> int) list"

definition get_esc :: "string \<Rightarrow> (int \<times> string) option" where
  "get_esc s =
     (case s of
        [] \<Rightarrow> None
      | c # t \<Rightarrow>
          if c = CHR ''-'' \<or> c = CHR '']'' then None
          else let chunk = (if c = CHR 0x5C then t else s) in
            if chunk = [] then None
            else case rune_at chunk of (r, n) \<Rightarrow>
              if (r = 0xFFFD \<and> n = 1) \<or> drop n chunk = [] then None else Some (r, drop n chunk))"

fun class_ranges :: "nat \<Rightarrow> bool \<Rightarrow> string \<Rightarrow> ((int \<times> int) list \<times> string) option" where
  "class_ranges 0 some s = None"
| "class_ranges (Suc fuel) some s =
     (if some \<and> s \<noteq> [] \<and> hd s = CHR '']'' then Some ([], tl s)
      else case get_esc s of
        None \<Rightarrow> None
      | Some (lo, s1) \<Rightarrow>
          (case (if hd s1 = CHR ''-'' then get_esc (tl s1) else Some (lo, s1)) of
             None \<Rightarrow> None
           | Some (hi, s2) \<Rightarrow>
               map_option (\<lambda>(rs, rest). ((lo, hi) # rs, rest)) (class_ranges fuel True s2)))"

fun glob_parse :: "nat \<Rightarrow> string \<Rightarrow> gtok list option" where
  "glob_parse 0 s = None"
| "glob_parse (Suc fuel) [] = Some []"
| "glob_parse (Suc fuel) (c # s) =
     (if c = CHR ''*'' then map_option (\<lambda>ts. GStar # ts) (glob_parse fuel s)
      else if c = CHR ''?'' then map_option (\<lambda>ts. GAny # ts) (glob_parse fuel s)
      else if c = CHR 0x5C then
        (case s of [] \<Rightarrow> None | d # t \<Rightarrow> map_option (\<lambda>ts. GLit d # ts) (glob_parse fuel t))
      else if c = CHR ''['' then
        (let neg = (s \<noteq> [] \<and> hd s = CHR ''^''); body = (if neg then tl s else s) in
         case class_ranges (Suc (length body)) False body of
           None \<Rightarrow> None
         | Some (rs, rest) \<Rightarrow> map_option (\<lambda>ts. GClass neg rs # ts) (glob_parse fuel rest))
      else map_option (\<lambda>ts. GLit c # ts) (glob_parse fuel s))"

definition parse_segment :: "string \<Rightarrow> gtok list option" where
  "parse_segment s = glob_parse (Suc (length s)) s"

function gmatch :: "gtok list \<Rightarrow> string \<Rightarrow> bool" where
  "gmatch [] s = (s = [])"
| "gmatch (GLit c # ts) s = (case s of [] \<Rightarrow> False | d # t \<Rightarrow> c = d \<and> gmatch ts t)"
| "gmatch (GStar # ts) s =
     (gmatch ts s \<or> (case s of [] \<Rightarrow> False | d # t \<Rightarrow> d \<noteq> slash \<and> gmatch (GStar # ts) t))"
| "gmatch (GAny # ts) s =
     (s \<noteq> [] \<and> hd s \<noteq> slash \<and> gmatch ts (drop (snd (rune_at s)) s))"
| "gmatch (GClass neg rs # ts) s =
     (s \<noteq> [] \<and> list_ex (\<lambda>(lo, hi). lo \<le> fst (rune_at s) \<and> fst (rune_at s) \<le> hi) rs \<noteq> neg \<and>
      gmatch ts (drop (snd (rune_at s)) s))"
  by pat_completeness auto
termination by (relation "measures [\<lambda>(ts, s). length ts, \<lambda>(ts, s). length s]") auto

definition has_meta :: "string \<Rightarrow> bool" where
  "has_meta p = strings_ContainsAny p [CHR ''*'', CHR ''?'', CHR ''['', CHR 0x5C]"

section \<open>Globbing\<close>

text \<open>The sorted names of the entries of a directory.\<close>

definition dir_names :: "fs \<Rightarrow> string \<Rightarrow> string list" where
  "dir_names fs d =
     sort_Strings (map (\<lambda>(q, n). last (csegs q))
       (filter (\<lambda>(q, n). rooted q = rooted d \<and> csegs q \<noteq> [] \<and> butlast (csegs q) = csegs d) fs))"

definition glob_in :: "fs \<Rightarrow> gtok list \<Rightarrow> string \<Rightarrow> string list" where
  "glob_in fs ts d = map (\<lambda>n. filepath_Join [d, n]) (filter (gmatch ts) (dir_names fs d))"

fun glob_segs :: "fs \<Rightarrow> string list \<Rightarrow> gtok list list \<Rightarrow> string list" where
  "glob_segs fs dirs [] = dirs"
| "glob_segs fs dirs (ts # rest) = glob_segs fs (concat (map (glob_in fs ts) dirs)) rest"

definition glob_fs :: "fs \<Rightarrow> string \<Rightarrow> string list res" where
  "glob_fs fs pattern =
     (case those (map parse_segment (csegs pattern)) of
        None \<Rightarrow> Inl (EIO ''syntax error in pattern'')
      | Some tss \<Rightarrow>
          (let lit = takeWhile (\<lambda>s. \<not> has_meta s) (csegs pattern);
               n = length lit
           in if n = length (csegs pattern)
              then Inr (case lookup_node fs pattern of Inl e \<Rightarrow> [] | Inr _ \<Rightarrow> [pattern])
              else Inr (glob_segs fs [render (rooted pattern) lit] (drop n tss))))"

definition filepath_Glob :: "osenv \<Rightarrow> string \<Rightarrow> ('b world_scheme, dberr, string list) io" where
  "filepath_Glob E pattern w =
     (let n = wTick w; w' = w\<lparr>wTick := Suc n\<rparr> in
      case glob_fs (wFs w) pattern of
        Inl e \<Rightarrow> (Inl e, w')
      | Inr paths \<Rightarrow> (Inr (if osFault E n = None then paths else []), w'))"

lemma filepath_Glob_same: "iokeeps same_fs (filepath_Glob E pattern)"
  by (auto simp: iokeeps_def filepath_Glob_def same_fs_def Let_def split: sum.splits)

section \<open>Patterns with one star\<close>

lemma glob_parse_literal:
  "\<not> has_meta p \<Longrightarrow> length p < fuel \<Longrightarrow>
     glob_parse fuel (p @ s) = map_option (\<lambda>ts. map GLit p @ ts) (glob_parse (fuel - length p) s)"
proof (induction p arbitrary: fuel)
  case Nil
  then show ?case by (simp add: option.map_ident)
next
  case (Cons c p)
  then obtain f where f: "fuel = Suc f" by (cases fuel) auto
  have "\<not> has_meta p" "c \<noteq> CHR ''*''" "c \<noteq> CHR ''?''" "c \<noteq> CHR 0x5C" "c \<noteq> CHR ''[''"
    using Cons.prems(1) by (auto simp: has_meta_def strings_ContainsAny_def)
  with Cons f show ?case by (simp add: option.map_comp comp_def)
qed

lemma parse_segment_literal: "\<not> has_meta p \<Longrightarrow> parse_segment p = Some (map GLit p)"
  using glob_parse_literal [of p "Suc (length p)" "[]"] by (simp add: parse_segment_def)

lemma parse_segment_star:
  assumes "\<not> has_meta p" and "\<not> has_meta s"
  shows "parse_segment (p @ CHR ''*'' # s) = Some (map GLit p @ GStar # map GLit s)"
proof -
  have "glob_parse (Suc (length s)) s = Some (map GLit s)"
    using parse_segment_literal [OF assms(2)] by (simp add: parse_segment_def)
  then show ?thesis
    using glob_parse_literal [OF assms(1), of "Suc (length (p @ CHR ''*'' # s))" "CHR ''*'' # s"]
    by (simp add: parse_segment_def)
qed

lemma gmatch_literal: "gmatch (map GLit p) s \<longleftrightarrow> s = p"
  by (induction p arbitrary: s) (auto split: list.splits)

lemma gmatch_literal_prefix: "gmatch (map GLit p @ ts) s \<longleftrightarrow> (\<exists>t. s = p @ t \<and> gmatch ts t)"
  by (induction p arbitrary: s) (auto split: list.splits)

lemma gmatch_star: "gmatch (GStar # ts) s \<longleftrightarrow> (\<exists>m t. s = m @ t \<and> slash \<notin> set m \<and> gmatch ts t)"
proof (induction s)
  case Nil
  then show ?case by auto
next
  case (Cons d s)
  show ?case
  proof
    assume "gmatch (GStar # ts) (d # s)"
    then consider "gmatch ts (d # s)" | "d \<noteq> slash" "gmatch (GStar # ts) s" by auto
    then show "\<exists>m t. d # s = m @ t \<and> slash \<notin> set m \<and> gmatch ts t"
    proof cases
      case 1
      then show ?thesis by (metis append_Nil empty_iff empty_set)
    next
      case 2
      with Cons.IH obtain m t where "s = m @ t" "slash \<notin> set m" "gmatch ts t" by blast
      with 2 have "d # s = (d # m) @ t \<and> slash \<notin> set (d # m) \<and> gmatch ts t" by auto
      then show ?thesis by blast
    qed
  next
    assume "\<exists>m t. d # s = m @ t \<and> slash \<notin> set m \<and> gmatch ts t"
    then obtain m t where mt: "d # s = m @ t" "slash \<notin> set m" "gmatch ts t" by blast
    show "gmatch (GStar # ts) (d # s)"
    proof (cases m)
      case Nil
      with mt show ?thesis by simp
    next
      case (Cons e m')
      with mt Cons.IH show ?thesis by auto
    qed
  qed
qed

lemma gmatch_one_star:
  "gmatch (map GLit p @ GStar # map GLit s) name \<longleftrightarrow> (\<exists>m. name = p @ m @ s \<and> slash \<notin> set m)"
  by (auto simp: gmatch_literal_prefix gmatch_star gmatch_literal simp del: gmatch.simps)

end
