(* ===== verification/RecordKeys.thy ===== *)
theory RecordKeys
  imports Schema GoPaths
begin

text \<open>
  Record keys and the files they name: escaping and validation of \<open>record_io.go\<close>, the
  key extractor of \<open>query.go\<close>, the key rules of \<open>batch_parsers.go\<close> and the collection
  lookup of \<open>collection.go\<close>. Escaping is a round trip on the keys that pass the
  validation, hence two records never share a file, and every record file lies inside
  its collection directory.
\<close>

section \<open>Escaping\<close>

definition recordKeyToFileName :: "string \<Rightarrow> string" where
  "recordKeyToFileName recordKey =
     concat (map (\<lambda>c. if c = CHR ''/'' then ''%2F'' else if c = CHR 0x5C then ''%5C'' else [c])
       recordKey)"

fun recordKeyFromFileName :: "string \<Rightarrow> string" where
  "recordKeyFromFileName [] = []"
| "recordKeyFromFileName (c # s) =
     (if prefix ''%2F'' (c # s) then CHR ''/'' # recordKeyFromFileName (drop 2 s)
      else if prefix ''%5C'' (c # s) then CHR 0x5C # recordKeyFromFileName (drop 2 s)
      else c # recordKeyFromFileName s)"

definition isWindowsReservedName :: "string \<Rightarrow> bool" where
  "isWindowsReservedName rid =
     (let base = strings_ToUpper (rev (dropWhile (\<lambda>c. c = CHR '' '') (rev (fst (strings_Cut rid (CHR ''.''))))))
      in base \<in> {''CON'', ''PRN'', ''AUX'', ''NUL''} \<or>
         (4 \<le> length base \<and> take 3 base \<in> {''COM'', ''LPT''} \<and>
          drop 3 base \<in> {''0'', ''1'', ''2'', ''3'', ''4'', ''5'', ''6'', ''7'', ''8'', ''9'',
            [CHR 0xC2, CHR 0xB9], [CHR 0xC2, CHR 0xB2], [CHR 0xC2, CHR 0xB3]}))"

definition validateRecordPathSegment :: "api \<Rightarrow> string \<Rightarrow> unit res" where
  "validateRecordPathSegment A rid =
     (if rid \<in> {[], ''.'', ''..''} then Inl (ESegmentName rid)
      else if has_control rid then Inl (EControlCharacter rid)
      else if GOOS A = ''windows'' \<and> isWindowsReservedName rid then Inl (EReservedDevice rid)
      else let upper = strings_ToUpper rid in
        if strings_Contains upper ''%2F'' \<or> strings_Contains upper ''%5C'' then Inl (EReservedEscape rid)
        else Inr ())"

definition requireContainedPath :: "string \<Rightarrow> string \<Rightarrow> unit res" where
  "requireContainedPath dir path =
     (case filepath_Rel dir path of
        None \<Rightarrow> Inl (EPathEscapes path dir)
      | Some rel \<Rightarrow>
          if rel = ''.'' \<or> \<not> filepath_IsLocal rel then Inl (EPathEscapes path dir) else Inr ())"

definition resolveRecordPath :: "api \<Rightarrow> coldef \<Rightarrow> recfile \<Rightarrow> string \<Rightarrow> string" where
  "resolveRecordPath A colDef rf recordKey =
     (let name = strings_ReplaceAll (rfName rf) ''{key}'' (recordKeyToFileName recordKey);
          base = RecordsBasePath A rf
      in filepath_Join [cdDirPath colDef, base, name])"

definition validateRecordFileKey :: "api \<Rightarrow> coldef \<Rightarrow> recfile \<Rightarrow> string \<Rightarrow> unit res" where
  "validateRecordFileKey A colDef rf recordKey =
     (if \<not> strings_Contains (rfName rf) ''{key}'' then Inr ()
      else rbind (validateRecordPathSegment A recordKey) (\<lambda>_.
        requireContainedPath (cdDirPath colDef) (resolveRecordPath A colDef rf recordKey)))"

section \<open>Round trip and injectivity\<close>

text \<open>An encoding that a decoder undoes on the valid values.\<close>

locale escaping =
  fixes enc :: "'k \<Rightarrow> 'n" and dec :: "'n \<Rightarrow> 'k" and valid :: "'k \<Rightarrow> bool"
  assumes dec_enc: "valid k \<Longrightarrow> dec (enc k) = k"
begin

lemma enc_inject: "valid k \<Longrightarrow> valid j \<Longrightarrow> enc k = enc j \<Longrightarrow> k = j"
  using dec_enc by metis

lemma enc_inj_on: "inj_on enc {k. valid k}"
  by (rule inj_onI) (simp add: enc_inject)

lemma enc_finite: "finite K \<Longrightarrow> (\<And>k. k \<in> K \<Longrightarrow> valid k) \<Longrightarrow> card (enc ` K) = card K"
  by (rule card_image) (auto intro: inj_onI enc_inject)

end

lemma upper_id: "s \<in> {''%2F'', ''%5C''} \<Longrightarrow> strings_ToUpper s = s"
  by (auto simp: strings_ToUpper_def byte_ToUpper_def)

lemma upper_contains: "sublist s rid \<Longrightarrow> sublist (strings_ToUpper s) (strings_ToUpper rid)"
  by (auto simp: strings_ToUpper_def sublist_def) (metis append.assoc)

text \<open>What the validation guarantees of a key.\<close>

definition escape_free :: "string \<Rightarrow> bool" where
  "escape_free rid \<longleftrightarrow> \<not> sublist ''%2F'' rid \<and> \<not> sublist ''%5C'' rid"

definition segment_key :: "string \<Rightarrow> bool" where
  "segment_key rid \<longleftrightarrow> rid \<notin> {[], ''.'', ''..''} \<and> \<not> has_control rid \<and> escape_free rid"

lemma validateRecordPathSegment_segment_key:
  "validateRecordPathSegment A rid = Inr u \<Longrightarrow> segment_key rid"
  using upper_contains [of "''%2F''" rid] upper_contains [of "''%5C''" rid]
  by (auto simp: validateRecordPathSegment_def segment_key_def escape_free_def
        Contains_iff_sublist upper_id Let_def split: if_splits)

lemma ToFileName_simps [simp]:
  "recordKeyToFileName [] = []"
  "recordKeyToFileName (c # s) =
     (if c = CHR ''/'' then ''%2F'' else if c = CHR 0x5C then ''%5C'' else [c]) @ recordKeyToFileName s"
  by (simp_all add: recordKeyToFileName_def)

lemma ToFileName_starts:
  assumes "prefix [a, b] (recordKeyToFileName s)" and "a \<noteq> CHR ''%''" and "b \<noteq> CHR ''%''"
  shows "prefix [a, b] s"
  using assms by (cases s; cases "tl s") (auto split: if_splits)

lemma escape_free_Cons:
  assumes "escape_free (c # s)"
  shows "escape_free s" and "\<not> prefix ''%2F'' (c # s)" and "\<not> prefix ''%5C'' (c # s)"
  using assms by (auto simp: escape_free_def sublist_Cons_right)

lemma FromFileName_ToFileName:
  "escape_free k \<Longrightarrow> recordKeyFromFileName (recordKeyToFileName k) = k"
proof (induction k)
  case Nil
  then show ?case by simp
next
  case (Cons c s)
  from Cons.prems have free: "escape_free s" "\<not> prefix ''%2F'' (c # s)" "\<not> prefix ''%5C'' (c # s)"
    by (rule escape_free_Cons)+
  have "\<not> prefix ''%2F'' (c # recordKeyToFileName s)" "\<not> prefix ''%5C'' (c # recordKeyToFileName s)"
    using free(2,3) ToFileName_starts [of "CHR ''2''" "CHR ''F''" s]
      ToFileName_starts [of "CHR ''5''" "CHR ''C''" s] by auto
  with Cons.IH free(1) show ?case by auto
qed

interpretation key_file: escaping recordKeyToFileName recordKeyFromFileName escape_free
  by unfold_locales (rule FromFileName_ToFileName)

lemma ToFileName_no_separator:
  "CHR ''/'' \<notin> set (recordKeyToFileName k)" "CHR 0x5C \<notin> set (recordKeyToFileName k)"
  by (auto simp: recordKeyToFileName_def split: if_splits)

lemma ToFileName_length: "length k \<le> length (recordKeyToFileName k)"
  by (induction k) auto

lemma ToFileName_special:
  "recordKeyToFileName k \<in> {[], ''.'', ''..''} \<Longrightarrow> k \<in> {[], ''.'', ''..''}"
  by (cases k; cases "tl k"; cases "tl (tl k)") (auto split: if_splits)

lemma ToFileName_plain: "segment_key k \<Longrightarrow> plain_seg (recordKeyToFileName k)"
  using ToFileName_special [of k] ToFileName_no_separator(1) [of k]
  by (auto simp: segment_key_def plain_seg_def)

lemma ToFileName_control: "\<not> has_control k \<Longrightarrow> CHR 0x0A \<notin> set (recordKeyToFileName k)"
proof (induction k)
  case Nil
  then show ?case by simp
next
  case (Cons c k)
  then have "c \<noteq> CHR 0x0A" by auto
  with Cons show ?case by auto
qed

section \<open>Expanding the file name template\<close>

lemma prefix_no_sep:
  "c \<notin> set old \<Longrightarrow> prefix old (a @ c # b) \<longleftrightarrow> prefix old a"
proof (induction old arbitrary: a)
  case (Cons x old)
  then show ?case by (cases a) auto
qed simp

lemma ReplaceAll_split:
  assumes "slash \<notin> set old" and "old \<noteq> []" and "slash \<notin> set a"
  shows "strings_ReplaceAll (a @ slash # b) old new =
           strings_ReplaceAll a old new @ slash # strings_ReplaceAll b old new"
  using assms
proof (induction a old new rule: strings_ReplaceAll.induct)
  case (1 old new)
  then have "\<not> prefix old (slash # b)"
    by (cases old) auto
  then show ?case by simp
next
  case (2 c s old new)
  have same: "prefix old (c # s @ slash # b) \<longleftrightarrow> prefix old (c # s)"
    using prefix_no_sep [of slash old "c # s" b] "2.prems"(1) by simp
  show ?case
  proof (cases "prefix old (c # s)")
    case True
    then have "length old - 1 \<le> length s" using prefix_length_le by fastforce
    then have "drop (length old - 1) (s @ slash # b) = drop (length old - 1) s @ slash # b" by simp
    moreover have "slash \<notin> set (drop (length old - 1) s)" using "2.prems"(3) by (auto dest: in_set_dropD)
    ultimately show ?thesis using True same 2 by simp
  next
    case False
    then show ?thesis using same 2 by simp
  qed
qed

lemma ReplaceAll_no_sep:
  "slash \<notin> set t \<Longrightarrow> slash \<notin> set new \<Longrightarrow> slash \<notin> set (strings_ReplaceAll t old new)"
  by (induction t old new rule: strings_ReplaceAll.induct) (auto dest: in_set_dropD)

lemma Split_ReplaceAll:
  assumes "slash \<notin> set old" and "old \<noteq> []" and "slash \<notin> set new"
  shows "strings_Split slash (strings_ReplaceAll t old new) =
           map (\<lambda>w. strings_ReplaceAll w old new) (strings_Split slash t)"
proof (induction "length t" arbitrary: t rule: less_induct)
  case less
  show ?case
  proof (cases "slash \<in> set t")
    case False
    with assms(3) show ?thesis by (simp add: Split_no_sep ReplaceAll_no_sep)
  next
    case True
    then obtain a b where t: "t = a @ slash # b" and a: "slash \<notin> set a"
      by (auto dest: split_list_first)
    have "strings_Split slash (strings_ReplaceAll b old new) =
        map (\<lambda>w. strings_ReplaceAll w old new) (strings_Split slash b)"
      by (rule less) (simp add: t)
    with a assms show ?thesis
      by (simp add: t ReplaceAll_split Split_append_sep ReplaceAll_no_sep)
  qed
qed

lemma ReplaceAll_at:
  assumes "strings_Contains t old" and "old \<noteq> []"
  shows "\<exists>p q. \<forall>new. strings_ReplaceAll t old new = p @ new @ strings_ReplaceAll q old new"
  using assms(1)
proof (induction t)
  case Nil
  with assms(2) show ?case by (simp add: Contains_iff_sublist)
next
  case (Cons c s)
  show ?case
  proof (cases "prefix old (c # s)")
    case True
    then have "strings_ReplaceAll (c # s) old new =
        [] @ new @ strings_ReplaceAll (drop (length old - 1) s) old new" for new
      using assms(2) by simp
    then show ?thesis by blast
  next
    case False
    with Cons.prems have "strings_Contains s old"
      by (simp add: strings_Contains.simps [of "c # s"])
    from Cons.IH [OF this] obtain p q where
      "\<forall>new. strings_ReplaceAll s old new = p @ new @ strings_ReplaceAll q old new" by blast
    with False have "\<forall>new. strings_ReplaceAll (c # s) old new = (c # p) @ new @ strings_ReplaceAll q old new"
      by simp
    then show ?thesis by blast
  qed
qed

lemma ReplaceAll_length_mono:
  "length a \<le> length b \<Longrightarrow> length (strings_ReplaceAll t old a) \<le> length (strings_ReplaceAll t old b)"
proof (induction t old a rule: strings_ReplaceAll.induct)
  case (2 c s old a)
  then show ?case by (cases "old \<noteq> [] \<and> prefix old (c # s)") (auto simp: add_le_mono)
qed simp

lemma ReplaceAll_inject:
  assumes "strings_Contains t old" and "old \<noteq> []"
    and "strings_ReplaceAll t old a = strings_ReplaceAll t old b"
  shows "a = b"
proof -
  obtain p q where at: "\<And>new. strings_ReplaceAll t old new = p @ new @ strings_ReplaceAll q old new"
    using ReplaceAll_at [OF assms(1,2)] by blast
  from assms(3) have eq: "a @ strings_ReplaceAll q old a = b @ strings_ReplaceAll q old b"
    by (simp add: at)
  then have "length a + length (strings_ReplaceAll q old a) = length b + length (strings_ReplaceAll q old b)"
    by (metis length_append)
  then have "length a = length b"
    using ReplaceAll_length_mono [of a b q old] ReplaceAll_length_mono [of b a q old] by linarith
  with eq show ?thesis by simp
qed

text \<open>A segment that holds the placeholder expands to a segment of its own.\<close>

lemma ReplaceAll_plain:
  assumes "strings_Contains w ''{key}''" and "slash \<notin> set w" and "plain_seg e"
  shows "plain_seg (strings_ReplaceAll w ''{key}'' e)"
proof -
  obtain p q where at: "strings_ReplaceAll w ''{key}'' e = p @ e @ q"
    using ReplaceAll_at [OF assms(1)] by blast
  have "slash \<notin> set (strings_ReplaceAll w ''{key}'' e)"
    using assms(2,3) by (simp add: ReplaceAll_no_sep plain_seg_def)
  moreover have "p @ e @ q \<notin> {[], ''.'', ''..''}"
    using assms(3) by (auto simp: plain_seg_def append_eq_Cons_conv)
  ultimately show ?thesis by (simp add: at plain_seg_def)
qed

section \<open>Record paths\<close>

text \<open>The segments of a record path below the collection directory.\<close>

definition record_segs :: "api \<Rightarrow> recfile \<Rightarrow> string \<Rightarrow> string list" where
  "record_segs A rf e =
     filter (\<lambda>s. s \<noteq> [] \<and> s \<noteq> ''.'')
       (strings_Split slash (RecordsBasePath A rf) @
        map (\<lambda>w. strings_ReplaceAll w ''{key}'' e) (strings_Split slash (rfName rf)))"

text \<open>A record file definition that never climbs out of the collection directory.\<close>

definition climb_free :: "api \<Rightarrow> recfile \<Rightarrow> bool" where
  "climb_free A rf \<longleftrightarrow>
     ''..'' \<notin> set (strings_Split slash (RecordsBasePath A rf)) \<and>
     ''..'' \<notin> set (strings_Split slash (rfName rf))"

lemma clean_stack_no_up:
  "''..'' \<notin> set ss \<Longrightarrow> clean_stack r acc ss = rev (filter (\<lambda>s. s \<noteq> [] \<and> s \<noteq> ''.'') ss) @ acc"
  by (induction ss arbitrary: acc) (auto simp: clean_stack_def)

lemma expanded_seg:
  assumes "w \<in> set (strings_Split slash t)" and "''..'' \<notin> set (strings_Split slash t)" and "plain_seg e"
  shows "strings_ReplaceAll w ''{key}'' e \<noteq> ''..''"
proof (cases "strings_Contains w ''{key}''")
  case True
  with assms show ?thesis
    using ReplaceAll_plain [of w e] Split_parts_no_sep [OF assms(1)] by auto
next
  case False
  with assms show ?thesis by (auto simp: ReplaceAll_absent)
qed

lemma resolveRecordPath_segs:
  assumes "cdDirPath cd \<noteq> []" and "climb_free A rf" and "plain_seg (recordKeyToFileName k)"
  shows "csegs (resolveRecordPath A cd rf k) =
           csegs (cdDirPath cd) @ record_segs A rf (recordKeyToFileName k)"
    and "rooted (resolveRecordPath A cd rf k) = rooted (cdDirPath cd)"
proof -
  let ?e = "recordKeyToFileName k"
  have split: "strings_Split slash (strings_ReplaceAll (rfName rf) ''{key}'' ?e) =
      map (\<lambda>w. strings_ReplaceAll w ''{key}'' ?e) (strings_Split slash (rfName rf))"
    using ToFileName_no_separator(1) [of k] by (simp add: Split_ReplaceAll)
  have "''..'' \<notin> set (strings_Split slash (RecordsBasePath A rf) @
      map (\<lambda>w. strings_ReplaceAll w ''{key}'' ?e) (strings_Split slash (rfName rf)))"
    using assms(2) expanded_seg [of _ "rfName rf" ?e] assms(3)
    by (auto simp: climb_free_def) (metis (no_types, lifting))
  then show "csegs (resolveRecordPath A cd rf k) =
      csegs (cdDirPath cd) @ record_segs A rf ?e"
    using assms(1)
    by (simp add: resolveRecordPath_def filepath_Join_segs split clean_stack_no_up record_segs_def
          del: filepath_Join.simps)
  show "rooted (resolveRecordPath A cd rf k) = rooted (cdDirPath cd)"
    using assms(1) by (simp add: resolveRecordPath_def filepath_Join_segs del: filepath_Join.simps)
qed

lemma Contains_some_seg:
  "strings_Contains t ''{key}'' \<Longrightarrow> \<exists>w \<in> set (strings_Split slash t). strings_Contains w ''{key}''"
proof (induction "length t" arbitrary: t rule: less_induct)
  case less
  show ?case
  proof (cases "slash \<in> set t")
    case False
    with less.prems show ?thesis by (simp add: Split_no_sep)
  next
    case True
    then obtain a b where t: "t = a @ slash # b" and a: "slash \<notin> set a"
      by (auto dest: split_list_first)
    have "sublist ''{key}'' a \<or> sublist ''{key}'' b"
    proof -
      from less.prems obtain p q where pq: "t = p @ ''{key}'' @ q"
        by (auto simp: Contains_iff_sublist sublist_def)
      show ?thesis
        using pq unfolding t sublist_def
        by (auto simp: append_eq_append_conv2 append_eq_Cons_conv Cons_eq_append_conv)
    qed
    then show ?thesis
    proof
      assume "sublist ''{key}'' a"
      then show ?thesis using a by (auto simp: t Split_append_sep Contains_iff_sublist)
    next
      assume "sublist ''{key}'' b"
      then have "\<exists>w \<in> set (strings_Split slash b). strings_Contains w ''{key}''"
        using less.hyps [of b] by (simp add: t Contains_iff_sublist)
      then show ?thesis using a by (auto simp: t Split_append_sep)
    qed
  qed
qed

lemma requireContainedPath_iff: "requireContainedPath dir path = Inr u \<longleftrightarrow> strictly_inside dir path"
  unfolding Rel_local_iff_inside [symmetric]
  by (auto simp: requireContainedPath_def split: option.splits if_splits)

lemma record_segs_plain:
  assumes "climb_free A rf" and "plain_seg e"
  shows "list_all plain_seg (record_segs A rf e)"
proof -
  have no_sep: "slash \<notin> set w" if "w \<in> set (strings_Split slash t)" for w t
    using that by (rule Split_parts_no_sep)
  have "slash \<notin> set e" using assms(2) by (simp add: plain_seg_def)
  then show ?thesis
    using assms no_sep expanded_seg [of _ "rfName rf" e]
    by (auto simp: record_segs_def climb_free_def list_all_iff plain_seg_def ReplaceAll_no_sep)
qed

lemma record_segs_key:
  assumes "strings_Contains (rfName rf) ''{key}''" and "plain_seg e"
  shows "record_segs A rf e \<noteq> []"
proof -
  obtain w where w: "w \<in> set (strings_Split slash (rfName rf))" "strings_Contains w ''{key}''"
    using Contains_some_seg [OF assms(1)] by blast
  then have "plain_seg (strings_ReplaceAll w ''{key}'' e)"
    using ReplaceAll_plain [of w e] Split_parts_no_sep [OF w(1)] assms(2) by simp
  then have "strings_ReplaceAll w ''{key}'' e \<in> set (record_segs A rf e)"
    using w(1) by (auto simp: record_segs_def plain_seg_def)
  then show ?thesis by auto
qed

text \<open>
  A key that passes the segment check always yields a path inside the collection
  directory: the containment check of \<open>validateRecordFileKey\<close> is defence in depth.
\<close>

lemma record_path_inside:
  assumes "cdDirPath cd \<noteq> []" and "climb_free A rf" and "segment_key k"
    and "strings_Contains (rfName rf) ''{key}''"
  shows "strictly_inside (cdDirPath cd) (resolveRecordPath A cd rf k)"
proof -
  have plain: "plain_seg (recordKeyToFileName k)" using assms(3) by (rule ToFileName_plain)
  show ?thesis
    using resolveRecordPath_segs [OF assms(1,2) plain] record_segs_plain [OF assms(2) plain]
      record_segs_key [OF assms(4) plain, of A]
    by (simp add: strictly_inside_def)
qed

lemma validateRecordFileKey_iff:
  assumes "cdDirPath cd \<noteq> []" and "climb_free A rf" and "strings_Contains (rfName rf) ''{key}''"
  shows "validateRecordFileKey A cd rf k = Inr u \<longleftrightarrow> validateRecordPathSegment A k = Inr ()"
  using record_path_inside [OF assms(1,2) _ assms(3), of k]
    validateRecordPathSegment_segment_key [of A k]
  by (auto simp: validateRecordFileKey_def assms(3) res_simps requireContainedPath_iff)

lemma filter_map_inject:
  assumes "filter P (map f ws) = filter P (map g ws)" and "\<And>w. w \<in> set ws \<Longrightarrow> P (f w) = P (g w)"
    and "w \<in> set ws" and "P (f w)"
  shows "f w = g w"
  using assms by (induction ws) (auto split: if_splits)

lemma record_segs_inject:
  assumes "strings_Contains (rfName rf) ''{key}''" and "plain_seg d" and "plain_seg e"
    and "record_segs A rf d = record_segs A rf e"
  shows "d = e"
proof -
  let ?P = "\<lambda>s :: string. s \<noteq> [] \<and> s \<noteq> ''.''"
  let ?x = "\<lambda>e w. strings_ReplaceAll w ''{key}'' e"
  obtain w where w: "w \<in> set (strings_Split slash (rfName rf))" "strings_Contains w ''{key}''"
    using Contains_some_seg [OF assms(1)] by blast
  have keyed: "?P (?x e v)" if "v \<in> set (strings_Split slash (rfName rf))"
      "strings_Contains v ''{key}''" "plain_seg e" for v e
    using ReplaceAll_plain [of v e] Split_parts_no_sep [OF that(1)] that by (auto simp: plain_seg_def)
  have same: "?P (?x d v) = ?P (?x e v)" if "v \<in> set (strings_Split slash (rfName rf))" for v
    using keyed [OF that] assms(2,3) by (cases "strings_Contains v ''{key}''") (auto simp: ReplaceAll_absent)
  have "filter ?P (map (?x d) (strings_Split slash (rfName rf))) =
      filter ?P (map (?x e) (strings_Split slash (rfName rf)))"
    using assms(4) by (simp add: record_segs_def)
  then have "?x d w = ?x e w"
    using filter_map_inject [of ?P "?x d" _ "?x e" w] same w(1) keyed [OF w assms(2)] by blast
  then show ?thesis using ReplaceAll_inject [OF w(2)] by simp
qed

text \<open>Two valid keys of a collection never share a record file.\<close>

lemma resolveRecordPath_inject:
  assumes "cdDirPath cd \<noteq> []" and "climb_free A rf" and "strings_Contains (rfName rf) ''{key}''"
    and "segment_key j" and "segment_key k"
    and "resolveRecordPath A cd rf j = resolveRecordPath A cd rf k"
  shows "j = k"
proof -
  have plain: "plain_seg (recordKeyToFileName j)" "plain_seg (recordKeyToFileName k)"
    using assms(4,5) by (simp_all add: ToFileName_plain)
  have "record_segs A rf (recordKeyToFileName j) = record_segs A rf (recordKeyToFileName k)"
    using assms(6) resolveRecordPath_segs(1) [OF assms(1,2) plain(1)]
      resolveRecordPath_segs(1) [OF assms(1,2) plain(2)] by simp
  then have "recordKeyToFileName j = recordKeyToFileName k"
    using record_segs_inject [OF assms(3) plain] by simp
  then show ?thesis
    using key_file.enc_inject assms(4,5) by (simp add: segment_key_def)
qed

section \<open>The key extractor\<close>

text \<open>
  The pattern \<open>^prefix(.*?)suffix$\<close> of \<open>buildKeyExtractor\<close>: \<open>pmatch\<close> matches the
  suffix, a list of literal bytes and of \<open>.*\<close> wildcards, up to the end of the text, and
  \<open>lazy_group\<close> is the shortest first group. A dot does not match a line feed.
\<close>

datatype pat = PChar char | PAny

fun pmatch :: "pat list \<Rightarrow> string \<Rightarrow> bool" where
  "pmatch [] s = (s = [])"
| "pmatch (PChar c # ps) [] = False"
| "pmatch (PChar c # ps) (d # s) = (c = d \<and> pmatch ps s)"
| "pmatch (PAny # ps) [] = pmatch ps []"
| "pmatch (PAny # ps) (d # s) = (pmatch ps (d # s) \<or> (d \<noteq> CHR 0x0A \<and> pmatch (PAny # ps) s))"

fun lazy_group :: "pat list \<Rightarrow> string \<Rightarrow> string option" where
  "lazy_group ps [] = (if pmatch ps [] then Some [] else None)"
| "lazy_group ps (d # s) =
     (if pmatch ps (d # s) then Some []
      else if d = CHR 0x0A then None
      else map_option (\<lambda>g. d # g) (lazy_group ps s))"

definition key_pattern :: "string \<Rightarrow> pat list" where
  "key_pattern remainder =
     map (\<lambda>c. if c = CHR 0x00 then PAny else PChar c) (strings_ReplaceAll remainder ''{key}'' [CHR 0x00])"

definition buildKeyExtractor :: "string \<Rightarrow> string \<Rightarrow> string" where
  "buildKeyExtractor nameTemplate relPath =
     (case strings_Index nameTemplate ''{key}'' of
        None \<Rightarrow> strings_TrimSuffix (path_Base relPath) (path_Ext relPath)
      | Some idx \<Rightarrow>
          (let pre = take idx nameTemplate; remainder = drop (idx + 5) nameTemplate in
           if strings_HasPrefix relPath pre
           then (case lazy_group (key_pattern remainder) (drop idx relPath) of
                   None \<Rightarrow> [] | Some g \<Rightarrow> recordKeyFromFileName g)
           else []))"

lemma pmatch_literal: "pmatch (map PChar t) s \<longleftrightarrow> s = t"
proof (induction t arbitrary: s)
  case (Cons c t)
  then show ?case by (cases s) auto
qed auto

lemma lazy_group_literal:
  "CHR 0x0A \<notin> set g \<Longrightarrow> lazy_group (map PChar t) (g @ t) = Some g"
proof (induction g)
  case Nil
  then show ?case by (cases t) (auto simp: pmatch_literal)
next
  case (Cons c g)
  then have "\<not> pmatch (map PChar t) (c # g @ t)" by (simp add: pmatch_literal)
  with Cons show ?case by auto
qed

lemma Index_split:
  "strings_Index s sub = Some i \<Longrightarrow> s = take i s @ sub @ drop (i + length sub) s"
proof (induction s arbitrary: i)
  case Nil
  then show ?case by (simp add: strings_Index.simps split: if_splits)
next
  case (Cons c s)
  show ?case
  proof (cases "prefix sub (c # s)")
    case True
    with Cons.prems have "i = 0" by (simp add: strings_Index.simps [of "c # s"])
    with True show ?thesis by (auto simp: prefix_def)
  next
    case False
    with Cons.prems obtain j where "strings_Index s sub = Some j" "i = Suc j"
      by (auto simp: strings_Index.simps [of "c # s"])
    with Cons.IH [of j] show ?thesis by simp
  qed
qed

lemma Index_ReplaceAll:
  "strings_Index s sub = Some i \<Longrightarrow> sub \<noteq> [] \<Longrightarrow>
     strings_ReplaceAll s sub new = take i s @ new @ strings_ReplaceAll (drop (i + length sub) s) sub new"
proof (induction s arbitrary: i)
  case Nil
  then show ?case by (simp add: strings_Index.simps split: if_splits)
next
  case (Cons c s)
  show ?case
  proof (cases "prefix sub (c # s)")
    case True
    with Cons.prems have "i = 0" by (simp add: strings_Index.simps [of "c # s"])
    with True Cons.prems(2) show ?thesis by (cases sub) auto
  next
    case False
    with Cons.prems obtain j where "strings_Index s sub = Some j" "i = Suc j"
      by (auto simp: strings_Index.simps [of "c # s"])
    with Cons.IH [of j] False Cons.prems(2) show ?thesis by simp
  qed
qed

text \<open>
  A listing recovers the key from the file name, for a template with one placeholder
  and no NUL byte.
\<close>

definition one_key_template :: "string \<Rightarrow> bool" where
  "one_key_template t \<longleftrightarrow>
     (case strings_Index t ''{key}'' of
        None \<Rightarrow> False
      | Some i \<Rightarrow> \<not> strings_Contains (drop (i + 5) t) ''{key}'' \<and> CHR 0x00 \<notin> set t)"

lemma buildKeyExtractor_expanded:
  assumes "one_key_template t" and "\<not> has_control k" and "escape_free k"
  shows "buildKeyExtractor t (strings_ReplaceAll t ''{key}'' (recordKeyToFileName k)) = k"
proof -
  obtain i where i: "strings_Index t ''{key}'' = Some i"
      and rest: "\<not> strings_Contains (drop (i + 5) t) ''{key}''" and nul: "CHR 0x00 \<notin> set t"
    using assms(1) by (auto simp: one_key_template_def split: option.splits)
  let ?e = "recordKeyToFileName k" and ?suf = "drop (i + 5) t"
  have name: "strings_ReplaceAll t ''{key}'' ?e = take i t @ ?e @ ?suf"
    using Index_ReplaceAll [OF i, of ?e] ReplaceAll_absent [OF rest, of ?e]
    by (simp add: eval_nat_numeral)
  have len: "length (take i t) = i"
    using arg_cong [OF Index_split [OF i], of length] by simp
  have "CHR 0x00 \<notin> set ?suf" using nul by (auto dest: in_set_dropD)
  then have pat: "key_pattern ?suf = map PChar ?suf"
    using rest by (auto simp: key_pattern_def ReplaceAll_absent)
  have "lazy_group (key_pattern ?suf) (?e @ ?suf) = Some ?e"
    unfolding pat by (rule lazy_group_literal) (use assms(2) in \<open>rule ToFileName_control\<close>)
  with i name len show ?thesis
    by (simp add: buildKeyExtractor_def Let_def strings_HasPrefix_def FromFileName_ToFileName assms(3))
qed

interpretation listed_key: escaping
  "\<lambda>(t, k). (t, strings_ReplaceAll t ''{key}'' (recordKeyToFileName k))"
  "\<lambda>(t, name). (t, buildKeyExtractor t name)"
  "\<lambda>(t, k). one_key_template t \<and> segment_key k"
  by unfold_locales (auto simp: buildKeyExtractor_expanded segment_key_def)

section \<open>The collection of an ID\<close>

fun best_step ::
  "string \<Rightarrow> coldef option \<times> string \<times> nat \<Rightarrow> string \<times> coldef \<Rightarrow> coldef option \<times> string \<times> nat" where
  "best_step rid (bestColDef, bestKey, bestLen) (colID, colDef) =
     (let pre = colID @ [slash] in
      if bestLen + 1 < length pre \<and> strings_HasPrefix rid pre
      then (Some colDef, drop (length pre) rid, length pre - 1)
      else (bestColDef, bestKey, bestLen))"

definition CollectionForKey :: "api \<Rightarrow> collections \<Rightarrow> string \<Rightarrow> (coldef \<times> string) res" where
  "CollectionForKey A collections rid =
     (case strings_Cut rid slash of (collectionSegment, _, found) \<Rightarrow>
        if \<not> found then Inl (EInvalidID rid)
        else rbind (map_err (EWrap (''invalid collection in ID '' @ rid))
                      (ValidateCollectionID A collectionSegment)) (\<lambda>_.
          (case foldl (best_step rid) (None, [], 0) collections of (bestColDef, bestKey, _) \<Rightarrow>
             (case bestColDef of
                None \<Rightarrow> Inl (ECollectionNotFoundForID rid)
              | Some cd \<Rightarrow> if bestKey = [] then Inl (ENoRecordKey rid) else Inr (cd, bestKey)))))"

definition matching :: "string \<Rightarrow> string \<Rightarrow> bool" where
  "matching rid colID \<longleftrightarrow> colID \<noteq> [] \<and> prefix (colID @ [slash]) rid"

definition best_inv :: "string \<Rightarrow> collections \<Rightarrow> coldef option \<times> string \<times> nat \<Rightarrow> bool" where
  "best_inv rid cs st \<longleftrightarrow>
     (case st of
        (None, key, len) \<Rightarrow> len = 0 \<and> (\<forall>(c, cd) \<in> set cs. \<not> matching rid c)
      | (Some cd, key, len) \<Rightarrow>
          \<exists>c. (c, cd) \<in> set cs \<and> matching rid c \<and> len = length c \<and> rid = c @ slash # key \<and>
              (\<forall>(d, _) \<in> set cs. matching rid d \<longrightarrow> length d \<le> length c))"

lemma best_inv_step:
  assumes "best_inv rid cs st"
  shows "best_inv rid (cs @ [x]) (best_step rid st x)"
proof -
  obtain best key len where st: "st = (best, key, len)" by (cases st)
  obtain c cd where x: "x = (c, cd)" by (cases x)
  show ?thesis
  proof (cases "len < length c \<and> matching rid c")
    case True
    then have "best_step rid st x = (Some cd, drop (Suc (length c)) rid, length c)"
      by (simp add: st x strings_HasPrefix_def matching_def)
    moreover have "rid = c @ slash # drop (Suc (length c)) rid"
      using True by (auto simp: matching_def prefix_def)
    moreover have "length d \<le> length c" if "(d, e) \<in> set cs" "matching rid d" for d e
      using assms True that by (fastforce simp: best_inv_def st split: option.splits)
    ultimately show ?thesis using True by (auto simp: best_inv_def x)
  next
    case False
    then have same: "best_step rid st x = st"
      using assms by (auto simp: st x strings_HasPrefix_def matching_def Let_def)
    have "\<not> matching rid c \<or> length c \<le> len" using False by auto
    then show ?thesis
      unfolding same using assms
      by (auto simp: best_inv_def st x matching_def split: option.splits)
  qed
qed

lemma best_inv_foldl: "best_inv rid cs (foldl (best_step rid) (None, [], 0) cs)"
  by (induction cs rule: rev_induct) (simp add: best_inv_def, simp add: best_inv_step)

text \<open>
  The longest collection ID that is a prefix of the ID wins, whatever the order the
  runtime visits the collections in.
\<close>

lemma CollectionForKey_iff:
  assumes "wf_map collections" and "ValidateCollectionID A (fst (strings_Cut rid slash)) = Inr ()"
  shows "CollectionForKey A collections rid = Inr (cd, k) \<longleftrightarrow>
     k \<noteq> [] \<and> (\<exists>c. go_get collections c = Some cd \<and> c \<noteq> [] \<and> rid = c @ slash # k \<and>
       (\<forall>d. go_get collections d \<noteq> None \<longrightarrow> matching rid d \<longrightarrow> length d \<le> length c))"
    (is "?L \<longleftrightarrow> ?R")
proof -
  obtain best key len where st: "foldl (best_step rid) (None, [], 0) collections = (best, key, len)"
    by (metis prod_cases3)
  have inv: "best_inv rid collections (best, key, len)"
    using best_inv_foldl [of rid collections] by (simp add: st)
  have found: "snd (snd (strings_Cut s slash)) \<longleftrightarrow> slash \<in> set s" for s
    by (induction s) (auto split: prod.splits)
  have L: "?L \<longleftrightarrow> slash \<in> set rid \<and> best = Some cd \<and> key = k \<and> k \<noteq> []"
    using assms(2) found [of rid]
    by (auto simp: CollectionForKey_def st split: prod.splits option.splits)
  show ?thesis
  proof
    assume ?L
    with L inv obtain c where "(c, cd) \<in> set collections" "matching rid c" "rid = c @ slash # k"
        "\<forall>(d, _) \<in> set collections. matching rid d \<longrightarrow> length d \<le> length c" "k \<noteq> []"
      by (auto simp: best_inv_def)
    then show ?R
      using assms(1) by (auto simp: go_get_mem matching_def)
  next
    assume ?R
    then obtain c where c: "(c, cd) \<in> set collections" "rid = c @ slash # k" "matching rid c" "k \<noteq> []"
        "\<forall>(d, e) \<in> set collections. matching rid d \<longrightarrow> length d \<le> length c"
      using assms(1) by (auto simp: go_get_mem matching_def)
    with inv obtain b e where b: "best = Some e" "(b, e) \<in> set collections" "rid = b @ slash # key"
        "matching rid b" "\<forall>(d, _) \<in> set collections. matching rid d \<longrightarrow> length d \<le> length b"
      by (cases best) (auto simp: best_inv_def)
    have "length b = length c" using b c by fastforce
    then have "b = c \<and> key = k" using b(3) c(2) by simp
    then have "e = cd" using b(2) c(1) assms(1) by (metis go_get_mem option.inject)
    moreover have "slash \<in> set rid" using c(2) by simp
    ultimately show ?L
      unfolding L using b(1) c(4) \<open>b = c \<and> key = k\<close> by simp
  qed
qed

end
