(* ===== verification/ScopedCollection.thy ===== *)
theory ScopedCollection
  imports RecordKeys
begin

text \<open>
  Nested collections: \<open>resolveScopedCollection\<close> of \<open>scoped_collection.go\<close> and the key
  resolution of \<open>tx_readonly.go\<close>. A nested collection lives below the directory of its
  parent record; the lemmas show that the directory is inside the root collection and
  that different parent chains never share one.
\<close>

datatype key = Key (kCollection: string) (kID: val) (kParent: "key option")

text \<open>The chain of a key, root first: \<open>(collection, record ID)\<close> pairs.\<close>

fun key_steps :: "api \<Rightarrow> key \<Rightarrow> (string \<times> string) list" where
  "key_steps A (Key c i None) = [(c, fmt_v (FmtFloat A) i)]"
| "key_steps A (Key c i (Some p)) = key_steps A p @ [(c, fmt_v (FmtFloat A) i)]"

fun walk ::
  "coldef \<Rightarrow> string \<Rightarrow> string \<Rightarrow> (string \<times> string) list \<Rightarrow> (coldef \<times> string \<times> string) res" where
  "walk cur dir parentID [] = Inr (cur, dir, parentID)"
| "walk cur dir parentID ((subColID, rid) # rest) =
     (case go_get (cdSubCollections cur) subColID of
        None \<Rightarrow> Inl (ECollectionNotInDefinition subColID)
      | Some sub \<Rightarrow>
          walk sub (filepath_Join [dir, recordKeyToFileName parentID, subColID]) rid rest)"

definition resolveScopedCollection ::
  "api \<Rightarrow> collections option \<Rightarrow> string \<Rightarrow> key option \<Rightarrow> coldef res" where
  "resolveScopedCollection A def collection parent =
     (case def of
        None \<Rightarrow> Inl ENoDefinition
      | Some collections \<Rightarrow>
          (case parent of
             None \<Rightarrow>
               (case go_get collections collection of
                  None \<Rightarrow> Inl (ECollectionNotInDefinition collection)
                | Some colDef \<Rightarrow> Inr colDef)
           | Some p \<Rightarrow>
               (let ancestors = key_steps A p in
                case go_get collections (fst (hd ancestors)) of
                  None \<Rightarrow> Inl (ECollectionNotInDefinition (fst (hd ancestors)))
                | Some rootDef \<Rightarrow>
                    rbind (rcheck (\<lambda>a. validateRecordPathSegment A (snd a)) ancestors) (\<lambda>_.
                    rbind (walk rootDef (cdDirPath rootDef) (snd (hd ancestors)) (tl ancestors))
                      (\<lambda>(cur, dir, parentID).
                        (case go_get (cdSubCollections cur) collection of
                           None \<Rightarrow> Inl (ECollectionNotInDefinition collection)
                         | Some target \<Rightarrow>
                             (let dir' = filepath_Join [dir, recordKeyToFileName parentID, collection]
                              in rbind (requireContainedPath (cdDirPath rootDef) dir') (\<lambda>_.
                                   Inr (with_DirPath dir' target)))))))))"

text \<open>
  \<open>resolveCollection\<close> of \<open>tx_readonly.go\<close>. The record file it found, not nil, is
  returned beside the definition that points to it.
\<close>

definition resolveCollection ::
  "api \<Rightarrow> collections option \<Rightarrow> key option \<Rightarrow> (coldef \<times> recfile \<times> string) res" where
  "resolveCollection A def key =
     (case def of
        None \<Rightarrow> Inl ENoDefinition
      | Some _ \<Rightarrow>
          (case key of
             None \<Rightarrow> Inl ENilKey
           | Some k \<Rightarrow>
               rbind (resolveScopedCollection A def (kCollection k) (kParent k)) (\<lambda>colDef.
                 (case cdRecordFile colDef of
                    None \<Rightarrow> Inl (ENoRecordFile (kCollection k))
                  | Some rf \<Rightarrow>
                      (let recordKey = fmt_v (FmtFloat A) (kID k) in
                       rbind (validateRecordFileKey A colDef rf recordKey) (\<lambda>_.
                         Inr (colDef, rf, recordKey)))))))"

section \<open>The directories of nested collections\<close>

text \<open>Every subcollection name, at every depth, is one directory name.\<close>

fun plain_names :: "coldef \<Rightarrow> bool" where
  "plain_names (CollectionDef i d rf cols ord subs src pk) \<longleftrightarrow>
     (\<forall>x \<in> set subs. plain_seg (fst x) \<and> plain_names (snd x))"

lemma plain_namesD:
  assumes "plain_names cd" and "go_get (cdSubCollections cd) n = Some sub"
  shows "plain_seg n" and "plain_names sub"
proof -
  have "(n, sub) \<in> set (cdSubCollections cd)"
    using assms(2) by (auto simp: go_get_def dest: map_of_SomeD)
  then show "plain_seg n" "plain_names sub"
    using assms(1) by (cases cd; force)+
qed

text \<open>Parent IDs and collection names, interleaved below the root directory.\<close>

fun scope_segs :: "string \<Rightarrow> (string \<times> string) list \<Rightarrow> string \<Rightarrow> string list" where
  "scope_segs pid [] collection = [recordKeyToFileName pid, collection]"
| "scope_segs pid ((c, i) # rest) collection =
     recordKeyToFileName pid # c # scope_segs i rest collection"

lemma scope_segs_nonempty [simp]: "scope_segs p xs c \<noteq> []" "[] \<noteq> scope_segs p xs c"
  by (cases "(p, xs, c)" rule: scope_segs.cases; simp)+

lemma length_scope_segs: "length (scope_segs p xs c) = 2 * length xs + 2"
  by (induction p xs c rule: scope_segs.induct) auto

lemma key_steps_nonempty [simp]: "key_steps A k \<noteq> []"
  by (induction A k rule: key_steps.induct) auto

lemma walk_segs:
  assumes "walk cur dir pid steps = Inr (last_cd, dir', pid')"
    and "go_get (cdSubCollections last_cd) collection = Some target"
    and "plain_names cur" and "dir \<noteq> []"
    and "segment_key pid" and "\<And>c i. (c, i) \<in> set steps \<Longrightarrow> segment_key i"
  shows "csegs (filepath_Join [dir', recordKeyToFileName pid', collection]) =
           csegs dir @ scope_segs pid steps collection \<and>
         rooted (filepath_Join [dir', recordKeyToFileName pid', collection]) = rooted dir \<and>
         plain_names target \<and> list_all plain_seg (scope_segs pid steps collection)"
  using assms
proof (induction cur dir pid steps rule: walk.induct)
  case (1 cur dir pid)
  then have "plain_seg collection" "plain_names target" "plain_seg (recordKeyToFileName pid)"
    by (auto simp: plain_namesD ToFileName_plain)
  with 1 show ?case
    using filepath_Join_plain [of dir "[recordKeyToFileName pid, collection]"]
    by (simp del: filepath_Join.simps)
next
  case (2 cur dir pid c i rest)
  let ?dir = "filepath_Join [dir, recordKeyToFileName pid, c]"
  from "2.prems"(1) obtain sub where sub: "go_get (cdSubCollections cur) c = Some sub"
      and rest: "walk sub ?dir i rest = Inr (last_cd, dir', pid')"
    by (auto simp del: filepath_Join.simps split: option.splits)
  have plain: "plain_seg c" "plain_names sub" "plain_seg (recordKeyToFileName pid)"
    using plain_namesD [OF "2.prems"(3) sub] "2.prems"(5) by (simp_all add: ToFileName_plain)
  have here: "csegs ?dir = csegs dir @ [recordKeyToFileName pid, c]" "rooted ?dir = rooted dir"
    using filepath_Join_plain [of dir "[recordKeyToFileName pid, c]"] "2.prems"(4) plain
    by (simp_all del: filepath_Join.simps)
  have "?dir \<noteq> []" using here(1) by (auto simp: csegs_def)
  moreover have "segment_key i" "\<And>c i. (c, i) \<in> set rest \<Longrightarrow> segment_key i"
    using "2.prems"(6) by auto
  ultimately show ?case
    using "2.IH" [OF sub rest "2.prems"(2) plain(2)] here plain by (simp del: filepath_Join.simps)
qed

lemma scope_segs_inject:
  assumes "scope_segs p xs c = scope_segs q ys d" and "escape_free p" and "escape_free q"
    and "\<And>c i. (c, i) \<in> set xs \<Longrightarrow> escape_free i" and "\<And>c i. (c, i) \<in> set ys \<Longrightarrow> escape_free i"
  shows "p = q \<and> xs = ys \<and> c = d"
  using assms
proof (induction p xs c arbitrary: q ys rule: scope_segs.induct)
  case (1 p c)
  have "ys = []" using "1.prems"(1) by (cases ys) (auto elim: scope_segs.elims)
  with 1 show ?case by (auto intro: key_file.enc_inject)
next
  case (2 p c i rest col)
  obtain e j more where ys: "ys = (e, j) # more"
    using "2.prems"(1) by (cases ys) (auto elim: scope_segs.elims)
  with "2.prems"(1) have eqs: "recordKeyToFileName p = recordKeyToFileName q" "c = e"
      "scope_segs i rest col = scope_segs j more d"
    by auto
  have free: "escape_free i" "escape_free j" using "2.prems"(4,5) ys by auto
  have more: "\<And>c i. (c, i) \<in> set rest \<Longrightarrow> escape_free i" "\<And>c i. (c, i) \<in> set more \<Longrightarrow> escape_free i"
    using "2.prems"(4,5) ys by auto
  from "2.IH" [OF eqs(3) free more] eqs ys "2.prems"(2,3) show ?case
    by (auto intro: key_file.enc_inject)
qed

text \<open>What a successful resolution of a nested collection returns.\<close>

lemma resolveScopedCollection_nested:
  assumes "resolveScopedCollection A (Some cols) collection (Some p) = Inr cd"
    and "\<And>c rootDef. go_get cols c = Some rootDef \<Longrightarrow> plain_names rootDef \<and> cdDirPath rootDef \<noteq> []"
  obtains rootDef where "go_get cols (fst (hd (key_steps A p))) = Some rootDef"
    and "csegs (cdDirPath cd) = csegs (cdDirPath rootDef) @
           scope_segs (snd (hd (key_steps A p))) (tl (key_steps A p)) collection"
    and "rooted (cdDirPath cd) = rooted (cdDirPath rootDef)"
    and "\<And>c i. (c, i) \<in> set (key_steps A p) \<Longrightarrow> segment_key i"
    and "strictly_inside (cdDirPath rootDef) (cdDirPath cd)"
proof -
  let ?as = "key_steps A p"
  from assms(1) obtain rootDef cur dir pid target where
      rootDef: "go_get cols (fst (hd ?as)) = Some rootDef"
    and ok: "rcheck (\<lambda>a. validateRecordPathSegment A (snd a)) ?as = Inr ()"
    and walk: "walk rootDef (cdDirPath rootDef) (snd (hd ?as)) (tl ?as) = Inr (cur, dir, pid)"
    and target: "go_get (cdSubCollections cur) collection = Some target"
    and inside: "requireContainedPath (cdDirPath rootDef)
                   (filepath_Join [dir, recordKeyToFileName pid, collection]) = Inr ()"
    and cd: "cd = with_DirPath (filepath_Join [dir, recordKeyToFileName pid, collection]) target"
    by (auto simp: resolveScopedCollection_def Let_def res_simps simp del: filepath_Join.simps
          split: option.splits)
  have seg: "segment_key i" if "(c, i) \<in> set ?as" for c i
    using ok that validateRecordPathSegment_segment_key [of A i] by (force simp: rcheck_eq_Inr)
  have "(fst (hd ?as), snd (hd ?as)) \<in> set ?as" by simp
  then have hd: "segment_key (snd (hd ?as))" by (rule seg)
  have tl: "segment_key i" if "(c, i) \<in> set (tl ?as)" for c i
    using that seg [of c i] by (simp add: list.set_sel(2))
  show thesis
    using that [OF rootDef _ _ seg] walk_segs [OF walk target _ _ hd tl] assms(2) [OF rootDef] inside
    by (simp add: cd requireContainedPath_iff del: filepath_Join.simps)
qed

text \<open>Root collections whose directories are not nested in one another.\<close>

definition separate_roots :: "collections \<Rightarrow> bool" where
  "separate_roots cols \<longleftrightarrow>
     (\<forall>c d x y. go_get cols c = Some x \<longrightarrow> go_get cols d = Some y \<longrightarrow> c \<noteq> d \<longrightarrow>
        \<not> prefix (csegs (cdDirPath x)) (csegs (cdDirPath y)))"

definition nestable :: "collections \<Rightarrow> bool" where
  "nestable cols \<longleftrightarrow>
     (\<forall>c rootDef. go_get cols c = Some rootDef \<longrightarrow> plain_names rootDef \<and> cdDirPath rootDef \<noteq> [])"

lemma nestableD: "nestable cols \<Longrightarrow> go_get cols c = Some rootDef \<Longrightarrow> plain_names rootDef \<and> cdDirPath rootDef \<noteq> []"
  by (simp add: nestable_def)

lemma steps_eqI:
  "xs \<noteq> [] \<Longrightarrow> ys \<noteq> [] \<Longrightarrow> fst (hd xs) = fst (hd ys) \<Longrightarrow> snd (hd xs) = snd (hd ys) \<Longrightarrow>
     tl xs = tl ys \<Longrightarrow> xs = ys"
  by (metis list.collapse prod.collapse)

lemma scoped_directories_differ:
  assumes "nestable cols" and "separate_roots cols"
    and "resolveScopedCollection A (Some cols) c (Some p) = Inr x"
    and "resolveScopedCollection A (Some cols) d (Some q) = Inr y"
    and "cdDirPath x = cdDirPath y"
  shows "c = d \<and> key_steps A p = key_steps A q"
proof -
  note nested = resolveScopedCollection_nested [OF _ nestableD [OF assms(1)]]
  obtain r where r: "go_get cols (fst (hd (key_steps A p))) = Some r"
      "csegs (cdDirPath x) = csegs (cdDirPath r) @
         scope_segs (snd (hd (key_steps A p))) (tl (key_steps A p)) c"
      "\<And>c i. (c, i) \<in> set (key_steps A p) \<Longrightarrow> segment_key i"
    by (rule nested [OF assms(3)]) auto
  obtain s where s: "go_get cols (fst (hd (key_steps A q))) = Some s"
      "csegs (cdDirPath y) = csegs (cdDirPath s) @
         scope_segs (snd (hd (key_steps A q))) (tl (key_steps A q)) d"
      "\<And>c i. (c, i) \<in> set (key_steps A q) \<Longrightarrow> segment_key i"
    by (rule nested [OF assms(4)]) auto
  have eq: "csegs (cdDirPath r) @ scope_segs (snd (hd (key_steps A p))) (tl (key_steps A p)) c =
      csegs (cdDirPath s) @ scope_segs (snd (hd (key_steps A q))) (tl (key_steps A q)) d"
    using r(2) s(2) assms(5) by simp
  then have "prefix (csegs (cdDirPath r)) (csegs (cdDirPath s)) \<or>
      prefix (csegs (cdDirPath s)) (csegs (cdDirPath r))"
    by (metis prefixI prefix_same_cases)
  then have rootDef: "fst (hd (key_steps A p)) = fst (hd (key_steps A q))"
    using assms(2) r(1) s(1) unfolding separate_roots_def by metis
  with r(1) s(1) have "r = s" by simp
  with eq have segs: "scope_segs (snd (hd (key_steps A p))) (tl (key_steps A p)) c =
      scope_segs (snd (hd (key_steps A q))) (tl (key_steps A q)) d" by simp
  have free: "escape_free i" if "(c, i) \<in> set (key_steps A p) \<or> (c, i) \<in> set (key_steps A q)" for c i
    using r(3) s(3) that by (auto simp: segment_key_def)
  have "snd (hd (key_steps A p)) = snd (hd (key_steps A q)) \<and> tl (key_steps A p) = tl (key_steps A q) \<and> c = d"
    by (rule scope_segs_inject [OF segs])
      (metis free hd_in_set key_steps_nonempty prod.collapse,
       metis free hd_in_set key_steps_nonempty prod.collapse,
       meson free list.set_sel(2) key_steps_nonempty, meson free list.set_sel(2) key_steps_nonempty)
  with rootDef show ?thesis
    by (simp add: steps_eqI)
qed

section \<open>The location of a record\<close>

text \<open>
  How many directory levels below its collection a record file sits, and the collections
  whose record files, at every nesting depth, all have a key placeholder and sit at one level.
\<close>

definition file_depth :: "api \<Rightarrow> recfile \<Rightarrow> nat" where
  "file_depth A rf =
     length (filter (\<lambda>s. s \<noteq> [] \<and> s \<noteq> ''.'') (strings_Split slash (RecordsBasePath A rf) @ strings_Split slash (rfName rf)))"

fun files_at :: "api \<Rightarrow> nat \<Rightarrow> coldef \<Rightarrow> bool" where
  "files_at A n (CollectionDef i d rf cols ord subs src pk) \<longleftrightarrow>
     (case rf of None \<Rightarrow> True | Some f \<Rightarrow> climb_free A f \<and> strings_Contains (rfName f) ''{key}'' \<and> file_depth A f = n) \<and>
     (\<forall>x \<in> set subs. files_at A n (snd x))"

lemma files_at_sub:
  assumes "files_at A n cd" and "go_get (cdSubCollections cd) c = Some sub"
  shows "files_at A n sub"
proof -
  have "(c, sub) \<in> set (cdSubCollections cd)"
    using assms(2) by (auto simp: go_get_def dest: map_of_SomeD)
  with assms(1) show ?thesis by (cases cd) force
qed

lemma files_at_file:
  "files_at A n cd \<Longrightarrow> cdRecordFile cd = Some f \<Longrightarrow>
   climb_free A f \<and> strings_Contains (rfName f) ''{key}'' \<and> file_depth A f = n"
  by (cases cd) simp

lemma files_at_walk: "walk cur dir pid steps = Inr (a, b, c) \<Longrightarrow> files_at A n cur \<Longrightarrow> files_at A n a"
  by (induction cur dir pid steps rule: walk.induct)
    (auto simp: files_at_sub simp del: filepath_Join.simps split: option.splits)

lemma files_at_with_DirPath [simp]: "files_at A n (with_DirPath d cd) = files_at A n cd"
  by (cases cd) simp

lemma resolveScopedCollection_files_at:
  assumes "resolveScopedCollection A (Some cols) c p = Inr cd"
    and "\<And>r rootDef. go_get cols r = Some rootDef \<Longrightarrow> files_at A n rootDef"
  shows "files_at A n cd"
proof -
  have deep: "files_at A n y" if "go_get cols r = Some rootDef" "walk rootDef d i steps = Inr (a, b, e)"
      "go_get (cdSubCollections a) c = Some y" for r rootDef d i steps a b e y
    using files_at_sub [OF files_at_walk [OF that(2) assms(2) [OF that(1)]] that(3)] .
  show ?thesis
    using assms(1)
    by (auto simp: resolveScopedCollection_def Let_def res_simps simp del: filepath_Join.simps
        dest: assms(2) split: option.splits) (blast intro: deep)
qed

lemma length_record_segs:
  assumes "plain_seg e"
  shows "length (record_segs A rf e) = file_depth A rf"
proof -
  have "filter (\<lambda>s. s \<noteq> [] \<and> s \<noteq> ''.'') (map (\<lambda>w. strings_ReplaceAll w ''{key}'' e) (strings_Split slash (rfName rf))) =
      map (\<lambda>w. strings_ReplaceAll w ''{key}'' e) (filter (\<lambda>s. s \<noteq> [] \<and> s \<noteq> ''.'') (strings_Split slash (rfName rf)))"
  proof -
    have "strings_ReplaceAll w ''{key}'' e \<noteq> [] \<and> strings_ReplaceAll w ''{key}'' e \<noteq> ''.'' \<longleftrightarrow> w \<noteq> [] \<and> w \<noteq> ''.''"
      if "w \<in> set (strings_Split slash (rfName rf))" for w
    proof (cases "strings_Contains w ''{key}''")
      case True
      then have "w \<noteq> []" "w \<noteq> ''.''" by (auto simp: strings_Contains.simps)
      with ReplaceAll_plain [OF True _ assms] Split_parts_no_sep [OF that] show ?thesis by (auto simp: plain_seg_def)
    qed (simp add: ReplaceAll_absent)
    then show ?thesis by (simp add: filter_map comp_def cong: filter_cong)
  qed
  then show ?thesis by (simp add: record_segs_def file_depth_def)
qed

lemma steps_of_key:
  "key_steps A k = (case kParent k of None \<Rightarrow> [] | Some p \<Rightarrow> key_steps A p) @
     [(kCollection k, fmt_v (FmtFloat A) (kID k))]"
  by (cases "(A, k)" rule: key_steps.cases) auto

lemma resolveCollection_parts:
  assumes "resolveCollection A (Some cols) (Some k) = Inr (cd, rf, r)"
  shows "resolveScopedCollection A (Some cols) (kCollection k) (kParent k) = Inr cd"
    and "cdRecordFile cd = Some rf" and "r = fmt_v (FmtFloat A) (kID k)"
    and "validateRecordFileKey A cd rf r = Inr ()"
  using assms by (auto simp: resolveCollection_def res_simps Let_def split: option.splits)

lemma resolveCollection_segment_key:
  assumes "resolveCollection A (Some cols) (Some k) = Inr (cd, rf, r)"
    and "strings_Contains (rfName rf) ''{key}''"
  shows "segment_key r"
  using resolveCollection_parts(4) [OF assms(1)] assms(2) validateRecordPathSegment_segment_key [of A r]
  by (auto simp: validateRecordFileKey_def res_simps)

definition parent_segs :: "api \<Rightarrow> key \<Rightarrow> string list" where
  "parent_segs A k =
     (case kParent k of
        None \<Rightarrow> []
      | Some p \<Rightarrow> scope_segs (snd (hd (key_steps A p))) (tl (key_steps A p)) (kCollection k))"

lemma resolveCollection_dir:
  assumes "resolveCollection A (Some cols) (Some k) = Inr (cd, rf, r)" and "nestable cols"
  obtains rootDef where "go_get cols (fst (hd (key_steps A k))) = Some rootDef"
    and "csegs (cdDirPath cd) = csegs (cdDirPath rootDef) @ parent_segs A k"
    and "cdDirPath cd \<noteq> []"
    and "\<And>p c i. kParent k = Some p \<Longrightarrow> (c, i) \<in> set (key_steps A p) \<Longrightarrow> escape_free i"
proof -
  note scoped = resolveCollection_parts(1) [OF assms(1)]
  show thesis
  proof (cases "kParent k")
    case None
    with scoped that assms(2) show thesis
      by (auto simp: resolveScopedCollection_def steps_of_key [of A k] parent_segs_def nestable_def
            split: option.splits)
  next
    case (Some p)
    note nested = resolveScopedCollection_nested [OF scoped [unfolded Some] nestableD [OF assms(2)]]
    have hd: "hd (key_steps A k) = hd (key_steps A p)"
      by (simp add: steps_of_key [of A k] Some)
    show thesis
    proof (rule nested)
      fix rootDef
      assume *: "go_get cols (fst (hd (key_steps A p))) = Some rootDef"
        "csegs (cdDirPath cd) = csegs (cdDirPath rootDef) @
           scope_segs (snd (hd (key_steps A p))) (tl (key_steps A p)) (kCollection k)"
        "\<And>c i. (c, i) \<in> set (key_steps A p) \<Longrightarrow> segment_key i"
      then have "cdDirPath cd \<noteq> []" by (auto simp: csegs_def)
      with * that show thesis by (auto simp: hd parent_segs_def Some segment_key_def)
    qed
  qed
qed

text \<open>
  Two records that resolve to the same file have the same chain of collections and IDs,
  the parents' included.
\<close>

lemma parent_segs_inject:
  assumes "parent_segs A j = parent_segs A k"
    and "fst (hd (key_steps A j)) = fst (hd (key_steps A k))"
    and "\<And>p c i. kParent j = Some p \<Longrightarrow> (c, i) \<in> set (key_steps A p) \<Longrightarrow> escape_free i"
    and "\<And>p c i. kParent k = Some p \<Longrightarrow> (c, i) \<in> set (key_steps A p) \<Longrightarrow> escape_free i"
  shows "kCollection j = kCollection k \<and> butlast (key_steps A j) = butlast (key_steps A k)"
proof (cases "kParent j")
  case None
  with assms(1) have "kParent k = None"
    by (cases "kParent k") (simp_all add: parent_segs_def)
  with None assms(2) show ?thesis by (simp add: steps_of_key [of A j] steps_of_key [of A k])
next
  case (Some p)
  with assms(1) obtain q where q: "kParent k = Some q"
    by (cases "kParent k") (simp_all add: parent_segs_def)
  have root: "fst (hd (key_steps A p)) = fst (hd (key_steps A q))"
    using assms(2) by (simp add: steps_of_key [of A j] steps_of_key [of A k] Some q)
  have segs: "scope_segs (snd (hd (key_steps A p))) (tl (key_steps A p)) (kCollection j) =
      scope_segs (snd (hd (key_steps A q))) (tl (key_steps A q)) (kCollection k)"
    using assms(1) by (simp add: parent_segs_def Some q)
  have free: "escape_free i" if "(c, i) \<in> set (key_steps A p) \<or> (c, i) \<in> set (key_steps A q)" for c i
    using assms(3) [OF Some] assms(4) [OF q] that by blast
  have "snd (hd (key_steps A p)) = snd (hd (key_steps A q)) \<and> tl (key_steps A p) = tl (key_steps A q) \<and>
      kCollection j = kCollection k"
    by (rule scope_segs_inject [OF segs])
      (metis free hd_in_set key_steps_nonempty prod.collapse,
       metis free hd_in_set key_steps_nonempty prod.collapse,
       meson free list.set_sel(2) key_steps_nonempty, meson free list.set_sel(2) key_steps_nonempty)
  with root have "key_steps A p = key_steps A q" "kCollection j = kCollection k" by (simp_all add: steps_eqI)
  then show ?thesis by (simp add: steps_of_key [of A j] steps_of_key [of A k] Some q)
qed

lemma resolveScopedCollection_steps:
  assumes "resolveCollection A (Some cols) (Some j) = Inr (x, rf, r)"
    and "resolveCollection A (Some cols) (Some k) = Inr (y, rf', s)"
    and "kCollection j = kCollection k" and "butlast (key_steps A j) = butlast (key_steps A k)"
  shows "x = y \<and> rf = rf'"
proof -
  consider "kParent j = None" "kParent k = None"
    | p q where "kParent j = Some p" "kParent k = Some q" "key_steps A p = key_steps A q"
    using assms(4)
    by (auto simp: steps_of_key [of A j] steps_of_key [of A k] key_steps_nonempty [symmetric] split: option.splits)
  then have "resolveScopedCollection A (Some cols) (kCollection j) (kParent j) =
      resolveScopedCollection A (Some cols) (kCollection k) (kParent k)"
    using assms(3) by cases (simp_all add: resolveScopedCollection_def)
  with resolveCollection_parts(1,2) [OF assms(1)] resolveCollection_parts(1,2) [OF assms(2)] show ?thesis by simp
qed

text \<open>
  A project whose layout keeps records apart: no root collection is inside another, collection
  names are directory names, and all record files sit at one level of their collection. Without
  the last condition a file name such as \<open>{key}/sub/{key}.yaml\<close> would meet the files of the nested
  collection \<open>sub\<close>.
\<close>

definition keyed_project :: "api \<Rightarrow> collections \<Rightarrow> bool" where
  "keyed_project A cols \<longleftrightarrow> nestable cols \<and> separate_roots cols \<and>
     (\<exists>n. \<forall>c rootDef. go_get cols c = Some rootDef \<longrightarrow> files_at A n rootDef)"

lemma record_location_inject:
  assumes "keyed_project A cols"
    and j: "resolveCollection A (Some cols) (Some j) = Inr (x, rf, r)"
    and k: "resolveCollection A (Some cols) (Some k) = Inr (y, rf', s)"
    and path: "resolveRecordPath A x rf r = resolveRecordPath A y rf' s"
  shows "key_steps A j = key_steps A k"
proof -
  from assms(1) obtain n where nest: "nestable cols" and sep: "separate_roots cols"
      and at: "\<And>c rootDef. go_get cols c = Some rootDef \<Longrightarrow> files_at A n rootDef"
    unfolding keyed_project_def by blast
  note f = files_at_file [OF resolveScopedCollection_files_at [OF resolveCollection_parts(1) at]]
  have rf: "climb_free A rf" "strings_Contains (rfName rf) ''{key}''" "file_depth A rf = n"
    using f [OF j _ resolveCollection_parts(2) [OF j]] by auto
  have rf': "climb_free A rf'" "strings_Contains (rfName rf') ''{key}''" "file_depth A rf' = n"
    using f [OF k _ resolveCollection_parts(2) [OF k]] by auto
  obtain d where d: "go_get cols (fst (hd (key_steps A j))) = Some d"
      "csegs (cdDirPath x) = csegs (cdDirPath d) @ parent_segs A j" "cdDirPath x \<noteq> []"
      "\<And>p c i. kParent j = Some p \<Longrightarrow> (c, i) \<in> set (key_steps A p) \<Longrightarrow> escape_free i"
    using resolveCollection_dir [OF j nest] by metis
  obtain e where e: "go_get cols (fst (hd (key_steps A k))) = Some e"
      "csegs (cdDirPath y) = csegs (cdDirPath e) @ parent_segs A k" "cdDirPath y \<noteq> []"
      "\<And>p c i. kParent k = Some p \<Longrightarrow> (c, i) \<in> set (key_steps A p) \<Longrightarrow> escape_free i"
    using resolveCollection_dir [OF k nest] by metis
  have seg: "segment_key r" "segment_key s"
    using resolveCollection_segment_key [OF j rf(2)] resolveCollection_segment_key [OF k rf'(2)] .
  then have plain: "plain_seg (recordKeyToFileName r)" "plain_seg (recordKeyToFileName s)"
    by (simp_all add: ToFileName_plain)
  have segs: "csegs (cdDirPath d) @ parent_segs A j @ record_segs A rf (recordKeyToFileName r) =
      csegs (cdDirPath e) @ parent_segs A k @ record_segs A rf' (recordKeyToFileName s)"
    using path resolveRecordPath_segs(1) [OF d(3) rf(1) plain(1)]
      resolveRecordPath_segs(1) [OF e(3) rf'(1) plain(2)] d(2) e(2) by simp
  then have "prefix (csegs (cdDirPath d)) (csegs (cdDirPath e)) \<or> prefix (csegs (cdDirPath e)) (csegs (cdDirPath d))"
    by (metis prefixI prefix_same_cases)
  then have root: "fst (hd (key_steps A j)) = fst (hd (key_steps A k))"
    using sep d(1) e(1) unfolding separate_roots_def by metis
  with d(1) e(1) segs have "parent_segs A j @ record_segs A rf (recordKeyToFileName r) =
      parent_segs A k @ record_segs A rf' (recordKeyToFileName s)" by simp
  moreover have "length (record_segs A rf (recordKeyToFileName r)) = length (record_segs A rf' (recordKeyToFileName s))"
    using plain rf(3) rf'(3) by (simp add: length_record_segs)
  ultimately have eqs: "parent_segs A j = parent_segs A k"
      "record_segs A rf (recordKeyToFileName r) = record_segs A rf' (recordKeyToFileName s)" by simp_all
  have chain: "kCollection j = kCollection k" "butlast (key_steps A j) = butlast (key_steps A k)"
    using parent_segs_inject [OF eqs(1) root] d(4) e(4) by blast+
  with resolveScopedCollection_steps [OF j k] have "rf = rf'" by blast
  with record_segs_inject [OF rf(2) plain] eqs(2) seg have "r = s"
    by (auto simp: segment_key_def intro: key_file.enc_inject)
  with chain resolveCollection_parts(3) [OF j] resolveCollection_parts(3) [OF k] show ?thesis
    by (simp add: steps_of_key [of A j] steps_of_key [of A k])
qed

end
