(* ===== verification/Query.thy ===== *)
theory Query
  imports ScopedCollection
begin

text \<open>
  The in-memory query engine of \<open>query.go\<close>: conditions, ordering, grouping and
  aggregates, \<open>HAVING\<close>, paging and projection, and the reader of
  \<open>slice_records_reader.go\<close>. The queries are those of the package \<open>dal\<close>; the printed
  form of an expression (\<open>Expression.String\<close>) is the parameter \<open>es\<close>. The loops poll the
  context: \<open>ctx\<close> is the poll, on whatever state the caller runs in, and it may fail at
  any iteration.
\<close>

section \<open>Queries\<close>

datatype operator =
    Equal | GreaterThen | GreaterOrEqual | LessThen | LessOrEqual | In | NotIn | And | Or
  | OtherOperator string

datatype agg_name = Agg_COUNT | Agg_SUM | Agg_AVERAGE | Agg_MIN | Agg_MAX | OtherAggregate string

text \<open>\<open>OtherExpr\<close> carries the Go type of any other expression, \<open><nil>\<close> included.\<close>

datatype expr =
    FieldRef string
  | Constant val
  | ArrayExpr val
  | AggregateFunc agg_name "expr list"
  | OtherExpr string

datatype cond =
    Comparison expr operator expr
  | GroupCondition operator "cond list"
  | IsNullCondition expr bool
  | OtherCondition string

record qcolumn =
  qcAlias :: string
  qcExpr :: expr
  qcWildcard :: bool

datatype source = CollectionRef string "key option" | OtherSource string

type_synonym order_expr = "expr \<times> bool"

record squery =
  sqFrom :: "source option"
  sqWhere :: "cond option"
  sqGroupBy :: "expr list"
  sqHaving :: "cond option"
  sqOrderBy :: "order_expr list"
  sqOffset :: int
  sqLimit :: int
  sqColumns :: "qcolumn list"

datatype query = StructuredQuery squery | OtherQuery string

text \<open>A record of a result: its collection, its ID and its fields.\<close>

record drec =
  dColl :: string
  dID :: string
  dData :: row

text \<open>\<open>data[name]\<close>: nil when the field is absent.\<close>

definition field :: "row \<Rightarrow> string \<Rightarrow> val" where
  "field data name = (case go_get data name of None \<Rightarrow> VNil | Some v \<Rightarrow> v)"

type_synonym 's ctx = "('s, dberr, unit) io"

section \<open>Conditions\<close>

fun type_of_expr :: "expr \<Rightarrow> string" where
  "type_of_expr (FieldRef _) = ''dal.FieldRef''"
| "type_of_expr (Constant _) = ''dal.Constant''"
| "type_of_expr (ArrayExpr _) = ''dal.Array''"
| "type_of_expr (AggregateFunc _ _) = ''dal.AggregateFunc''"
| "type_of_expr (OtherExpr t) = t"

fun resolveExpression :: "expr \<Rightarrow> row \<Rightarrow> string \<Rightarrow> val res" where
  "resolveExpression (FieldRef name) data recordKey =
     Inr (if name = ''$id'' then VStr recordKey else field data name)"
| "resolveExpression (Constant v) data recordKey = Inr v"
| "resolveExpression (ArrayExpr v) data recordKey = Inr v"
| "resolveExpression e data recordKey = Inl (EUnsupportedExpr (type_of_expr e))"

text \<open>\<open>reflect.ValueOf(v)\<close> is a slice or an array; its elements.\<close>

fun slice_items :: "val \<Rightarrow> val list option" where
  "slice_items (VList t vs) = Some vs"
| "slice_items (VBytes b) = Some (map (\<lambda>c. VNum KUint8 (of_char c)) b)"
| "slice_items _ = None"

definition operator_name :: "operator \<Rightarrow> string" where
  "operator_name op =
     (case op of OtherOperator s \<Rightarrow> s | In \<Rightarrow> ''In'' | NotIn \<Rightarrow> ''NotIn'' | And \<Rightarrow> ''And'' | Or \<Rightarrow> ''Or''
      | Equal \<Rightarrow> ''=='' | GreaterThen \<Rightarrow> ''>'' | GreaterOrEqual \<Rightarrow> ''>='' | LessThen \<Rightarrow> ''<''
      | LessOrEqual \<Rightarrow> ''<='')"

definition compare_op :: "operator \<Rightarrow> int \<Rightarrow> bool res" where
  "compare_op op cmp =
     (case op of
        Equal \<Rightarrow> Inr (cmp = 0)
      | GreaterThen \<Rightarrow> Inr (cmp > 0)
      | GreaterOrEqual \<Rightarrow> Inr (cmp \<ge> 0)
      | LessThen \<Rightarrow> Inr (cmp < 0)
      | LessOrEqual \<Rightarrow> Inr (cmp \<le> 0)
      | _ \<Rightarrow> Inl (EUnsupportedOperator (operator_name op)))"

definition evaluateComparison :: "api \<Rightarrow> expr \<Rightarrow> operator \<Rightarrow> expr \<Rightarrow> row \<Rightarrow> string \<Rightarrow> bool res" where
  "evaluateComparison A left op right data recordKey =
     rbind (resolveExpression left data recordKey) (\<lambda>leftVal.
     rbind (resolveExpression right data recordKey) (\<lambda>rightVal.
       if op = In \<or> op = NotIn
       then (case slice_items rightVal of
               None \<Rightarrow> Inl (EInNeedsArray (fmt_T rightVal))
             | Some items \<Rightarrow>
                 (let found = list_ex (\<lambda>candidate. candidate \<noteq> VNil \<and> leftVal \<noteq> VNil \<and>
                                 compareValues (FmtFloat A) leftVal candidate = 0) items
                  in Inr (if op = NotIn then \<not> found \<and> leftVal \<noteq> VNil else found)))
       else compare_op op (compareValues (FmtFloat A) leftVal rightVal)))"

fun evaluateCondition :: "api \<Rightarrow> row \<Rightarrow> string \<Rightarrow> cond \<Rightarrow> bool res"
  and evaluate_and :: "api \<Rightarrow> row \<Rightarrow> string \<Rightarrow> cond list \<Rightarrow> bool res"
  and evaluate_or :: "api \<Rightarrow> row \<Rightarrow> string \<Rightarrow> cond list \<Rightarrow> bool res" where
  "evaluateCondition A data key (Comparison l op r) = evaluateComparison A l op r data key"
| "evaluateCondition A data key (GroupCondition op cs) =
     (if op = And then evaluate_and A data key cs
      else if op = Or then evaluate_or A data key cs
      else Inl (EUnsupportedOperator (operator_name op)))"
| "evaluateCondition A data key (IsNullCondition e negated) =
     rbind (resolveExpression e data key) (\<lambda>v.
       Inr (if negated then \<not> IsNullValue A v else IsNullValue A v))"
| "evaluateCondition A data key (OtherCondition t) = Inl (EUnsupportedCond t)"
| "evaluate_and A data key [] = Inr True"
| "evaluate_and A data key (c # cs) =
     rbind (evaluateCondition A data key c) (\<lambda>m.
       if m then evaluate_and A data key cs else Inr False)"
| "evaluate_or A data key [] = Inr False"
| "evaluate_or A data key (c # cs) =
     rbind (evaluateCondition A data key c) (\<lambda>m.
       if m then Inr True else evaluate_or A data key cs)"

definition applyWhereContext :: "'s ctx \<Rightarrow> api \<Rightarrow> drec list \<Rightarrow> cond \<Rightarrow> ('s, dberr, drec list) io" where
  "applyWhereContext ctx A records cond =
     iofilter (\<lambda>rec. iobind ctx (\<lambda>_. iolift (evaluateCondition A (dData rec) (dID rec) cond))) records"

text \<open>The background context is never cancelled.\<close>

definition applyWhere :: "api \<Rightarrow> drec list \<Rightarrow> cond \<Rightarrow> (unit, dberr, drec list) io" where
  "applyWhere A records cond = applyWhereContext (ioret ()) A records cond"

section \<open>Ordering\<close>

definition order_value :: "drec \<Rightarrow> string \<Rightarrow> val" where
  "order_value rec name = (if name = ''$id'' then VStr (dID rec) else field (dData rec) name)"

fun order_less :: "api \<Rightarrow> ('r \<Rightarrow> string \<Rightarrow> val) \<Rightarrow> order_expr list \<Rightarrow> 'r \<Rightarrow> 'r \<Rightarrow> bool" where
  "order_less A value [] i j = False"
| "order_less A value ((FieldRef name, descending) # es) i j =
     (let cmp = compareValues (FmtFloat A) (value i name) (value j name) in
      if cmp = 0 then order_less A value es i j
      else if descending then cmp > 0 else cmp < 0)"
| "order_less A value (e # es) i j = order_less A value es i j"

definition applyOrderBy :: "api \<Rightarrow> drec list \<Rightarrow> order_expr list \<Rightarrow> drec list" where
  "applyOrderBy A records orderBy = SliceStable (order_less A order_value orderBy) records"

section \<open>Grouping and aggregates\<close>

fun resolveSimpleExpr :: "expr \<Rightarrow> row \<Rightarrow> string \<Rightarrow> val res" where
  "resolveSimpleExpr (FieldRef name) data recKey =
     Inr (if name = ''$id'' then VStr recKey else field data name)"
| "resolveSimpleExpr (Constant v) data recKey = Inr v"
| "resolveSimpleExpr e data recKey = Inl (EUnsupportedExpr (type_of_expr e))"

definition groupKeyStr :: "api \<Rightarrow> expr list \<Rightarrow> row \<Rightarrow> string \<Rightarrow> string res" where
  "groupKeyStr A groupBy data recKey =
     rbind (rtraverse (\<lambda>ge. resolveSimpleExpr ge data recKey) groupBy) (\<lambda>vs.
       Inr (strings_Join (map (\<lambda>v. fmt_T v @ '':'' @ fmt_v (FmtFloat A) v) vs) [CHR 0x00]))"

definition agg_label :: "agg_name \<Rightarrow> string" where
  "agg_label f =
     (case f of Agg_COUNT \<Rightarrow> ''COUNT'' | Agg_SUM \<Rightarrow> ''SUM'' | Agg_AVERAGE \<Rightarrow> ''AVERAGE'' | Agg_MIN \<Rightarrow> ''MIN''
      | Agg_MAX \<Rightarrow> ''MAX'' | OtherAggregate s \<Rightarrow> s)"

text \<open>The running sum and count of \<open>SUM\<close> and \<open>AVERAGE\<close>: nil and non-numeric values are skipped.\<close>

fun sum_count :: "float64 \<times> nat \<Rightarrow> val list \<Rightarrow> float64 \<times> nat" where
  "sum_count acc [] = acc"
| "sum_count (acc_sum, cnt) (v # vs) =
     (case toFloat64 v of
        None \<Rightarrow> sum_count (acc_sum, cnt) vs
      | Some n \<Rightarrow> sum_count (f64_add acc_sum n, Suc cnt) vs)"

fun best_value :: "api \<Rightarrow> bool \<Rightarrow> val option \<Rightarrow> val list \<Rightarrow> val option" where
  "best_value A is_min best [] = best"
| "best_value A is_min best (v # vs) =
     (if v = VNil then best_value A is_min best vs
      else case best of
        None \<Rightarrow> best_value A is_min (Some v) vs
      | Some b \<Rightarrow>
          (let c = compareValues (FmtFloat A) v b in
           if (is_min \<and> c < 0) \<or> (\<not> is_min \<and> c > 0) then best_value A is_min (Some v) vs
           else best_value A is_min (Some b) vs))"

definition field_values :: "row list \<Rightarrow> string \<Rightarrow> val list" where
  "field_values rows name = map (\<lambda>row. field row name) rows"

definition evalAggregate :: "api \<Rightarrow> agg_name \<Rightarrow> expr list \<Rightarrow> row list \<Rightarrow> val res" where
  "evalAggregate A fn args rows =
     (case fn of
        Agg_COUNT \<Rightarrow>
          (case args of
             [FieldRef name] \<Rightarrow>
               Inr (VNum KInt (int (length (filter (\<lambda>v. v \<noteq> VNil) (field_values rows name)))))
           | [_] \<Rightarrow> Inr (VNum KInt (int (length rows)))
           | FieldRef name # _ \<Rightarrow>
               Inr (VNum KInt (int (length (filter (\<lambda>v. v \<noteq> VNil) (field_values rows name)))))
           | _ \<Rightarrow> Inr (VNum KInt 0))
      | OtherAggregate name \<Rightarrow> Inl (EUnsupportedAggregate name)
      | _ \<Rightarrow>
          (case args of
             [] \<Rightarrow> Inr VNil
           | FieldRef name # _ \<Rightarrow>
               (if fn = Agg_SUM \<or> fn = Agg_AVERAGE
                then (case sum_count (FFin 0, 0) (field_values rows name) of (acc_sum, cnt) \<Rightarrow>
                        Inr (if cnt = 0 then VNil
                             else if fn = Agg_AVERAGE then VFloat64 (f64_div_count acc_sum cnt)
                             else VFloat64 acc_sum))
                else (case best_value A (fn = Agg_MIN) None (field_values rows name) of
                        None \<Rightarrow> Inr VNil | Some v \<Rightarrow> Inr v))
           | _ # _ \<Rightarrow> Inl (EUnsupportedAggregate (agg_label fn @ '' requires a field argument''))))"

fun resolveGroupExpr :: "api \<Rightarrow> expr \<Rightarrow> row list \<Rightarrow> val res" where
  "resolveGroupExpr A (AggregateFunc fn args) rows = evalAggregate A fn args rows"
| "resolveGroupExpr A (FieldRef name) rows =
     Inr (case rows of [] \<Rightarrow> VNil | row # _ \<Rightarrow> field row name)"
| "resolveGroupExpr A (Constant v) rows = Inr v"
| "resolveGroupExpr A e rows = Inl (EUnsupportedExpr (type_of_expr e))"

fun resolveHavingExpr :: "api \<Rightarrow> expr \<Rightarrow> row \<Rightarrow> row list \<Rightarrow> val res" where
  "resolveHavingExpr A (AggregateFunc fn args) out rows = evalAggregate A fn args rows"
| "resolveHavingExpr A (FieldRef name) out rows =
     Inr (case go_get out name of
            Some v \<Rightarrow> v
          | None \<Rightarrow> (case rows of [] \<Rightarrow> VNil | row # _ \<Rightarrow> field row name))"
| "resolveHavingExpr A (Constant v) out rows = Inr v"
| "resolveHavingExpr A e out rows = Inl (EUnsupportedExpr (type_of_expr e))"

fun matchesHavingCondition :: "api \<Rightarrow> row \<Rightarrow> row list \<Rightarrow> cond \<Rightarrow> bool res"
  and matches_having_group :: "api \<Rightarrow> row \<Rightarrow> row list \<Rightarrow> bool \<Rightarrow> cond list \<Rightarrow> bool res" where
  "matchesHavingCondition A out rows (Comparison left op right) =
     rbind (resolveHavingExpr A left out rows) (\<lambda>l.
     rbind (resolveHavingExpr A right out rows) (\<lambda>r.
       compare_op op (compareValues (FmtFloat A) l r)))"
| "matchesHavingCondition A out rows (GroupCondition op cs) =
     matches_having_group A out rows (op = Or) cs"
| "matchesHavingCondition A out rows (IsNullCondition e n) = Inl (EUnsupportedCond ''dal.IsNullCondition'')"
| "matchesHavingCondition A out rows (OtherCondition t) = Inl (EUnsupportedCond t)"
| "matches_having_group A out rows is_or [] = Inr (\<not> is_or)"
| "matches_having_group A out rows is_or (c # cs) =
     rbind (matchesHavingCondition A out rows c) (\<lambda>ok.
       if is_or \<and> ok then Inr True
       else if \<not> is_or \<and> \<not> ok then Inr False
       else matches_having_group A out rows is_or cs)"

definition columnOutKey :: "(expr \<Rightarrow> string) \<Rightarrow> qcolumn \<Rightarrow> string" where
  "columnOutKey es col =
     (if qcAlias col \<noteq> [] then qcAlias col
      else case qcExpr col of FieldRef name \<Rightarrow> name | e \<Rightarrow> es e)"

text \<open>One output row: the columns in order, a later column overwriting an earlier one of the same name.\<close>

fun project_row :: "(expr \<Rightarrow> string) \<Rightarrow> (expr \<Rightarrow> val res) \<Rightarrow> qcolumn list \<Rightarrow> row \<Rightarrow> row res" where
  "project_row es resolve [] out = Inr out"
| "project_row es resolve (col # cols) out =
     rbind (resolve (qcExpr col)) (\<lambda>v. project_row es resolve cols (go_set (columnOutKey es col) v out))"

definition page :: "int \<Rightarrow> int \<Rightarrow> 'a list \<Rightarrow> 'a list" where
  "page offset limit xs =
     (let ys = (if 0 < offset
                then (if int (length xs) \<le> offset then [] else drop (nat offset) xs)
                else xs)
      in if 0 < limit \<and> limit < int (length ys) then take (nat limit) ys else ys)"

text \<open>The partition: an association list in first-seen order.\<close>

definition add_to_group :: "string \<Rightarrow> row \<Rightarrow> row list go_map \<Rightarrow> row list go_map" where
  "add_to_group gk data groups =
     go_set gk ((case go_get groups gk of None \<Rightarrow> [] | Some rows \<Rightarrow> rows) @ [data]) groups"

definition partition_groups ::
  "'s ctx \<Rightarrow> api \<Rightarrow> expr list \<Rightarrow> drec list \<Rightarrow> ('s, dberr, row list go_map) io" where
  "partition_groups ctx A groupBy records =
     iofold (\<lambda>groups rec. iobind ctx (\<lambda>_.
       iobind (iolift (groupKeyStr A groupBy (dData rec) (dID rec))) (\<lambda>gk.
         ioret (add_to_group gk (dData rec) groups)))) [] records"

definition group_value :: "row list \<times> row \<Rightarrow> string \<Rightarrow> val" where
  "group_value g name = field (snd g) name"

definition applyGroupByContext ::
  "'s ctx \<Rightarrow> api \<Rightarrow> (expr \<Rightarrow> string) \<Rightarrow> squery \<Rightarrow> drec list \<Rightarrow> string \<Rightarrow> ('s, dberr, drec list) io" where
  "applyGroupByContext ctx A es sq records collection =
     iobind (partition_groups ctx A (sqGroupBy sq) records) (\<lambda>parts.
     iobind (iotraverse (\<lambda>rows. iobind ctx (\<lambda>_.
               iobind (iolift (project_row es (\<lambda>e. resolveGroupExpr A e rows) (sqColumns sq) []))
                 (\<lambda>out. ioret (rows, out)))) (map snd parts)) (\<lambda>groups.
     iobind (case sqHaving sq of
               None \<Rightarrow> ioret groups
             | Some having \<Rightarrow>
                 iofilter (\<lambda>g. iobind ctx (\<lambda>_.
                   iolift (matchesHavingCondition A (snd g) (fst g) having))) groups) (\<lambda>kept.
       let ordered = (if sqOrderBy sq = [] then kept
                      else SliceStable (order_less A group_value (sqOrderBy sq)) kept);
           paged = page (sqOffset sq) (sqLimit sq) ordered
       in ioret (map (\<lambda>(i, g). \<lparr>dColl = collection, dID = dec_int (int i), dData = snd g\<rparr>)
                   (enumerate 0 paged)))))"

section \<open>Projection and the whole pipeline\<close>

definition applyProjectionContext ::
  "'s ctx \<Rightarrow> (expr \<Rightarrow> string) \<Rightarrow> drec list \<Rightarrow> qcolumn list \<Rightarrow> string \<Rightarrow> ('s, dberr, drec list) io" where
  "applyProjectionContext ctx es records columns collection =
     iotraverse (\<lambda>rec. iobind ctx (\<lambda>_.
       iobind (iolift (project_row es (\<lambda>e. resolveSimpleExpr e (dData rec) (dID rec)) columns []))
         (\<lambda>out. ioret \<lparr>dColl = collection, dID = dID rec, dData = out\<rparr>))) records"

text \<open>The evaluator of protected queries, \<open>dalgo/condeval\<close>.\<close>

record condeval =
  Validate :: "cond \<Rightarrow> (string list \<times> string list) res"
  Match :: "row \<Rightarrow> cond \<Rightarrow> bool res"
  ToMap :: "row \<Rightarrow> row res"

definition applyProtectedWhereContext ::
  "'s ctx \<Rightarrow> condeval \<Rightarrow> drec list \<Rightarrow> cond \<Rightarrow> ('s, dberr, drec list) io" where
  "applyProtectedWhereContext ctx C records cond =
     iofilter (\<lambda>rec. iobind ctx (\<lambda>_. iolift
       (rbind (case ToMap C (dData rec) of
                 Inl e \<Rightarrow> Inl (ENotSupported ''protected query image'') | Inr m \<Rightarrow> Inr m)
          (\<lambda>data. Match C data cond)))) records"

definition protected_predicate :: "condeval \<Rightarrow> cond \<Rightarrow> unit res" where
  "protected_predicate C cond =
     (case Validate C cond of
        Inl e \<Rightarrow> Inl (ENotSupported ''protected query predicate'')
      | Inr (names, params) \<Rightarrow>
          if params \<noteq> [] then Inl (ENotSupported ''protected query predicate'')
          else if list_ex (\<lambda>f. f = ''$id'' \<or> strings_HasPrefix f ''$id.'') names
          then Inl (ENotSupported ''protected identity predicate'')
          else Inr ())"

text \<open>The part of \<open>executeQueryToRecordsReader\<close> after the records have been read.\<close>

definition run_query ::
  "'s ctx \<Rightarrow> api \<Rightarrow> (expr \<Rightarrow> string) \<Rightarrow> condeval \<Rightarrow> bool \<Rightarrow> squery \<Rightarrow> string \<Rightarrow> drec list \<Rightarrow>
     ('s, dberr, drec list) io" where
  "run_query ctx A es C protected sq collection records =
     iobind ctx (\<lambda>_.
     iobind (case sqWhere sq of
               None \<Rightarrow> ioret records
             | Some cond \<Rightarrow>
                 if protected then applyProtectedWhereContext ctx C records cond
                 else applyWhereContext ctx A records cond) (\<lambda>filtered.
       if sqGroupBy sq \<noteq> [] then applyGroupByContext ctx A es sq filtered collection
       else
         let ordered = (if sqOrderBy sq = [] then filtered else applyOrderBy A filtered (sqOrderBy sq));
             paged = page (sqOffset sq) (sqLimit sq) ordered
         in if sqColumns sq = [] then ioret paged
            else applyProjectionContext ctx es paged (sqColumns sq) collection))"

definition collectionFromQuery ::
  "api \<Rightarrow> collections option \<Rightarrow> query \<Rightarrow> (coldef \<times> recfile \<times> squery) res" where
  "collectionFromQuery A def q =
     (case def of
        None \<Rightarrow> Inl ENoDefinition
      | Some _ \<Rightarrow>
          (case q of
             OtherQuery t \<Rightarrow> Inl (EBadQuery t)
           | StructuredQuery sq \<Rightarrow>
               (case sqFrom sq of
                  None \<Rightarrow> Inl (EBadQuery ''no FROM clause'')
                | Some (OtherSource t) \<Rightarrow> Inl (EBadQuery t)
                | Some (CollectionRef collectionID parent) \<Rightarrow>
                    rbind (resolveScopedCollection A def collectionID parent) (\<lambda>colDef.
                      (case cdRecordFile colDef of
                         None \<Rightarrow> Inl (ENoRecordFile collectionID)
                       | Some rf \<Rightarrow> Inr (colDef, rf, sq))))))"

section \<open>Lemmas about the query engine\<close>

lemma applyWhereContext_Inr:
  assumes "applyWhereContext ctx A records cond s = (Inr ys, t)"
  shows "ys = filter (\<lambda>r. evaluateCondition A (dData r) (dID r) cond = Inr True) records"
    and "\<forall>r \<in> set records. \<exists>b. evaluateCondition A (dData r) (dID r) cond = Inr b"
  using iofilter_Inr [OF assms [unfolded applyWhereContext_def],
      of "\<lambda>r. evaluateCondition A (dData r) (dID r) cond"]
  by (auto simp: res_simps)

lemma iofilter_total:
  "(\<And>x s. x \<in> set xs \<Longrightarrow> p x s = (Inr (q x), s)) \<Longrightarrow> iofilter p xs s = (Inr (filter q xs), s)"
  by (induction xs) (auto simp: iobind_def ioret_def)

lemma applyWhere_total:
  assumes "\<And>r. r \<in> set records \<Longrightarrow> \<exists>b. evaluateCondition A (dData r) (dID r) cond = Inr b"
  shows "applyWhere A records cond s =
           (Inr (filter (\<lambda>r. evaluateCondition A (dData r) (dID r) cond = Inr True) records), s)"
  unfolding applyWhere_def applyWhereContext_def
  by (rule iofilter_total) (use assms in \<open>fastforce simp: iolift_def\<close>)

text \<open>Conjunction and disjunction of conditions that evaluate without an error.\<close>

lemma evaluate_and_or:
  assumes "\<forall>c \<in> set cs. \<exists>b. evaluateCondition A data key c = Inr b"
  shows "evaluate_and A data key cs = Inr (\<forall>c \<in> set cs. evaluateCondition A data key c = Inr True)"
    and "evaluate_or A data key cs = Inr (\<exists>c \<in> set cs. evaluateCondition A data key c = Inr True)"
  using assms by (induction cs) auto

subsection \<open>Ordering\<close>

definition orderable :: "('r \<Rightarrow> string \<Rightarrow> val) \<Rightarrow> order_expr list \<Rightarrow> 'r set \<Rightarrow> bool" where
  "orderable value es S \<longleftrightarrow>
     (\<forall>name d. (FieldRef name, d) \<in> set es \<longrightarrow> comparable ((\<lambda>r. value r name) ` S))"

lemma comparable_subset: "comparable V \<Longrightarrow> W \<subseteq> V \<Longrightarrow> comparable W"
  by (auto simp: comparable_def)

lemma compareValues_swo:
  assumes "comparable (v ` S)"
  shows "swo_on S (\<lambda>i j. if d then compareValues ff (v i) (v j) > 0 else compareValues ff (v i) (v j) < 0)"
proof -
  have negtrans: "\<not> compareValues ff (v x) (v z) < 0"
    if "x \<in> S" "y \<in> S" "z \<in> S" "\<not> compareValues ff (v x) (v y) < 0" "\<not> compareValues ff (v y) (v z) < 0"
    for x y z
    using compareValues_negtrans [of "v x" "v y" "v z" ff] comparable_subset [OF assms, of "{v x, v y, v z}"] that
    by simp
  show ?thesis
    unfolding swo_on_def
  proof (intro conjI ballI impI)
    fix x y assume "if d then compareValues ff (v x) (v y) > 0 else compareValues ff (v x) (v y) < 0"
    then show "\<not> (if d then compareValues ff (v y) (v x) > 0 else compareValues ff (v y) (v x) < 0)"
      using compareValues_flip [of ff "v x" "v y"] by (auto split: if_splits)
  next
    fix x y z
    assume "x \<in> S" "y \<in> S" "z \<in> S"
      "\<not> (if d then compareValues ff (v x) (v y) > 0 else compareValues ff (v x) (v y) < 0)"
      "\<not> (if d then compareValues ff (v y) (v z) > 0 else compareValues ff (v y) (v z) < 0)"
    then show "\<not> (if d then compareValues ff (v x) (v z) > 0 else compareValues ff (v x) (v z) < 0)"
      using negtrans [of x y z] negtrans [of z y x] compareValues_flip [of ff "v x" "v y"]
        compareValues_flip [of ff "v y" "v z"] compareValues_flip [of ff "v x" "v z"]
      by (auto split: if_splits)
  qed
qed

lemma order_less_lex:
  "order_less A value ((FieldRef name, d) # es) =
     lex_less (\<lambda>i j. if d then compareValues (FmtFloat A) (value i name) (value j name) > 0
                     else compareValues (FmtFloat A) (value i name) (value j name) < 0)
       (order_less A value es)"
proof (intro ext)
  fix i j
  show "order_less A value ((FieldRef name, d) # es) i j = lex_less (\<lambda>i j.
      if d then compareValues (FmtFloat A) (value i name) (value j name) > 0
      else compareValues (FmtFloat A) (value i name) (value j name) < 0) (order_less A value es) i j"
    using compareValues_flip [of "FmtFloat A" "value i name" "value j name"]
    by (auto simp: lex_less_def Let_def)
qed

lemma order_less_swo: "orderable value es S \<Longrightarrow> swo_on S (order_less A value es)"
proof (induction es)
  case Nil
  then show ?case by (simp add: swo_on_def)
next
  case (Cons e es)
  have "orderable value es S" using Cons.prems by (auto simp: orderable_def)
  then have rest: "swo_on S (order_less A value es)" by (rule Cons.IH)
  obtain x d where e: "e = (x, d)" by (cases e)
  show ?case
  proof (cases x)
    case (FieldRef name)
    then have "comparable ((\<lambda>r. value r name) ` S)" using Cons.prems by (auto simp: orderable_def e)
    then show ?thesis
      unfolding e FieldRef order_less_lex by (rule swo_on_lex [OF compareValues_swo rest])
  qed (use rest in \<open>simp_all add: e order_less.simps(3-6) [abs_def]\<close>)
qed


subsection \<open>Grouping\<close>

definition first_seen :: "'a list \<Rightarrow> 'a list" where
  "first_seen xs = rev (remdups (rev xs))"

lemma first_seen_simps [simp]:
  "first_seen [] = []"
  "first_seen (xs @ [x]) = (if x \<in> set xs then first_seen xs else first_seen xs @ [x])"
  "set (first_seen xs) = set xs" "distinct (first_seen xs)"
  by (simp_all add: first_seen_def)

lemma go_keys_set: "go_keys (go_set k v m) = (if k \<in> set (go_keys m) then go_keys m else go_keys m @ [k])"
  by (induction m) (auto simp: go_keys_def go_set_def)

definition group_key :: "api \<Rightarrow> expr list \<Rightarrow> drec \<Rightarrow> string res" where
  "group_key A groupBy r = groupKeyStr A groupBy (dData r) (dID r)"

definition group_inv :: "api \<Rightarrow> expr list \<Rightarrow> drec list \<Rightarrow> row list go_map \<Rightarrow> bool" where
  "group_inv A groupBy seen groups \<longleftrightarrow>
     (\<forall>r \<in> set seen. \<exists>k. group_key A groupBy r = Inr k) \<and>
     map Inr (go_keys groups) = first_seen (map (group_key A groupBy) seen) \<and>
     (\<forall>gk rows. go_get groups gk = Some rows \<longrightarrow>
        rows = map dData (filter (\<lambda>r. group_key A groupBy r = Inr gk) seen))"

lemma go_keys_get: "k \<in> set (go_keys m) \<longleftrightarrow> (\<exists>v. go_get m k = Some v)"
  by (simp add: set_go_keys)

lemma group_inv_step:
  assumes inv: "group_inv A groupBy seen groups" and key: "group_key A groupBy r = Inr gk"
  shows "group_inv A groupBy (seen @ [r]) (add_to_group gk (dData r) groups)"
proof -
  have "gk \<in> set (go_keys groups) \<longleftrightarrow> (Inr gk :: string res) \<in> set (map Inr (go_keys groups))"
    by auto
  also have "\<dots> \<longleftrightarrow> Inr gk \<in> group_key A groupBy ` set seen"
    using inv by (simp add: group_inv_def)
  finally have mem: "gk \<in> set (go_keys groups) \<longleftrightarrow> Inr gk \<in> group_key A groupBy ` set seen" .
  have absent: "filter (\<lambda>r. group_key A groupBy r = Inr gk) seen = []" if "go_get groups gk = None"
    using that mem by (auto simp: go_keys_get filter_empty_conv image_iff)
  have rows: "(case go_get groups gk of None \<Rightarrow> [] | Some rows \<Rightarrow> rows) =
      map dData (filter (\<lambda>r. group_key A groupBy r = Inr gk) seen)"
    using inv absent by (auto simp: group_inv_def split: option.splits)
  show ?thesis
    using inv key mem rows
    by (auto simp: group_inv_def add_to_group_def go_keys_set go_get_set split: if_splits)
qed

lemma partition_groups_inv:
  assumes "iofold (\<lambda>groups rec. iobind ctx (\<lambda>_.
       iobind (iolift (groupKeyStr A groupBy (dData rec) (dID rec))) (\<lambda>gk.
         ioret (add_to_group gk (dData rec) groups)))) acc records s = (Inr parts, t)"
    and "group_inv A groupBy seen acc"
  shows "group_inv A groupBy (seen @ records) parts"
  using assms
proof (induction records arbitrary: acc seen s)
  case Nil
  then show ?case by (simp add: ioret_def)
next
  case (Cons r records)
  from Cons.prems(1) obtain gk u where gk: "group_key A groupBy r = Inr gk"
    and rest: "iofold (\<lambda>groups rec. iobind ctx (\<lambda>_.
       iobind (iolift (groupKeyStr A groupBy (dData rec) (dID rec))) (\<lambda>gk.
         ioret (add_to_group gk (dData rec) groups)))) (add_to_group gk (dData r) acc) records u = (Inr parts, t)"
    by (auto simp: res_simps group_key_def)
  from Cons.IH [OF rest group_inv_step [OF Cons.prems(2) gk]] show ?case by simp
qed

lemma partition_groups_Inr:
  assumes "partition_groups ctx A groupBy records s = (Inr parts, t)"
  shows "group_inv A groupBy records parts"
  using partition_groups_inv [OF assms [unfolded partition_groups_def], of "[]"]
  by (simp add: group_inv_def go_keys_def)

text \<open>No group is empty: the first row of a group, which \<open>resolveGroupExpr\<close> reads, exists.\<close>

lemma group_inv_nonempty:
  assumes "group_inv A groupBy records parts" and "go_get parts gk = Some rows"
  shows "rows \<noteq> []"
proof -
  have "gk \<in> set (go_keys parts)" using assms(2) by (auto simp: go_keys_get)
  then have "(Inr gk :: string res) \<in> set (map Inr (go_keys parts))" by simp
  then have "Inr gk \<in> group_key A groupBy ` set records"
    using assms(1) by (simp add: group_inv_def del: set_map) simp
  then obtain r where "r \<in> set records" "group_key A groupBy r = Inr gk" by auto
  then have "filter (\<lambda>r. group_key A groupBy r = Inr gk) records \<noteq> []"
    by (auto simp: filter_empty_conv)
  moreover have "rows = map dData (filter (\<lambda>r. group_key A groupBy r = Inr gk) records)"
    using assms by (simp add: group_inv_def)
  ultimately show ?thesis by simp
qed

subsection \<open>Paging\<close>

lemma page_take_drop:
  "page offset limit xs = (if 0 < limit then take (nat limit) else (\<lambda>ys. ys)) (drop (nat offset) xs)"
proof -
  have "(if 0 < offset then (if int (length xs) \<le> offset then [] else drop (nat offset) xs) else xs) =
      drop (nat offset) xs"
    by auto
  then have "page offset limit xs =
      (let ys = drop (nat offset) xs in
       if 0 < limit \<and> limit < int (length ys) then take (nat limit) ys else ys)"
    by (simp only: page_def)
  then show ?thesis by (auto simp: Let_def)
qed

subsection \<open>Aggregates\<close>

lemma best_value_None: "best_value A m None vs = None \<longleftrightarrow> (\<forall>v \<in> set vs. v = VNil)"
proof -
  have some: "\<exists>w. best_value A m (Some b) vs = Some w" for b vs
    by (induction vs arbitrary: b) (auto simp: Let_def)
  show ?thesis
  proof (induction vs)
    case (Cons v vs)
    then show ?case using some [of v vs] by auto
  qed simp
qed

definition not_beyond :: "api \<Rightarrow> bool \<Rightarrow> val \<Rightarrow> val \<Rightarrow> bool" where
  "not_beyond A is_min v w \<longleftrightarrow>
     (if is_min then \<not> compareValues (FmtFloat A) v w < 0 else \<not> compareValues (FmtFloat A) v w > 0)"

lemma not_beyond_trans:
  assumes "comparable {a, b, c}" and "not_beyond A m a b" and "not_beyond A m b c"
  shows "not_beyond A m a c"
proof -
  have "comparable {c, b, a}" using assms(1) by (auto simp: comparable_def)
  then show ?thesis
    using assms compareValues_negtrans [of a b c "FmtFloat A"] compareValues_negtrans [of c b a "FmtFloat A"]
      compareValues_flip [of "FmtFloat A" a b] compareValues_flip [of "FmtFloat A" b c]
      compareValues_flip [of "FmtFloat A" a c]
    by (auto simp: not_beyond_def split: if_splits)
qed

lemma best_value_extreme:
  assumes "best_value A m (Some b) vs = Some w" and "b \<noteq> VNil"
    and "comparable (insert b {v \<in> set vs. v \<noteq> VNil})"
  shows "w \<noteq> VNil \<and> w \<in> insert b (set vs) \<and> not_beyond A m b w \<and>
         (\<forall>v \<in> set vs. v \<noteq> VNil \<longrightarrow> not_beyond A m v w)"
  using assms
proof (induction vs arbitrary: b)
  case Nil
  then show ?case by (auto simp: not_beyond_def)
next
  case (Cons v vs)
  show ?case
  proof (cases "v = VNil")
    case True
    have "comparable (insert b {v \<in> set vs. v \<noteq> VNil})"
      by (rule comparable_subset [OF Cons.prems(3)]) auto
    with True Cons.IH [of b] Cons.prems(1,2) show ?thesis by auto
  next
    case False
    define b' where "b' = (if not_beyond A m v b then b else v)"
    have b': "b' \<in> {b, v}" "b' \<noteq> VNil" using False Cons.prems(2) by (auto simp: b'_def)
    have run: "best_value A m (Some b') vs = Some w"
      using Cons.prems(1) False by (auto simp: b'_def not_beyond_def Let_def split: if_splits)
    have sub: "comparable (insert b' {v \<in> set vs. v \<noteq> VNil})"
      by (rule comparable_subset [OF Cons.prems(3)]) (use b' in auto)
    note ih = Cons.IH [OF run b'(2) sub]
    have w: "w \<in> {b, v} \<union> set vs" "w \<noteq> VNil" using ih b' by auto
    have tri: "comparable {x, b', w}" if "x \<in> {b, v}" for x
      by (rule comparable_subset [OF Cons.prems(3)]) (use that b' w False in auto)
    have "not_beyond A m v b'" "not_beyond A m b b'"
      using compareValues_flip [of "FmtFloat A" v b] by (auto simp: b'_def not_beyond_def split: if_splits)
    then have "not_beyond A m v w" "not_beyond A m b w"
      using ih tri not_beyond_trans by blast+
    with ih w show ?thesis by auto
  qed
qed

lemma best_value_start:
  assumes "best_value A m None vs = Some w" and "comparable {v \<in> set vs. v \<noteq> VNil}"
  shows "w \<noteq> VNil \<and> w \<in> set vs \<and> (\<forall>v \<in> set vs. v \<noteq> VNil \<longrightarrow> not_beyond A m v w)"
  using assms
proof (induction vs)
  case (Cons v vs)
  show ?case
  proof (cases "v = VNil")
    case True
    have "comparable {u \<in> set vs. u \<noteq> VNil}" using Cons.prems(2) by (rule comparable_subset) auto
    with Cons True show ?thesis by auto
  next
    case False
    with Cons.prems(1) have "best_value A m (Some v) vs = Some w" by simp
    moreover have "insert v {u \<in> set vs. u \<noteq> VNil} = {u \<in> set (v # vs). u \<noteq> VNil}"
      using False by auto
    ultimately show ?thesis using best_value_extreme [of A m v vs w] Cons.prems(2) False by auto
  qed
qed simp

lemma sum_count_ints:
  assumes "\<And>n. n \<le> length is \<Longrightarrow> \<bar>a + sum_list (take n is)\<bar> < 2 ^ 53" and "\<forall>i \<in> set is. \<bar>i\<bar> < 2 ^ 53"
  shows "sum_count (FFin (of_int a), c) (map (VNum k) is) =
           (FFin (of_int (a + sum_list is)), c + length is)"
  using assms
proof (induction "is" arbitrary: a c)
  case (Cons i "is")
  have "\<bar>a + i\<bar> < 2 ^ 53" using Cons.prems(1) [of 1] by simp
  then have step: "f64_add (FFin (of_int a)) (f64_of_int i) = FFin (of_int (a + i))"
    using Cons.prems(2) f64_add_exact [of a i] by (simp add: f64_of_int_exact)
  have "\<bar>(a + i) + sum_list (take n is)\<bar> < 2 ^ 53" if "n \<le> length is" for n
    using Cons.prems(1) [of "Suc n"] that by (simp add: add.assoc)
  then show ?case
    using Cons.IH [of "a + i" "Suc c"] Cons.prems(2) step by (simp add: add.assoc)
qed simp

section \<open>Readers\<close>

text \<open>
  The interface of a reader (\<open>dal.RecordsReader\<close>, \<open>dal.RecordsetReader\<close>): \<open>Next\<close> returns
  the rows one by one and then keeps answering \<open>dal.ErrNoMoreRecords\<close>, here \<open>None\<close>.
  \<open>drain\<close> is the loop of a consumer, with a bound on its iterations.
\<close>

fun drain :: "('r \<Rightarrow> 'a option \<times> 'r) \<Rightarrow> nat \<Rightarrow> 'r \<Rightarrow> 'a list option" where
  "drain nx 0 r = None"
| "drain nx (Suc n) r =
     (case nx r of
        (None, _) \<Rightarrow> Some []
      | (Some x, r') \<Rightarrow> map_option (\<lambda>xs. x # xs) (drain nx n r'))"

locale row_reader =
  fixes Next :: "'r \<Rightarrow> 'a option \<times> 'r" and remaining :: "'r \<Rightarrow> 'a list"
  assumes Next_end: "remaining r = [] \<Longrightarrow> Next r = (None, r)"
    and Next_row: "remaining r = x # xs \<Longrightarrow> fst (Next r) = Some x \<and> remaining (snd (Next r)) = xs"
begin

lemma Next_None_iff: "fst (Next r) = None \<longleftrightarrow> remaining r = []"
  using Next_end Next_row by (cases "remaining r") auto

lemma drain_complete: "length (remaining r) < n \<Longrightarrow> drain Next n r = Some (remaining r)"
proof (induction n arbitrary: r)
  case (Suc n)
  show ?case
  proof (cases "remaining r")
    case Nil
    then show ?thesis by (simp add: Next_end)
  next
    case (Cons x xs)
    with Suc.prems Suc.IH [of "snd (Next r)"] Next_row [OF Cons] show ?thesis
      by (auto split: prod.splits)
  qed
qed simp

lemma drain_at_end: "remaining r = [] \<Longrightarrow> snd (Next r) = r \<and> fst (Next (snd (Next r))) = None"
  by (simp add: Next_end)

end

record sliceRecordsReader =
  srRecords :: "drec list"
  srIndex :: nat

definition newSliceRecordsReader :: "drec list \<Rightarrow> sliceRecordsReader" where
  "newSliceRecordsReader records = \<lparr>srRecords = records, srIndex = 0\<rparr>"

definition slice_Next :: "sliceRecordsReader \<Rightarrow> drec option \<times> sliceRecordsReader" where
  "slice_Next r =
     (if length (srRecords r) \<le> srIndex r then (None, r)
      else (Some (srRecords r ! srIndex r), r\<lparr>srIndex := srIndex r + 1\<rparr>))"

definition slice_remaining :: "sliceRecordsReader \<Rightarrow> drec list" where
  "slice_remaining r = drop (srIndex r) (srRecords r)"

interpretation slice: row_reader slice_Next slice_remaining
proof
  fix r x xs
  assume rest: "slice_remaining r = x # xs"
  then have less: "srIndex r < length (srRecords r)"
    by (metis drop_all linorder_not_le list.discI slice_remaining_def)
  with rest have "srRecords r ! srIndex r = x" "drop (Suc (srIndex r)) (srRecords r) = xs"
    by (simp_all add: slice_remaining_def Cons_nth_drop_Suc [symmetric])
  with less show "fst (slice_Next r) = Some x \<and> slice_remaining (snd (slice_Next r)) = xs"
    by (simp add: slice_Next_def slice_remaining_def)
qed (simp add: slice_remaining_def slice_Next_def)

end
