(* ===== verification/RecordIO.thy ===== *)
theory RecordIO
  imports Glob Query
begin

text \<open>
  Reading and writing record files: the file functions of \<open>record_io.go\<close> and the
  collection scans of \<open>query.go\<close>. Reads change nothing in the tree; a write touches the
  file of its record and nothing else.
\<close>

definition iowrap :: "string \<Rightarrow> ('s, dberr, 'a) io \<Rightarrow> ('s, dberr, 'a) io" where
  "iowrap msg m = iocatch m (\<lambda>e. iofail (EWrap msg e))"

text \<open>The guard at the head of every read: a missing file is not an error.\<close>

definition stat_exists :: "osenv \<Rightarrow> string \<Rightarrow> ('b world_scheme, dberr, bool) io" where
  "stat_exists E p =
     iocatch (iobind (os_Stat E p) (\<lambda>_. ioret True))
       (\<lambda>e. if err_is e is_not_exist then ioret False else iofail (EWrap (''stat '' @ p) e))"

section \<open>Record files\<close>

text \<open>
  The Go function also returns whether the file exists when it fails; no caller looks at
  that flag after an error, so the failure carries the error alone.
\<close>

definition readSingleRecordFile ::
  "osenv \<Rightarrow> api \<Rightarrow> string \<Rightarrow> coldef \<Rightarrow> ('b world_scheme, dberr, row option) io" where
  "readSingleRecordFile E A p colDef =
     iobind (stat_exists E p) (\<lambda>exists.
       if \<not> exists then ioret None
       else withSharedLock E p
         (iobind (iowrap (''read '' @ p) (os_ReadFile E p)) (\<lambda>content.
          iobind (iowrap (''parse '' @ p) (iolift (ParseRecordContentForCollection A content colDef)))
            (\<lambda>data. ioret (Some data)))))"

definition writeSingleRecordFile ::
  "osenv \<Rightarrow> api \<Rightarrow> string \<Rightarrow> coldef \<Rightarrow> row \<Rightarrow> ('b world_scheme, dberr, unit) io" where
  "writeSingleRecordFile E A p colDef data =
     iobind (iowrap (''mkdir '' @ path_Dir p) (os_MkdirAll E (path_Dir p))) (\<lambda>_.
     iobind (iowrap (''encode record for '' @ p) (iolift (EncodeRecordContentForCollection A data colDef)))
       (\<lambda>content. withExclusiveLock E p (iowrap (''write '' @ p) (os_WriteFile E p content 420))))"

text \<open>A nil map and an empty map answer every lookup alike: both are \<open>[]\<close>.\<close>

definition readMapOfRecordsFile ::
  "osenv \<Rightarrow> api \<Rightarrow> string \<Rightarrow> record_format \<Rightarrow> ('b world_scheme, dberr, row go_map) io" where
  "readMapOfRecordsFile E A p format =
     iobind (stat_exists E p) (\<lambda>exists.
       if \<not> exists then ioret []
       else withSharedLock E p
         (iobind (iowrap (''read '' @ p) (os_ReadFile E p)) (\<lambda>content.
          iowrap (''parse '' @ p) (iolift (ParseMapOfRecordsContent A content format)))))"

definition writeMapOfRecordsFile ::
  "osenv \<Rightarrow> api \<Rightarrow> string \<Rightarrow> coldef \<Rightarrow> recfile \<Rightarrow> row go_map \<Rightarrow> ('b world_scheme, dberr, unit) io" where
  "writeMapOfRecordsFile E A p colDef rf data =
     iobind (iowrap (''mkdir '' @ path_Dir p) (os_MkdirAll E (path_Dir p))) (\<lambda>_.
     iobind (iowrap (''encode records for '' @ p)
               (iolift (EncodeMapOfRecordsContent A data (rfFormat rf) (cdID colDef) (cdColumnsOrder colDef))))
       (\<lambda>content. withExclusiveLock E p (iowrap (''write '' @ p) (os_WriteFile E p content 420))))"

definition deleteSingleRecordFile :: "osenv \<Rightarrow> string \<Rightarrow> ('b world_scheme, dberr, unit) io" where
  "deleteSingleRecordFile E p =
     iobind (stat_exists E p) (\<lambda>exists.
       if \<not> exists then ioret ()
       else withExclusiveLock E p
         (iocatch (os_Remove E p)
            (\<lambda>e. if err_is e is_not_exist then ioret () else iofail (EWrap (''remove '' @ p) e))))"

section \<open>Decoding of source bytes\<close>

text \<open>\<open>base64.StdEncoding.DecodeString\<close>: line breaks are skipped, padding is required.\<close>

definition b64_val :: "char \<Rightarrow> nat option" where
  "b64_val c =
     (let n = of_char c :: nat in
      if 65 \<le> n \<and> n \<le> 90 then Some (n - 65)
      else if 97 \<le> n \<and> n \<le> 122 then Some (n - 71)
      else if 48 \<le> n \<and> n \<le> 57 then Some (n + 4)
      else if n = 43 then Some 62
      else if n = 47 then Some 63
      else None)"

fun b64_quads :: "string \<Rightarrow> string option" where
  "b64_quads [] = Some []"
| "b64_quads (a # b # c # d # rest) =
     (case (b64_val a, b64_val b) of
        (Some w, Some x) \<Rightarrow>
          if c = CHR ''='' then
            (if d = CHR ''='' \<and> rest = [] then Some [char_of (w * 4 + x div 16)] else None)
          else (case b64_val c of
            None \<Rightarrow> None
          | Some y \<Rightarrow>
              if d = CHR ''='' then
                (if rest = []
                 then Some [char_of (w * 4 + x div 16), char_of ((x mod 16) * 16 + y div 4)] else None)
              else (case b64_val d of
                None \<Rightarrow> None
              | Some z \<Rightarrow>
                  map_option (\<lambda>bs. char_of (w * 4 + x div 16) # char_of ((x mod 16) * 16 + y div 4) #
                      char_of ((y mod 4) * 64 + z) # bs) (b64_quads rest)))
      | _ \<Rightarrow> None)"
| "b64_quads _ = None"

definition base64_DecodeString :: "string \<Rightarrow> string res" where
  "base64_DecodeString s =
     (case b64_quads (filter (\<lambda>c. c \<noteq> CHR 0x0A \<and> c \<noteq> CHR 0x0D) s) of
        None \<Rightarrow> Inl (EExternal ''illegal base64 data'') | Some bs \<Rightarrow> Inr bs)"

fun decode_fields :: "source_field list \<Rightarrow> row \<Rightarrow> row res" where
  "decode_fields [] flds = Inr flds"
| "decode_fields (sf # rest) flds =
     (if sfType sf \<noteq> ''bytes'' then decode_fields rest flds
      else case go_get flds (sfName sf) of
        None \<Rightarrow> Inl (EDecodeBytes (sfName sf @ '': missing transport value''))
      | Some VNil \<Rightarrow> decode_fields rest flds
      | Some (VStr encoded) \<Rightarrow>
          rbind (map_err (EWrap (''decode source bytes field '' @ sfName sf)) (base64_DecodeString encoded))
            (\<lambda>decoded. decode_fields rest (go_set (sfName sf) (VBytes decoded) flds))
      | Some v \<Rightarrow> Inl (EDecodeBytes (sfName sf @ '': got '' @ fmt_T v)))"

definition decodeSourceTransport :: "coldef \<Rightarrow> row \<Rightarrow> row res" where
  "decodeSourceTransport colDef flds =
     (case cdSourceSchema colDef of
        None \<Rightarrow> Inr flds
      | Some ss \<Rightarrow> if ssKeyMode ss = [] then Inr flds else decode_fields (ssFields ss) flds)"

section \<open>Scanning a collection\<close>

record keyed_stored =
  ksKey :: string
  ksStored :: row

text \<open>The body of the loop over the matches; \<open>None\<close> is \<open>continue\<close>.\<close>

definition scan_match ::
  "osenv \<Rightarrow> api \<Rightarrow> coldef \<Rightarrow> recfile \<Rightarrow> string \<Rightarrow> string \<Rightarrow> ('b world_scheme, dberr, keyed_stored option) io" where
  "scan_match E A colDef rf basePath m =
     (if IsExcluded A rf (path_Base m) then ioret None
      else case filepath_Rel basePath m of
        None \<Rightarrow> iofail (EWrap (''rel '' @ m) (EExternal ''filepath.Rel''))
      | Some relPath \<Rightarrow>
          (let recordKey = buildKeyExtractor (rfName rf) relPath in
           if recordKey = [] then ioret None
           else iobind (readSingleRecordFile E A m colDef) (\<lambda>found.
             ioret (case found of
                      None \<Rightarrow> None
                    | Some data \<Rightarrow>
                        Some \<lparr>ksKey = recordKey,
                              ksStored = ApplyLocaleToRead A data (cdColumns colDef)\<rparr>))))"

definition readAllSingleStored ::
  "osenv \<Rightarrow> api \<Rightarrow> coldef \<Rightarrow> recfile \<Rightarrow> ('b world_scheme, dberr, keyed_stored list) io" where
  "readAllSingleStored E A colDef rf =
     (let globPattern = strings_ReplaceAll (rfName rf) ''{key}'' ''*'';
          basePath = filepath_Join [cdDirPath colDef, RecordsBasePath A rf]
      in iobind (iowrap (''glob '' @ basePath) (filepath_Glob E (filepath_Join [basePath, globPattern])))
           (\<lambda>matches.
         iobind (iotraverse (scan_match E A colDef rf basePath) matches)
           (\<lambda>items. ioret (List.map_filter (\<lambda>x. x) items))))"

definition readAllMapStored ::
  "osenv \<Rightarrow> api \<Rightarrow> coldef \<Rightarrow> recfile \<Rightarrow> ('b world_scheme, dberr, keyed_stored list) io" where
  "readAllMapStored E A colDef rf =
     iobind (readMapOfRecordsFile E A (resolveRecordPath A colDef rf []) (rfFormat rf)) (\<lambda>allData.
       iolift (rtraverse (\<lambda>(rid, flds).
         rbind (map_err (EWrap (''record '' @ rid))
                  (decodeSourceTransport colDef (ApplyLocaleToRead A flds (cdColumns colDef))))
           (\<lambda>normalized. Inr \<lparr>ksKey = rid, ksStored = normalized\<rparr>)) allData))"

text \<open>\<open>parsed["$records"].([]map[string]any)\<close>: the assertion panics on any other shape.\<close>

definition records_wrapper :: "row \<Rightarrow> row list res" where
  "records_wrapper parsed =
     (case go_get parsed ''$records'' of
        Some (VList t vs) \<Rightarrow>
          if t = ''[]map[string]interface {}''
          then rtraverse (\<lambda>v. case v of VMap m \<Rightarrow> Inr m | _ \<Rightarrow> Inl (EPanic ''interface conversion'')) vs
          else Inl (EPanic ''interface conversion'')
      | _ \<Rightarrow> Inl (EPanic ''interface conversion''))"

fun list_rows ::
  "api \<Rightarrow> coldef \<Rightarrow> row list \<Rightarrow> string set \<Rightarrow> keyed_stored list res" where
  "list_rows A colDef [] seen = Inr []"
| "list_rows A colDef (row # rows) seen =
     (case ResolveListRecordKey A row colDef of
        None \<Rightarrow> Inl ENoTransportID
      | Some rid \<Rightarrow>
          if rid = [] then Inl ENoTransportID
          else if rid \<in> seen then Inl (EDuplicateListID rid)
          else rbind (map_err (EWrap (''record '' @ rid))
                 (decodeSourceTransport colDef
                    (ApplyLocaleToRead A (go_delete ''$ID'' row) (cdColumns colDef)))) (\<lambda>normalized.
               rbind (list_rows A colDef rows (insert rid seen)) (\<lambda>rest.
                 Inr (\<lparr>ksKey = rid, ksStored = normalized\<rparr> # rest))))"

definition readAllListStored ::
  "osenv \<Rightarrow> api \<Rightarrow> coldef \<Rightarrow> recfile \<Rightarrow> ('b world_scheme, dberr, keyed_stored list) io" where
  "readAllListStored E A colDef rf =
     (let path = resolveRecordPath A colDef rf [] in
      iobind (stat_exists E path) (\<lambda>exists.
        if \<not> exists then ioret []
        else iobind (iowrap (''read list records '' @ path) (withSharedLock E path
               (iobind (os_ReadFile E path) (\<lambda>content.
                  iolift (if rfFormat rf = RecordFormatCSV
                          then rbind (ParseRecordContentForCollection A content colDef) records_wrapper
                          else ParseListOfRecordsContent A content (rfFormat rf)))))) (\<lambda>rows.
             iolift (list_rows A colDef rows {}))))"

definition readAllStoredRecords ::
  "osenv \<Rightarrow> api \<Rightarrow> coldef \<Rightarrow> recfile \<Rightarrow> ('b world_scheme, dberr, keyed_stored list) io" where
  "readAllStoredRecords E A colDef rf =
     (case rfRecordType rf of
        SingleRecord \<Rightarrow> readAllSingleStored E A colDef rf
      | MapOfRecords \<Rightarrow> readAllMapStored E A colDef rf
      | ListOfRecords \<Rightarrow> readAllListStored E A colDef rf
      | OtherRecordType t \<Rightarrow> iofail (EUnsupportedRecordType ''query'' t))"

definition bakeStoredRecords :: "api \<Rightarrow> coldef \<Rightarrow> keyed_stored list \<Rightarrow> drec list res" where
  "bakeStoredRecords A colDef stored =
     rtraverse (\<lambda>s.
       rbind (ApplyFormulasToRead A (ksStored s) (cdColumns colDef) (cdID colDef) (ksKey s))
         (\<lambda>computed. Inr \<lparr>dColl = cdID colDef, dID = ksKey s, dData = computed\<rparr>)) stored"

definition readAllRecordsFromDisk ::
  "osenv \<Rightarrow> api \<Rightarrow> coldef \<Rightarrow> recfile \<Rightarrow> ('b world_scheme, dberr, drec list) io" where
  "readAllRecordsFromDisk E A colDef rf =
     iobind (readAllStoredRecords E A colDef rf) (\<lambda>stored. iolift (bakeStoredRecords A colDef stored))"

section \<open>Reads change nothing\<close>

lemma keeps_wrap: "iokeeps same_fs m \<Longrightarrow> iokeeps same_fs (iowrap msg m)"
  by (simp add: iowrap_def untouched.keeps_catch)

lemma stat_exists_same: "iokeeps same_fs (stat_exists E p)"
  unfolding stat_exists_def
  by (intro untouched.keeps_intros os_Stat_same untouched.keeps_if) simp_all

lemma stat_exists_True:
  "stat_exists E p w = (Inr True, w') \<Longrightarrow> \<exists>n. lookup_node (wFs w') p = Inr n"
  by (auto simp: stat_exists_def iocatch_def iobind_def io_defs split: prod.splits sum.splits if_splits
        dest: os_Stat_Inr)

lemma stat_exists_False:
  "stat_exists E p w = (Inr False, w') \<Longrightarrow> lookup_node (wFs w) p = Inl ENotExist"
proof -
  assume "stat_exists E p w = (Inr False, w')"
  then obtain e where e: "os_Stat E p w = (Inl e, w')" "err_is e is_not_exist"
    by (auto simp: stat_exists_def iocatch_def iobind_def io_defs split: prod.splits sum.splits if_splits)
  then have "e = ENotExist"
    by (auto simp: os_Stat_def os_call_def Let_def lookup_node_def split: option.splits if_splits)
  with e(1) show "lookup_node (wFs w) p = Inl ENotExist" by (auto dest: os_Stat_missing)
qed

lemma withSharedLock_same:
  assumes "lookup_node (wFs w) p = Inr n" and "iokeeps same_fs fn"
  shows "same_fs w (snd (withSharedLock E p fn w))"
proof -
  obtain r w1 where fl: "flock E p w = (r, w1)" by (cases "flock E p w")
  have w1: "same_fs w w1" using flock_existing [OF assms(1), of E] fl by simp
  show ?thesis
  proof (cases r)
    case (Inl e)
    with fl w1 show ?thesis by (simp add: withSharedLock_def iobind_def iocatch_def iofail_def)
  next
    case (Inr u)
    have "same_fs w1 (snd (fn w1))" using assms(2) by (simp add: iokeeps_def)
    with w1 have "same_fs w (snd (fn w1))" by (rule untouched.frame_trans)
    with fl Inr show ?thesis by (simp add: withSharedLock_def iobind_def iocatch_def)
  qed
qed

text \<open>The common shape of the reading functions: a stat, then a read of a node that exists.\<close>

lemma guarded_read_same:
  assumes "\<And>(w :: 'b world_scheme) n. lookup_node (wFs w) p = Inr n \<Longrightarrow> same_fs w (snd (k w))"
  shows "iokeeps same_fs (iobind (stat_exists E p) (\<lambda>exists. if \<not> exists then ioret x else k))"
proof
  fix w :: "'b world_scheme"
  obtain r w1 where st: "stat_exists E p w = (r, w1)" by (cases "stat_exists E p w")
  have w1: "same_fs w w1" using stat_exists_same st by (rule iokeepsD)
  show "same_fs w (snd (iobind (stat_exists E p) (\<lambda>exists. if \<not> exists then ioret x else k) w))"
  proof (cases "r = Inr True")
    case True
    then obtain n where "lookup_node (wFs w1) p = Inr n"
      using stat_exists_True [of E p w w1] st by auto
    then have "same_fs w1 (snd (k w1))" by (rule assms)
    with w1 have "same_fs w (snd (k w1))" by (rule untouched.frame_trans)
    with st True show ?thesis by (simp add: iobind_def)
  next
    case False
    with st w1 show ?thesis by (cases r) (auto simp: iobind_def ioret_def)
  qed
qed

lemma bind_same_at:
  assumes "same_fs w (snd (m w))" and "\<And>x. iokeeps same_fs (f x)"
  shows "same_fs w (snd (iobind m f w))"
proof -
  obtain r w1 where m: "m w = (r, w1)" by (cases "m w")
  show ?thesis
  proof (cases r)
    case (Inr x)
    have "same_fs w1 (snd (f x w1))" using assms(2) by (simp add: iokeeps_def)
    then have "same_fs w (snd (f x w1))"
      using assms(1) m untouched.frame_trans [of w w1] by simp
    with m Inr show ?thesis by (simp add: iobind_def)
  qed (use m assms(1) in \<open>simp add: iobind_def\<close>)
qed

lemma wrap_same_at: "same_fs w (snd (m w)) \<Longrightarrow> same_fs w (snd (iowrap msg m w))"
  by (auto simp: iowrap_def iocatch_def iofail_def split: prod.splits sum.splits)

lemma readSingleRecordFile_same: "iokeeps same_fs (readSingleRecordFile E A p cd)"
  unfolding readSingleRecordFile_def
  by (rule guarded_read_same, erule withSharedLock_same)
    (intro untouched.keeps_intros keeps_wrap os_ReadFile_same; simp)

lemma readMapOfRecordsFile_same: "iokeeps same_fs (readMapOfRecordsFile E A p fmt)"
  unfolding readMapOfRecordsFile_def
  by (rule guarded_read_same, erule withSharedLock_same)
    (intro untouched.keeps_intros keeps_wrap os_ReadFile_same; simp)

lemma scan_match_same: "iokeeps same_fs (scan_match E A cd rf b m)"
  unfolding scan_match_def Let_def
  by (auto split: option.split intro!: untouched.keeps_bind readSingleRecordFile_same)

lemma readAllSingleStored_same: "iokeeps same_fs (readAllSingleStored E A cd rf)"
  unfolding readAllSingleStored_def Let_def
  by (intro untouched.keeps_intros keeps_wrap filepath_Glob_same scan_match_same) simp

lemma readAllMapStored_same: "iokeeps same_fs (readAllMapStored E A cd rf)"
  unfolding readAllMapStored_def by (intro untouched.keeps_intros readMapOfRecordsFile_same) simp

lemma readAllListStored_same: "iokeeps same_fs (readAllListStored E A cd rf)"
  unfolding readAllListStored_def Let_def
  by (rule guarded_read_same, rule bind_same_at, rule wrap_same_at, erule withSharedLock_same)
    (auto intro!: untouched.keeps_bind os_ReadFile_same)

lemma readAllStoredRecords_same: "iokeeps same_fs (readAllStoredRecords E A cd rf)"
  unfolding readAllStoredRecords_def
  by (cases "rfRecordType rf")
    (simp_all add: readAllSingleStored_same readAllMapStored_same readAllListStored_same)

lemma readAllRecordsFromDisk_same: "iokeeps same_fs (readAllRecordsFromDisk E A cd rf)"
  unfolding readAllRecordsFromDisk_def
  by (intro untouched.keeps_intros readAllStoredRecords_same) simp

lemmas reads_same = readSingleRecordFile_same readMapOfRecordsFile_same readAllListStored_same
  readAllStoredRecords_same readAllRecordsFromDisk_same

section \<open>Writes touch one file\<close>

lemma frame_wrap: "iokeeps (frame_rel P) m \<Longrightarrow> iokeeps (frame_rel P) (iowrap msg m)"
  by (simp add: iowrap_def touched.keeps_catch)

lemma same_keeps_frame: "iokeeps same_fs m \<Longrightarrow> iokeeps (frame_rel P) m"
  by (erule iokeeps_mono) (rule same_fs_frame)

lemma mkdir_keeps: "iokeeps (frame_rel P) (os_MkdirAll E p)"
  by (rule iokeeps_mono [OF os_MkdirAll_frame]) (auto intro: frame_rel_mono)

lemma writeSingleRecordFile_frame:
  "iokeeps (frame_rel {path_Clean p}) (writeSingleRecordFile E A p cd data)"
  unfolding writeSingleRecordFile_def
  by (intro touched.keeps_intros frame_wrap withLock_frame mkdir_keeps os_WriteFile_frame) simp_all

lemma writeMapOfRecordsFile_frame:
  "iokeeps (frame_rel {path_Clean p}) (writeMapOfRecordsFile E A p cd rf data)"
  unfolding writeMapOfRecordsFile_def
  by (intro touched.keeps_intros frame_wrap withLock_frame mkdir_keeps os_WriteFile_frame) simp_all

lemma deleteSingleRecordFile_frame:
  "iokeeps (frame_rel {path_Clean p}) (deleteSingleRecordFile E p)"
  unfolding deleteSingleRecordFile_def
  by (intro touched.keeps_intros touched.keeps_if withLock_frame os_Remove_frame
        same_keeps_frame [OF stat_exists_same]) simp_all

lemmas writes_frame = writeSingleRecordFile_frame writeMapOfRecordsFile_frame deleteSingleRecordFile_frame

section \<open>What was written is what is read\<close>

lemma prefixes_of_proper: "q \<in> set (butlast (prefixes_of p)) \<Longrightarrow> q \<noteq> path_Clean p"
proof
  assume q: "q \<in> set (butlast (prefixes_of p))" and eq: "q = path_Clean p"
  from q obtain i where i: "i < length (csegs p)" "q = render (rooted p) (take i (csegs p))"
    by (auto simp: prefixes_of_def butlast_append map_butlast [symmetric] split: if_splits)
  have "csegs q = take i (csegs p)" by (simp add: i csegs_render csegs_take_ok)
  moreover have "csegs q = csegs p" by (simp add: eq)
  ultimately have "length (take i (csegs p)) = length (csegs p)" by simp
  with i(1) show False by simp
qed

lemma blocked_put:
  assumes "\<not> blocked fs p"
  shows "\<not> blocked (go_set (path_Clean p) n fs) p" and "\<not> blocked (go_delete (path_Clean p) fs) p"
  using assms prefixes_of_proper [of _ p]
  by (auto simp: blocked_def list_ex_iff go_get_set go_get_delete split: if_splits)

lemma lookup_after_put:
  assumes "put_file E p c perm fs = (Inr u, fs')"
  shows "\<exists>m. lookup_node fs' p = Inr (NFile m c)"
proof -
  have "p \<noteq> []" "\<not> blocked fs p"
    using assms by (auto simp: put_file_def lookup_node_def split: if_splits option.splits)
  moreover have "\<exists>m. fs' = go_set (path_Clean p) (NFile m c) fs"
    using assms by (auto simp: put_file_def split: sum.splits node.splits if_splits)
  ultimately show ?thesis
    by (auto simp: lookup_node_def blocked_put go_get_set)
qed

lemma os_WriteFile_lookup:
  "os_WriteFile E p c perm w = (Inr u, w') \<Longrightarrow> \<exists>m. lookup_node (wFs w') p = Inr (NFile m c)"
  by (auto simp: os_WriteFile_def os_call_Inr dest: lookup_after_put)

lemma iowrap_Inr [res_simps]: "iowrap msg m w = (Inr x, w') \<longleftrightarrow> m w = (Inr x, w')"
  by (simp add: iowrap_def iocatch_fail_Inr)

lemma withLock_Inr:
  "withSharedLock E p fn w = (Inr x, w') \<longleftrightarrow> (\<exists>w1. flock E p w = (Inr (), w1) \<and> fn w1 = (Inr x, w'))"
  "withExclusiveLock E p fn w = (Inr x, w') \<longleftrightarrow> (\<exists>w1. flock E p w = (Inr (), w1) \<and> fn w1 = (Inr x, w'))"
  by (auto simp: withSharedLock_def withExclusiveLock_def iobind_eq_Inr iocatch_fail_Inr)

lemma flock_node:
  assumes "lookup_node (wFs w) p = Inr n" and "flock E p w = (r, w1)"
  shows "wFs w1 = wFs w"
  using flock_existing [OF assms(1), of E] assms(2) by (simp add: same_fs_def)

lemma writeSingleRecordFile_Inr:
  assumes "writeSingleRecordFile E A p cd data w = (Inr u, w')"
  shows "\<exists>m c. EncodeRecordContentForCollection A data cd = Inr c \<and>
           lookup_node (wFs w') p = Inr (NFile m c)"
  using assms
  by (auto simp: writeSingleRecordFile_def res_simps withLock_Inr dest!: os_WriteFile_lookup)

lemma writeMapOfRecordsFile_Inr:
  assumes "writeMapOfRecordsFile E A p cd rf data w = (Inr u, w')"
  shows "\<exists>m c. EncodeMapOfRecordsContent A data (rfFormat rf) (cdID cd) (cdColumnsOrder cd) = Inr c \<and>
           lookup_node (wFs w') p = Inr (NFile m c)"
  using assms
  by (auto simp: writeMapOfRecordsFile_def res_simps withLock_Inr dest!: os_WriteFile_lookup)

text \<open>What a read returns, in terms of the tree it started from.\<close>

lemma readSingleRecordFile_Inr:
  assumes "readSingleRecordFile E A p cd w = (Inr r, w')"
  shows "case lookup_node (wFs w) p of
           Inl e \<Rightarrow> e = ENotExist \<and> r = None
         | Inr n \<Rightarrow> (\<exists>m c d. n = NFile m c \<and> ParseRecordContentForCollection A c cd = Inr d \<and> r = Some d)"
proof -
  from assms obtain ex w1 where st: "stat_exists E p w = (Inr ex, w1)"
    and k: "(if \<not> ex then ioret None else withSharedLock E p
         (iobind (iowrap (''read '' @ p) (os_ReadFile E p)) (\<lambda>content.
          iobind (iowrap (''parse '' @ p) (iolift (ParseRecordContentForCollection A content cd)))
            (\<lambda>data. ioret (Some data))))) w1 = (Inr r, w')"
    by (auto simp: readSingleRecordFile_def res_simps)
  have fs1: "wFs w1 = wFs w" using iokeepsD [OF stat_exists_same st] by (simp add: same_fs_def)
  show ?thesis
  proof (cases ex)
    case False
    with st k show ?thesis by (auto simp: ioret_def dest: stat_exists_False)
  next
    case True
    with st fs1 obtain n where n: "lookup_node (wFs w) p = Inr n"
      by (metis stat_exists_True)
    from k True obtain w2 c d where "flock E p w1 = (Inr (), w2)"
        and read: "os_ReadFile E p w2 = (Inr c, w')"
        and d: "ParseRecordContentForCollection A c cd = Inr d" "r = Some d"
      by (auto simp: res_simps withLock_Inr)
    then have "wFs w2 = wFs w" using flock_node [of w1 p n E] n fs1 by simp
    with read n d show ?thesis by (auto dest!: os_ReadFile_Inr)
  qed
qed

lemma readMapOfRecordsFile_Inr:
  assumes "readMapOfRecordsFile E A p fmt w = (Inr r, w')"
  shows "case lookup_node (wFs w) p of
           Inl e \<Rightarrow> e = ENotExist \<and> r = []
         | Inr n \<Rightarrow> (\<exists>m c. n = NFile m c \<and> ParseMapOfRecordsContent A c fmt = Inr r)"
proof -
  from assms obtain ex w1 where st: "stat_exists E p w = (Inr ex, w1)"
    and k: "(if \<not> ex then ioret [] else withSharedLock E p
         (iobind (iowrap (''read '' @ p) (os_ReadFile E p)) (\<lambda>content.
          iowrap (''parse '' @ p) (iolift (ParseMapOfRecordsContent A content fmt))))) w1 = (Inr r, w')"
    by (auto simp: readMapOfRecordsFile_def res_simps)
  have fs1: "wFs w1 = wFs w" using iokeepsD [OF stat_exists_same st] by (simp add: same_fs_def)
  show ?thesis
  proof (cases ex)
    case False
    with st k show ?thesis by (auto simp: ioret_def dest: stat_exists_False)
  next
    case True
    with st fs1 obtain n where n: "lookup_node (wFs w) p = Inr n"
      by (metis stat_exists_True)
    from k True obtain w2 c where "flock E p w1 = (Inr (), w2)"
        and read: "os_ReadFile E p w2 = (Inr c, w')" and d: "ParseMapOfRecordsContent A c fmt = Inr r"
      by (auto simp: res_simps withLock_Inr)
    then have "wFs w2 = wFs w" using flock_node [of w1 p n E] n fs1 by simp
    with read n d show ?thesis by (auto dest!: os_ReadFile_Inr)
  qed
qed

text \<open>A delete that reports success leaves no file, also when there was none.\<close>

lemma deleteSingleRecordFile_Inr:
  assumes "deleteSingleRecordFile E p w = (Inr u, w')" and "p \<noteq> []"
  shows "go_get (wFs w') (path_Clean p) = None"
proof -
  from assms(1) obtain ex w1 where st: "stat_exists E p w = (Inr ex, w1)"
    and k: "(if \<not> ex then ioret () else withExclusiveLock E p (iocatch (os_Remove E p)
        (\<lambda>e. if err_is e is_not_exist then ioret () else iofail (EWrap (''remove '' @ p) e)))) w1 = (Inr u, w')"
    by (auto simp: deleteSingleRecordFile_def res_simps)
  have fs1: "wFs w1 = wFs w" using iokeepsD [OF stat_exists_same st] by (simp add: same_fs_def)
  show ?thesis
  proof (cases ex)
    case False
    with st k fs1 assms(2) show ?thesis
      by (auto simp: ioret_def dest!: stat_exists_False lookup_node_missing)
  next
    case True
    from k True obtain w2 where "iocatch (os_Remove E p)
        (\<lambda>e. if err_is e is_not_exist then ioret () else iofail (EWrap (''remove '' @ p) e)) w2 = (Inr u, w')"
      by (auto simp: withLock_Inr)
    then consider "os_Remove E p w2 = (Inr u, w')"
      | e where "os_Remove E p w2 = (Inl e, w')" "err_is e is_not_exist"
      by (auto simp: iocatch_def ioret_def iofail_def split: prod.splits sum.splits if_splits)
    then show ?thesis
    proof cases
      case 1
      then show ?thesis by (rule os_Remove_Inr)
    next
      case 2
      then have "e = ENotExist"
        by (auto simp: os_Remove_def os_call_def Let_def lookup_node_def
              split: option.splits sum.splits if_splits)
      with 2 assms(2) show ?thesis by (auto dest!: os_Remove_missing)
    qed
  qed
qed

end
