(* ===== verification/Scan.thy ===== *)
theory Scan
  imports RecordIO
begin

text \<open>
  What a scan of a single-record collection (\<open>readAllSingleStored\<close> of \<open>query.go\<close>) returns:
  under a template and a directory without glob characters it finds every record file,
  under its own key.
\<close>

section \<open>A scan finds every record file\<close>

text \<open>
  A record file name with one placeholder, in one path segment, without glob characters
  around it or in the directory.
\<close>

definition scan_ok :: "api \<Rightarrow> coldef \<Rightarrow> recfile \<Rightarrow> string \<Rightarrow> string \<Rightarrow> bool" where
  "scan_ok A cd rf pre suf \<longleftrightarrow>
     cdDirPath cd \<noteq> [] \<and> rfName rf = pre @ ''{key}'' @ suf \<and>
     strings_Index (rfName rf) ''{key}'' = Some (length pre) \<and> \<not> strings_Contains suf ''{key}'' \<and>
     slash \<notin> set (rfName rf) \<and> CHR 0x00 \<notin> set (rfName rf) \<and> \<not> has_meta pre \<and> \<not> has_meta suf \<and>
     climb_free A rf \<and>
     (\<forall>s \<in> set (csegs (filepath_Join [cdDirPath cd, RecordsBasePath A rf])). \<not> has_meta s)"

lemma scan_expand:
  assumes "scan_ok A cd rf pre suf"
  shows "strings_ReplaceAll (rfName rf) ''{key}'' e = pre @ e @ suf"
    and "plain_seg e \<Longrightarrow> plain_seg (pre @ e @ suf)"
proof -
  have i: "strings_Index (rfName rf) ''{key}'' = Some (length pre)"
    and name: "rfName rf = pre @ ''{key}'' @ suf" and suf: "\<not> strings_Contains suf ''{key}''"
    and no: "slash \<notin> set (rfName rf)"
    using assms by (auto simp: scan_ok_def)
  have "drop (length pre + length ''{key}'') (rfName rf) = suf" "take (length pre) (rfName rf) = pre"
    unfolding name by simp_all
  then show eq: "strings_ReplaceAll (rfName rf) ''{key}'' e = pre @ e @ suf" for e
    using Index_ReplaceAll [OF i, of e] suf by (simp add: ReplaceAll_absent)
  have "strings_Contains (rfName rf) ''{key}''"
    by (auto simp: Contains_iff_sublist name sublist_def)
  then show "plain_seg (pre @ e @ suf)" if "plain_seg e"
    using ReplaceAll_plain [OF _ no that] by (simp add: eq)
qed

definition base_path :: "api \<Rightarrow> coldef \<Rightarrow> recfile \<Rightarrow> string" where
  "base_path A cd rf = filepath_Join [cdDirPath cd, RecordsBasePath A rf]"

lemma base_path_segs:
  assumes "scan_ok A cd rf pre suf"
  shows "csegs (base_path A cd rf) = csegs (cdDirPath cd) @
           filter (\<lambda>s. s \<noteq> [] \<and> s \<noteq> ''.'') (strings_Split slash (RecordsBasePath A rf))"
    and "rooted (base_path A cd rf) = rooted (cdDirPath cd)"
    and "base_path A cd rf \<noteq> []" and "path_Clean (base_path A cd rf) = base_path A cd rf"
proof -
  have d: "cdDirPath cd \<noteq> []" and c: "climb_free A rf"
    using assms by (auto simp: scan_ok_def)
  show "csegs (base_path A cd rf) = csegs (cdDirPath cd) @
      filter (\<lambda>s. s \<noteq> [] \<and> s \<noteq> ''.'') (strings_Split slash (RecordsBasePath A rf))"
    using c by (simp add: base_path_def filepath_Join_segs [OF d] clean_stack_no_up climb_free_def
        del: filepath_Join.simps)
  show "rooted (base_path A cd rf) = rooted (cdDirPath cd)"
    by (simp add: base_path_def filepath_Join_segs [OF d] del: filepath_Join.simps)
  show ne: "base_path A cd rf \<noteq> []" using d by (simp add: base_path_def)
  show "path_Clean (base_path A cd rf) = base_path A cd rf"
    using Join_is_clean ne unfolding base_path_def by blast
qed

lemma clean_eqI: "path_Clean p = p \<Longrightarrow> path_Clean q = q \<Longrightarrow> rooted p = rooted q \<Longrightarrow> csegs p = csegs q \<Longrightarrow> p = q"
  by (metis Clean_eq_iff)

lemma scan_member:
  assumes "scan_ok A cd rf pre suf" and "plain_seg e"
  shows "csegs (filepath_Join [base_path A cd rf, pre @ e @ suf]) =
           csegs (base_path A cd rf) @ [pre @ e @ suf]"
    and "rooted (filepath_Join [base_path A cd rf, pre @ e @ suf]) = rooted (cdDirPath cd)"
    and "filepath_Join [base_path A cd rf, pre @ e @ suf] \<noteq> []"
    and "path_Clean (filepath_Join [base_path A cd rf, pre @ e @ suf]) =
           filepath_Join [base_path A cd rf, pre @ e @ suf]"
proof -
  note b = base_path_segs [OF assms(1)]
  have "plain_seg (pre @ e @ suf)" using scan_expand(2) [OF assms(1,2)] .
  then show "csegs (filepath_Join [base_path A cd rf, pre @ e @ suf]) =
      csegs (base_path A cd rf) @ [pre @ e @ suf]"
      "rooted (filepath_Join [base_path A cd rf, pre @ e @ suf]) = rooted (cdDirPath cd)"
    using filepath_Join_plain [of "base_path A cd rf" "[pre @ e @ suf]"] b
    by (simp_all del: filepath_Join.simps)
  show ne: "filepath_Join [base_path A cd rf, pre @ e @ suf] \<noteq> []" using b(3) by simp
  then show "path_Clean (filepath_Join [base_path A cd rf, pre @ e @ suf]) =
      filepath_Join [base_path A cd rf, pre @ e @ suf]"
    by (rule Join_is_clean)
qed

lemma scan_path:
  assumes "scan_ok A cd rf pre suf" and "segment_key k"
  shows "resolveRecordPath A cd rf k = filepath_Join [base_path A cd rf, pre @ recordKeyToFileName k @ suf]"
proof (rule clean_eqI)
  let ?e = "recordKeyToFileName k"
  have plain: "plain_seg ?e" using assms(2) by (rule ToFileName_plain)
  have d: "cdDirPath cd \<noteq> []" and c: "climb_free A rf" and no: "slash \<notin> set (rfName rf)"
    using assms(1) by (auto simp: scan_ok_def)
  note r = resolveRecordPath_segs [OF d c plain]
  note m = scan_member [OF assms(1) plain]
  show "path_Clean (resolveRecordPath A cd rf k) = resolveRecordPath A cd rf k"
    unfolding resolveRecordPath_def Let_def by (rule Join_is_clean) (simp add: d)
  have "plain_seg (pre @ ?e @ suf)" using scan_expand(2) [OF assms(1) plain] .
  then have "record_segs A rf ?e =
      filter (\<lambda>s. s \<noteq> [] \<and> s \<noteq> ''.'') (strings_Split slash (RecordsBasePath A rf)) @ [pre @ ?e @ suf]"
    using scan_expand(1) [OF assms(1), of ?e] no by (auto simp: record_segs_def Split_no_sep plain_seg_def)
  then show "csegs (resolveRecordPath A cd rf k) =
      csegs (filepath_Join [base_path A cd rf, pre @ ?e @ suf])"
    using r(1) m(1) base_path_segs(1) [OF assms(1)] by (simp del: filepath_Join.simps)
  show "rooted (resolveRecordPath A cd rf k) = rooted (filepath_Join [base_path A cd rf, pre @ ?e @ suf])"
    using r(2) m(2) by (simp del: filepath_Join.simps)
qed (rule scan_member(4) [OF assms(1) ToFileName_plain [OF assms(2)]])

lemma those_map_Some: "(\<And>x. x \<in> set xs \<Longrightarrow> f x = Some (g x)) \<Longrightarrow> those (map f xs) = Some (map g xs)"
  by (induction xs) auto

lemma those_append: "those xs = Some as \<Longrightarrow> those ys = Some bs \<Longrightarrow> those (xs @ ys) = Some (as @ bs)"
  by (induction xs arbitrary: as) (auto split: option.splits)

lemma scan_glob:
  assumes "scan_ok A cd rf pre suf"
  shows "glob_fs fs (filepath_Join [base_path A cd rf, pre @ ''*'' @ suf]) =
           Inr (map (\<lambda>n. filepath_Join [base_path A cd rf, n])
             (filter (gmatch (map GLit pre @ GStar # map GLit suf)) (dir_names fs (base_path A cd rf))))"
proof -
  let ?b = "base_path A cd rf" and ?star = "pre @ ''*'' @ suf"
  have meta: "\<not> has_meta pre" "\<not> has_meta suf" "\<forall>s \<in> set (csegs ?b). \<not> has_meta s"
    using assms by (auto simp: scan_ok_def base_path_def)
  have star: "plain_seg ''*''" by (simp add: plain_seg_def)
  note m = scan_member [OF assms star]
  have "those (map parse_segment (csegs ?b)) = Some (map (map GLit) (csegs ?b))"
    using meta(3) by (intro those_map_Some) (simp add: parse_segment_literal)
  moreover have "parse_segment ?star = Some (map GLit pre @ GStar # map GLit suf)"
    using parse_segment_star [OF meta(1,2)] by simp
  ultimately have those: "those (map parse_segment (csegs ?b @ [?star])) =
      Some (map (map GLit) (csegs ?b) @ [map GLit pre @ GStar # map GLit suf])"
    using those_append [of "map parse_segment (csegs ?b)" _ "[parse_segment ?star]"] by simp
  have "has_meta ?star" by (simp add: has_meta_def strings_ContainsAny_def)
  then have lit: "takeWhile (\<lambda>s. \<not> has_meta s) (csegs ?b @ [?star]) = csegs ?b"
    using meta(3) by (simp add: takeWhile_append)
  have "render (rooted (cdDirPath cd)) (csegs ?b) = ?b"
    using base_path_segs(2,4) [OF assms] by (simp add: path_Clean_def)
  then show ?thesis
    using those lit m(1,2) by (simp add: glob_fs_def glob_in_def Let_def del: filepath_Join.simps)
qed

lemma dir_names_iff:
  "n \<in> set (dir_names fs d) \<longleftrightarrow>
     (\<exists>q x. (q, x) \<in> set fs \<and> rooted q = rooted d \<and> csegs q = csegs d @ [n])"
proof -
  have "n \<in> set (dir_names fs d) \<longleftrightarrow>
      (\<exists>q x. (q, x) \<in> set fs \<and> rooted q = rooted d \<and> csegs q \<noteq> [] \<and> butlast (csegs q) = csegs d \<and>
         last (csegs q) = n)"
    by (auto simp: dir_names_def)
  then show ?thesis by (metis append_butlast_last_id butlast_snoc last_snoc snoc_eq_iff_butlast)
qed

lemma scan_rel:
  assumes "scan_ok A cd rf pre suf" and "plain_seg e"
  shows "filepath_Rel (base_path A cd rf) (filepath_Join [base_path A cd rf, pre @ e @ suf]) = Some (pre @ e @ suf)"
proof -
  let ?b = "base_path A cd rf" and ?m = "filepath_Join [base_path A cd rf, pre @ e @ suf]"
  note m = scan_member [OF assms] and b = base_path_segs [OF assms(1)]
  have "?m \<noteq> ?b"
    using arg_cong [of ?m ?b csegs] m(1) by auto
  moreover have "strip_common (csegs ?b) (csegs ?m) = ([], [pre @ e @ suf])"
    by (simp add: m(1) strip_common_prefix del: filepath_Join.simps)
  ultimately show ?thesis
    using m b by (simp add: filepath_Rel_def Let_def del: filepath_Join.simps)
qed

lemma scan_template:
  assumes "scan_ok A cd rf pre suf"
  shows "one_key_template (rfName rf)"
proof -
  have name: "rfName rf = pre @ ''{key}'' @ suf" using assms by (simp add: scan_ok_def)
  have "drop (length pre + 5) (rfName rf) = suf" unfolding name by simp
  with assms show ?thesis by (auto simp: one_key_template_def scan_ok_def)
qed

lemma list_all2_mem: "list_all2 P xs ys \<Longrightarrow> x \<in> set xs \<Longrightarrow> \<exists>y \<in> set ys. P x y"
  by (induction rule: list_all2_induct) auto

lemma readAllSingleStored_complete:
  assumes ok: "scan_ok A cd rf pre suf"
    and run: "readAllSingleStored E A cd rf w = (Inr items, w')" and tick: "osFault E (wTick w) = None"
    and k: "segment_key k" and there: "go_get (wFs w) (resolveRecordPath A cd rf k) = Some n"
    and incl: "\<not> IsExcluded A rf (pre @ recordKeyToFileName k @ suf)"
    and reachable: "\<not> blocked (wFs w) (resolveRecordPath A cd rf k)"
  shows "\<exists>m c d. n = NFile m c \<and> ParseRecordContentForCollection A c cd = Inr d \<and>
           \<lparr>ksKey = k, ksStored = ApplyLocaleToRead A d (cdColumns cd)\<rparr> \<in> set items"
proof -
  let ?b = "base_path A cd rf" and ?e = "recordKeyToFileName k"
  let ?m = "filepath_Join [base_path A cd rf, pre @ recordKeyToFileName k @ suf]"
  have plain: "plain_seg ?e" using k by (rule ToFileName_plain)
  note m = scan_member [OF ok plain]
  have path: "resolveRecordPath A cd rf k = ?m" by (rule scan_path [OF ok k])
  from run obtain matches w1 opts where
      glob: "filepath_Glob E (filepath_Join [?b, pre @ ''*'' @ suf]) w = (Inr matches, w1)"
    and loop: "iotraverse (scan_match E A cd rf ?b) matches w1 = (Inr opts, w')"
    and items: "items = List.map_filter (\<lambda>x. x) opts"
    using scan_expand(1) [OF ok, of "''*''"]
    by (auto simp: readAllSingleStored_def Let_def res_simps base_path_def [symmetric]
          simp del: filepath_Join.simps)
  have "(?m, n) \<in> set (wFs w)" using there path by (auto simp: go_get_def dest: map_of_SomeD)
  then have "pre @ ?e @ suf \<in> set (dir_names (wFs w) ?b)"
    using m(1,2) base_path_segs(2) [OF ok] by (force simp: dir_names_iff)
  moreover have "gmatch (map GLit pre @ GStar # map GLit suf) (pre @ ?e @ suf)"
    using ToFileName_no_separator(1) [of k] gmatch_one_star by blast
  ultimately have mem: "?m \<in> set matches" and fs1: "wFs w1 = wFs w"
    using glob scan_glob [OF ok, of "wFs w"] tick
    by (auto simp: filepath_Glob_def Let_def simp del: filepath_Join.simps)
  obtain y u v where y: "y \<in> set opts" "same_fs w1 u" "scan_match E A cd rf ?b ?m u = (Inr y, v)"
    using list_all2_mem [OF untouched.traverse_each [OF loop scan_match_same] mem] by blast
  have "buildKeyExtractor (rfName rf) (pre @ ?e @ suf) = k"
    using buildKeyExtractor_expanded [OF scan_template [OF ok], of k] scan_expand(1) [OF ok, of ?e] k
    by (simp add: segment_key_def)
  moreover have "path_Base ?m = pre @ ?e @ suf"
    by (rule path_Base_clean [OF m(4) m(1)])
  moreover have "k \<noteq> []" using k by (simp add: segment_key_def)
  ultimately obtain found where read: "readSingleRecordFile E A ?m cd u = (Inr found, v)"
      and yv: "y = (case found of None \<Rightarrow> None
        | Some data \<Rightarrow> Some \<lparr>ksKey = k, ksStored = ApplyLocaleToRead A data (cdColumns cd)\<rparr>)"
    using y(3) incl scan_rel [OF ok plain]
    by (auto simp: scan_match_def Let_def res_simps simp del: filepath_Join.simps)
  have "lookup_node (wFs u) ?m = Inr n"
    using y(2) fs1 there reachable m(3,4) path by (simp add: lookup_node_def same_fs_def del: filepath_Join.simps)
  then obtain m c d where "n = NFile m c" "ParseRecordContentForCollection A c cd = Inr d" "found = Some d"
    using readSingleRecordFile_Inr [OF read] by auto
  moreover have "x \<in> set items" if "Some x \<in> set opts" for x
    using that by (force simp: items List.map_filter_def)
  ultimately show ?thesis using yv y(1) by auto
qed

text \<open>
  When reading the directory fails, \<open>filepath.Glob\<close> reports nothing: the scan succeeds and
  is empty.
\<close>

lemma readAllSingleStored_silent:
  assumes ok: "scan_ok A cd rf pre suf" and tick: "osFault E (wTick w) = Some msg"
  shows "fst (readAllSingleStored E A cd rf w) = Inr []"
proof -
  have "filepath_Glob E (filepath_Join [base_path A cd rf, pre @ ''*'' @ suf]) w =
      (Inr [], w\<lparr>wTick := Suc (wTick w)\<rparr>)"
    using tick scan_glob [OF ok, of "wFs w"] by (simp add: filepath_Glob_def Let_def del: filepath_Join.simps)
  then show ?thesis
    using scan_expand(1) [OF ok, of "''*''"]
    by (simp add: readAllSingleStored_def base_path_def [symmetric] iobind_def iowrap_def iocatch_def
          ioret_def List.map_filter_simps Let_def del: filepath_Join.simps)
qed

text \<open>A list file never yields two records of the same key.\<close>

lemma list_rows_distinct:
  "list_rows A cd rows seen = Inr items \<Longrightarrow> distinct (map ksKey items) \<and> seen \<inter> ksKey ` set items = {}"
  by (induction rows arbitrary: seen items) (auto simp: res_simps split: option.splits if_splits, blast+)

end
