(* ===== verification/ReadTx.thy ===== *)
theory ReadTx
  imports Scan
begin

text \<open>
  The read transaction of \<open>tx_readonly.go\<close>: \<open>Get\<close>, \<open>Exists\<close>, \<open>GetMulti\<close> and the query
  entry point \<open>executeQueryToRecordsReader\<close> of \<open>query.go\<close>. A read leaves the tree as it
  was, and in stored-only mode no formula is evaluated.
\<close>

text \<open>\<open>readonlyTx\<close>: whether the database serves stored fields only, and the loaded definition.\<close>

record txctx =
  txStoredOnly :: bool
  txDef :: "collections option"

text \<open>A caller's record: its key, the data it points to and the error set on it.\<close>

record dalrec =
  rKey :: "key option"
  rData :: val
  rErr :: "dberr option"

definition applyDerivedValues :: "api \<Rightarrow> txctx \<Rightarrow> row \<Rightarrow> coldef \<Rightarrow> string \<Rightarrow> row res" where
  "applyDerivedValues A tx data colDef recordKey =
     (if txStoredOnly tx then Inr data
      else ApplyFormulasToRead A data (cdColumns colDef) (cdID colDef) recordKey)"

text \<open>The branch of \<open>Get\<close> for each record layout, up to the computed row.\<close>

definition get_row ::
  "osenv \<Rightarrow> api \<Rightarrow> txctx \<Rightarrow> coldef \<Rightarrow> recfile \<Rightarrow> string \<Rightarrow> ('b world_scheme, dberr, row) io" where
  "get_row E A tx colDef rf recordKey =
     (let path = resolveRecordPath A colDef rf recordKey in
      case rfRecordType rf of
        SingleRecord \<Rightarrow>
          iobind (readSingleRecordFile E A path colDef) (\<lambda>found.
            case found of
              None \<Rightarrow> iofail ERecordNotFound
            | Some data \<Rightarrow>
                iolift (applyDerivedValues A tx (ApplyLocaleToRead A data (cdColumns colDef)) colDef recordKey))
      | MapOfRecords \<Rightarrow>
          iobind (readMapOfRecordsFile E A path (rfFormat rf)) (\<lambda>allRecords.
            case go_get allRecords recordKey of
              None \<Rightarrow> iofail ERecordNotFound
            | Some recordData \<Rightarrow>
                iolift (rbind (decodeSourceTransport colDef
                                 (ApplyLocaleToRead A recordData (cdColumns colDef)))
                          (\<lambda>normalized. applyDerivedValues A tx normalized colDef recordKey)))
      | ListOfRecords \<Rightarrow>
          iobind (readAllListStored E A colDef rf) (\<lambda>allRecords.
            case find (\<lambda>item. ksKey item = recordKey) allRecords of
              None \<Rightarrow> iofail ERecordNotFound
            | Some item \<Rightarrow> iolift (applyDerivedValues A tx (ksStored item) colDef recordKey))
      | OtherRecordType t \<Rightarrow> iofail (EUnsupportedRecordType ''Get'' t))"

text \<open>
  \<open>Get\<close> returns its error, if any, and the record as it left it: a failed read sets the
  error on the record, a cancelled or unresolvable one does not.
\<close>

definition Get ::
  "osenv \<Rightarrow> api \<Rightarrow> txctx \<Rightarrow> dalrec \<Rightarrow> 'b world_scheme \<Rightarrow> (dberr option \<times> dalrec) \<times> 'b world_scheme" where
  "Get E A tx rec w =
     (case ctx_Err E w of
        (Inl e, w1) \<Rightarrow> ((Some e, rec), w1)
      | (Inr _, w1) \<Rightarrow>
          (case resolveCollection A (txDef tx) (rKey rec) of
             Inl e \<Rightarrow>
               if err_is e is_unknown_collection
               then ((Some ERecordNotFound, rec\<lparr>rErr := Some ERecordNotFound\<rparr>), w1)
               else ((Some e, rec), w1)
           | Inr (colDef, rf, recordKey) \<Rightarrow>
               (case get_row E A tx colDef rf recordKey w1 of
                  (Inl e, w2) \<Rightarrow>
                    (case rfRecordType rf of
                       OtherRecordType t \<Rightarrow> ((Some e, rec), w2)
                     | _ \<Rightarrow> ((Some e, rec\<lparr>rErr := Some e\<rparr>), w2))
                | (Inr computed, w2) \<Rightarrow>
                    (case MapToData A (rData rec) computed of
                       Inl e \<Rightarrow> ((Some e, rec\<lparr>rErr := Some e\<rparr>), w2)
                     | Inr d \<Rightarrow> ((None, rec\<lparr>rErr := None, rData := d\<rparr>), w2)))))"

definition Exists ::
  "osenv \<Rightarrow> api \<Rightarrow> txctx \<Rightarrow> key option \<Rightarrow> ('b world_scheme, dberr, bool) io" where
  "Exists E A tx key =
     iobind (iolift (resolveCollection A (txDef tx) key)) (\<lambda>(colDef, rf, recordKey).
       let path = resolveRecordPath A colDef rf recordKey in
       case rfRecordType rf of
         SingleRecord \<Rightarrow>
           iobind (readSingleRecordFile E A path colDef) (\<lambda>found. ioret (found \<noteq> None))
       | MapOfRecords \<Rightarrow>
           iobind (readMapOfRecordsFile E A path (rfFormat rf)) (\<lambda>allRecords.
             ioret (go_get allRecords recordKey \<noteq> None))
       | ListOfRecords \<Rightarrow>
           iobind (readAllListStored E A colDef rf) (\<lambda>allRecords.
             ioret (list_ex (\<lambda>item. ksKey item = recordKey) allRecords))
       | OtherRecordType t \<Rightarrow> iofail (EUnsupportedRecordType ''Exists'' t))"

fun GetMulti ::
  "osenv \<Rightarrow> api \<Rightarrow> txctx \<Rightarrow> dalrec list \<Rightarrow> 'b world_scheme \<Rightarrow> (dberr option \<times> dalrec list) \<times> 'b world_scheme" where
  "GetMulti E A tx [] w = ((None, []), w)"
| "GetMulti E A tx (rec # records) w =
     (case ctx_Err E w of
        (Inl e, w1) \<Rightarrow> ((Some e, rec # records), w1)
      | (Inr _, w1) \<Rightarrow>
          (case Get E A tx rec w1 of
             ((err, rec'), w2) \<Rightarrow>
               (case err of
                  Some e \<Rightarrow>
                    if err_is e is_record_not_found
                    then (case GetMulti E A tx records w2 of ((e', recs), w3) \<Rightarrow> ((e', rec' # recs), w3))
                    else ((Some e, rec' # records), w2)
                | None \<Rightarrow>
                    (case GetMulti E A tx records w2 of ((e', recs), w3) \<Rightarrow> ((e', rec' # recs), w3)))))"

text \<open>A query on an unknown collection reads as an empty one.\<close>

definition executeQueryToRecordsReader ::
  "osenv \<Rightarrow> api \<Rightarrow> (expr \<Rightarrow> string) \<Rightarrow> condeval \<Rightarrow> txctx \<Rightarrow> query \<Rightarrow>
     ('b world_scheme, dberr, sliceRecordsReader) io" where
  "executeQueryToRecordsReader E A es C tx q =
     iobind (ctx_Err E) (\<lambda>_.
       case collectionFromQuery A (txDef tx) q of
         Inl e \<Rightarrow>
           if err_is e is_unknown_collection then ioret (newSliceRecordsReader []) else iofail e
       | Inr (colDef, rf, sq) \<Rightarrow>
           iobind (case sqWhere sq of
                     None \<Rightarrow> ioret ()
                   | Some cond \<Rightarrow> if txStoredOnly tx then iolift (protected_predicate C cond) else ioret ()) (\<lambda>_.
           iobind (if txStoredOnly tx
                   then iobind (readAllStoredRecords E A colDef rf) (\<lambda>stored.
                          iotraverse (\<lambda>item. iobind (ctx_Err E) (\<lambda>_.
                            ioret \<lparr>dColl = cdID colDef, dID = ksKey item, dData = ksStored item\<rparr>)) stored)
                   else readAllRecordsFromDisk E A colDef rf) (\<lambda>records.
           iobind (run_query (ctx_Err E) A es C (txStoredOnly tx) sq (cdID colDef) records) (\<lambda>rows.
             ioret (newSliceRecordsReader rows)))))"

section \<open>Reads leave the tree alone\<close>

lemma get_row_same: "iokeeps same_fs (get_row E A tx cd rf k)"
  unfolding get_row_def Let_def
  by (cases "rfRecordType rf")
    (auto split: option.split intro!: untouched.keeps_bind reads_same)

lemma Get_same: "same_fs w (snd (Get E A tx rec w))"
proof -
  obtain r w1 where c: "ctx_Err E w = (r, w1)" by (cases "ctx_Err E w")
  have w1: "same_fs w w1" using ctx_Err_same c by (rule iokeepsD)
  have row: "same_fs w (snd (get_row E A tx cd rf k w1))" for cd rf k
    using w1 get_row_same [of E A tx cd rf k] by (metis iokeeps_def untouched.frame_trans)
  show ?thesis
  proof (cases r)
    case (Inl e)
    with c w1 show ?thesis by (simp add: Get_def)
  next
    case (Inr u)
    then show ?thesis
    proof (cases "resolveCollection A (txDef tx) (rKey rec)")
      case (Inl e)
      with Inr c w1 show ?thesis by (simp add: Get_def \<open>r = Inr u\<close>)
    next
      case (Inr t)
      obtain cd rf k where t: "t = (cd, rf, k)" by (cases t)
      obtain q w2 where q: "get_row E A tx cd rf k w1 = (q, w2)" by (cases "get_row E A tx cd rf k w1")
      with row [of cd rf k] have "same_fs w w2" by simp
      with q Inr t c \<open>r = Inr u\<close> show ?thesis
        by (auto simp: Get_def split: sum.splits record_type.splits)
    qed
  qed
qed

lemma Exists_same: "iokeeps same_fs (Exists E A tx key)"
  unfolding Exists_def Let_def
  by (intro untouched.keeps_bind)
    (auto split: record_type.split intro!: untouched.keeps_bind reads_same)

lemma GetMulti_same: "same_fs w (snd (GetMulti E A tx recs w))"
proof (induction E A tx recs w rule: GetMulti.induct)
  case (1 E A tx w)
  then show ?case by (simp add: untouched.frame_refl)
next
  case (2 E A tx rec recs w)
  obtain r w1 where c: "ctx_Err E w = (r, w1)" by (cases "ctx_Err E w")
  have w1: "same_fs w w1" using ctx_Err_same c by (rule iokeepsD)
  obtain err rec' w2 where g: "Get E A tx rec w1 = ((err, rec'), w2)"
    by (metis prod.exhaust)
  have w2: "same_fs w w2" using w1 Get_same [of w1 E A tx rec] g untouched.frame_trans by (metis snd_conv)
  show ?case
  proof (cases r)
    case (Inl e)
    with c w1 show ?thesis by simp
  next
    case (Inr u)
    have rest: "same_fs w2 (snd (GetMulti E A tx recs w2))" if "err = None \<or> (\<exists>e. err = Some e \<and> err_is e is_record_not_found)"
      using that 2 c g Inr by (cases err) auto
    then show ?thesis
      using c g Inr w2 untouched.frame_trans [of w w2]
      by (auto split: option.splits prod.splits)
  qed
qed

lemma applyWhereContext_same: "iokeeps same_fs (applyWhereContext (ctx_Err E) A rs c)"
  unfolding applyWhereContext_def by (intro untouched.keeps_intros ctx_Err_same) simp

lemma applyProtectedWhereContext_same: "iokeeps same_fs (applyProtectedWhereContext (ctx_Err E) C rs c)"
  unfolding applyProtectedWhereContext_def by (intro untouched.keeps_intros ctx_Err_same) simp

lemma applyProjectionContext_same: "iokeeps same_fs (applyProjectionContext (ctx_Err E) es rs cols coll)"
  unfolding applyProjectionContext_def by (intro untouched.keeps_intros ctx_Err_same) simp_all

lemma applyGroupByContext_same: "iokeeps same_fs (applyGroupByContext (ctx_Err E) A es sq rs coll)"
  unfolding applyGroupByContext_def partition_groups_def Let_def
  by (cases "sqHaving sq") (auto intro!: untouched.keeps_intros ctx_Err_same)

lemma run_query_same: "iokeeps same_fs (run_query (ctx_Err E) A es C prot sq coll rs)"
  unfolding run_query_def Let_def
  by (auto split: option.split intro!: untouched.keeps_bind ctx_Err_same applyWhereContext_same
        applyProtectedWhereContext_same applyProjectionContext_same applyGroupByContext_same)

lemma executeQueryToRecordsReader_same:
  "iokeeps same_fs (executeQueryToRecordsReader E A es C tx q)"
  unfolding executeQueryToRecordsReader_def
  by (auto split: sum.split option.split intro!: untouched.keeps_intros ctx_Err_same reads_same run_query_same)

section \<open>Stored-only reads evaluate no formula\<close>

lemmas branch_cong = if_cong option.case_cong sum.case_cong prod.case_cong source.case_cong
  query.case_cong record_type.case_cong agg_name.case_cong expr.case_cong list.case_cong

lemma key_steps_formula [simp]: "key_steps (A\<lparr>EvaluateFormula := f\<rparr>) k = key_steps A k"
  by (induction "A\<lparr>EvaluateFormula := f\<rparr>" k rule: key_steps.induct) auto

lemma validate_formula [simp]:
  "validateRecordPathSegment (A\<lparr>EvaluateFormula := f\<rparr>) rid = validateRecordPathSegment A rid"
  "resolveRecordPath (A\<lparr>EvaluateFormula := f\<rparr>) cd rf k = resolveRecordPath A cd rf k"
  "validateRecordFileKey (A\<lparr>EvaluateFormula := f\<rparr>) cd rf k = validateRecordFileKey A cd rf k"
  by (simp_all add: validateRecordPathSegment_def validateRecordFileKey_def resolveRecordPath_def)

lemma resolve_formula [simp]:
  "resolveScopedCollection (A\<lparr>EvaluateFormula := f\<rparr>) def c p = resolveScopedCollection A def c p"
  "resolveCollection (A\<lparr>EvaluateFormula := f\<rparr>) def k = resolveCollection A def k"
  "collectionFromQuery (A\<lparr>EvaluateFormula := f\<rparr>) def q = collectionFromQuery A def q"
  by (simp_all add: resolveScopedCollection_def resolveCollection_def collectionFromQuery_def
        cong: branch_cong)

lemma list_rows_formula [simp]:
  "list_rows (A\<lparr>EvaluateFormula := f\<rparr>) cd rows seen = list_rows A cd rows seen"
  by (induction rows arbitrary: seen) (auto split: option.split)

lemma read_formula [simp]:
  "readSingleRecordFile E (A\<lparr>EvaluateFormula := f\<rparr>) p cd = readSingleRecordFile E A p cd"
  "readMapOfRecordsFile E (A\<lparr>EvaluateFormula := f\<rparr>) p fmt = readMapOfRecordsFile E A p fmt"
  by (simp_all add: readSingleRecordFile_def readMapOfRecordsFile_def cong: branch_cong)

lemma scan_formula [simp]:
  "readAllStoredRecords E (A\<lparr>EvaluateFormula := f\<rparr>) cd rf = readAllStoredRecords E A cd rf"
  "readAllListStored E (A\<lparr>EvaluateFormula := f\<rparr>) cd rf = readAllListStored E A cd rf"
  by (simp_all add: readAllStoredRecords_def readAllSingleStored_def readAllMapStored_def
        readAllListStored_def scan_match_def [abs_def] cong: branch_cong)

lemma evaluate_formula [simp]:
  "evaluateCondition (A\<lparr>EvaluateFormula := f\<rparr>) data k c = evaluateCondition A data k c"
  "evaluate_and (A\<lparr>EvaluateFormula := f\<rparr>) data k cs = evaluate_and A data k cs"
  "evaluate_or (A\<lparr>EvaluateFormula := f\<rparr>) data k cs = evaluate_or A data k cs"
  by (induction A data k c and A data k cs and A data k cs
        rule: evaluateCondition_evaluate_and_evaluate_or.induct)
    (simp_all add: evaluateComparison_def cong: branch_cong)

lemma order_less_formula [simp]:
  "order_less (A\<lparr>EvaluateFormula := f\<rparr>) v es = order_less A v es"
proof (intro ext)
  fix i j
  show "order_less (A\<lparr>EvaluateFormula := f\<rparr>) v es i j = order_less A v es i j"
    by (induction A v es i j rule: order_less.induct) (simp_all add: Let_def cong: branch_cong)
qed

lemma aggregate_formula [simp]:
  "best_value (A\<lparr>EvaluateFormula := f\<rparr>) m b vs = best_value A m b vs"
  by (induction A m b vs rule: best_value.induct) (simp_all add: Let_def split: option.split cong: branch_cong)

lemma having_expr_formula [simp]:
  "evalAggregate (A\<lparr>EvaluateFormula := f\<rparr>) fn args rows = evalAggregate A fn args rows"
  "resolveGroupExpr (A\<lparr>EvaluateFormula := f\<rparr>) e rows = resolveGroupExpr A e rows"
  "resolveHavingExpr (A\<lparr>EvaluateFormula := f\<rparr>) e out rows = resolveHavingExpr A e out rows"
  "groupKeyStr (A\<lparr>EvaluateFormula := f\<rparr>) g data k = groupKeyStr A g data k"
proof -
  show agg: "evalAggregate (A\<lparr>EvaluateFormula := f\<rparr>) fn args rows = evalAggregate A fn args rows" for fn args
    by (simp add: evalAggregate_def cong: branch_cong)
  show "resolveGroupExpr (A\<lparr>EvaluateFormula := f\<rparr>) e rows = resolveGroupExpr A e rows"
    by (cases e) (simp_all add: agg)
  show "resolveHavingExpr (A\<lparr>EvaluateFormula := f\<rparr>) e out rows = resolveHavingExpr A e out rows"
    by (cases e) (simp_all add: agg)
  show "groupKeyStr (A\<lparr>EvaluateFormula := f\<rparr>) g data k = groupKeyStr A g data k"
    by (simp add: groupKeyStr_def)
qed

lemma having_formula [simp]:
  "matchesHavingCondition (A\<lparr>EvaluateFormula := f\<rparr>) out rows c = matchesHavingCondition A out rows c"
  "matches_having_group (A\<lparr>EvaluateFormula := f\<rparr>) out rows b cs = matches_having_group A out rows b cs"
proof (induction A out rows c and A out rows b cs
    rule: matchesHavingCondition_matches_having_group.induct)
  case (6 A out rows is_or c cs)
  have "matches_having_group (A\<lparr>EvaluateFormula := f\<rparr>) out rows is_or cs =
      matches_having_group A out rows is_or cs"
    using "6.IH"(2) [of "\<not> is_or"] by simp
  with "6.IH"(1) show ?case by (simp cong: branch_cong)
qed (simp_all cong: branch_cong)

lemma run_query_formula [simp]:
  "run_query ctx (A\<lparr>EvaluateFormula := f\<rparr>) es C prot sq coll rs = run_query ctx A es C prot sq coll rs"
  by (simp add: run_query_def applyWhereContext_def applyGroupByContext_def partition_groups_def
        applyOrderBy_def cong: branch_cong)

lemma get_row_formula:
  "txStoredOnly tx \<Longrightarrow> get_row E (A\<lparr>EvaluateFormula := f\<rparr>) tx cd rf k = get_row E A tx cd rf k"
  by (simp add: get_row_def applyDerivedValues_def cong: branch_cong)

lemma Get_formula:
  "txStoredOnly tx \<Longrightarrow> Get E (A\<lparr>EvaluateFormula := f\<rparr>) tx rec w = Get E A tx rec w"
  by (simp add: Get_def get_row_formula cong: branch_cong)

lemma executeQuery_formula:
  "txStoredOnly tx \<Longrightarrow> executeQueryToRecordsReader E (A\<lparr>EvaluateFormula := f\<rparr>) es C tx q =
     executeQueryToRecordsReader E A es C tx q"
  by (simp add: executeQueryToRecordsReader_def cong: branch_cong)

end
