(* ===== verification/ForeignKeys.thy ===== *)
theory ForeignKeys
  imports ReadTx
begin

text \<open>
  Referential integrity: \<open>foreign_keys.go\<close> and the entry points of
  \<open>write_validation.go\<close>. A write is admitted only when every stored and every computed
  foreign key names an existing record, a delete only when no record of a root
  collection still refers to the deleted one.
\<close>

section \<open>Columns\<close>

definition orderedForeignKeyFields :: "coldef \<Rightarrow> string list" where
  "orderedForeignKeyFields colDef =
     orderedColumns (Some colDef) (\<lambda>c. cForeignKey c \<noteq> [] \<and> cFormula c = [])"

definition orderedCollectionIDs :: "collections \<Rightarrow> string list" where
  "orderedCollectionIDs cols = (if cols = [] then [] else sort_Strings (go_keys cols))"

definition column_of :: "coldef \<Rightarrow> string \<Rightarrow> column option" where
  "column_of colDef name = (case go_get (cdColumns colDef) name of Some (Some c) \<Rightarrow> Some c | _ \<Rightarrow> None)"

definition references :: "coldef \<Rightarrow> string \<Rightarrow> string \<Rightarrow> bool" where
  "references colDef parentCollection name =
     (case column_of colDef name of None \<Rightarrow> False | Some c \<Rightarrow> cForeignKey c = parentCollection)"

definition foreignKeyFieldsReferencing :: "coldef \<Rightarrow> string \<Rightarrow> string list" where
  "foreignKeyFieldsReferencing colDef parentCollection =
     filter (references colDef parentCollection) (orderedForeignKeyFields colDef)"

definition computedForeignKeyFieldsReferencing :: "coldef \<Rightarrow> string \<Rightarrow> string list" where
  "computedForeignKeyFieldsReferencing colDef parentCollection =
     filter (references colDef parentCollection) (orderedComputedColumns (Some colDef))"

definition isEmptyForeignKeyValue :: "val \<Rightarrow> bool" where
  "isEmptyForeignKeyValue v \<longleftrightarrow> v = VNil \<or> v = VStr []"

fun computedForeignKeyString :: "api \<Rightarrow> val \<Rightarrow> string" where
  "computedForeignKeyString A VNil = []"
| "computedForeignKeyString A (VStr s) = s"
| "computedForeignKeyString A v = fmt_v (FmtFloat A) v"

section \<open>The validators\<close>

definition foreignKeyTargetExists ::
  "osenv \<Rightarrow> api \<Rightarrow> coldef option \<Rightarrow> string \<Rightarrow> ('b world_scheme, dberr, bool) io" where
  "foreignKeyTargetExists E A parentDef parentKey =
     (case parentDef of
        None \<Rightarrow> iofail (EConfig ''parent collection definition is nil'')
      | Some cd \<Rightarrow>
          (case cdRecordFile cd of
             None \<Rightarrow> iofail (EConfig (''parent collection '' @ cdID cd @ '' has no record_file definition''))
           | Some rf \<Rightarrow>
               (case validateRecordFileKey A cd rf parentKey of
                  Inl e \<Rightarrow> ioret False
                | Inr _ \<Rightarrow>
                    (let path = resolveRecordPath A cd rf parentKey in
                     case rfRecordType rf of
                       SingleRecord \<Rightarrow>
                         iobind (readSingleRecordFile E A path cd) (\<lambda>found. ioret (found \<noteq> None))
                     | MapOfRecords \<Rightarrow>
                         iobind (readMapOfRecordsFile E A path (rfFormat rf)) (\<lambda>allRecords.
                           ioret (go_get allRecords parentKey \<noteq> None))
                     | _ \<Rightarrow> iofail (EConfig (''parent collection '' @ cdID cd @ '' has unsupported record type''))))))"

definition check_target ::
  "osenv \<Rightarrow> api \<Rightarrow> string \<Rightarrow> string \<Rightarrow> string \<Rightarrow> string \<Rightarrow> coldef \<Rightarrow> string \<Rightarrow> ('b world_scheme, dberr, unit) io" where
  "check_target E A operation childCollection name parentCollection parentDef parentKey =
     iobind (iowrap (operation @ '' foreign key lookup failed: '' @ childCollection @ '' '' @ name)
               (foreignKeyTargetExists E A (Some parentDef) parentKey)) (\<lambda>exists.
       ioguard exists (EForeignKeyViolation name parentCollection parentKey))"

definition check_stored_fk ::
  "osenv \<Rightarrow> api \<Rightarrow> collections \<Rightarrow> string \<Rightarrow> string \<Rightarrow> coldef \<Rightarrow> row \<Rightarrow> string \<Rightarrow> ('b world_scheme, dberr, unit) io" where
  "check_stored_fk E A cols operation childCollection childDef data name =
     (case column_of childDef name of
        None \<Rightarrow> iofail (EPanic ''nil column definition'')
      | Some c \<Rightarrow>
          (case ForeignKeyElements A (field data name) of (parentKeys, elementErrs) \<Rightarrow>
             if elementErrs \<noteq> [] then iofail (EForeignKeyElement name (hd elementErrs))
             else if parentKeys = []
             then ioguard (\<not> cRequired c) (EForeignKeyMissing childCollection name)
             else (case go_get cols (cForeignKey c) of
                     None \<Rightarrow> iofail (EForeignKeyConfig name (cForeignKey c))
                   | Some parentDef \<Rightarrow>
                       ioeach (check_target E A operation childCollection name (cForeignKey c) parentDef)
                         parentKeys)))"

definition validateWriteForeignKeys ::
  "osenv \<Rightarrow> api \<Rightarrow> txctx \<Rightarrow> string \<Rightarrow> string \<Rightarrow> coldef \<Rightarrow> row \<Rightarrow> ('b world_scheme, dberr, unit) io" where
  "validateWriteForeignKeys E A tx operation childCollection childDef data =
     (let names = orderedForeignKeyFields childDef in
      if names = [] then ioret ()
      else case txDef tx of
        None \<Rightarrow> iofail (EConfig (operation @ '': transaction has no loaded definition''))
      | Some cols \<Rightarrow> ioeach (check_stored_fk E A cols operation childCollection childDef data) names)"

text \<open>Reading \<open>r.def.Collections\<close> through a nil definition panics.\<close>

definition check_computed_fk ::
  "osenv \<Rightarrow> api \<Rightarrow> txctx \<Rightarrow> string \<Rightarrow> string \<Rightarrow> coldef \<Rightarrow> string \<Rightarrow> row \<Rightarrow> string \<Rightarrow>
     ('b world_scheme, dberr, unit) io" where
  "check_computed_fk E A tx operation childCollection childDef recordKey data name =
     (case column_of childDef name of
        None \<Rightarrow> iofail (EPanic ''nil column definition'')
      | Some c \<Rightarrow>
          if cForeignKey c = [] then ioret ()
          else iobind (iowrap (operation @ '' computed foreign key evaluation failed: '' @ childCollection @ '' '' @ name)
                 (iolift (EvaluateFormula A (cFormula c) data))) (\<lambda>result.
            case txDef tx of
              None \<Rightarrow> iofail (EPanic ''nil pointer dereference'')
            | Some cols \<Rightarrow>
                (case go_get cols (cForeignKey c) of
                   None \<Rightarrow> iofail (EForeignKeyConfig name (cForeignKey c))
                 | Some parentDef \<Rightarrow>
                     check_target E A operation childCollection name (cForeignKey c) parentDef
                       (computedForeignKeyString A result))))"

definition validateComputedWriteForeignKeys ::
  "osenv \<Rightarrow> api \<Rightarrow> txctx \<Rightarrow> string \<Rightarrow> string \<Rightarrow> coldef \<Rightarrow> string \<Rightarrow> row \<Rightarrow> ('b world_scheme, dberr, unit) io" where
  "validateComputedWriteForeignKeys E A tx operation childCollection childDef recordKey data =
     ioeach (check_computed_fk E A tx operation childCollection childDef recordKey data)
       (orderedComputedColumns (Some childDef))"

text \<open>
  The scan of one child collection before a delete. The records are visited in the order
  of their keys; \<open>hit\<close> says whether a field of a record refers to the parent.
\<close>

fun first_hit :: "(drec \<Rightarrow> string \<Rightarrow> bool) \<Rightarrow> string list \<Rightarrow> drec list \<Rightarrow> (string \<times> string) option" where
  "first_hit hit names [] = None"
| "first_hit hit names (r # rs) =
     (case find (hit r) names of
        Some f \<Rightarrow> Some (dID r, f)
      | None \<Rightarrow> first_hit hit names rs)"

definition scan_children ::
  "osenv \<Rightarrow> api \<Rightarrow> collections \<Rightarrow> (coldef \<Rightarrow> string list) \<Rightarrow> (drec \<Rightarrow> string \<Rightarrow> bool) \<Rightarrow> string \<Rightarrow> string \<Rightarrow>
     string \<Rightarrow> ('b world_scheme, dberr, unit) io" where
  "scan_children E A cols names_of hit parentCollection parentKey childCollection =
     (case go_get cols childCollection of
        None \<Rightarrow> ioret ()
      | Some childDef \<Rightarrow>
          (let names = names_of childDef in
           if names = [] then ioret ()
           else case cdRecordFile childDef of
             None \<Rightarrow> iofail (EPanic ''nil pointer dereference'')
           | Some rf \<Rightarrow>
               iobind (iowrap (''Delete foreign key scan failed for '' @ childCollection)
                         (readAllRecordsFromDisk E A childDef rf)) (\<lambda>records.
                 case first_hit hit names (SliceStable (key_less dID) records) of
                   None \<Rightarrow> ioret ()
                 | Some (childKey, name) \<Rightarrow>
                     iofail (EReferenced parentCollection parentKey childCollection childKey))))"

definition stored_hit :: "api \<Rightarrow> string \<Rightarrow> drec \<Rightarrow> string \<Rightarrow> bool" where
  "stored_hit A parentKey r name \<longleftrightarrow> parentKey \<in> set (fst (ForeignKeyElements A (field (dData r) name)))"

definition computed_hit :: "api \<Rightarrow> string \<Rightarrow> drec \<Rightarrow> string \<Rightarrow> bool" where
  "computed_hit A parentKey r name \<longleftrightarrow>
     (case go_get (dData r) name of
        None \<Rightarrow> False
      | Some v \<Rightarrow> \<not> isEmptyForeignKeyValue v \<and> computedForeignKeyString A v = parentKey)"

definition validateDeleteForeignKeys ::
  "osenv \<Rightarrow> api \<Rightarrow> txctx \<Rightarrow> string \<Rightarrow> string \<Rightarrow> ('b world_scheme, dberr, unit) io" where
  "validateDeleteForeignKeys E A tx parentCollection parentKey =
     (case txDef tx of
        None \<Rightarrow> iofail (EConfig ''Delete: transaction has no loaded definition'')
      | Some cols \<Rightarrow>
          ioeach (scan_children E A cols (\<lambda>cd. foreignKeyFieldsReferencing cd parentCollection)
                    (stored_hit A parentKey) parentCollection parentKey) (orderedCollectionIDs cols))"

definition validateDeleteComputedForeignKeys ::
  "osenv \<Rightarrow> api \<Rightarrow> txctx \<Rightarrow> string \<Rightarrow> string \<Rightarrow> ('b world_scheme, dberr, unit) io" where
  "validateDeleteComputedForeignKeys E A tx parentCollection parentKey =
     (case txDef tx of
        None \<Rightarrow> iofail (EPanic ''nil pointer dereference'')
      | Some cols \<Rightarrow>
          ioeach (scan_children E A cols (\<lambda>cd. computedForeignKeyFieldsReferencing cd parentCollection)
                    (computed_hit A parentKey) parentCollection parentKey) (orderedCollectionIDs cols))"

definition ValidateWrite ::
  "osenv \<Rightarrow> api \<Rightarrow> collections option \<Rightarrow> string \<Rightarrow> string \<Rightarrow> coldef \<Rightarrow> string \<Rightarrow> row \<Rightarrow>
     ('b world_scheme, dberr, unit) io" where
  "ValidateWrite E A def operation collectionID colDef recordKey data =
     (let tx = \<lparr>txStoredOnly = False, txDef = def\<rparr> in
      iobind (iolift (validateNoStoredComputedValues collectionID colDef recordKey data)) (\<lambda>_.
      iobind (validateWriteForeignKeys E A tx operation collectionID colDef data) (\<lambda>_.
        validateComputedWriteForeignKeys E A tx operation collectionID colDef recordKey data)))"

definition ValidateDelete ::
  "osenv \<Rightarrow> api \<Rightarrow> collections option \<Rightarrow> string \<Rightarrow> string \<Rightarrow> ('b world_scheme, dberr, unit) io" where
  "ValidateDelete E A def parentCollection parentKey =
     (let tx = \<lparr>txStoredOnly = False, txDef = def\<rparr> in
      iobind (validateDeleteForeignKeys E A tx parentCollection parentKey) (\<lambda>_.
        validateDeleteComputedForeignKeys E A tx parentCollection parentKey))"

section \<open>Validation changes nothing\<close>

lemma foreignKeyTargetExists_same: "iokeeps same_fs (foreignKeyTargetExists E A pd k)"
  unfolding foreignKeyTargetExists_def Let_def
  by (auto split: option.split sum.split record_type.split intro!: untouched.keeps_bind reads_same)

lemma check_target_same: "iokeeps same_fs (check_target E A op child f pc pd k)"
  unfolding check_target_def by (intro untouched.keeps_bind keeps_wrap foreignKeyTargetExists_same) simp

lemma check_stored_fk_same: "iokeeps same_fs (check_stored_fk E A cols op child cd data f)"
  unfolding check_stored_fk_def
  by (auto split: option.split prod.split intro!: untouched.keeps_each check_target_same)

lemma validateWriteForeignKeys_same: "iokeeps same_fs (validateWriteForeignKeys E A tx op child cd data)"
  unfolding validateWriteForeignKeys_def Let_def
  by (auto split: option.split intro!: untouched.keeps_each check_stored_fk_same)

lemma check_computed_fk_same: "iokeeps same_fs (check_computed_fk E A tx op child cd k data f)"
  unfolding check_computed_fk_def
  by (auto split: option.split intro!: untouched.keeps_bind keeps_wrap check_target_same)

lemma validateComputedWriteForeignKeys_same:
  "iokeeps same_fs (validateComputedWriteForeignKeys E A tx op child cd k data)"
  unfolding validateComputedWriteForeignKeys_def
  by (intro untouched.keeps_each check_computed_fk_same)

lemma scan_children_same: "iokeeps same_fs (scan_children E A cols nf hit pc pk child)"
  unfolding scan_children_def Let_def
  by (auto split: option.split prod.split intro!: untouched.keeps_bind keeps_wrap reads_same)

lemma validateDeleteForeignKeys_same: "iokeeps same_fs (validateDeleteForeignKeys E A tx pc pk)"
  unfolding validateDeleteForeignKeys_def
  by (auto split: option.split intro!: untouched.keeps_each scan_children_same)

lemma validateDeleteComputedForeignKeys_same:
  "iokeeps same_fs (validateDeleteComputedForeignKeys E A tx pc pk)"
  unfolding validateDeleteComputedForeignKeys_def
  by (auto split: option.split intro!: untouched.keeps_each scan_children_same)

lemmas fk_same = foreignKeyTargetExists_same validateWriteForeignKeys_same
  validateComputedWriteForeignKeys_same validateDeleteForeignKeys_same validateDeleteComputedForeignKeys_same

section \<open>What a successful validation means\<close>

text \<open>A record is present in the tree.\<close>

definition record_present :: "api \<Rightarrow> fs \<Rightarrow> coldef \<Rightarrow> recfile \<Rightarrow> string \<Rightarrow> bool" where
  "record_present A fs cd rf k \<longleftrightarrow>
     validateRecordFileKey A cd rf k = Inr () \<and>
     (\<exists>m c. lookup_node fs (resolveRecordPath A cd rf k) = Inr (NFile m c) \<and>
        (case rfRecordType rf of
           SingleRecord \<Rightarrow> True
         | MapOfRecords \<Rightarrow>
             (\<exists>rs. ParseMapOfRecordsContent A c (rfFormat rf) = Inr rs \<and> go_get rs k \<noteq> None)
         | _ \<Rightarrow> False))"

lemma foreignKeyTargetExists_True:
  assumes "foreignKeyTargetExists E A (Some cd) k w = (Inr True, w')"
  shows "\<exists>rf. cdRecordFile cd = Some rf \<and> record_present A (wFs w) cd rf k"
proof -
  from assms obtain rf where rf: "cdRecordFile cd = Some rf" "validateRecordFileKey A cd rf k = Inr ()"
    by (auto simp: foreignKeyTargetExists_def res_simps split: option.splits sum.splits)
  show ?thesis
  proof (cases "rfRecordType rf")
    case SingleRecord
    with assms rf obtain d where
        "readSingleRecordFile E A (resolveRecordPath A cd rf k) cd w = (Inr (Some d), w')"
      by (auto simp: foreignKeyTargetExists_def res_simps Let_def)
    from readSingleRecordFile_Inr [OF this] rf SingleRecord show ?thesis
      by (auto simp: record_present_def split: sum.splits)
  next
    case MapOfRecords
    with assms rf obtain rs where
        rs: "readMapOfRecordsFile E A (resolveRecordPath A cd rf k) (rfFormat rf) w = (Inr rs, w')"
      and k: "go_get rs k \<noteq> None"
      by (auto simp: foreignKeyTargetExists_def res_simps Let_def)
    from readMapOfRecordsFile_Inr [OF rs] rf k MapOfRecords show ?thesis
      by (auto simp: record_present_def split: sum.splits)
  qed (use assms rf in \<open>auto simp: foreignKeyTargetExists_def res_simps Let_def\<close>)
qed

lemma check_target_Inr:
  assumes "check_target E A op child f pc pd k w = (Inr u, w')"
  shows "\<exists>rf. cdRecordFile pd = Some rf \<and> record_present A (wFs w) pd rf k"
  using assms by (auto simp: check_target_def res_simps dest!: foreignKeyTargetExists_True)

lemma check_stored_fk_Inr:
  assumes "check_stored_fk E A cols op child cd data f w = (Inr u, w')"
    and "column_of cd f = Some c" and "ForeignKeyElements A (field data f) = (keys, errs)"
  shows "errs = [] \<and> (keys = [] \<longrightarrow> \<not> cRequired c) \<and>
         (\<forall>k \<in> set keys. \<exists>pd rf. go_get cols (cForeignKey c) = Some pd \<and> cdRecordFile pd = Some rf \<and>
            record_present A (wFs w) pd rf k)"
proof (cases "keys = []")
  case True
  with assms show ?thesis by (auto simp: check_stored_fk_def res_simps split: if_splits)
next
  case False
  with assms obtain pd where pd: "errs = []" "go_get cols (cForeignKey c) = Some pd"
      "ioeach (check_target E A op child f (cForeignKey c) pd) keys w = (Inr u, w')"
    by (auto simp: check_stored_fk_def res_simps split: if_splits option.splits)
  have "\<exists>rf. cdRecordFile pd = Some rf \<and> record_present A (wFs w) pd rf k" if "k \<in> set keys" for k
    using untouched.each_each [OF pd(3) check_target_same that] check_target_Inr
    by (fastforce simp: same_fs_def)
  with pd False show ?thesis by auto
qed

lemma validateWriteForeignKeys_each:
  assumes "validateWriteForeignKeys E A tx op child cd data w = (Inr u, w')" and "txDef tx = Some cols"
    and "f \<in> set (orderedForeignKeyFields cd)"
  shows "\<exists>v v'. same_fs w v \<and> check_stored_fk E A cols op child cd data f v = (Inr (), v')"
proof -
  from assms have "ioeach (check_stored_fk E A cols op child cd data) (orderedForeignKeyFields cd) w = (Inr u, w')"
    by (auto simp: validateWriteForeignKeys_def Let_def split: if_splits)
  from untouched.each_each [OF this check_stored_fk_same assms(3)] show ?thesis by blast
qed

lemma first_hit_None: "first_hit hit names rs = None \<longleftrightarrow> (\<forall>r \<in> set rs. \<forall>f \<in> set names. \<not> hit r f)"
proof (induction rs)
  case (Cons r rs)
  have "find (hit r) names = None \<longleftrightarrow> (\<forall>f \<in> set names. \<not> hit r f)"
    by (auto simp: find_None_iff)
  with Cons show ?case by (cases "find (hit r) names") auto
qed simp

lemma scan_children_Inr:
  assumes "scan_children E A cols nf hit pc pk child w = (Inr u, w')"
    and "go_get cols child = Some cd" and "f \<in> set (nf cd)"
  shows "\<exists>rf records v. cdRecordFile cd = Some rf \<and> readAllRecordsFromDisk E A cd rf w = (Inr records, v) \<and>
           (\<forall>r \<in> set records. \<not> hit r f)"
proof -
  have names: "nf cd \<noteq> []" using assms(3) by auto
  with assms obtain rf where rf: "cdRecordFile cd = Some rf"
    by (cases "cdRecordFile cd") (auto simp: scan_children_def res_simps Let_def)
  with assms names obtain records v where read: "readAllRecordsFromDisk E A cd rf w = (Inr records, v)"
      and k: "(case first_hit hit (nf cd) (SliceStable (key_less dID) records) of
         None \<Rightarrow> ioret ()
       | Some (childKey, name) \<Rightarrow> iofail (EReferenced pc pk child childKey)) v = (Inr u, w')"
    by (auto simp: scan_children_def res_simps Let_def)
  then have none: "first_hit hit (nf cd) (SliceStable (key_less dID) records) = None"
    by (cases "first_hit hit (nf cd) (SliceStable (key_less dID) records)") (auto simp: iofail_def)
  then have "\<forall>r \<in> set records. \<not> hit r f" using assms(3) by (simp add: first_hit_None)
  with rf read show ?thesis by blast
qed

lemma orderedCollectionIDs_mem: "go_get cols c = Some cd \<Longrightarrow> c \<in> set (orderedCollectionIDs cols)"
  by (auto simp: orderedCollectionIDs_def set_go_keys)

lemma validateDeleteForeignKeys_Inr:
  assumes "validateDeleteForeignKeys E A tx pc pk w = (Inr u, w')" and "txDef tx = Some cols"
    and "go_get cols child = Some cd" and "f \<in> set (foreignKeyFieldsReferencing cd pc)"
  shows "\<exists>rf records v w1. cdRecordFile cd = Some rf \<and> same_fs w w1 \<and>
           readAllRecordsFromDisk E A cd rf w1 = (Inr records, v) \<and>
           (\<forall>r \<in> set records. pk \<notin> set (fst (ForeignKeyElements A (field (dData r) f))))"
proof -
  have run: "ioeach (scan_children E A cols (\<lambda>cd. foreignKeyFieldsReferencing cd pc)
      (stored_hit A pk) pc pk) (orderedCollectionIDs cols) w = (Inr u, w')"
    using assms(1,2) by (simp add: validateDeleteForeignKeys_def)
  obtain w1 w2 where "same_fs w w1" "scan_children E A cols (\<lambda>cd. foreignKeyFieldsReferencing cd pc)
      (stored_hit A pk) pc pk child w1 = (Inr (), w2)"
    using untouched.each_each [OF run scan_children_same orderedCollectionIDs_mem [OF assms(3)]] by blast
  with scan_children_Inr [OF _ assms(3), of E A _ "stored_hit A pk" pc pk w1 "()" w2 f] assms(4)
  show ?thesis by (fastforce simp: stored_hit_def)
qed

text \<open>Baking computed columns keeps the stored ones.\<close>

lemma bakeStoredRecords_mem:
  assumes "bakeStoredRecords A cd stored = Inr records" and "s \<in> set stored" and "wf_map (cdColumns cd)"
  shows "\<exists>r \<in> set records. dID r = ksKey s \<and>
           (\<forall>f c. column_of cd f = Some c \<longrightarrow> cFormula c = [] \<longrightarrow> go_get (dData r) f = go_get (ksStored s) f)"
proof -
  have "list_all2 (\<lambda>s r. rbind (ApplyFormulasToRead A (ksStored s) (cdColumns cd) (cdID cd) (ksKey s))
      (\<lambda>computed. Inr \<lparr>dColl = cdID cd, dID = ksKey s, dData = computed\<rparr>) = Inr r) stored records"
    using assms(1) by (simp add: bakeStoredRecords_def rtraverse_eq_Inr)
  from list_all2_mem [OF this assms(2)] obtain r computed where r: "r \<in> set records"
      and app: "ApplyFormulasToRead A (ksStored s) (cdColumns cd) (cdID cd) (ksKey s) = Inr computed"
      and eq: "r = \<lparr>dColl = cdID cd, dID = ksKey s, dData = computed\<rparr>"
    by (auto simp: res_simps)
  have "go_get computed f = go_get (ksStored s) f" if "column_of cd f = Some c" "cFormula c = []" for f c
    using ApplyFormulasToRead_get [OF assms(3) app, of f] that
    by (auto simp: column_of_def split: option.splits)
  with r eq show ?thesis by (intro bexI [of _ r]) simp_all
qed

text \<open>
  In an environment without I/O faults, a delete that passes the validation has no record
  file left, in any single-record root collection, that refers to the deleted key.
\<close>

lemma delete_leaves_no_reference:
  assumes quiet: "\<And>n. osFault E n = None"
    and run: "validateDeleteForeignKeys E A tx pc pk w = (Inr u, w')" and def: "txDef tx = Some cols"
    and child: "go_get cols child = Some cd" "cdRecordFile cd = Some rf" "rfRecordType rf = SingleRecord"
    and cols: "wf_map (cdColumns cd)" and f: "f \<in> set (foreignKeyFieldsReferencing cd pc)"
    and ok: "scan_ok A cd rf pre suf" and k: "segment_key k"
    and there: "lookup_node (wFs w) (resolveRecordPath A cd rf k) = Inr (NFile m c)"
    and incl: "\<not> IsExcluded A rf (pre @ recordKeyToFileName k @ suf)"
  shows "\<exists>d. ParseRecordContentForCollection A c cd = Inr d \<and>
           pk \<notin> set (fst (ForeignKeyElements A (field (ApplyLocaleToRead A d (cdColumns cd)) f)))"
proof -
  obtain records v w1 where w1: "same_fs w w1"
      and read: "readAllRecordsFromDisk E A cd rf w1 = (Inr records, v)"
      and none: "\<forall>r \<in> set records. pk \<notin> set (fst (ForeignKeyElements A (field (dData r) f)))"
    using validateDeleteForeignKeys_Inr [OF run def child(1) f] child(2) by auto
  from read obtain stored w2 where stored: "readAllSingleStored E A cd rf w1 = (Inr stored, w2)"
      and bake: "bakeStoredRecords A cd stored = Inr records"
    by (auto simp: readAllRecordsFromDisk_def readAllStoredRecords_def child(3) res_simps)
  have "resolveRecordPath A cd rf k \<noteq> []" "\<not> blocked (wFs w) (resolveRecordPath A cd rf k)"
      "go_get (wFs w) (path_Clean (resolveRecordPath A cd rf k)) = Some (NFile m c)"
    using there by (auto simp: lookup_node_def split: if_splits option.splits)
  moreover have "path_Clean (resolveRecordPath A cd rf k) = resolveRecordPath A cd rf k"
    using scan_path [OF ok k] scan_member(4) [OF ok ToFileName_plain [OF k]] by simp
  ultimately obtain d where d: "ParseRecordContentForCollection A c cd = Inr d"
      and mem: "\<lparr>ksKey = k, ksStored = ApplyLocaleToRead A d (cdColumns cd)\<rparr> \<in> set stored"
    using readAllSingleStored_complete [OF ok stored quiet k _ incl, of "NFile m c"] w1
    by (auto simp: same_fs_def)
  have "\<exists>col. column_of cd f = Some col \<and> cFormula col = []"
    using f orderedColumns_iff [OF cols]
    by (auto simp: foreignKeyFieldsReferencing_def orderedForeignKeyFields_def column_of_def)
  then obtain r where "r \<in> set records" "go_get (dData r) f = go_get (ApplyLocaleToRead A d (cdColumns cd)) f"
    using bakeStoredRecords_mem [OF bake mem cols] by auto
  with none d show ?thesis by (auto simp: field_def)
qed

end
