(* ===== verification/Updates.thy ===== *)
theory Updates
  imports Schema
begin

text \<open>
  Field updates of \<open>tx_readwrite.go\<close>. The Go code walks nested maps and changes them in
  place; a map is a value here, so every function returns the changed map beside its
  error, also when it fails after having created intermediate maps. The clock that
  \<open>update.ServerTimestamp\<close> reads is the parameter \<open>now\<close>, indexed by the update.
\<close>

datatype uval = UDeleteField | UServerTimestamp | UTransform string val | UValue val

record update =
  uFieldName :: string
  uFieldPath :: "string list"
  uValue :: uval

text \<open>The map below a segment: a new one when the field is missing or nil, none when it is no map.\<close>

definition child_map :: "val option \<Rightarrow> row option" where
  "child_map existing =
     (case existing of None \<Rightarrow> Some [] | Some VNil \<Rightarrow> Some [] | Some (VMap child) \<Rightarrow> Some child | _ \<Rightarrow> None)"

text \<open>Navigation to the map that holds the leaf, creating missing maps.\<close>

fun at_leaf ::
  "(row \<Rightarrow> string \<Rightarrow> dberr option \<times> row) \<Rightarrow> nat \<Rightarrow> row \<Rightarrow> string list \<Rightarrow> dberr option \<times> row" where
  "at_leaf act i m [] = (Some (EPanic ''slice bounds out of range''), m)"
| "at_leaf act i m [leaf] = act m leaf"
| "at_leaf act i m (segment # next # rest) =
     (case child_map (go_get m segment) of
        None \<Rightarrow> (Some (ENotAMap segment i), m)
      | Some child \<Rightarrow>
          (case at_leaf act (Suc i) child (next # rest) of (e, child') \<Rightarrow> (e, go_set segment (VMap child') m)))"

definition set_leaf :: "val \<Rightarrow> row \<Rightarrow> string \<Rightarrow> dberr option \<times> row" where
  "set_leaf v m leaf = (None, go_set leaf v m)"

fun applyDelete :: "row \<Rightarrow> string list \<Rightarrow> row" where
  "applyDelete m [] = m"
| "applyDelete m [leaf] = go_delete leaf m"
| "applyDelete m (segment # next # rest) =
     (case go_get m segment of
        Some (VMap child) \<Rightarrow> go_set segment (VMap (applyDelete child (next # rest))) m
      | _ \<Rightarrow> m)"

definition isIntegral :: "api \<Rightarrow> float64 \<Rightarrow> bool" where
  "isIntegral A f = f64_eq f (f64_of_int (f64_to_int64 (Int64OutOfRange A) f))"

fun is_int_value :: "val \<Rightarrow> bool" where
  "is_int_value (VNum k n) = True"
| "is_int_value _ = False"

definition increment_leaf :: "api \<Rightarrow> val \<Rightarrow> row \<Rightarrow> string \<Rightarrow> dberr option \<times> row" where
  "increment_leaf A delta m leaf =
     (let existing = (case go_get m leaf of None \<Rightarrow> VNil | Some v \<Rightarrow> v) in
      case toNumericFloat64 delta of
        None \<Rightarrow> (Some EIncrementDelta, m)
      | Some deltaF \<Rightarrow>
          (case (if existing = VNil then Some (FFin 0) else toNumericFloat64 existing) of
             None \<Rightarrow> (Some (EIncrementTarget leaf), m)
           | Some currentF \<Rightarrow>
               (let result = f64_add currentF deltaF in
                if isIntegral A result \<and> is_int_value delta
                then (None, go_set leaf (VNum KInt64 (f64_to_int64 (Int64OutOfRange A) result)) m)
                else (None, go_set leaf (VFloat64 result) m))))"

definition applyIncrement :: "api \<Rightarrow> row \<Rightarrow> string list \<Rightarrow> val \<Rightarrow> dberr option \<times> row" where
  "applyIncrement A m path delta = at_leaf (increment_leaf A delta) 0 m path"

definition applyFieldUpdate ::
  "api \<Rightarrow> string \<Rightarrow> row \<Rightarrow> string list \<Rightarrow> uval \<Rightarrow> dberr option \<times> row" where
  "applyFieldUpdate A now m path value =
     (case value of
        UDeleteField \<Rightarrow> (None, applyDelete m path)
      | UServerTimestamp \<Rightarrow> at_leaf (set_leaf (VStr now)) 0 m path
      | UTransform name v \<Rightarrow>
          if name = ''increment'' then applyIncrement A m path v
          else (Some (EUnsupportedTransform name), m)
      | UValue v \<Rightarrow> at_leaf (set_leaf v) 0 m path)"

fun applyUpdates :: "api \<Rightarrow> (nat \<Rightarrow> string) \<Rightarrow> nat \<Rightarrow> row \<Rightarrow> update list \<Rightarrow> dberr option \<times> row" where
  "applyUpdates A now i data [] = (None, data)"
| "applyUpdates A now i data (u # us) =
     (let path = (if uFieldName u \<noteq> [] then [uFieldName u] else uFieldPath u) in
      if path = [] then applyUpdates A now (Suc i) data us
      else case applyFieldUpdate A (now i) data path (uValue u) of
        (Some e, data') \<Rightarrow> (Some e, data')
      | (None, data') \<Rightarrow> applyUpdates A now (Suc i) data' us)"

section \<open>Reading back\<close>

fun path_get :: "row \<Rightarrow> string list \<Rightarrow> val option" where
  "path_get m [] = None"
| "path_get m [leaf] = go_get m leaf"
| "path_get m (segment # next # rest) =
     (case go_get m segment of Some (VMap child) \<Rightarrow> path_get child (next # rest) | _ \<Rightarrow> None)"

text \<open>Two paths that do not meet: neither is a prefix of the other.\<close>

definition apart :: "string list \<Rightarrow> string list \<Rightarrow> bool" where
  "apart p q \<longleftrightarrow> \<not> prefix p q \<and> \<not> prefix q p"

lemma apart_Cons: "apart (a # p) (b # q) \<longleftrightarrow> a \<noteq> b \<or> apart p q"
  by (auto simp: apart_def)

lemma apart_Nil [simp]: "\<not> apart [] q" "\<not> apart p []"
  by (auto simp: apart_def)

lemma set_path_get: "at_leaf (set_leaf v) i m p = (None, m') \<Longrightarrow> path_get m' p = Some v"
proof (induction "set_leaf v" i m p arbitrary: m' rule: at_leaf.induct)
  case (3 i m s n rest)
  then show ?case
    by (auto simp: go_get_set split: option.splits val.splits prod.splits if_splits)
qed (auto simp: set_leaf_def go_get_set)

definition local_act :: "(row \<Rightarrow> string \<Rightarrow> dberr option \<times> row) \<Rightarrow> bool" where
  "local_act act \<longleftrightarrow> (\<forall>c leaf e c' k. act c leaf = (e, c') \<longrightarrow> k \<noteq> leaf \<longrightarrow> go_get c' k = go_get c k)"

lemma path_get_empty [simp]: "path_get [] q = None"
  by (cases "([] :: row, q)" rule: path_get.cases) auto

lemma path_get_Cons:
  "q \<noteq> [] \<Longrightarrow> path_get m (s # q) = (case go_get m s of Some (VMap c) \<Rightarrow> path_get c q | _ \<Rightarrow> None)"
  by (cases q) auto

lemma at_leaf_apart:
  assumes "at_leaf act i m p = (e, m')" and "local_act act" and "apart p q"
  shows "path_get m' q = path_get m q"
  using assms
proof (induction act i m p arbitrary: e m' q rule: at_leaf.induct)
  case (2 act i m leaf)
  then obtain s q' where q: "q = s # q'" "s \<noteq> leaf" by (cases q) (auto simp: apart_def)
  then have "go_get m' s = go_get m s" using 2 by (simp add: local_act_def)
  with q show ?case by (cases q') simp_all
next
  case (3 act i m seg n rest)
  obtain s q' where q: "q = s # q'" using "3.prems"(3) by (cases q) auto
  have other: "path_get (go_set seg v m) q = path_get m q" if "s \<noteq> seg" for v
    using that q by (cases q') (simp_all add: go_get_set)
  have below: "q' \<noteq> []" "apart (n # rest) q'" if "s = seg"
    using "3.prems"(3) that q by (auto simp: apart_Cons)
  show ?case
  proof (cases "child_map (go_get m seg)")
    case None
    with "3.prems"(1) show ?thesis by simp
  next
    case (Some c)
    obtain e' c' where c': "at_leaf act (Suc i) c (n # rest) = (e', c')" by fastforce
    then have m': "m' = go_set seg (VMap c') m" using "3.prems"(1) Some by simp
    show ?thesis
    proof (cases "s = seg")
      case True
      then have "path_get c' q' = path_get c q'"
        using "3.IH" [OF Some c' "3.prems"(2)] below by blast
      moreover have "path_get m q = path_get c q'"
        using True Some below q
        by (auto simp: path_get_Cons child_map_def split: option.splits val.splits)
      ultimately show ?thesis using True below m' q by (simp add: path_get_Cons go_get_set)
    qed (use other m' in simp)
  qed
qed auto

lemma set_leaf_local: "local_act (set_leaf v)"
  by (simp add: local_act_def set_leaf_def go_get_set)

lemma increment_leaf_local: "local_act (increment_leaf A d)"
  unfolding local_act_def
proof (intro allI impI)
  fix c :: row and leaf e c' k
  assume "increment_leaf A d c leaf = (e, c')" and "k \<noteq> leaf"
  then show "go_get c' k = go_get c k"
    by (auto simp: increment_leaf_def Let_def go_get_set split: option.splits if_splits)
qed

lemma delete_path_get: "path_get (applyDelete m p) p = None"
  by (induction m p rule: applyDelete.induct)
    (auto simp: go_get_delete go_get_set split: option.splits val.splits)

lemma delete_path_apart:
  assumes "apart p q"
  shows "path_get (applyDelete m p) q = path_get m q"
  using assms
proof (induction m p arbitrary: q rule: applyDelete.induct)
  case (2 m leaf)
  then obtain s q' where "q = s # q'" "s \<noteq> leaf" by (cases q) (auto simp: apart_def)
  then show ?case by (cases q') (simp_all add: go_get_delete)
next
  case (3 m seg n rest)
  obtain s q' where q: "q = s # q'" using "3.prems" by (cases q) auto
  show ?case
  proof (cases "\<exists>c. go_get m seg = Some (VMap c)")
    case True
    then obtain c where c: "go_get m seg = Some (VMap c)" by blast
    show ?thesis
    proof (cases "s = seg")
      case True
      then have "q' \<noteq> []" "apart (n # rest) q'" using "3.prems" q by (auto simp: apart_Cons)
      with "3.IH" [OF c] c q True show ?thesis by (simp add: path_get_Cons go_get_set)
    next
      case False
      with c q show ?thesis by (cases q') (simp_all add: go_get_set)
    qed
  next
    case False
    then show ?thesis by (auto split: option.splits val.splits)
  qed
qed simp

text \<open>Integer increments are exact as long as the operands and the sum fit 53 bits.\<close>

lemma increment_exact:
  assumes "go_get m leaf = Some (VNum k cur)" and "\<bar>cur\<bar> < 2 ^ 53" and "\<bar>d\<bar> < 2 ^ 53"
    and "\<bar>cur + d\<bar> < 2 ^ 53"
  shows "increment_leaf A (VNum j d) m leaf = (None, go_set leaf (VNum KInt64 (cur + d)) m)"
proof -
  have "f64_to_int64 (Int64OutOfRange A) (FFin (of_int (cur + d))) = cur + d"
    using assms(4) by (intro f64_to_int64_exact) simp_all
  then show ?thesis
    using assms
    by (simp add: increment_leaf_def f64_of_int_exact f64_add_exact isIntegral_def f64_eq_def
          del: f64_to_int64.simps f64_add.simps of_int_add)
qed

lemma increment_missing:
  assumes "go_get m leaf = None \<or> go_get m leaf = Some VNil" and "\<bar>d\<bar> < 2 ^ 53"
  shows "increment_leaf A (VNum j d) m leaf = (None, go_set leaf (VNum KInt64 d) m)"
proof -
  have "f64_to_int64 (Int64OutOfRange A) (FFin (of_int d)) = d"
    using assms(2) by (intro f64_to_int64_exact) simp_all
  moreover have "f64_add (FFin 0) (FFin (of_int d)) = FFin (of_int d)"
    using f64_add_exact [of 0 d] assms(2) by simp
  ultimately show ?thesis
    using assms
    by (auto simp: increment_leaf_def f64_of_int_exact isIntegral_def f64_eq_def Let_def
          simp del: f64_to_int64.simps f64_add.simps)
qed

end
