(* ===== verification/WriteTx.thy ===== *)
theory WriteTx
  imports ForeignKeys Updates
begin

text \<open>
  The read-write transaction of \<open>tx_readwrite.go\<close>: snapshots, \<open>Set\<close>, \<open>Insert\<close>,
  \<open>Delete\<close>, \<open>Update\<close> and \<open>UpdateRecord\<close>. The journal of the transaction lives in
  the world: the first state of every touched file and the list of written paths. Every
  operation keeps the journal complete, whatever fails in between.
\<close>

record fileSnapshot =
  snExists :: bool
  snMode :: nat
  snData :: string

text \<open>One run of \<open>git\<close>: directory, arguments, index file, standard input, and its answer.\<close>

record gitcall =
  gcDir :: string
  gcArgs :: "string list"
  gcIndex :: "string option"
  gcStdin :: string
  gcOk :: bool
  gcOut :: string

text \<open>\<open>None\<close> is a nil journal: a transaction made outside \<open>RunReadwriteTransaction\<close>.\<close>

record txworld = world +
  txSnapshots :: "fileSnapshot go_map option"
  txWritten :: "string list option"
  txGitLog :: "gitcall list"

definition snapshot :: "osenv \<Rightarrow> string \<Rightarrow> (txworld, dberr, unit) io" where
  "snapshot E path0 w =
     (case txSnapshots w of
        None \<Rightarrow> (Inr (), w)
      | Some snaps \<Rightarrow>
          (let path = path_Clean path0 in
           if go_get snaps path \<noteq> None then (Inr (), w)
           else case os_Stat E path w of
             (Inl e, w1) \<Rightarrow>
               if err_is e is_not_exist
               then (Inr (), w1\<lparr>txSnapshots := Some (go_set path \<lparr>snExists = False, snMode = 0, snData = []\<rparr> snaps)\<rparr>)
               else (Inl (EWrap (''snapshot stat '' @ path) e), w1)
           | (Inr n, w1) \<Rightarrow>
               (case os_ReadFile E path w1 of
                  (Inl e, w2) \<Rightarrow> (Inl (EWrap (''snapshot read '' @ path) e), w2)
                | (Inr data, w2) \<Rightarrow>
                    (Inr (), w2\<lparr>txSnapshots :=
                       Some (go_set path \<lparr>snExists = True, snMode = fMode n, snData = data\<rparr> snaps)\<rparr>))))"

definition track :: "string \<Rightarrow> (txworld, dberr, unit) io" where
  "track path w = (Inr (), w\<lparr>txWritten := map_option (\<lambda>ps. ps @ [path]) (txWritten w)\<rparr>)"

section \<open>Operations\<close>

text \<open>
  The common head of \<open>Set\<close> and \<open>Insert\<close>: resolution, the three validations and the
  snapshot. It returns what the rest of the operation works on.
\<close>

definition prepare_write ::
  "osenv \<Rightarrow> api \<Rightarrow> txctx \<Rightarrow> string \<Rightarrow> key option \<Rightarrow> val \<Rightarrow>
     (txworld, dberr, coldef \<times> recfile \<times> string \<times> row) io" where
  "prepare_write E A tx operation key recordData =
     iobind (iolift (resolveCollection A (txDef tx) key)) (\<lambda>(colDef, rf, recordKey).
     iobind (iolift (DataToMap A recordData)) (\<lambda>data.
       let collectionID = (case key of None \<Rightarrow> [] | Some k \<Rightarrow> kCollection k) in
       iobind (iolift (validateNoStoredComputedValues collectionID colDef recordKey data)) (\<lambda>_.
       iobind (validateWriteForeignKeys E A tx operation collectionID colDef data) (\<lambda>_.
       iobind (validateComputedWriteForeignKeys E A tx operation collectionID colDef recordKey data) (\<lambda>_.
         ioret (colDef, rf, recordKey, data))))))"

definition set_file ::
  "osenv \<Rightarrow> api \<Rightarrow> coldef \<Rightarrow> recfile \<Rightarrow> string \<Rightarrow> row \<Rightarrow> string \<Rightarrow> (txworld, dberr, unit) io" where
  "set_file E A colDef rf recordKey data path =
     iobind (case rfRecordType rf of
               SingleRecord \<Rightarrow> writeSingleRecordFile E A path colDef data
             | MapOfRecords \<Rightarrow>
                 iobind (readMapOfRecordsFile E A path (rfFormat rf)) (\<lambda>allRecords.
                   writeMapOfRecordsFile E A path colDef rf
                     (go_set recordKey (ApplyLocaleToWrite A data (cdColumns colDef)) allRecords))
             | ListOfRecords \<Rightarrow> iofail (EUnsupportedRecordType ''Set'' ''list'')
             | OtherRecordType t \<Rightarrow> iofail (EUnsupportedRecordType ''Set'' t)) (\<lambda>_.
       track path)"

definition set_record ::
  "osenv \<Rightarrow> api \<Rightarrow> txctx \<Rightarrow> key option \<Rightarrow> val \<Rightarrow> (txworld, dberr, unit) io" where
  "set_record E A tx key recordData =
     iobind (prepare_write E A tx ''Set'' key recordData) (\<lambda>(colDef, rf, recordKey, data).
       let path = resolveRecordPath A colDef rf recordKey in
       iobind (snapshot E path) (\<lambda>_. set_file E A colDef rf recordKey data path))"

definition insert_file ::
  "osenv \<Rightarrow> api \<Rightarrow> coldef \<Rightarrow> recfile \<Rightarrow> string \<Rightarrow> row \<Rightarrow> string \<Rightarrow> (txworld, dberr, unit) io" where
  "insert_file E A colDef rf recordKey data path =
     iobind (case rfRecordType rf of
               SingleRecord \<Rightarrow>
                 iobind (iocatch (iobind (os_Stat E path) (\<lambda>_. ioret True))
                           (\<lambda>e. if err_is e is_not_exist then ioret False else iofail (EWrap (''stat '' @ path) e)))
                   (\<lambda>exists. if exists then iofail (ERecordExists path)
                             else writeSingleRecordFile E A path colDef data)
             | MapOfRecords \<Rightarrow>
                 iobind (readMapOfRecordsFile E A path (rfFormat rf)) (\<lambda>allRecords.
                   if go_get allRecords recordKey \<noteq> None then iofail (ERecordExists recordKey)
                   else writeMapOfRecordsFile E A path colDef rf
                          (go_set recordKey (ApplyLocaleToWrite A data (cdColumns colDef)) allRecords))
             | ListOfRecords \<Rightarrow> iofail (EUnsupportedRecordType ''Insert'' ''list'')
             | OtherRecordType t \<Rightarrow> iofail (EUnsupportedRecordType ''Insert'' t)) (\<lambda>_.
       track path)"

definition insert_record ::
  "osenv \<Rightarrow> api \<Rightarrow> txctx \<Rightarrow> key option \<Rightarrow> val \<Rightarrow> (txworld, dberr, unit) io" where
  "insert_record E A tx key recordData =
     iobind (prepare_write E A tx ''Insert'' key recordData) (\<lambda>(colDef, rf, recordKey, data).
       let path = resolveRecordPath A colDef rf recordKey in
       iobind (snapshot E path) (\<lambda>_. insert_file E A colDef rf recordKey data path))"

text \<open>The error of a record is cleared once its key has been resolved.\<close>

definition cleared :: "api \<Rightarrow> txctx \<Rightarrow> dalrec \<Rightarrow> dalrec" where
  "cleared A tx rec =
     (case resolveCollection A (txDef tx) (rKey rec) of Inl e \<Rightarrow> rec | Inr _ \<Rightarrow> rec\<lparr>rErr := None\<rparr>)"

definition err_of :: "unit res \<Rightarrow> dberr option" where
  "err_of r = (case r of Inl e \<Rightarrow> Some e | Inr _ \<Rightarrow> None)"

definition Set_tx :: "osenv \<Rightarrow> api \<Rightarrow> txctx \<Rightarrow> dalrec \<Rightarrow> txworld \<Rightarrow> (dberr option \<times> dalrec) \<times> txworld" where
  "Set_tx E A tx rec w =
     (case set_record E A tx (rKey rec) (rData rec) w of (r, w') \<Rightarrow> ((err_of r, cleared A tx rec), w'))"

definition Insert_tx :: "osenv \<Rightarrow> api \<Rightarrow> txctx \<Rightarrow> dalrec \<Rightarrow> txworld \<Rightarrow> (dberr option \<times> dalrec) \<times> txworld" where
  "Insert_tx E A tx rec w =
     (case insert_record E A tx (rKey rec) (rData rec) w of (r, w') \<Rightarrow> ((err_of r, cleared A tx rec), w'))"

definition delete_file ::
  "osenv \<Rightarrow> api \<Rightarrow> coldef \<Rightarrow> recfile \<Rightarrow> string \<Rightarrow> string \<Rightarrow> (txworld, dberr, unit) io" where
  "delete_file E A colDef rf recordKey path =
     (case rfRecordType rf of
        SingleRecord \<Rightarrow>
          iobind (iocatch (iobind (os_Stat E path) (\<lambda>_. ioret True))
                    (\<lambda>e. if err_is e is_not_exist then ioret False else iofail (EWrap (''stat '' @ path) e)))
            (\<lambda>exists. if \<not> exists then ioret ()
                      else iobind (deleteSingleRecordFile E path) (\<lambda>_. track path))
      | MapOfRecords \<Rightarrow>
          iobind (readMapOfRecordsFile E A path (rfFormat rf)) (\<lambda>allRecords.
            if go_get allRecords recordKey = None then ioret ()
            else iobind (writeMapOfRecordsFile E A path colDef rf (go_delete recordKey allRecords)) (\<lambda>_.
              track path))
      | ListOfRecords \<Rightarrow> iofail (EUnsupportedRecordType ''Delete'' ''list'')
      | OtherRecordType t \<Rightarrow> iofail (EUnsupportedRecordType ''Delete'' t))"

definition Delete_tx :: "osenv \<Rightarrow> api \<Rightarrow> txctx \<Rightarrow> key option \<Rightarrow> (txworld, dberr, unit) io" where
  "Delete_tx E A tx key =
     (case resolveCollection A (txDef tx) key of
        Inl e \<Rightarrow> if err_is e is_unknown_collection then ioret () else iofail e
      | Inr (colDef, rf, recordKey) \<Rightarrow>
          iobind (iowrap (''Delete foreign key lookup failed for '' @ cdID colDef)
                    (foreignKeyTargetExists E A (Some colDef) recordKey)) (\<lambda>parentExists.
          iobind (if parentExists
                  then (let collectionID = (case key of None \<Rightarrow> [] | Some k \<Rightarrow> kCollection k) in
                        iobind (validateDeleteForeignKeys E A tx collectionID recordKey) (\<lambda>_.
                          validateDeleteComputedForeignKeys E A tx collectionID recordKey))
                  else ioret ()) (\<lambda>_.
            let path = resolveRecordPath A colDef rf recordKey in
            iobind (snapshot E path) (\<lambda>_. delete_file E A colDef rf recordKey path))))"

definition strip_computed :: "coldef \<Rightarrow> row \<Rightarrow> row" where
  "strip_computed colDef data =
     foldl (\<lambda>m name. go_delete name m) data (orderedComputedColumns (Some colDef))"

definition validate_update ::
  "osenv \<Rightarrow> api \<Rightarrow> txctx \<Rightarrow> string \<Rightarrow> key option \<Rightarrow> coldef \<Rightarrow> string \<Rightarrow> row \<Rightarrow> (txworld, dberr, unit) io" where
  "validate_update E A tx operation key colDef recordKey data =
     (let collectionID = (case key of None \<Rightarrow> [] | Some k \<Rightarrow> kCollection k) in
      iobind (validateWriteForeignKeys E A tx operation collectionID colDef data) (\<lambda>_.
        validateComputedWriteForeignKeys E A tx operation collectionID colDef recordKey data))"

definition Update_tx ::
  "osenv \<Rightarrow> api \<Rightarrow> txctx \<Rightarrow> (nat \<Rightarrow> string) \<Rightarrow> key option \<Rightarrow> update list \<Rightarrow> nat \<Rightarrow> (txworld, dberr, unit) io" where
  "Update_tx E A tx now key updates preconditions w =
     (if 0 < preconditions then (Inl EPreconditions, w)
      else case Get E A tx \<lparr>rKey = key, rData = VMap [], rErr = None\<rparr> w of
        ((Some e, rec), w1) \<Rightarrow> (Inl e, w1)
      | ((None, rec), w1) \<Rightarrow>
          (case rData rec of
             VMap data \<Rightarrow>
               (case applyUpdates A now 0 data updates of
                  (Some e, _) \<Rightarrow> (Inl e, w1)
                | (None, data') \<Rightarrow>
                    iobind (iolift (resolveCollection A (txDef tx) key)) (\<lambda>(colDef, rf, recordKey).
                      let stripped = strip_computed colDef data' in
                      iobind (validate_update E A tx ''Update'' key colDef recordKey stripped) (\<lambda>_.
                        set_record E A tx key (VMap stripped))) w1)
           | _ \<Rightarrow> (Inl (EPanic ''interface conversion''), w1)))"

definition UpdateRecord_tx ::
  "osenv \<Rightarrow> api \<Rightarrow> txctx \<Rightarrow> (nat \<Rightarrow> string) \<Rightarrow> dalrec \<Rightarrow> update list \<Rightarrow> nat \<Rightarrow> txworld \<Rightarrow>
     (dberr option \<times> dalrec) \<times> txworld" where
  "UpdateRecord_tx E A tx now rec updates preconditions w =
     (if 0 < preconditions then ((Some EPreconditions, rec), w)
      else case DataToMap A (rData rec) of
        Inl e \<Rightarrow> ((Some e, rec), w)
      | Inr data \<Rightarrow>
          (case applyUpdates A now 0 data updates of (err, data') \<Rightarrow>
             (let rec' = (if DataToMapShares A (rData rec) then rec\<lparr>rData := VMap data'\<rparr> else rec) in
              case err of
                Some e \<Rightarrow> ((Some e, rec'), w)
              | None \<Rightarrow>
                  (case resolveCollection A (txDef tx) (rKey rec') of
                     Inl e \<Rightarrow> ((Some e, rec'), w)
                   | Inr (colDef, rf, recordKey) \<Rightarrow>
                       (case validate_update E A tx ''UpdateRecord'' (rKey rec') colDef recordKey data' w of
                          (Inl e, w1) \<Rightarrow> ((Some e, rec'), w1)
                        | (Inr _, w1) \<Rightarrow> Set_tx E A tx rec' w1)))))"

text \<open>The multi-record forms stop at the first error; the records after it stay as they were.\<close>

fun SetMulti_tx :: "osenv \<Rightarrow> api \<Rightarrow> txctx \<Rightarrow> dalrec list \<Rightarrow> txworld \<Rightarrow> (dberr option \<times> dalrec list) \<times> txworld" where
  "SetMulti_tx E A tx [] w = ((None, []), w)"
| "SetMulti_tx E A tx (rec # recs) w =
     (case Set_tx E A tx rec w of
        ((Some e, rec'), w1) \<Rightarrow> ((Some e, rec' # recs), w1)
      | ((None, rec'), w1) \<Rightarrow>
          (case SetMulti_tx E A tx recs w1 of ((err, recs'), w2) \<Rightarrow> ((err, rec' # recs'), w2)))"

fun InsertMulti_tx :: "osenv \<Rightarrow> api \<Rightarrow> txctx \<Rightarrow> dalrec list \<Rightarrow> txworld \<Rightarrow> (dberr option \<times> dalrec list) \<times> txworld" where
  "InsertMulti_tx E A tx [] w = ((None, []), w)"
| "InsertMulti_tx E A tx (rec # recs) w =
     (case Insert_tx E A tx rec w of
        ((Some e, rec'), w1) \<Rightarrow> ((Some e, rec' # recs), w1)
      | ((None, rec'), w1) \<Rightarrow>
          (case InsertMulti_tx E A tx recs w1 of ((err, recs'), w2) \<Rightarrow> ((err, rec' # recs'), w2)))"

definition DeleteMulti_tx :: "osenv \<Rightarrow> api \<Rightarrow> txctx \<Rightarrow> key option list \<Rightarrow> (txworld, dberr, unit) io" where
  "DeleteMulti_tx E A tx keys = ioeach (Delete_tx E A tx) keys"

definition UpdateMulti_tx ::
  "osenv \<Rightarrow> api \<Rightarrow> txctx \<Rightarrow> (nat \<Rightarrow> string) \<Rightarrow> key option list \<Rightarrow> update list \<Rightarrow> nat \<Rightarrow> (txworld, dberr, unit) io" where
  "UpdateMulti_tx E A tx now keys updates preconditions =
     ioeach (\<lambda>key. Update_tx E A tx now key updates preconditions) keys"

section \<open>The journal\<close>

text \<open>
  \<open>journal fs0 w\<close>: every file that differs from the tree \<open>fs0\<close> the transaction started on
  has a snapshot, and every snapshot holds the file of \<open>fs0\<close>.
\<close>

definition snap_ok :: "fs \<Rightarrow> string \<Rightarrow> fileSnapshot \<Rightarrow> bool" where
  "snap_ok fs0 p s \<longleftrightarrow>
     path_Clean p = p \<and>
     file_at fs0 p = (if snExists s then Some (snMode s, snData s) else None)"

definition journal :: "fs \<Rightarrow> txworld \<Rightarrow> bool" where
  "journal fs0 w \<longleftrightarrow>
     (\<exists>snaps. txSnapshots w = Some snaps \<and>
        (\<forall>p s. go_get snaps p = Some s \<longrightarrow> snap_ok fs0 p s) \<and>
        same_files_but {p. go_get snaps p \<noteq> None} fs0 (wFs w))"

definition journal_kept :: "txworld \<Rightarrow> txworld \<Rightarrow> bool" where
  "journal_kept w w' \<longleftrightarrow>
     (\<forall>fs0. journal fs0 w \<longrightarrow> journal fs0 w') \<and> txGitLog w' = txGitLog w"

interpretation journaled: world_frame journal_kept
  by unfold_locales (auto simp: journal_kept_def)

text \<open>One file may change and the snapshots stay.\<close>

definition writing :: "string \<Rightarrow> txworld \<Rightarrow> txworld \<Rightarrow> bool" where
  "writing p w w' \<longleftrightarrow>
     same_files_but {path_Clean p} (wFs w) (wFs w') \<and> txSnapshots w' = txSnapshots w \<and>
     txGitLog w' = txGitLog w"

interpretation writer: world_frame "writing p" for p
  by unfold_locales (auto simp: writing_def intro: same_files_but_trans)

lemma more_eq_snapshots:
  "world.more w' = world.more w \<Longrightarrow>
     txSnapshots w' = txSnapshots w \<and> txWritten w' = txWritten w \<and> txGitLog w' = txGitLog w"
  for w w' :: txworld
  by (cases w; cases w') simp

lemma frame_writing: "frame_rel {path_Clean p} w w' \<Longrightarrow> writing p w w'"
  by (auto simp: frame_rel_def writing_def dest: more_eq_snapshots)

lemma same_writing: "same_fs w w' \<Longrightarrow> writing p w w'"
  by (rule frame_writing) (rule same_fs_frame)

lemma same_journal: "same_fs w w' \<Longrightarrow> journal_kept w w'"
  by (auto simp: same_fs_def journal_kept_def journal_def dest: more_eq_snapshots)

lemma keeps_same_writing: "iokeeps same_fs m \<Longrightarrow> iokeeps (writing p) m"
  by (erule iokeeps_mono) (rule same_writing)

lemma keeps_same_journal: "iokeeps same_fs m \<Longrightarrow> iokeeps journal_kept m"
  by (erule iokeeps_mono) (rule same_journal)

lemma keeps_frame_writing: "iokeeps (frame_rel {path_Clean p}) m \<Longrightarrow> iokeeps (writing p) m"
  by (erule iokeeps_mono) (rule frame_writing)

lemma track_writing: "iokeeps (writing p) (track q)"
  by (auto simp: iokeeps_def track_def writing_def)

text \<open>What a snapshot does: it adds at most one entry, and that entry holds the file as it is now.\<close>

lemma snapshot_cases:
  assumes "snapshot E p w = (r, w')" and "txSnapshots w = Some snaps"
  obtains (same) "wFs w' = wFs w" "txSnapshots w' = Some snaps"
      "r = Inr () \<longrightarrow> go_get snaps (path_Clean p) \<noteq> None"
  | (added) s where "go_get snaps (path_Clean p) = None" "snap_ok (wFs w) (path_Clean p) s"
      "wFs w' = wFs w" "txSnapshots w' = Some (go_set (path_Clean p) s snaps)"
proof (cases "go_get snaps (path_Clean p)")
  case (Some s)
  with assms show ?thesis by (auto simp: snapshot_def Let_def intro: same)
next
  case None
  let ?q = "path_Clean p"
  obtain a w1 where st: "os_Stat E ?q w = (a, w1)" by (cases "os_Stat E ?q w")
  have w1: "same_fs w w1" using os_Stat_same st by (rule iokeepsD)
  then have sn1: "txSnapshots w1 = Some snaps" "wFs w1 = wFs w"
    using assms(2) more_eq_snapshots [of w1 w] by (auto simp: same_fs_def)
  show ?thesis
  proof (cases a)
    case (Inl e)
    show ?thesis
    proof (cases "err_is e is_not_exist")
      case True
      with st Inl have "e = ENotExist"
        by (auto simp: os_Stat_def os_call_def lookup_node_def Let_def split: option.splits if_splits)
      with st Inl have "lookup_node (wFs w) ?q = Inl ENotExist" by (simp add: os_Stat_missing)
      then have "go_get (wFs w) ?q = None" using lookup_node_missing [of ?q] by simp
      then have "snap_ok (wFs w) ?q \<lparr>snExists = False, snMode = 0, snData = []\<rparr>"
        by (simp add: snap_ok_def file_at_def)
      then show ?thesis
        by (rule added [OF None]) (use assms st Inl True None sn1 in \<open>auto simp: snapshot_def Let_def\<close>)
    next
      case False
      with assms st Inl None sn1 show ?thesis by (auto simp: snapshot_def Let_def intro: same)
    qed
  next
    case (Inr n)
    obtain b w2 where rd: "os_ReadFile E ?q w1 = (b, w2)" by (cases "os_ReadFile E ?q w1")
    have w2: "same_fs w1 w2" using os_ReadFile_same rd by (rule iokeepsD)
    then have sn2: "txSnapshots w2 = Some snaps" "wFs w2 = wFs w"
      using sn1 more_eq_snapshots [of w2 w1] by (auto simp: same_fs_def)
    show ?thesis
    proof (cases b)
      case (Inl e)
      with assms st Inr rd None sn2 show ?thesis by (auto simp: snapshot_def Let_def intro: same)
    next
      case (Inr d)
      with rd sn1 obtain m where "lookup_node (wFs w) ?q = Inr (NFile m d)"
        using os_ReadFile_Inr [of E ?q w1 d w2] by auto
      with st \<open>a = Inr n\<close> have n: "n = NFile m d" and f: "file_at (wFs w) ?q = Some (m, d)"
        using os_Stat_Inr [of E ?q w n w1] lookup_node_file [of "wFs w" ?q] by auto
      have "snap_ok (wFs w) ?q \<lparr>snExists = True, snMode = fMode n, snData = d\<rparr>"
        using f n by (simp add: snap_ok_def)
      then show ?thesis
        by (rule added [OF None])
          (use assms st \<open>a = Inr n\<close> rd Inr None sn2 in \<open>auto simp: snapshot_def Let_def\<close>)
    qed
  qed
qed

lemma snapshot_git_log: "snapshot E p w = (r, w') \<Longrightarrow> txGitLog w' = txGitLog w"
proof -
  assume s: "snapshot E p w = (r, w')"
  obtain a w1 where st: "os_Stat E (path_Clean p) w = (a, w1)" by (cases "os_Stat E (path_Clean p) w")
  obtain b w2 where rd: "os_ReadFile E (path_Clean p) w1 = (b, w2)" by (cases "os_ReadFile E (path_Clean p) w1")
  have "txGitLog w1 = txGitLog w" "txGitLog w2 = txGitLog w1"
    using iokeepsD [OF os_Stat_same st] iokeepsD [OF os_ReadFile_same rd]
      more_eq_snapshots [of w1 w] more_eq_snapshots [of w2 w1] by (auto simp: same_fs_def)
  with s st rd show ?thesis
    by (auto simp: snapshot_def Let_def split: option.splits sum.splits if_splits)
qed

lemma snapshot_keeps: "iokeeps journal_kept (snapshot E p)"
proof
  fix w
  obtain r w' where s: "snapshot E p w = (r, w')" by (cases "snapshot E p w")
  have "journal fs0 w'" if j: "journal fs0 w" for fs0
  proof -
    from j obtain snaps where snaps: "txSnapshots w = Some snaps"
        "\<And>p s. go_get snaps p = Some s \<Longrightarrow> snap_ok fs0 p s"
        "same_files_but {p. go_get snaps p \<noteq> None} fs0 (wFs w)"
      by (auto simp: journal_def)
    from s snaps(1) show ?thesis
    proof (cases rule: snapshot_cases)
      case same
      with j snaps(1) show ?thesis by (simp add: journal_def)
    next
      case (added s)
      then have "snap_ok fs0 (path_Clean p) s"
        using snaps(3) by (simp add: snap_ok_def same_files_but_def)
      with added snaps show ?thesis by (auto simp: journal_def go_get_set same_files_but_def)
    qed
  qed
  with s snapshot_git_log [OF s] show "journal_kept w (snd (snapshot E p w))"
    by (simp add: journal_kept_def)
qed

text \<open>A file may be written once its snapshot is in the journal.\<close>

lemma journal_writing:
  assumes "journal fs0 w" and "writing p w w'" and "txSnapshots w = Some snaps"
    and "go_get snaps (path_Clean p) \<noteq> None"
  shows "journal fs0 w'"
proof -
  from assms(2,4) have "same_files_but {p. go_get snaps p \<noteq> None} (wFs w) (wFs w')"
    by (auto simp: writing_def elim: same_files_but_mono)
  with assms(1-3) show ?thesis
    by (auto simp: journal_def writing_def intro: same_files_but_trans)
qed

lemma snapshot_then:
  assumes "iokeeps (writing p) m"
  shows "iokeeps journal_kept (iobind (snapshot E p) (\<lambda>_. m))"
proof
  fix w
  obtain r w1 where s: "snapshot E p w = (r, w1)" by (cases "snapshot E p w")
  have k: "journal_kept w w1" using snapshot_keeps s by (rule iokeepsD)
  show "journal_kept w (snd (iobind (snapshot E p) (\<lambda>_. m) w))"
  proof (cases r)
    case (Inl e)
    with s k show ?thesis by (simp add: iobind_def)
  next
    case (Inr u)
    obtain q w2 where m: "m w1 = (q, w2)" by (cases "m w1")
    have wr: "writing p w1 w2" using assms m by (rule iokeepsD)
    have "journal fs0 w2" if "journal fs0 w" for fs0
    proof -
      have j1: "journal fs0 w1" using k that by (simp add: journal_kept_def)
      from that obtain snaps where snaps: "txSnapshots w = Some snaps" by (auto simp: journal_def)
      from j1 obtain snaps1 where s1: "txSnapshots w1 = Some snaps1" by (auto simp: journal_def)
      from s snaps have "go_get snaps1 (path_Clean p) \<noteq> None"
        by (cases rule: snapshot_cases) (use s1 Inr in \<open>auto simp: go_get_set\<close>)
      with j1 wr s1 show ?thesis by (rule journal_writing)
    qed
    moreover have "txGitLog w2 = txGitLog w" using k wr by (simp add: journal_kept_def writing_def)
    ultimately show ?thesis using s Inr m by (simp add: iobind_def journal_kept_def)
  qed
qed

section \<open>Every operation keeps the journal\<close>

lemma stat_known_same:
  "iokeeps same_fs (iocatch (iobind (os_Stat E p) (\<lambda>_. ioret True))
     (\<lambda>e. if err_is e is_not_exist then ioret False else iofail (EWrap msg e)))"
  by (auto intro!: untouched.keeps_intros os_Stat_same)

lemmas writing_intros = writer.keeps_intros track_writing keeps_same_writing [OF stat_known_same]
  keeps_same_writing [OF readMapOfRecordsFile_same]
  keeps_frame_writing [OF writeSingleRecordFile_frame] keeps_frame_writing [OF writeMapOfRecordsFile_frame]
  keeps_frame_writing [OF deleteSingleRecordFile_frame]

lemma set_file_writing: "iokeeps (writing p) (set_file E A cd rf k data p)"
  unfolding set_file_def by (cases "rfRecordType rf") (auto intro!: writing_intros)

lemma insert_file_writing: "iokeeps (writing p) (insert_file E A cd rf k data p)"
  unfolding insert_file_def by (cases "rfRecordType rf") (auto intro!: writing_intros)

lemma delete_file_writing: "iokeeps (writing p) (delete_file E A cd rf k p)"
  unfolding delete_file_def by (cases "rfRecordType rf") (auto intro!: writing_intros)

lemma prepare_write_same: "iokeeps same_fs (prepare_write E A tx op key data)"
  unfolding prepare_write_def Let_def
  by (auto intro!: untouched.keeps_intros fk_same split: prod.splits)

lemma set_record_journal: "iokeeps journal_kept (set_record E A tx key data)"
  unfolding set_record_def Let_def
  by (auto intro!: journaled.keeps_bind snapshot_then set_file_writing
        keeps_same_journal [OF prepare_write_same] split: prod.splits)

lemma insert_record_journal: "iokeeps journal_kept (insert_record E A tx key data)"
  unfolding insert_record_def Let_def
  by (auto intro!: journaled.keeps_bind snapshot_then insert_file_writing
        keeps_same_journal [OF prepare_write_same] split: prod.splits)

lemma delete_checks_same:
  "iokeeps same_fs (if b then iobind (validateDeleteForeignKeys E A tx c k)
      (\<lambda>_. validateDeleteComputedForeignKeys E A tx c k) else ioret ())"
  by (auto intro!: untouched.keeps_intros fk_same)

lemma Delete_tx_journal: "iokeeps journal_kept (Delete_tx E A tx key)"
  unfolding Delete_tx_def Let_def
  by (auto intro!: journaled.keeps_bind snapshot_then delete_file_writing
        keeps_same_journal [OF delete_checks_same] keeps_same_journal [OF keeps_wrap]
        fk_same split: sum.splits prod.splits)

lemma validate_update_same: "iokeeps same_fs (validate_update E A tx op key cd k data)"
  unfolding validate_update_def Let_def by (auto intro!: untouched.keeps_intros fk_same)

lemma Update_tx_journal: "iokeeps journal_kept (Update_tx E A tx now key ups n)"
proof
  fix w :: txworld
  obtain err rec w1 where g: "Get E A tx \<lparr>rKey = key, rData = VMap [], rErr = None\<rparr> w = ((err, rec), w1)"
    by (metis prod.exhaust)
  have w1: "journal_kept w w1"
    using Get_same [of w E A tx "\<lparr>rKey = key, rData = VMap [], rErr = None\<rparr>"] g by (auto intro: same_journal)
  have set: "iokeeps journal_kept (iobind (iolift r) (\<lambda>(cd, rf, k). let d = strip_computed cd data in
      iobind (validate_update E A tx ''Update'' key cd k d) (\<lambda>_. set_record E A tx key (VMap d))))" for data r
    unfolding Let_def
    by (auto intro!: journaled.keeps_bind set_record_journal keeps_same_journal [OF validate_update_same]
          split: prod.splits)
  show "journal_kept w (snd (Update_tx E A tx now key ups n w))"
    using g w1 journaled.frame_trans [OF w1 set [unfolded iokeeps_def, rule_format]]
    by (auto simp: Update_tx_def journaled.frame_refl split: option.splits val.splits prod.splits)
qed

lemma Set_tx_journal: "journal_kept w (snd (Set_tx E A tx rec w))"
  using set_record_journal [of E A tx "rKey rec" "rData rec"]
  by (auto simp: Set_tx_def iokeeps_def split: prod.splits dest: spec [of _ w])

lemma Insert_tx_journal: "journal_kept w (snd (Insert_tx E A tx rec w))"
  using insert_record_journal [of E A tx "rKey rec" "rData rec"]
  by (auto simp: Insert_tx_def iokeeps_def split: prod.splits dest: spec [of _ w])

lemma UpdateRecord_tx_journal: "journal_kept w (snd (UpdateRecord_tx E A tx now rec ups n w))"
proof -
  have "journal_kept w (snd (Set_tx E A tx r w1))"
    if "validate_update E A tx op key cd k d w = (q, w1)" for op key cd k d q w1 r
    using same_journal [OF iokeepsD [OF validate_update_same that]] Set_tx_journal
    by (rule journaled.frame_trans)
  moreover have "journal_kept w w1"
    if "validate_update E A tx op key cd k d w = (q, w1)" for op key cd k d q w1
    using iokeepsD [OF validate_update_same that] by (rule same_journal)
  ultimately show ?thesis
    by (auto simp: UpdateRecord_tx_def Let_def journaled.frame_refl
          split: sum.splits option.splits prod.splits)
qed

lemma SetMulti_tx_journal: "journal_kept w (snd (SetMulti_tx E A tx recs w))"
proof (induction recs arbitrary: w)
  case (Cons rec recs)
  obtain err rec' w1 where s: "Set_tx E A tx rec w = ((err, rec'), w1)" by (metis prod.exhaust)
  have "journal_kept w w1" using Set_tx_journal [of w E A tx rec] s by simp
  with s Cons [of w1] show ?case
    by (cases err) (auto split: prod.splits intro: journaled.frame_trans)
qed (simp add: journaled.frame_refl)

lemma InsertMulti_tx_journal: "journal_kept w (snd (InsertMulti_tx E A tx recs w))"
proof (induction recs arbitrary: w)
  case (Cons rec recs)
  obtain err rec' w1 where s: "Insert_tx E A tx rec w = ((err, rec'), w1)" by (metis prod.exhaust)
  have "journal_kept w w1" using Insert_tx_journal [of w E A tx rec] s by simp
  with s Cons [of w1] show ?case
    by (cases err) (auto split: prod.splits intro: journaled.frame_trans)
qed (simp add: journaled.frame_refl)

lemma multi_journal:
  "iokeeps journal_kept (DeleteMulti_tx E A tx keys)"
  "iokeeps journal_kept (UpdateMulti_tx E A tx now keys ups n)"
  by (simp_all add: DeleteMulti_tx_def UpdateMulti_tx_def journaled.keeps_each Delete_tx_journal Update_tx_journal)

section \<open>What the operations do\<close>

lemma prepare_write_Inr:
  assumes "prepare_write E A tx op key d w = (Inr (cd, rf, k, data), w')"
  shows "resolveCollection A (txDef tx) key = Inr (cd, rf, k)" and "DataToMap A d = Inr data"
    and "validateNoStoredComputedValues (case key of None \<Rightarrow> [] | Some k \<Rightarrow> kCollection k) cd k data = Inr ()"
    and "\<exists>w1. validateWriteForeignKeys E A tx op (case key of None \<Rightarrow> [] | Some k \<Rightarrow> kCollection k) cd data w
            = (Inr (), w1)"
    and "same_fs w w'"
  using assms iokeepsD [OF prepare_write_same assms]
  by (auto simp: prepare_write_def Let_def res_simps)

lemma snapshot_same_tree:
  assumes "snapshot E p w = (r, w')"
  shows "wFs w' = wFs w"
proof (cases "txSnapshots w")
  case None
  with assms show ?thesis by (simp add: snapshot_def)
next
  case (Some snaps)
  with assms show ?thesis by (cases rule: snapshot_cases) simp_all
qed

text \<open>Only the file of the record can change.\<close>

definition only_record_file :: "api \<Rightarrow> txctx \<Rightarrow> key option \<Rightarrow> txworld \<Rightarrow> txworld \<Rightarrow> bool" where
  "only_record_file A tx key w w' \<longleftrightarrow>
     (case resolveCollection A (txDef tx) key of
        Inl e \<Rightarrow> wFs w' = wFs w
      | Inr (cd, rf, k) \<Rightarrow>
          same_files_but {path_Clean (resolveRecordPath A cd rf k)} (wFs w) (wFs w'))"

lemma after_snapshot_frame:
  assumes "iokeeps (writing p) m"
  shows "same_files_but {path_Clean p} (wFs w) (wFs (snd (iobind (snapshot E p) (\<lambda>_. m) w)))"
proof -
  obtain r w1 where s: "snapshot E p w = (r, w1)" by (cases "snapshot E p w")
  have "writing p w1 (snd (m w1))" using assms by (simp add: iokeeps_def)
  with s snapshot_same_tree [OF s] show ?thesis
    by (cases r) (simp_all add: iobind_def writing_def)
qed

lemma write_frame:
  assumes "\<And>cd rf k data p. iokeeps (writing p) (m cd rf k data p)"
  shows "only_record_file A tx key w
           (snd (iobind (prepare_write E A tx op key d) (\<lambda>(cd, rf, k, data).
              let p = resolveRecordPath A cd rf k in
              iobind (snapshot E p) (\<lambda>_. m cd rf k data p)) w))"
proof -
  obtain r w1 where p: "prepare_write E A tx op key d w = (r, w1)" by (cases "prepare_write E A tx op key d w")
  have w1: "wFs w1 = wFs w" using iokeepsD [OF prepare_write_same p] by (simp add: same_fs_def)
  show ?thesis
  proof (cases r)
    case (Inl e)
    with p w1 show ?thesis by (auto simp: iobind_def only_record_file_def split: sum.splits)
  next
    case (Inr t)
    obtain cd rf k data where t: "t = (cd, rf, k, data)" by (metis prod.exhaust)
    from p Inr t have "resolveCollection A (txDef tx) key = Inr (cd, rf, k)"
      by (auto dest: prepare_write_Inr)
    with w1 after_snapshot_frame [OF assms, of "resolveRecordPath A cd rf k" w1 E cd rf k data] show ?thesis
      using p Inr t by (simp add: iobind_def only_record_file_def Let_def)
  qed
qed

lemma set_record_frame: "only_record_file A tx key w (snd (set_record E A tx key d w))"
  unfolding set_record_def by (rule write_frame) (rule set_file_writing)

lemma insert_record_frame: "only_record_file A tx key w (snd (insert_record E A tx key d w))"
  unfolding insert_record_def by (rule write_frame) (rule insert_file_writing)

lemma Delete_tx_frame: "only_record_file A tx key w (snd (Delete_tx E A tx key w))"
proof (cases "resolveCollection A (txDef tx) key")
  case (Inl e)
  then show ?thesis by (simp add: only_record_file_def Delete_tx_def ioret_def iofail_def)
next
  case (Inr t)
  obtain cd rf k where t: "t = (cd, rf, k)" by (metis prod.exhaust)
  let ?p = "resolveRecordPath A cd rf k"
  let ?P = "\<lambda>w w' :: txworld. same_files_but {path_Clean ?p} (wFs w) (wFs w')"
  have same: "iokeeps ?P m" if "iokeeps same_fs m" for m :: "(txworld, dberr, 'x) io"
    using that by (auto simp: iokeeps_def same_fs_def)
  have "world_frame ?P" by unfold_locales (auto intro: same_files_but_trans)
  note bind = world_frame.keeps_bind [OF this]
  have del: "iokeeps ?P (iobind (snapshot E ?p) (\<lambda>_. delete_file E A cd rf k ?p))"
    using after_snapshot_frame [OF delete_file_writing] by (simp add: iokeeps_def)
  have "iokeeps ?P (Delete_tx E A tx key)"
    unfolding Delete_tx_def Inr t Let_def
    by (simp, intro bind del same keeps_wrap foreignKeyTargetExists_same delete_checks_same)
  then show ?thesis by (simp add: only_record_file_def Inr t iokeeps_def)
qed

text \<open>What a successful write leaves on disk.\<close>

definition stored_content :: "api \<Rightarrow> coldef \<Rightarrow> recfile \<Rightarrow> string \<Rightarrow> row \<Rightarrow> string \<Rightarrow> bool" where
  "stored_content A cd rf k data c \<longleftrightarrow>
     (case rfRecordType rf of
        SingleRecord \<Rightarrow> EncodeRecordContentForCollection A data cd = Inr c
      | MapOfRecords \<Rightarrow>
          (\<exists>rs. EncodeMapOfRecordsContent A (go_set k (ApplyLocaleToWrite A data (cdColumns cd)) rs)
                 (rfFormat rf) (cdID cd) (cdColumnsOrder cd) = Inr c)
      | _ \<Rightarrow> False)"

lemma track_tree: "track p w = (r, w') \<Longrightarrow> wFs w' = wFs w"
  by (auto simp: track_def)

lemma set_file_Inr:
  assumes "set_file E A cd rf k data p w = (Inr u, w')"
  shows "\<exists>m c. lookup_node (wFs w') p = Inr (NFile m c) \<and> stored_content A cd rf k data c"
  using assms
  by (cases "rfRecordType rf")
    (fastforce simp: set_file_def stored_content_def res_simps
       dest!: track_tree writeSingleRecordFile_Inr writeMapOfRecordsFile_Inr)+

lemma set_record_Inr:
  assumes "set_record E A tx key d w = (Inr u, w')"
  shows "\<exists>cd rf k data m c. resolveCollection A (txDef tx) key = Inr (cd, rf, k) \<and> DataToMap A d = Inr data \<and>
           lookup_node (wFs w') (resolveRecordPath A cd rf k) = Inr (NFile m c) \<and>
           stored_content A cd rf k data c"
proof -
  from assms obtain cd rf k data w1 w2 where
      p: "prepare_write E A tx ''Set'' key d w = (Inr (cd, rf, k, data), w1)"
    and s: "set_file E A cd rf k data (resolveRecordPath A cd rf k) w2 = (Inr u, w')"
    by (auto simp: set_record_def res_simps Let_def split: prod.splits)
  from prepare_write_Inr(1,2) [OF p] set_file_Inr [OF s] show ?thesis by blast
qed

text \<open>An insert over a record that is there fails and changes no file, whatever else goes wrong.\<close>

lemma insert_file_present:
  assumes pr: "record_present A (wFs w) cd rf k"
    and i: "insert_file E A cd rf k data (resolveRecordPath A cd rf k) w = (r, w')"
  shows "(\<exists>e. r = Inl e) \<and> wFs w' = wFs w"
proof (cases "rfRecordType rf")
  case SingleRecord
  let ?p = "resolveRecordPath A cd rf k"
  obtain q w1 where st: "os_Stat E ?p w = (q, w1)" by (cases "os_Stat E ?p w")
  have w1: "wFs w1 = wFs w" using iokeepsD [OF os_Stat_same st] by (simp add: same_fs_def)
  have "\<not> err_is e is_not_exist" if "q = Inl e" for e
    using st pr that
    by (auto simp: record_present_def os_Stat_def os_call_def Let_def intact_def split: option.splits)
  with i st w1 SingleRecord show ?thesis
    by (cases q) (auto simp: insert_file_def iobind_def iocatch_def io_defs)
next
  case MapOfRecords
  let ?m = "readMapOfRecordsFile E A (resolveRecordPath A cd rf k) (rfFormat rf)"
  obtain q w1 where rd: "?m w = (q, w1)" by (cases "?m w")
  have w1: "wFs w1 = wFs w" using iokeepsD [OF readMapOfRecordsFile_same rd] by (simp add: same_fs_def)
  have "go_get rs k \<noteq> None" if "q = Inr rs" for rs
    using readMapOfRecordsFile_Inr [OF rd [unfolded that]] pr MapOfRecords
    by (auto simp: record_present_def)
  with i rd w1 MapOfRecords show ?thesis
    by (cases q) (auto simp: insert_file_def iobind_def io_defs)
qed (use assms in \<open>auto simp: record_present_def\<close>)

lemma insert_record_present:
  assumes "resolveCollection A (txDef tx) key = Inr (cd, rf, k)"
    and "record_present A (wFs w) cd rf k"
    and i: "insert_record E A tx key d w = (r, w')"
  shows "(\<exists>e. r = Inl e) \<and> wFs w' = wFs w"
proof -
  obtain q w1 where p: "prepare_write E A tx ''Insert'' key d w = (q, w1)" by (metis prod.exhaust)
  have w1: "wFs w1 = wFs w" using iokeepsD [OF prepare_write_same p] by (simp add: same_fs_def)
  show ?thesis
  proof (cases q)
    case (Inl e)
    with p i w1 show ?thesis by (auto simp: insert_record_def iobind_def)
  next
    case (Inr t)
    obtain cd' rf' k' data where t': "t = (cd', rf', k', data)" by (metis prod.exhaust)
    with prepare_write_Inr(1) [OF p [unfolded Inr t']] assms(1) have t: "t = (cd, rf, k, data)" by simp
    obtain a w2 where s: "snapshot E (resolveRecordPath A cd rf k) w1 = (a, w2)" by (metis prod.exhaust)
    have w2: "wFs w2 = wFs w" using snapshot_same_tree [OF s] w1 by simp
    show ?thesis
    proof (cases a)
      case (Inl e)
      with p i s w2 Inr t show ?thesis by (auto simp: insert_record_def iobind_def Let_def)
    next
      case (Inr v)
      with p i s \<open>q = Inr t\<close> t
      have "insert_file E A cd rf k data (resolveRecordPath A cd rf k) w2 = (r, w')"
        by (simp add: insert_record_def iobind_def Let_def)
      from insert_file_present [OF _ this] assms(2) w2 show ?thesis by simp
    qed
  qed
qed

text \<open>A delete that reports success leaves no record behind.\<close>

text \<open>An encoded map of records parses back to a map with the same keys.\<close>

definition map_codec :: "api \<Rightarrow> coldef \<Rightarrow> recfile \<Rightarrow> bool" where
  "map_codec A cd rf \<longleftrightarrow>
     (\<forall>rs c. EncodeMapOfRecordsContent A rs (rfFormat rf) (cdID cd) (cdColumnsOrder cd) = Inr c \<longrightarrow>
        (\<exists>rs'. ParseMapOfRecordsContent A c (rfFormat rf) = Inr rs' \<and>
           (\<forall>k. go_get rs' k = None \<longleftrightarrow> go_get rs k = None)))"

lemma delete_file_Inr:
  assumes "delete_file E A cd rf k (resolveRecordPath A cd rf k) w = (Inr u, w')"
    and "rfRecordType rf = MapOfRecords \<longrightarrow> map_codec A cd rf"
    and "resolveRecordPath A cd rf k \<noteq> []"
  shows "\<not> record_present A (wFs w') cd rf k"
proof (cases "rfRecordType rf")
  case SingleRecord
  let ?p = "resolveRecordPath A cd rf k"
  from assms(1) SingleRecord consider
      e where "os_Stat E ?p w = (Inl e, w')" "err_is e is_not_exist"
    | w1 w2 where "deleteSingleRecordFile E ?p w1 = (Inr (), w2)" "track ?p w2 = (Inr u, w')"
    by (auto simp: delete_file_def iobind_def iocatch_def io_defs split: prod.splits sum.splits if_splits)
  then show ?thesis
  proof cases
    case 1
    then have "lookup_node (wFs w') ?p = Inl ENotExist"
      by (auto simp: os_Stat_def os_call_def Let_def intact_def lookup_node_def split: option.splits if_splits)
    then show ?thesis by (auto simp: record_present_def)
  next
    case 2
    with assms(3) have "go_get (wFs w') (path_Clean ?p) = None"
      using deleteSingleRecordFile_Inr [OF 2(1)] track_tree [OF 2(2)] by simp
    then show ?thesis by (auto simp: record_present_def lookup_node_def split: if_splits)
  qed
next
  case MapOfRecords
  let ?p = "resolveRecordPath A cd rf k"
  from assms(1) MapOfRecords obtain rs w1 where rd: "readMapOfRecordsFile E A ?p (rfFormat rf) w = (Inr rs, w1)"
    and k: "(if go_get rs k = None then ioret () else iobind (writeMapOfRecordsFile E A ?p cd rf (go_delete k rs))
          (\<lambda>_. track ?p)) w1 = (Inr u, w')"
    by (auto simp: delete_file_def res_simps)
  have w1: "wFs w1 = wFs w" using iokeepsD [OF readMapOfRecordsFile_same rd] by (simp add: same_fs_def)
  show ?thesis
  proof (cases "go_get rs k = None")
    case True
    with k w1 have "wFs w' = wFs w" by (simp add: ioret_def)
    with readMapOfRecordsFile_Inr [OF rd] True MapOfRecords show ?thesis
      by (auto simp: record_present_def split: sum.splits)
  next
    case False
    with k obtain w2 where wr: "writeMapOfRecordsFile E A ?p cd rf (go_delete k rs) w1 = (Inr (), w2)"
        and "wFs w' = wFs w2"
      by (auto simp: res_simps dest!: track_tree)
    from writeMapOfRecordsFile_Inr [OF wr] obtain m c where
        c: "EncodeMapOfRecordsContent A (go_delete k rs) (rfFormat rf) (cdID cd) (cdColumnsOrder cd) = Inr c"
        "lookup_node (wFs w2) ?p = Inr (NFile m c)" by blast
    with assms(2) MapOfRecords obtain rs' where "ParseMapOfRecordsContent A c (rfFormat rf) = Inr rs'"
        "go_get rs' k = None"
      unfolding map_codec_def by (metis go_get_delete)
    with c \<open>wFs w' = wFs w2\<close> MapOfRecords show ?thesis by (auto simp: record_present_def)
  qed
qed (use assms in \<open>auto simp: record_present_def\<close>)

lemma Delete_tx_gone:
  assumes "Delete_tx E A tx key w = (Inr u, w')"
    and r: "resolveCollection A (txDef tx) key = Inr (cd, rf, k)"
    and "rfRecordType rf = MapOfRecords \<longrightarrow> map_codec A cd rf"
    and "resolveRecordPath A cd rf k \<noteq> []"
  shows "\<not> record_present A (wFs w') cd rf k"
proof -
  from assms(1) obtain w1 where "delete_file E A cd rf k (resolveRecordPath A cd rf k) w1 = (Inr u, w')"
    by (auto simp: Delete_tx_def r res_simps Let_def)
  then show ?thesis using assms(3,4) by (rule delete_file_Inr)
qed

section \<open>Writing, then reading\<close>

text \<open>An environment in which no call fails and nothing is cancelled.\<close>

definition quiet :: "osenv \<Rightarrow> bool" where
  "quiet E \<longleftrightarrow> osFault E = (\<lambda>n. None) \<and> osCancelled E = (\<lambda>n. False)"

lemma quiet_read:
  assumes "quiet E" and "lookup_node (wFs w) p = Inr (NFile m c)"
  shows "ParseRecordContentForCollection A c cd = Inr d \<Longrightarrow>
           \<exists>w'. readSingleRecordFile E A p cd w = (Inr (Some d), w')"
    and "ParseMapOfRecordsContent A c fmt = Inr rs \<Longrightarrow>
           \<exists>w'. readMapOfRecordsFile E A p fmt w = (Inr rs, w')"
  using assms
  by (auto simp: quiet_def readSingleRecordFile_def readMapOfRecordsFile_def stat_exists_def os_Stat_def
      os_ReadFile_def os_call_def flock_def flock_open_def withSharedLock_def iowrap_def iobind_def iocatch_def
      io_defs intact_def Let_def)

text \<open>
  What the codecs of the collection promise of one row: \<open>out\<close> is the row that comes back
  when what was encoded is parsed, decoded and read in the locale it was written in.
\<close>

definition row_codec :: "api \<Rightarrow> coldef \<Rightarrow> recfile \<Rightarrow> row \<Rightarrow> row \<Rightarrow> bool" where
  "row_codec A cd rf data out \<longleftrightarrow>
     (case rfRecordType rf of
        SingleRecord \<Rightarrow>
          (\<forall>c. EncodeRecordContentForCollection A data cd = Inr c \<longrightarrow>
             (\<exists>d. ParseRecordContentForCollection A c cd = Inr d \<and> ApplyLocaleToRead A d (cdColumns cd) = out))
      | MapOfRecords \<Rightarrow>
          (\<forall>rs k c. EncodeMapOfRecordsContent A (go_set k (ApplyLocaleToWrite A data (cdColumns cd)) rs)
                      (rfFormat rf) (cdID cd) (cdColumnsOrder cd) = Inr c \<longrightarrow>
             (\<exists>rs' r. ParseMapOfRecordsContent A c (rfFormat rf) = Inr rs' \<and> go_get rs' k = Some r \<and>
                decodeSourceTransport cd (ApplyLocaleToRead A r (cdColumns cd)) = Inr out))
      | _ \<Rightarrow> True)"

lemma set_then_get_row:
  assumes "lookup_node (wFs w') (resolveRecordPath A cd rf k) = Inr (NFile m c)"
    and "stored_content A cd rf k data c" and "row_codec A cd rf data out" and "quiet E'"
  shows "\<exists>w''. get_row E' A tx cd rf k w' = (applyDerivedValues A tx out cd k, w'')"
proof (cases "rfRecordType rf")
  case SingleRecord
  with assms(2,3) obtain d where d: "ParseRecordContentForCollection A c cd = Inr d"
      "ApplyLocaleToRead A d (cdColumns cd) = out"
    by (auto simp: stored_content_def row_codec_def)
  from quiet_read(1) [OF assms(4,1) d(1)] d SingleRecord show ?thesis
    by (auto simp: get_row_def Let_def iobind_def iolift_def)
next
  case MapOfRecords
  with assms(2,3) obtain rs r where d: "ParseMapOfRecordsContent A c (rfFormat rf) = Inr rs" "go_get rs k = Some r"
      "decodeSourceTransport cd (ApplyLocaleToRead A r (cdColumns cd)) = Inr out"
    by (fastforce simp: stored_content_def row_codec_def)
  from quiet_read(2) [OF assms(4,1) d(1)] d MapOfRecords show ?thesis
    by (auto simp: get_row_def Let_def iobind_def iolift_def)
qed (use assms in \<open>auto simp: stored_content_def\<close>)

lemma set_then_get:
  assumes s: "set_record E A tx key d w = (Inr u, w')"
    and r: "resolveCollection A (txDef tx) key = Inr (cd, rf, k)" and d: "DataToMap A d = Inr data"
    and "row_codec A cd rf data out" and q: "quiet E'" and a: "applyDerivedValues A tx out cd k = Inr row"
    and m: "MapToData A (rData rec) row = Inr target" and "rKey rec = key"
  shows "\<exists>w''. Get E' A tx rec w' = ((None, rec\<lparr>rErr := None, rData := target\<rparr>), w'')"
proof -
  from set_record_Inr [OF s] r d obtain n c where
      "lookup_node (wFs w') (resolveRecordPath A cd rf k) = Inr (NFile n c)" "stored_content A cd rf k data c"
    by auto
  moreover obtain w1 where c: "ctx_Err E' w' = (Inr (), w1)" "wFs w1 = wFs w'"
    using q by (auto simp: ctx_Err_def quiet_def)
  ultimately obtain w2 where "get_row E' A tx cd rf k w1 = (Inr row, w2)"
    using set_then_get_row [of w1 A cd rf k n c data out E' tx] assms(4) q a by auto
  with c r m \<open>rKey rec = key\<close> show ?thesis by (simp add: Get_def)
qed

end
