(* ===== verification/GitCommit.thy ===== *)
theory GitCommit
  imports WriteTx
begin

text \<open>
  The commit step of \<open>git_commit.go\<close>. Git itself is a parameter: \<open>gRun\<close> answers each run
  (success and output) at its tick, and every run is appended to the log of the world.
  Git's object store and the temporary index are outside the modelled tree, so no run
  changes a file of it.
\<close>

record gitenv =
  gRun :: "nat \<Rightarrow> string \<Rightarrow> string option \<Rightarrow> string \<Rightarrow> string list \<Rightarrow> bool \<times> string"
  gTempFile :: "nat \<Rightarrow> string res"
  gAbs :: "string \<Rightarrow> string res"
  gCacheDir :: "string res"
  gSha256 :: "string \<Rightarrow> string"

definition git_run ::
  "gitenv \<Rightarrow> string \<Rightarrow> string option \<Rightarrow> string \<Rightarrow> string list \<Rightarrow> (txworld, dberr, bool \<times> string) io" where
  "git_run G dir index stdin args w =
     (case gRun G (wTick w) dir index stdin args of (ok, out) \<Rightarrow>
        (Inr (ok, out),
         w\<lparr>wTick := Suc (wTick w),
           txGitLog := txGitLog w @ [\<lparr>gcDir = dir, gcArgs = args, gcIndex = index, gcStdin = stdin,
                                      gcOk = ok, gcOut = out\<rparr>]\<rparr>))"

text \<open>A run whose failure ends the commit with the given message.\<close>

definition git_need ::
  "gitenv \<Rightarrow> string \<Rightarrow> string option \<Rightarrow> string \<Rightarrow> string \<Rightarrow> string list \<Rightarrow> (txworld, dberr, string) io" where
  "git_need G dir index stdin msg args =
     iobind (git_run G dir index stdin args) (\<lambda>(ok, out).
       if ok then ioret out else iofail (EWrap msg (EIO out)))"

definition osCreateTemp :: "gitenv \<Rightarrow> (txworld, dberr, string) io" where
  "osCreateTemp G w = (gTempFile G (wTick w), w\<lparr>wTick := Suc (wTick w)\<rparr>)"

fun dedupe_from :: "string list \<Rightarrow> string list \<Rightarrow> string list" where
  "dedupe_from seen [] = []"
| "dedupe_from seen (s # ss) =
     (if s \<in> set seen then dedupe_from seen ss else s # dedupe_from (s # seen) ss)"

definition dedupeStrings :: "string list \<Rightarrow> string list" where
  "dedupeStrings ss = dedupe_from [] ss"

definition isInsideGitWorkTree :: "gitenv \<Rightarrow> string \<Rightarrow> (txworld, dberr, bool) io" where
  "isInsideGitWorkTree G dir =
     iobind (git_run G dir None [] [''rev-parse'', ''--is-inside-work-tree'']) (\<lambda>(ok, _). ioret ok)"

text \<open>\<open>gitHead\<close>: \<open>None\<close> is an unborn branch.\<close>

definition gitHead :: "osenv \<Rightarrow> gitenv \<Rightarrow> string \<Rightarrow> (txworld, dberr, string option) io" where
  "gitHead E G repoDir =
     iobind (git_run G repoDir None [] [''rev-parse'', ''--verify'', ''HEAD^{commit}'']) (\<lambda>(ok, out).
       if ok then ioret (Some (strings_TrimSpace out))
       else iobind (iowrap ''resolve Git HEAD'' (ctx_Err E)) (\<lambda>_.
         if strings_Contains out ''Needed a single revision'' \<or>
            strings_Contains out ''unknown revision or path not in the working tree''
         then ioret None
         else iofail (EWrap ''resolve Git HEAD'' (EIO out))))"

definition abs_or_same :: "gitenv \<Rightarrow> string \<Rightarrow> string" where
  "abs_or_same G p = (case gAbs G p of Inr a \<Rightarrow> a | Inl e \<Rightarrow> p)"

definition zero_id :: string where
  "zero_id = replicate 40 (CHR ''0'')"

text \<open>The plumbing after the temporary index exists.\<close>

definition commit_with_index ::
  "osenv \<Rightarrow> gitenv \<Rightarrow> string \<Rightarrow> string list \<Rightarrow> string \<Rightarrow> string \<Rightarrow> (txworld, dberr, unit) io" where
  "commit_with_index E G repoDir staged message indexPath =
     iobind (gitHead E G repoDir) (\<lambda>oldHead.
     iobind (case oldHead of
               Some h \<Rightarrow> git_need G repoDir (Some indexPath) [] ''seed temporary index'' [''read-tree'', h]
             | None \<Rightarrow> git_need G repoDir (Some indexPath) [] ''initialise temporary index''
                         [''read-tree'', ''--empty'']) (\<lambda>_.
     iobind (git_need G repoDir (Some indexPath) [] ''git add'' ([''add'', ''--''] @ staged)) (\<lambda>_.
     iobind (git_need G repoDir (Some indexPath) [] ''write transaction tree'' [''write-tree'']) (\<lambda>tree.
     iobind (git_need G repoDir (Some indexPath) (message @ [CHR 0x0A]) ''create transaction commit''
               ([''commit-tree'', strings_TrimSpace tree] @
                (case oldHead of Some h \<Rightarrow> [''-p'', h] | None \<Rightarrow> []))) (\<lambda>newHead.
     iobind (git_need G repoDir (Some indexPath) [] ''publish transaction commit''
               [''update-ref'', ''HEAD'', strings_TrimSpace newHead,
                case oldHead of Some h \<Rightarrow> h | None \<Rightarrow> zero_id]) (\<lambda>_.
       ioret ()))))))"

definition gitCommitPaths ::
  "osenv \<Rightarrow> gitenv \<Rightarrow> string \<Rightarrow> string list \<Rightarrow> string \<Rightarrow> (txworld, dberr, unit) io" where
  "gitCommitPaths E G repoDir paths message =
     (let staged = dedupeStrings paths in
      if staged = [] then ioret ()
      else iobind (isInsideGitWorkTree G repoDir) (\<lambda>inside.
        if \<not> inside then ioret ()
        else iobind (iowrap ''create temporary index'' (osCreateTemp G)) (\<lambda>indexPath.
          commit_with_index E G repoDir (map (abs_or_same G) staged) message indexPath)))"

section \<open>Staged paths\<close>

lemma dedupe_from_spec:
  "distinct (dedupe_from seen ss) \<and> set (dedupe_from seen ss) = set ss - set seen"
proof (induction ss arbitrary: seen)
  case (Cons s ss)
  from Cons [of seen] Cons [of "s # seen"] show ?case by auto
qed simp

lemma dedupeStrings_spec: "distinct (dedupeStrings ss)" "set (dedupeStrings ss) = set ss"
  using dedupe_from_spec [of "[]" ss] by (simp_all add: dedupeStrings_def)

lemma dedupe_from_subseq: "subseq (dedupe_from seen ss) ss"
  by (induction ss arbitrary: seen) auto

lemma dedupe_from_id: "distinct ss \<Longrightarrow> set ss \<inter> set seen = {} \<Longrightarrow> dedupe_from seen ss = ss"
proof (induction ss arbitrary: seen)
  case (Cons s ss)
  then show ?case using Cons.IH [of "s # seen"] by simp
qed simp

section \<open>The commit leaves the files and the journal alone\<close>

definition git_only :: "txworld \<Rightarrow> txworld \<Rightarrow> bool" where
  "git_only w w' \<longleftrightarrow>
     wFs w' = wFs w \<and> txSnapshots w' = txSnapshots w \<and> txWritten w' = txWritten w \<and>
     prefix (txGitLog w) (txGitLog w')"

interpretation gitting: world_frame git_only
  by unfold_locales (auto simp: git_only_def)

lemma same_git_only: "same_fs w w' \<Longrightarrow> git_only w w'"
  by (cases w; cases w') (auto simp: same_fs_def git_only_def)

lemma git_run_only: "iokeeps git_only (git_run G dir i inp args)"
  by (auto simp: iokeeps_def git_run_def git_only_def split: prod.splits)

lemma git_need_only: "iokeeps git_only (git_need G dir i inp msg args)"
  by (auto simp: git_need_def intro!: gitting.keeps_bind git_run_only split: prod.splits)

lemma ctx_Err_git: "iokeeps git_only (iowrap msg (ctx_Err E))"
  using keeps_wrap [OF ctx_Err_same] by (rule iokeeps_mono) (rule same_git_only)

lemma osCreateTemp_only: "iokeeps git_only (iowrap msg (osCreateTemp G))"
  by (auto simp: iowrap_def iokeeps_def osCreateTemp_def git_only_def iocatch_def iofail_def
        split: sum.splits)

lemma gitHead_only: "iokeeps git_only (gitHead E G dir)"
  unfolding gitHead_def
  by (auto intro!: gitting.keeps_bind git_run_only ctx_Err_git split: prod.splits)

lemma commit_with_index_only: "iokeeps git_only (commit_with_index E G dir staged msg i)"
  unfolding commit_with_index_def
  by (auto intro!: gitting.keeps_bind git_need_only gitHead_only split: option.splits)

lemma gitCommitPaths_only: "iokeeps git_only (gitCommitPaths E G dir paths msg)"
  unfolding gitCommitPaths_def Let_def isInsideGitWorkTree_def
  by (auto intro!: gitting.keeps_bind git_run_only osCreateTemp_only commit_with_index_only
        split: prod.splits)

section \<open>HEAD moves last, by compare and swap\<close>

text \<open>A run that moves a reference.\<close>

definition published :: "gitcall \<Rightarrow> bool" where
  "published c \<longleftrightarrow> gcOk c \<and> (case gcArgs c of a # _ \<Rightarrow> a = ''update-ref'' | [] \<Rightarrow> False)"

definition unpublished :: "txworld \<Rightarrow> txworld \<Rightarrow> bool" where
  "unpublished w w' \<longleftrightarrow>
     (\<exists>calls. txGitLog w' = txGitLog w @ calls \<and> (\<forall>c \<in> set calls. \<not> published c))"

interpretation publishing: world_frame unpublished
proof
  fix s t u
  assume "unpublished s t" "unpublished t u"
  then obtain a b where "txGitLog t = txGitLog s @ a" "txGitLog u = txGitLog t @ b"
      "\<forall>c \<in> set a. \<not> published c" "\<forall>c \<in> set b. \<not> published c"
    unfolding unpublished_def by blast
  then show "unpublished s u" unfolding unpublished_def by (intro exI [of _ "a @ b"]) auto
qed (simp add: unpublished_def)

lemma git_run_unpublished: "hd args \<noteq> ''update-ref'' \<Longrightarrow> iokeeps unpublished (git_run G dir i inp args)"
  by (auto simp: iokeeps_def git_run_def unpublished_def published_def split: prod.splits list.splits)

lemma git_need_unpublished: "hd args \<noteq> ''update-ref'' \<Longrightarrow> iokeeps unpublished (git_need G dir i inp msg args)"
  by (auto simp: git_need_def intro!: publishing.keeps_bind git_run_unpublished split: prod.splits)

lemma ctx_Err_unpublished: "iokeeps unpublished (iowrap msg (ctx_Err E))"
  by (auto simp: iokeeps_def iowrap_def iocatch_def iofail_def ctx_Err_def unpublished_def)

lemma gitHead_unpublished: "iokeeps unpublished (gitHead E G dir)"
  unfolding gitHead_def
  by (auto intro!: publishing.keeps_bind git_run_unpublished ctx_Err_unpublished split: prod.splits)

lemma git_need_Inl:
  assumes "git_need G dir i inp msg args w = (Inl e, w')"
  shows "unpublished w w'"
  using assms
  by (auto simp: git_need_def git_run_def iobind_def io_defs unpublished_def published_def
        split: prod.splits if_splits)

lemma git_need_Inr:
  "git_need G dir i inp msg args w = (Inr out, w') \<longleftrightarrow>
     gRun G (wTick w) dir i inp args = (True, out) \<and>
     w' = w\<lparr>wTick := Suc (wTick w),
            txGitLog := txGitLog w @ [\<lparr>gcDir = dir, gcArgs = args, gcIndex = i, gcStdin = inp,
                                       gcOk = True, gcOut = out\<rparr>]\<rparr>"
  by (auto simp: git_need_def git_run_def iobind_def io_defs split: prod.splits if_splits)

lemma keeps_bind_Inl:
  assumes "iobind m f w = (Inl e, w')" and "iokeeps unpublished m"
    and "\<And>x w1. f x w1 = (Inl e, w') \<Longrightarrow> unpublished w1 w'"
  shows "unpublished w w'"
proof -
  from assms(1) consider "m w = (Inl e, w')"
    | x w1 where "m w = (Inr x, w1)" "f x w1 = (Inl e, w')"
    by (auto simp: res_simps)
  then show ?thesis
    by cases (metis assms(2) iokeepsD, metis assms(2,3) iokeepsD publishing.frame_trans)
qed

lemma commit_with_index_Inl:
  assumes "commit_with_index E G dir staged msg i w = (Inl e, w')"
  shows "unpublished w w'"
  using assms unfolding commit_with_index_def
  apply (rule keeps_bind_Inl [OF _ gitHead_unpublished])
  apply (erule keeps_bind_Inl, simp add: git_need_unpublished split: option.splits)
  apply (erule keeps_bind_Inl, simp add: git_need_unpublished)
  apply (erule keeps_bind_Inl, simp add: git_need_unpublished)
  apply (erule keeps_bind_Inl, simp add: git_need_unpublished)
  apply (auto simp: res_simps dest: git_need_Inl)
  done

lemma gitCommitPaths_Inl:
  assumes "gitCommitPaths E G dir paths msg w = (Inl e, w')"
  shows "unpublished w w'"
proof -
  have temp: "iokeeps unpublished (iowrap m (osCreateTemp G))" for m
    by (auto simp: iowrap_def iokeeps_def osCreateTemp_def unpublished_def iocatch_def iofail_def
          split: sum.splits)
  have inside: "iokeeps unpublished (isInsideGitWorkTree G dir)"
    unfolding isInsideGitWorkTree_def
    by (auto intro!: publishing.keeps_bind git_run_unpublished split: prod.splits)
  show ?thesis
  proof (cases "dedupeStrings paths = []")
    case True
    with assms show ?thesis by (simp add: gitCommitPaths_def Let_def res_simps)
  next
    case False
    with assms have "iobind (isInsideGitWorkTree G dir) (\<lambda>inside. if \<not> inside then ioret ()
        else iobind (iowrap ''create temporary index'' (osCreateTemp G)) (\<lambda>i.
          commit_with_index E G dir (map (abs_or_same G) (dedupeStrings paths)) msg i)) w = (Inl e, w')"
      by (simp add: gitCommitPaths_def Let_def)
    then show ?thesis
    proof (rule keeps_bind_Inl [OF _ inside])
      fix x w1
      assume x: "(if \<not> x then ioret () else iobind (iowrap ''create temporary index'' (osCreateTemp G)) (\<lambda>i.
          commit_with_index E G dir (map (abs_or_same G) (dedupeStrings paths)) msg i)) w1 = (Inl e, w')"
      then have x by (cases x) (auto simp: ioret_def)
      with x show "unpublished w1 w'"
        by (simp, elim keeps_bind_Inl [OF _ temp]) (rule commit_with_index_Inl)
    qed
  qed
qed

text \<open>The runs of a commit that succeeded, in order, from the head it started on.\<close>

definition commit_script ::
  "string list \<Rightarrow> string option \<Rightarrow> string \<Rightarrow> string \<Rightarrow> string list list" where
  "commit_script staged oldHead tree new =
     [[''rev-parse'', ''--verify'', ''HEAD^{commit}''],
      [''read-tree'', case oldHead of Some h \<Rightarrow> h | None \<Rightarrow> ''--empty''],
      [''add'', ''--''] @ staged,
      [''write-tree''],
      [''commit-tree'', tree] @ (case oldHead of Some h \<Rightarrow> [''-p'', h] | None \<Rightarrow> []),
      [''update-ref'', ''HEAD'', new, case oldHead of Some h \<Rightarrow> h | None \<Rightarrow> zero_id]]"

definition commit_log :: "string \<Rightarrow> string list \<Rightarrow> string \<Rightarrow> gitcall list \<Rightarrow> bool" where
  "commit_log dir staged msg calls \<longleftrightarrow>
     (\<exists>oldHead i. length calls = 6 \<and>
        map gcArgs calls =
          commit_script staged oldHead (strings_TrimSpace (gcOut (calls ! 3))) (strings_TrimSpace (gcOut (calls ! 4))) \<and>
        oldHead = (if gcOk (calls ! 0) then Some (strings_TrimSpace (gcOut (calls ! 0))) else None) \<and>
        (\<forall>c \<in> set calls. gcDir c = dir) \<and>
        (\<forall>c \<in> set (tl calls). gcOk c \<and> gcIndex c = Some i) \<and>
        gcStdin (calls ! 4) = msg @ [CHR 0x0A])"

lemma gitHead_Inr:
  assumes "gitHead E G dir w = (Inr h, w')"
  defines "c \<equiv> last (txGitLog w')"
  shows "txGitLog w' = txGitLog w @ [c]" and "gcDir c = dir"
    and "gcArgs c = [''rev-parse'', ''--verify'', ''HEAD^{commit}'']"
    and "h = (if gcOk c then Some (strings_TrimSpace (gcOut c)) else None)"
  using assms(1) unfolding c_def
  by (auto simp: gitHead_def git_run_def iobind_def io_defs iowrap_def iocatch_def ctx_Err_def
        split: prod.splits if_splits sum.splits)

lemma commit_with_index_Inr:
  assumes "commit_with_index E G dir staged msg i w = (Inr u, w')"
  shows "\<exists>calls. txGitLog w' = txGitLog w @ calls \<and> commit_log dir staged msg calls"
proof -
  from assms obtain h w1 where h: "gitHead E G dir w = (Inr h, w1)"
    by (auto simp: commit_with_index_def res_simps)
  define c where "c = last (txGitLog w1)"
  note c = gitHead_Inr [OF h, folded c_def]
  show ?thesis
  proof (cases h)
    case None
    with assms h c(1) obtain c1 c2 c3 c4 c5 where "txGitLog w' = txGitLog w @ [c, c1, c2, c3, c4, c5]"
        "commit_log dir staged msg [c, c1, c2, c3, c4, c5]"
      using c(2-4)
      by (auto simp: commit_with_index_def res_simps git_need_Inr commit_log_def commit_script_def
            split: if_splits)
    then show ?thesis by blast
  next
    case (Some old)
    with assms h c(1) obtain c1 c2 c3 c4 c5 where "txGitLog w' = txGitLog w @ [c, c1, c2, c3, c4, c5]"
        "commit_log dir staged msg [c, c1, c2, c3, c4, c5]"
      using c(2-4)
      by (auto simp: commit_with_index_def res_simps git_need_Inr commit_log_def commit_script_def
            split: if_splits)
    then show ?thesis by blast
  qed
qed

end
