(* ===== verification/Transaction.thy ===== *)
theory Transaction
  imports GitCommit
begin

text \<open>
  The database of \<open>database.go\<close>: loading the definition, the project lock, read-only and
  read-write transactions and the record access outside a transaction. A worker is a tree
  of calls on the transaction, each continued with the reply, so a theorem over all workers
  covers every order of calls and every way a worker can react to errors. If the worker or
  the commit fails, \<open>restoreSnapshots\<close> puts back every touched file.
\<close>

text \<open>
  \<open>Database\<close>. The reader of collection definitions is a parameter: it answers from the tree
  at its tick; \<open>None\<close> is a database without one.
\<close>

record database =
  dbProjectPath :: string
  dbReader :: "(nat \<Rightarrow> fs \<Rightarrow> string \<Rightarrow> collections option res) option"
  dbStoredOnly :: bool

text \<open>What the query engine needs of the outside: printed expressions and the protected evaluator.\<close>

record engine =
  engExprString :: "expr \<Rightarrow> string"
  engCond :: condeval
  engNow :: "nat \<Rightarrow> string"

section \<open>Rollback\<close>

definition restore_one :: "osenv \<Rightarrow> string \<Rightarrow> fileSnapshot \<Rightarrow> (txworld, dberr, unit) io" where
  "restore_one E path snap =
     (if \<not> snExists snap
      then iocatch (os_Remove E path)
             (\<lambda>e. if err_is e is_not_exist then ioret ()
                  else iofail (EWrap (''remove created path '' @ path) e))
      else iobind (iowrap (''create rollback parent '' @ path) (os_MkdirAll E (path_Dir path))) (\<lambda>_.
             iowrap (''restore '' @ path) (os_WriteFile E path (snData snap) (snMode snap mod 512))))"

definition restoreSnapshots :: "osenv \<Rightarrow> fileSnapshot go_map \<Rightarrow> (txworld, dberr, unit) io" where
  "restoreSnapshots E snaps =
     ioeach (\<lambda>path. case go_get snaps path of
                       Some s \<Rightarrow> restore_one E path s
                     | None \<Rightarrow> ioret ()) (sort_Strings (go_keys snaps))"

section \<open>Workers\<close>

datatype txop =
    OpGet dalrec
  | OpExists "key option"
  | OpGetMulti "dalrec list"
  | OpQuery query
  | OpSet dalrec
  | OpSetMulti "dalrec list"
  | OpInsert dalrec
  | OpInsertMulti "dalrec list"
  | OpDelete "key option"
  | OpDeleteMulti "key option list"
  | OpUpdate "key option" "update list" nat
  | OpUpdateRecord dalrec "update list" nat
  | OpUpdateMulti "key option list" "update list" nat

datatype reply =
    RDone "dberr option"
  | RRecord "dberr option" dalrec
  | RRecords "dberr option" "dalrec list"
  | RExists "bool res"
  | RReader "sliceRecordsReader res"

datatype worker = WReturn "dberr option" | WCall txop "reply \<Rightarrow> worker"

fun exec_op :: "osenv \<Rightarrow> api \<Rightarrow> engine \<Rightarrow> txctx \<Rightarrow> txop \<Rightarrow> txworld \<Rightarrow> reply \<times> txworld" where
  "exec_op E A X tx (OpGet rec) w = (case Get E A tx rec w of ((e, r), w') \<Rightarrow> (RRecord e r, w'))"
| "exec_op E A X tx (OpExists k) w = (case Exists E A tx k w of (r, w') \<Rightarrow> (RExists r, w'))"
| "exec_op E A X tx (OpGetMulti rs) w = (case GetMulti E A tx rs w of ((e, r), w') \<Rightarrow> (RRecords e r, w'))"
| "exec_op E A X tx (OpQuery q) w =
     (case executeQueryToRecordsReader E A (engExprString X) (engCond X) tx q w of (r, w') \<Rightarrow> (RReader r, w'))"
| "exec_op E A X tx (OpSet rec) w = (case Set_tx E A tx rec w of ((e, r), w') \<Rightarrow> (RRecord e r, w'))"
| "exec_op E A X tx (OpSetMulti rs) w = (case SetMulti_tx E A tx rs w of ((e, r), w') \<Rightarrow> (RRecords e r, w'))"
| "exec_op E A X tx (OpInsert rec) w = (case Insert_tx E A tx rec w of ((e, r), w') \<Rightarrow> (RRecord e r, w'))"
| "exec_op E A X tx (OpInsertMulti rs) w =
     (case InsertMulti_tx E A tx rs w of ((e, r), w') \<Rightarrow> (RRecords e r, w'))"
| "exec_op E A X tx (OpDelete k) w = (case Delete_tx E A tx k w of (r, w') \<Rightarrow> (RDone (err_of r), w'))"
| "exec_op E A X tx (OpDeleteMulti ks) w =
     (case DeleteMulti_tx E A tx ks w of (r, w') \<Rightarrow> (RDone (err_of r), w'))"
| "exec_op E A X tx (OpUpdate k us n) w =
     (case Update_tx E A tx (engNow X) k us n w of (r, w') \<Rightarrow> (RDone (err_of r), w'))"
| "exec_op E A X tx (OpUpdateRecord rec us n) w =
     (case UpdateRecord_tx E A tx (engNow X) rec us n w of ((e, r), w') \<Rightarrow> (RRecord e r, w'))"
| "exec_op E A X tx (OpUpdateMulti ks us n) w =
     (case UpdateMulti_tx E A tx (engNow X) ks us n w of (r, w') \<Rightarrow> (RDone (err_of r), w'))"

primrec run_worker :: "osenv \<Rightarrow> api \<Rightarrow> engine \<Rightarrow> txctx \<Rightarrow> worker \<Rightarrow> txworld \<Rightarrow> dberr option \<times> txworld" where
  "run_worker E A X tx (WReturn err) = (\<lambda>w. (err, w))"
| "run_worker E A X tx (WCall op k) =
     (\<lambda>w. case exec_op E A X tx op w of (rep, w1) \<Rightarrow> run_worker E A X tx (k rep) w1)"

text \<open>A read-only transaction offers the reads only.\<close>

definition read_op :: "txop \<Rightarrow> bool" where
  "read_op op = (case op of OpGet _ \<Rightarrow> True | OpExists _ \<Rightarrow> True | OpGetMulti _ \<Rightarrow> True | OpQuery _ \<Rightarrow> True | _ \<Rightarrow> False)"

primrec read_only :: "worker \<Rightarrow> bool" where
  "read_only (WReturn err) = True"
| "read_only (WCall op k) = (read_op op \<and> (\<forall>rep. read_only (k rep)))"

section \<open>Transactions\<close>

definition loadDefinition :: "database \<Rightarrow> (txworld, dberr, collections option) io" where
  "loadDefinition db w =
     (case dbReader db of
        None \<Rightarrow> (Inl (EConfig ''no CollectionsReader configured''), w)
      | Some rd \<Rightarrow>
          (case rd (wTick w) (wFs w) (dbProjectPath db) of
             Inl e \<Rightarrow> (Inl (EWrap ''read definition'' e), w\<lparr>wTick := Suc (wTick w)\<rparr>)
           | Inr def \<Rightarrow> (Inr def, w\<lparr>wTick := Suc (wTick w)\<rparr>)))"

text \<open>The failure tail of a transaction.\<close>

definition roll_back :: "osenv \<Rightarrow> dberr \<Rightarrow> txworld \<Rightarrow> dberr option \<times> txworld" where
  "roll_back E err w =
     (case restoreSnapshots E (case txSnapshots w of Some s \<Rightarrow> s | None \<Rightarrow> []) w of
        (Inl re, w') \<Rightarrow> (Some (ERollbackFailed err re), w')
      | (Inr _, w') \<Rightarrow> (Some err, w'))"

definition runReadwriteTransaction ::
  "osenv \<Rightarrow> api \<Rightarrow> engine \<Rightarrow> gitenv \<Rightarrow> database \<Rightarrow> string \<Rightarrow> worker \<Rightarrow> txworld \<Rightarrow> dberr option \<times> txworld" where
  "runReadwriteTransaction E A X G db msg f w =
     (case loadDefinition db w of
        (Inl e, w1) \<Rightarrow> (Some e, w1)
      | (Inr def, w1) \<Rightarrow>
          (let tx = \<lparr>txStoredOnly = dbStoredOnly db, txDef = def\<rparr> in
           case run_worker E A X tx f (w1\<lparr>txWritten := Some [], txSnapshots := Some []\<rparr>) of
             (Some e, w2) \<Rightarrow> roll_back E e w2
           | (None, w2) \<Rightarrow>
               (let written = (case txWritten w2 of Some ps \<Rightarrow> ps | None \<Rightarrow> []) in
                if msg \<noteq> [] \<and> written \<noteq> [] then
                  (case gitCommitPaths E G (dbProjectPath db) written msg w2 of
                     (Inl e, w3) \<Rightarrow> roll_back E e w3
                   | (Inr _, w3) \<Rightarrow> (None, w3))
                else (None, w2))))"

definition transactionLockPath :: "osenv \<Rightarrow> gitenv \<Rightarrow> string \<Rightarrow> (txworld, dberr, string) io" where
  "transactionLockPath E G projectPath =
     iobind (git_run G projectPath None [] [''rev-parse'', ''--git-path'', ''dalgo2ingitdb/transaction.lock''])
       (\<lambda>(ok, out).
       if ok then
         (let path0 = path_Clean (strings_TrimSpace out);
              path = (if rooted path0 then path0 else filepath_Join [projectPath, path0]) in
          iobind (iowrap ''create Git transaction lock directory'' (os_MkdirAll E (path_Dir path))) (\<lambda>_.
            ioret path))
       else
         iobind (iowrap ''resolve project path for transaction lock'' (iolift (gAbs G projectPath))) (\<lambda>abs.
         iobind (iowrap ''resolve cache transaction lock directory'' (iolift (gCacheDir G))) (\<lambda>cacheDir.
           let path = filepath_Join [cacheDir, ''dalgo2ingitdb'', ''locks'', gSha256 G abs @ ''.lock''] in
           iobind (iowrap ''create cached transaction lock directory'' (os_MkdirAll E (path_Dir path))) (\<lambda>_.
             ioret path))))"

text \<open>\<open>withSharedLock\<close> and \<open>withExclusiveLock\<close> around a function that returns an error or nil.\<close>

definition as_io :: "(txworld \<Rightarrow> dberr option \<times> txworld) \<Rightarrow> (txworld, dberr, unit) io" where
  "as_io m w = (case m w of (Some e, w') \<Rightarrow> (Inl e, w') | (None, w') \<Rightarrow> (Inr (), w'))"

definition RunReadwriteTransaction ::
  "osenv \<Rightarrow> api \<Rightarrow> engine \<Rightarrow> gitenv \<Rightarrow> database \<Rightarrow> string \<Rightarrow> worker \<Rightarrow> (txworld, dberr, unit) io" where
  "RunReadwriteTransaction E A X G db msg f =
     iobind (transactionLockPath E G (dbProjectPath db)) (\<lambda>lockPath.
       withExclusiveLock E lockPath (as_io (runReadwriteTransaction E A X G db msg f)))"

definition withTransactionReadLock ::
  "osenv \<Rightarrow> gitenv \<Rightarrow> database \<Rightarrow> (txworld, dberr, 'a) io \<Rightarrow> (txworld, dberr, 'a) io" where
  "withTransactionReadLock E G db fn =
     iobind (transactionLockPath E G (dbProjectPath db)) (\<lambda>lockPath. withSharedLock E lockPath fn)"

definition RunReadonlyTransaction ::
  "osenv \<Rightarrow> api \<Rightarrow> engine \<Rightarrow> gitenv \<Rightarrow> database \<Rightarrow> worker \<Rightarrow> (txworld, dberr, unit) io" where
  "RunReadonlyTransaction E A X G db f =
     withTransactionReadLock E G db (iobind (loadDefinition db) (\<lambda>def.
       as_io (run_worker E A X \<lparr>txStoredOnly = dbStoredOnly db, txDef = def\<rparr> f)))"

text \<open>Record access outside a transaction: the project lock, the definition, one read.\<close>

definition lift_rec ::
  "(txworld \<Rightarrow> (dberr option \<times> 'a) \<times> txworld) \<Rightarrow> (txworld, dberr, dberr option \<times> 'a) io" where
  "lift_rec m w = (case m w of (r, w') \<Rightarrow> (Inr r, w'))"

definition db_Get :: "osenv \<Rightarrow> api \<Rightarrow> gitenv \<Rightarrow> database \<Rightarrow> dalrec \<Rightarrow> (txworld, dberr, dberr option \<times> dalrec) io" where
  "db_Get E A G db rec =
     withTransactionReadLock E G db (iobind (loadDefinition db) (\<lambda>def.
       lift_rec (Get E A \<lparr>txStoredOnly = dbStoredOnly db, txDef = def\<rparr> rec)))"

definition db_Exists :: "osenv \<Rightarrow> api \<Rightarrow> gitenv \<Rightarrow> database \<Rightarrow> key option \<Rightarrow> (txworld, dberr, bool) io" where
  "db_Exists E A G db key =
     withTransactionReadLock E G db (iobind (loadDefinition db) (\<lambda>def.
       Exists E A \<lparr>txStoredOnly = dbStoredOnly db, txDef = def\<rparr> key))"

definition db_GetMulti ::
  "osenv \<Rightarrow> api \<Rightarrow> gitenv \<Rightarrow> database \<Rightarrow> dalrec list \<Rightarrow> (txworld, dberr, dberr option \<times> dalrec list) io" where
  "db_GetMulti E A G db recs =
     withTransactionReadLock E G db (iobind (loadDefinition db) (\<lambda>def.
       lift_rec (GetMulti E A \<lparr>txStoredOnly = dbStoredOnly db, txDef = def\<rparr> recs)))"

definition db_ExecuteQueryToRecordsReader ::
  "osenv \<Rightarrow> api \<Rightarrow> engine \<Rightarrow> gitenv \<Rightarrow> database \<Rightarrow> query \<Rightarrow> (txworld, dberr, sliceRecordsReader) io" where
  "db_ExecuteQueryToRecordsReader E A X G db q =
     withTransactionReadLock E G db (iobind (loadDefinition db) (\<lambda>def.
       executeQueryToRecordsReader E A (engExprString X) (engCond X)
         \<lparr>txStoredOnly = dbStoredOnly db, txDef = def\<rparr> q))"

section \<open>Every worker keeps the journal\<close>

lemma exec_op_journal: "journal_kept w (snd (exec_op E A X tx op w))"
proof (cases op)
  case (OpGet r)
  then show ?thesis using same_journal [OF Get_same [of w E A tx r]] by (auto split: prod.splits)
next
  case (OpExists k)
  then show ?thesis
    using keeps_same_journal [OF Exists_same [of E A tx k]] by (auto simp: iokeeps_def split: prod.splits dest: spec [of _ w])
next
  case (OpGetMulti rs)
  then show ?thesis using same_journal [OF GetMulti_same [of w E A tx rs]] by (auto split: prod.splits)
next
  case (OpQuery q)
  then show ?thesis
    using keeps_same_journal [OF executeQueryToRecordsReader_same [of E A "engExprString X" "engCond X" tx q]]
    by (auto simp: iokeeps_def split: prod.splits dest: spec [of _ w])
next
  case (OpSet r)
  then show ?thesis using Set_tx_journal [of w E A tx r] by (auto split: prod.splits)
next
  case (OpSetMulti rs)
  then show ?thesis using SetMulti_tx_journal [of w E A tx rs] by (auto split: prod.splits)
next
  case (OpInsert r)
  then show ?thesis using Insert_tx_journal [of w E A tx r] by (auto split: prod.splits)
next
  case (OpInsertMulti rs)
  then show ?thesis using InsertMulti_tx_journal [of w E A tx rs] by (auto split: prod.splits)
next
  case (OpUpdateRecord r us n)
  then show ?thesis using UpdateRecord_tx_journal [of w E A tx "engNow X" r us n] by (auto split: prod.splits)
next
  case (OpDelete k)
  then show ?thesis using Delete_tx_journal [of E A tx k]
    by (auto simp: iokeeps_def split: prod.splits dest: spec [of _ w])
next
  case (OpDeleteMulti ks)
  then show ?thesis using multi_journal(1) [of E A tx ks]
    by (auto simp: iokeeps_def split: prod.splits dest: spec [of _ w])
next
  case (OpUpdate k us n)
  then show ?thesis using Update_tx_journal [of E A tx "engNow X" k us n]
    by (auto simp: iokeeps_def split: prod.splits dest: spec [of _ w])
next
  case (OpUpdateMulti ks us n)
  then show ?thesis using multi_journal(2) [of E A tx "engNow X" ks us n]
    by (auto simp: iokeeps_def split: prod.splits dest: spec [of _ w])
qed

lemma run_worker_journal: "journal_kept w (snd (run_worker E A X tx f w))"
proof (induction f arbitrary: w)
  case (WCall op k)
  obtain rep w1 where e: "exec_op E A X tx op w = (rep, w1)" by (cases "exec_op E A X tx op w")
  have "journal_kept w w1" using exec_op_journal [of w E A X tx op] e by simp
  moreover have "journal_kept w1 (snd (run_worker E A X tx (k rep) w1))" by (rule WCall) simp
  ultimately show ?case using e by (simp add: journaled.frame_trans)
qed (simp add: journaled.frame_refl)

section \<open>A failed transaction leaves the files as they were\<close>

lemma restore_one_frame: "iokeeps (frame_rel {path_Clean p}) (restore_one E p s)"
  unfolding restore_one_def
  by (auto intro!: touched.keeps_intros os_Remove_frame frame_wrap mkdir_keeps os_WriteFile_frame)

lemma restore_one_Inr:
  assumes "restore_one E p s w = (Inr u, w')" and "p \<noteq> []"
  shows "data_at (wFs w') (path_Clean p) = (if snExists s then Some (snData s) else None)"
proof (cases "snExists s")
  case True
  with assms(1) show ?thesis by (auto simp: restore_one_def res_simps dest!: os_WriteFile_Inr)
next
  case False
  with assms(1) consider "os_Remove E p w = (Inr u, w')"
    | e where "os_Remove E p w = (Inl e, w')" "err_is e is_not_exist"
    by (auto simp: restore_one_def iocatch_def io_defs split: prod.splits sum.splits if_splits)
  then have "go_get (wFs w') (path_Clean p) = None"
  proof cases
    case 1
    then show ?thesis by (rule os_Remove_Inr)
  next
    case 2
    then have "e = ENotExist"
      by (auto simp: os_Remove_def os_call_def Let_def lookup_node_def split: option.splits sum.splits if_splits)
    with 2 assms(2) show ?thesis by (auto dest!: os_Remove_missing)
  qed
  with False show ?thesis by (simp add: data_at_def file_at_def)
qed

lemma snap_ok_data: "snap_ok fs0 p s \<Longrightarrow> data_at fs0 p = (if snExists s then Some (snData s) else None)"
  by (simp add: snap_ok_def data_at_def)

lemma snap_ok_clean: "snap_ok fs0 p s \<Longrightarrow> path_Clean p = p \<and> p \<noteq> []"
  by (metis snap_ok_def Clean_not_empty)

text \<open>What remains to be restored shrinks with every path.\<close>

lemma restore_all:
  assumes "ioeach (\<lambda>p. case go_get snaps p of Some s \<Rightarrow> restore_one E p s | None \<Rightarrow> ioret ()) ps w = (Inr u, w')"
    and "\<forall>p s. go_get snaps p = Some s \<longrightarrow> snap_ok fs0 p s" and "\<forall>p \<in> set ps. go_get snaps p \<noteq> None"
    and "\<forall>q. q \<notin> set ps \<longrightarrow> data_at (wFs w) q = data_at fs0 q"
  shows "data_at (wFs w') q = data_at fs0 q"
  using assms(1,3,4)
proof (induction ps arbitrary: w)
  case (Cons p ps)
  then obtain s where s: "go_get snaps p = Some s" by auto
  with assms(2) have ok: "snap_ok fs0 p s" by blast
  from Cons.prems(1) s obtain w1 where r: "restore_one E p s w = (Inr (), w1)"
    and rest: "ioeach (\<lambda>p. case go_get snaps p of Some s \<Rightarrow> restore_one E p s | None \<Rightarrow> ioret ()) ps w1 = (Inr u, w')"
    by (auto simp: res_simps)
  have p1: "data_at (wFs w1) p = data_at fs0 p"
    using restore_one_Inr [OF r] snap_ok_clean [OF ok] snap_ok_data [OF ok] by simp
  have "data_at (wFs w1) q = data_at (wFs w) q" if "q \<noteq> p" for q
    using iokeepsD [OF restore_one_frame r] that snap_ok_clean [OF ok]
    by (simp add: frame_rel_def same_files_but_def data_at_def)
  with p1 Cons.prems(3) have "\<forall>q. q \<notin> set ps \<longrightarrow> data_at (wFs w1) q = data_at fs0 q"
    by (metis set_ConsD)
  with rest Cons.prems(2) show ?case by (intro Cons.IH) auto
qed (simp add: ioret_def)

lemma restoreSnapshots_journal:
  assumes "journal fs0 w" and "txSnapshots w = Some snaps" and "restoreSnapshots E snaps w = (Inr u, w')"
  shows "data_at (wFs w') q = data_at fs0 q"
proof (rule restore_all)
  show "ioeach (\<lambda>p. case go_get snaps p of Some s \<Rightarrow> restore_one E p s | None \<Rightarrow> ioret ())
      (sort_Strings (go_keys snaps)) w = (Inr u, w')"
    using assms(3) by (simp add: restoreSnapshots_def)
  show "\<forall>p s. go_get snaps p = Some s \<longrightarrow> snap_ok fs0 p s"
    using assms(1,2) by (auto simp: journal_def)
  show "\<forall>p \<in> set (sort_Strings (go_keys snaps)). go_get snaps p \<noteq> None"
    by (simp add: go_keys_def go_get_None_iff)
  show "\<forall>q. q \<notin> set (sort_Strings (go_keys snaps)) \<longrightarrow> data_at (wFs w) q = data_at fs0 q"
    using assms(1,2)
    by (auto simp: journal_def same_files_but_def data_at_def go_keys_def go_get_None_iff)
qed

lemma restoreSnapshots_frame: "iokeeps (frame_rel UNIV) (restoreSnapshots E snaps)"
proof -
  have "iokeeps (frame_rel UNIV) (restore_one E p s)" for p s
    using restore_one_frame by (rule iokeeps_mono) (auto intro: frame_rel_mono)
  then show ?thesis
    unfolding restoreSnapshots_def by (auto intro!: touched.keeps_each split: option.splits)
qed

lemma roll_back_cases:
  assumes "roll_back E e w = (r, w')" and "txSnapshots w = Some snaps"
  obtains re where "r = Some (ERollbackFailed e re)" "txGitLog w' = txGitLog w"
  | "r = Some e" "restoreSnapshots E snaps w = (Inr (), w')" "txGitLog w' = txGitLog w"
proof -
  obtain a w1 where a: "restoreSnapshots E snaps w = (a, w1)" by (cases "restoreSnapshots E snaps w")
  have "txGitLog w1 = txGitLog w"
    using iokeepsD [OF restoreSnapshots_frame a] more_eq_snapshots [of w1 w] by (simp add: frame_rel_def)
  with assms a that show thesis by (cases a) (auto simp: roll_back_def)
qed

lemma roll_back_atomic:
  assumes "roll_back E e w = (Some r, w')" and "journal fs0 w" and "\<forall>a b. r \<noteq> ERollbackFailed a b"
  shows "data_at (wFs w') q = data_at fs0 q" and "txGitLog w' = txGitLog w" and "r = e"
proof -
  from assms(2) obtain snaps where s: "txSnapshots w = Some snaps" by (auto simp: journal_def)
  from assms(1) s have "restoreSnapshots E snaps w = (Inr (), w') \<and> txGitLog w' = txGitLog w \<and> r = e"
    by (rule roll_back_cases) (use assms(3) in auto)
  with restoreSnapshots_journal [OF assms(2) s]
  show "data_at (wFs w') q = data_at fs0 q" "txGitLog w' = txGitLog w" "r = e" by auto
qed

lemma loadDefinition_same: "iokeeps same_fs (loadDefinition db)"
  by (auto simp: iokeeps_def loadDefinition_def same_fs_def split: option.splits sum.splits)

lemma loadDefinition_tree:
  assumes "loadDefinition db w = (r, w')"
  shows "wFs w' = wFs w" and "txGitLog w' = txGitLog w"
  using iokeepsD [OF loadDefinition_same assms] more_eq_snapshots [of w' w] by (auto simp: same_fs_def)

lemma unpublished_log: "txGitLog w' = txGitLog w \<Longrightarrow> unpublished w w'"
  by (simp add: unpublished_def)

lemma transaction_atomic:
  assumes run: "runReadwriteTransaction E A X G db msg f w = (Some e, w')"
    and e: "\<forall>a b. e \<noteq> ERollbackFailed a b"
  shows "data_at (wFs w') q = data_at (wFs w) q \<and> unpublished w w'"
proof -
  obtain r w1 where l: "loadDefinition db w = (r, w1)" by (cases "loadDefinition db w")
  note same = loadDefinition_tree [OF l]
  show ?thesis
  proof (cases r)
    case (Inl d)
    with run l same show ?thesis by (simp add: runReadwriteTransaction_def unpublished_log)
  next
    case (Inr def)
    let ?tx = "\<lparr>txStoredOnly = dbStoredOnly db, txDef = def\<rparr>"
    let ?w1 = "w1\<lparr>txWritten := Some [], txSnapshots := Some []\<rparr>"
    obtain err w2 where f: "run_worker E A X ?tx f ?w1 = (err, w2)" by (cases "run_worker E A X ?tx f ?w1")
    have "journal_kept ?w1 w2" using run_worker_journal [of ?w1 E A X ?tx f] f by simp
    moreover have "journal (wFs w) ?w1" by (simp add: journal_def same)
    ultimately have j: "journal (wFs w) w2" and g: "txGitLog w2 = txGitLog w"
      using same by (simp_all add: journal_kept_def)
    show ?thesis
    proof (cases err)
      case (Some d)
      with run l f Inr have "roll_back E d w2 = (Some e, w')" by (simp add: runReadwriteTransaction_def Let_def)
      from roll_back_atomic [OF this j e] g show ?thesis by (simp add: unpublished_log)
    next
      case None
      with run l f Inr obtain d w3 where
          c: "gitCommitPaths E G (dbProjectPath db) (case txWritten w2 of Some ps \<Rightarrow> ps | None \<Rightarrow> []) msg w2 = (Inl d, w3)"
        and rb: "roll_back E d w3 = (Some e, w')"
        by (auto simp: runReadwriteTransaction_def Let_def split: if_splits prod.splits sum.splits)
      have "git_only w2 w3" using gitCommitPaths_only c by (rule iokeepsD)
      with j have "journal (wFs w) w3" by (simp add: git_only_def journal_def)
      from roll_back_atomic [OF rb this e] gitCommitPaths_Inl [OF c] g show ?thesis
        by (simp add: unpublished_def)
    qed
  qed
qed

section \<open>Locks and reads of the whole database\<close>

text \<open>The file the transaction locks, if there is one.\<close>

definition lock_files :: "osenv \<Rightarrow> gitenv \<Rightarrow> database \<Rightarrow> txworld \<Rightarrow> string set" where
  "lock_files E G db w =
     (case transactionLockPath E G (dbProjectPath db) w of
        (Inr p, _) \<Rightarrow> {path_Clean p}
      | (Inl _, _) \<Rightarrow> {})"

definition data_kept :: "string set \<Rightarrow> txworld \<Rightarrow> txworld \<Rightarrow> bool" where
  "data_kept P w w' \<longleftrightarrow> (\<forall>q. q \<notin> P \<longrightarrow> data_at (wFs w') q = data_at (wFs w) q) \<and> unpublished w w'"

interpretation kept: world_frame "data_kept P" for P
  by unfold_locales (auto simp: data_kept_def publishing.frame_refl intro: publishing.frame_trans)

lemma frame_data_kept: "frame_rel P w w' \<Longrightarrow> data_kept P w w'"
  using more_eq_snapshots [of w' w]
  by (simp add: data_kept_def frame_rel_def same_files_but_def data_at_def unpublished_log)

lemma same_data_kept: "same_fs w w' \<Longrightarrow> data_kept P w w'"
  by (rule frame_data_kept) (rule same_fs_frame)

lemma git_run_kept: "hd args \<noteq> ''update-ref'' \<Longrightarrow> iokeeps (data_kept P) (git_run G dir i inp args)"
  using git_run_unpublished [of args G dir i inp] git_run_only [of G dir i inp args]
  by (simp add: iokeeps_def data_kept_def git_only_def)

lemma mkdir_kept: "iokeeps (data_kept P) (iowrap msg (os_MkdirAll E p))"
  using frame_wrap [OF mkdir_keeps] by (rule iokeeps_mono) (rule frame_data_kept)

lemma wrap_lift_kept: "iokeeps (data_kept P) (iowrap msg (iolift r))"
  by (auto simp: iowrap_def intro: kept.keeps_catch)

lemma transactionLockPath_kept: "iokeeps (data_kept P) (transactionLockPath E G d)"
  unfolding transactionLockPath_def Let_def
  by (auto intro!: kept.keeps_bind git_run_kept mkdir_kept wrap_lift_kept split: prod.splits)

lemma locked_kept:
  assumes "iokeeps (data_kept P) fn" and "path_Clean p \<in> P"
  shows "iokeeps (data_kept P) (withSharedLock E p fn)"
proof -
  have "iokeeps (data_kept P) (flock E p)"
    by (rule iokeeps_mono [OF flock_frame]) (use assms(2) in \<open>auto intro: frame_data_kept frame_rel_mono\<close>)
  then show ?thesis
    unfolding withSharedLock_def
    by (intro kept.keeps_bind kept.keeps_catch kept.keeps_ret assms(1))
qed

lemma read_lock_kept:
  assumes "\<And>P. iokeeps (data_kept P) fn"
  shows "data_kept (lock_files E G db w) w (snd (withTransactionReadLock E G db fn w))"
proof -
  obtain r w1 where t: "transactionLockPath E G (dbProjectPath db) w = (r, w1)"
    by (cases "transactionLockPath E G (dbProjectPath db) w")
  have k: "data_kept P w w1" for P using transactionLockPath_kept t by (rule iokeepsD)
  show ?thesis
  proof (cases r)
    case (Inl e)
    with t k show ?thesis by (simp add: withTransactionReadLock_def iobind_def)
  next
    case (Inr p)
    then have "data_kept (lock_files E G db w) w1 (snd (withSharedLock E p fn w1))"
      using locked_kept [OF assms, of p "lock_files E G db w" E] t by (simp add: lock_files_def iokeeps_def)
    with t Inr k [of "lock_files E G db w"] show ?thesis
      by (simp add: withTransactionReadLock_def iobind_def kept.frame_trans)
  qed
qed

lemma exec_read_op_same:
  assumes "read_op op"
  shows "same_fs w (snd (exec_op E A X tx op w))"
proof (cases op)
  case (OpGet r)
  then show ?thesis using Get_same [of w E A tx r] by (auto split: prod.splits)
next
  case (OpGetMulti rs)
  then show ?thesis using GetMulti_same [of w E A tx rs] by (auto split: prod.splits)
next
  case (OpExists k)
  then show ?thesis using Exists_same [of E A tx k]
    by (auto simp: iokeeps_def split: prod.splits dest: spec [of _ w])
next
  case (OpQuery q)
  then show ?thesis using executeQueryToRecordsReader_same [of E A "engExprString X" "engCond X" tx q]
    by (auto simp: iokeeps_def split: prod.splits dest: spec [of _ w])
qed (use assms in \<open>auto simp: read_op_def\<close>)

lemma run_read_only: "read_only f \<Longrightarrow> same_fs w (snd (run_worker E A X tx f w))"
proof (induction f arbitrary: w)
  case (WCall op k)
  obtain rep w1 where e: "exec_op E A X tx op w = (rep, w1)" by (cases "exec_op E A X tx op w")
  from WCall.prems have "same_fs w w1" using exec_read_op_same [of op w E A X tx] e by simp
  moreover have "same_fs w1 (snd (run_worker E A X tx (k rep) w1))" by (rule WCall.IH) (use WCall.prems in auto)
  ultimately show ?case using e by (simp add: untouched.frame_trans)
qed (simp add: untouched.frame_refl)

lemma same_keeps_kept: "iokeeps same_fs m \<Longrightarrow> iokeeps (data_kept P) m"
  by (erule iokeeps_mono) (rule same_data_kept)

lemma as_io_keeps: "(\<And>w. R w (snd (m w))) \<Longrightarrow> iokeeps R (as_io m)"
  by (rule iokeepsI) (auto simp: as_io_def split: prod.splits option.splits, (metis snd_conv)+)

lemma lift_rec_keeps: "(\<And>w. R w (snd (m w))) \<Longrightarrow> iokeeps R (lift_rec m)"
  by (rule iokeepsI) (auto simp: lift_rec_def split: prod.splits, metis snd_conv)

lemma RunReadonlyTransaction_kept:
  assumes "read_only f"
  shows "data_kept (lock_files E G db w) w (snd (RunReadonlyTransaction E A X G db f w))"
  unfolding RunReadonlyTransaction_def
  by (intro read_lock_kept same_keeps_kept untouched.keeps_bind loadDefinition_same as_io_keeps
        run_read_only assms)

lemma db_reads_kept:
  "data_kept (lock_files E G db w) w (snd (db_Get E A G db rec w))"
  "data_kept (lock_files E G db w) w (snd (db_Exists E A G db key w))"
  "data_kept (lock_files E G db w) w (snd (db_GetMulti E A G db recs w))"
  "data_kept (lock_files E G db w) w (snd (db_ExecuteQueryToRecordsReader E A X G db q w))"
  unfolding db_Get_def db_Exists_def db_GetMulti_def db_ExecuteQueryToRecordsReader_def
  by (intro read_lock_kept same_keeps_kept untouched.keeps_bind loadDefinition_same lift_rec_keeps
        Get_same Exists_same GetMulti_same executeQueryToRecordsReader_same)+

text \<open>The locked transaction: everything but the lock file is as before when it fails.\<close>

lemma RunReadwriteTransaction_atomic:
  assumes run: "RunReadwriteTransaction E A X G db msg f w = (Inl e, w')"
    and e: "\<forall>a b. e \<noteq> ERollbackFailed a b"
  shows "data_kept (lock_files E G db w) w w'"
proof -
  obtain r w1 where t: "transactionLockPath E G (dbProjectPath db) w = (r, w1)"
    by (cases "transactionLockPath E G (dbProjectPath db) w")
  have k: "data_kept P w w1" for P using transactionLockPath_kept t by (rule iokeepsD)
  show ?thesis
  proof (cases r)
    case (Inl d)
    with run t k show ?thesis by (simp add: RunReadwriteTransaction_def iobind_def)
  next
    case (Inr p)
    obtain q w2 where l: "flock E p w1 = (q, w2)" by (cases "flock E p w1")
    have "data_kept {path_Clean p} w1 w2"
      using iokeepsD [OF flock_frame l] by (rule frame_data_kept)
    with k have k2: "data_kept {path_Clean p} w w2" by (rule kept.frame_trans)
    show ?thesis
    proof (cases q)
      case (Inl d)
      with run t \<open>r = Inr p\<close> l k2 show ?thesis
        by (auto simp: RunReadwriteTransaction_def withExclusiveLock_def iobind_def iocatch_def iofail_def lock_files_def)
    next
      case (Inr u)
      with run t \<open>r = Inr p\<close> l have "runReadwriteTransaction E A X G db msg f w2 = (Some e, w')"
        by (auto simp: RunReadwriteTransaction_def withExclusiveLock_def iobind_def iocatch_def as_io_def
              split: prod.splits option.splits)
      from transaction_atomic [OF this e] have "data_kept {path_Clean p} w2 w'" by (simp add: data_kept_def)
      with k2 have "data_kept {path_Clean p} w w'" by (rule kept.frame_trans)
      with t \<open>r = Inr p\<close> show ?thesis by (simp add: lock_files_def)
    qed
  qed
qed

end
