(* ===== verification/Sample.thy ===== *)
theory Sample
  imports Transaction
begin

text \<open>
  A concrete instance of the outside world, for evaluating the model: one text field per
  record file, an environment without failures, a Git that answers, and a small project
  with two collections, \<open>teams\<close> and \<open>people\<close>, where \<open>people.team\<close> refers to \<open>teams\<close>.
\<close>

definition sample_parse :: "string \<Rightarrow> coldef \<Rightarrow> row res" where
  "sample_parse c cd = Inr [(''team'', VStr c)]"

definition sample_encode :: "row \<Rightarrow> coldef \<Rightarrow> string res" where
  "sample_encode data cd =
     (case go_get data ''team'' of Some (VStr s) \<Rightarrow> Inr s | _ \<Rightarrow> Inl (EExternal ''encode''))"

definition sample_elements :: "val \<Rightarrow> string list \<times> string list" where
  "sample_elements v =
     (case v of VStr s \<Rightarrow> if s = [] then ([], []) else ([s], []) | VNil \<Rightarrow> ([], []) | _ \<Rightarrow> ([], [''type'']))"

definition sample_to_map :: "val \<Rightarrow> row res" where
  "sample_to_map v = (case v of VMap m \<Rightarrow> Inr m | _ \<Rightarrow> Inl (EExternal ''DataToMap''))"

definition sample_api :: api where
  "sample_api =
     \<lparr>GOOS = ''linux'', FmtFloat = (\<lambda>_ _. ''0''), Int64OutOfRange = (\<lambda>_. 0),
      RecordsBasePath = (\<lambda>_. []), IsExcluded = (\<lambda>_ _. False),
      ParseRecordContentForCollection = sample_parse, EncodeRecordContentForCollection = sample_encode,
      ParseMapOfRecordsContent = (\<lambda>_ _. Inr []),
      EncodeMapOfRecordsContent = (\<lambda>_ _ _ _. Inl (EExternal ''map'')),
      ParseListOfRecordsContent = (\<lambda>_ _. Inr []), ResolveListRecordKey = (\<lambda>_ _. None),
      ApplyLocaleToRead = (\<lambda>r _. r), ApplyLocaleToWrite = (\<lambda>r _. r),
      EvaluateFormula = (\<lambda>f r. Inr (case go_get r f of Some v \<Rightarrow> v | None \<Rightarrow> VNil)),
      ForeignKeyElements = sample_elements, ValidateCollectionID = (\<lambda>_. Inr ()),
      DataToMap = sample_to_map, DataToMapShares = (\<lambda>_. True),
      MapToData = (\<lambda>_ r. Inr (VMap r)), IsNullValue = (\<lambda>v. v = VNil)\<rparr>"

definition sample_env :: osenv where
  "sample_env = \<lparr>osFault = (\<lambda>_. None), osTorn = (\<lambda>_. None), osCancelled = (\<lambda>_. False),
                 osUmask = (\<lambda>m. m), osLockPerm = 384\<rparr>"

definition sample_file :: recfile where
  "sample_file = \<lparr>rfName = ''{key}.txt'', rfRecordType = SingleRecord, rfFormat = OtherRecordFormat ''txt'', rfCSVCellEncoding = []\<rparr>"

definition teams :: coldef where
  "teams = CollectionDef ''teams'' ''/db/teams'' (Some sample_file)
     [(''team'', Some \<lparr>cType = ColumnTypeString, cRequired = False, cForeignKey = [], cFormula = []\<rparr>)]
     [''team''] [] None []"

definition people :: coldef where
  "people = CollectionDef ''people'' ''/db/people'' (Some sample_file)
     [(''team'', Some \<lparr>cType = ColumnTypeString, cRequired = False, cForeignKey = ''teams'', cFormula = []\<rparr>),
      (''label'', Some \<lparr>cType = ColumnTypeString, cRequired = False, cForeignKey = [], cFormula = ''team''\<rparr>)]
     [''team'', ''label''] [] None []"

definition sample_cols :: collections where
  "sample_cols = [(''teams'', teams), (''people'', people)]"

definition sample_fs :: fs where
  "sample_fs =
     [(''/'', NDir), (''/db'', NDir), (''/db/teams'', NDir), (''/db/teams/red.txt'', NFile 420 ''r''),
      (''/db/people'', NDir), (''/db/people/ann.txt'', NFile 420 ''red'')]"

definition sample_world :: txworld where
  "sample_world = \<lparr>wFs = sample_fs, wTick = 0, txSnapshots = Some [], txWritten = Some [], txGitLog = []\<rparr>"

definition sample_tx :: txctx where
  "sample_tx = \<lparr>txStoredOnly = False, txDef = Some sample_cols\<rparr>"

definition sample_key :: "string \<Rightarrow> string \<Rightarrow> key option" where
  "sample_key c i = Some (Key c (VStr i) None)"

definition sample_rec :: "string \<Rightarrow> string \<Rightarrow> string \<Rightarrow> dalrec" where
  "sample_rec c i team = \<lparr>rKey = sample_key c i, rData = VMap [(''team'', VStr team)], rErr = None\<rparr>"

definition sample_git :: gitenv where
  "sample_git =
     \<lparr>gRun = (\<lambda>n dir i inp args.
         if args = [''rev-parse'', ''--git-path'', ''dalgo2ingitdb/transaction.lock'']
         then (True, ''/git/lock'') else (True, ''c0ffee'')),
      gTempFile = (\<lambda>_. Inr ''/tmp/index''), gAbs = Inr, gCacheDir = Inr ''/cache'', gSha256 = (\<lambda>_. ''00'')\<rparr>"

definition sample_db :: database where
  "sample_db = \<lparr>dbProjectPath = ''/db'', dbReader = Some (\<lambda>_ _ _. Inr (Some sample_cols)), dbStoredOnly = False\<rparr>"

definition sample_engine :: engine where
  "sample_engine =
     \<lparr>engExprString = (\<lambda>_. ''expr''),
      engCond = \<lparr>Validate = (\<lambda>_. Inr ([], [])), Match = (\<lambda>_ _. Inr True), ToMap = Inr\<rparr>,
      engNow = (\<lambda>_. ''2026-01-01T00:00:00Z'')\<rparr>"

text \<open>Two writes, the second one on a dangling reference, and the worker gives up.\<close>

definition sample_worker :: worker where
  "sample_worker =
     WCall (OpSet (sample_rec ''people'' ''bob'' ''red'')) (\<lambda>_.
     WCall (OpSet (sample_rec ''people'' ''cy'' ''blue'')) (\<lambda>rep.
       WReturn (case rep of RRecord e r \<Rightarrow> e | _ \<Rightarrow> None)))"

lemmas sample_defs = sample_api_def sample_env_def sample_file_def teams_def people_def sample_cols_def
  sample_fs_def sample_world_def sample_tx_def sample_key_def sample_rec_def sample_git_def sample_db_def
  sample_engine_def sample_worker_def

end
