(* ===== verification/KeyProperties.thy ===== *)
theory KeyProperties
  imports Sample
begin

text \<open>
  What the adapter promises about record keys, paths, collections and columns. The lemmas
  are those of the component theories; each property is followed by an instance.
\<close>

text \<open>
  C11. Every key that passes the path-segment check is stored under a file name without
  separators from which the key is recovered exactly.
\<close>

theorem key_file_name_round_trip:
  assumes "validateRecordPathSegment A k = Inr u"
  shows "recordKeyFromFileName (recordKeyToFileName k) = k \<and>
         CHR ''/'' \<notin> set (recordKeyToFileName k) \<and> CHR 0x5C \<notin> set (recordKeyToFileName k)"
  using validateRecordPathSegment_segment_key [OF assms]
  by (simp add: segment_key_def FromFileName_ToFileName ToFileName_no_separator)

theorem key_file_name_round_trip_witness:
  "recordKeyToFileName (''a/b'' @ [CHR 0x5C]) = ''a%2Fb%5C'' \<and>
   recordKeyFromFileName ''a%2Fb%5C'' = ''a/b'' @ [CHR 0x5C]"
proof -
  have "validateRecordPathSegment sample_api (''a/b'' @ [CHR 0x5C]) = Inr ()" by code_simp
  from key_file_name_round_trip [OF this]
  have "recordKeyFromFileName (recordKeyToFileName (''a/b'' @ [CHR 0x5C])) = ''a/b'' @ [CHR 0x5C]" by blast
  moreover have "recordKeyToFileName (''a/b'' @ [CHR 0x5C]) = ''a%2Fb%5C''" by code_simp
  ultimately show ?thesis by (metis (no_types))
qed

text \<open>
  C10. A record key accepted for a collection whose file name has a key placeholder resolves
  to a path strictly inside the directory of the collection, whatever the key contains.
\<close>

theorem record_path_contained:
  assumes "validateRecordFileKey A cd rf k = Inr u" and "strings_Contains (rfName rf) ''{key}''"
  shows "strictly_inside (cdDirPath cd) (resolveRecordPath A cd rf k)"
  using assms by (auto simp: validateRecordFileKey_def requireContainedPath_iff res_simps)

theorem record_path_contained_witness:
  "strictly_inside ''/db/people'' (resolveRecordPath sample_api people sample_file ''../../etc/passwd'')"
proof -
  have "validateRecordFileKey sample_api people sample_file ''../../etc/passwd'' = Inr ()"
      "strings_Contains (rfName sample_file) ''{key}''" "cdDirPath people = ''/db/people''"
    by code_simp+
  then show ?thesis using record_path_contained by metis
qed

text \<open>
  A root collection with a nested one.
\<close>

definition nested_cols :: collections where
  "nested_cols =
     [(''spaces'', CollectionDef ''spaces'' ''/db/spaces'' (Some sample_file) [] []
        [(''contacts'', CollectionDef ''contacts'' ''/db/spaces/contacts'' (Some sample_file) [] [] [] None [])] None [])]"

lemma nested_cols_ok: "nestable nested_cols" "separate_roots nested_cols"
  by (auto simp: nestable_def separate_roots_def nested_cols_def plain_seg_def split: if_splits)

text \<open>
  C9. In a project whose root collections are not inside one another and whose record files
  have a key placeholder and sit at one level of their collections, every record has a file of
  its own: two keys, of whatever collections and nesting depths, that resolve to the same
  path have the same chain of collections and record IDs.
\<close>

theorem record_locations_distinct:
  assumes "keyed_project A cols"
    and "resolveCollection A (Some cols) (Some j) = Inr (x, rf, r)"
    and "resolveCollection A (Some cols) (Some k) = Inr (y, rf', s)"
    and "resolveRecordPath A x rf r = resolveRecordPath A y rf' s"
  shows "key_steps A j = key_steps A k"
  using assms by (rule record_location_inject)

theorem record_locations_distinct_witness:
  "case (resolveCollection sample_api (Some nested_cols) (Some (Key ''contacts'' (VStr ''ann'') (Some (Key ''spaces'' (VStr ''a'') None)))),
         resolveCollection sample_api (Some nested_cols) (Some (Key ''spaces'' (VStr ''ann'') None))) of
     (Inr (x, rf, r), Inr (y, rf', s)) \<Rightarrow> resolveRecordPath sample_api x rf r \<noteq> resolveRecordPath sample_api y rf' s
   | _ \<Rightarrow> False"
proof -
  let ?j = "Key ''contacts'' (VStr ''ann'') (Some (Key ''spaces'' (VStr ''a'') None))"
  let ?k = "Key ''spaces'' (VStr ''ann'') None"
  let ?r = "resolveCollection sample_api (Some nested_cols)"
  have "files_at sample_api 1 (snd (hd nested_cols))" by code_simp
  then have "\<forall>c rootDef. go_get nested_cols c = Some rootDef \<longrightarrow> files_at sample_api 1 rootDef"
    by (auto simp: nested_cols_def split: if_splits)
  then have p: "keyed_project sample_api nested_cols" using nested_cols_ok by (auto simp: keyed_project_def)
  have "\<not> isl (?r (Some ?j))" "\<not> isl (?r (Some ?k))" by code_simp+
  then obtain x rf r y rf' s where r: "?r (Some ?j) = Inr (x, rf, r)" "?r (Some ?k) = Inr (y, rf', s)"
    by (metis sum.collapse(2) prod.collapse)
  have "key_steps sample_api ?j \<noteq> key_steps sample_api ?k" by code_simp
  with record_locations_distinct [OF p r] r show ?thesis by auto
qed

text \<open>
  Nested collections of different parents never share a directory: if two parent chains
  resolve the same directory, the collection and every step of the chain are the same.
\<close>

lemma nested_directories_distinct:
  assumes "nestable cols" and "separate_roots cols"
    and "resolveScopedCollection A (Some cols) c (Some p) = Inr x"
    and "resolveScopedCollection A (Some cols) d (Some q) = Inr y"
    and "cdDirPath x = cdDirPath y"
  shows "c = d \<and> key_steps A p = key_steps A q"
  using assms by (rule scoped_directories_differ)

text \<open>
  The key a scan reads back from a record file name is the key the file was written
  for, for every template with one placeholder.
\<close>

lemma listed_key_round_trip:
  assumes "one_key_template t" and "validateRecordPathSegment A k = Inr u"
  shows "buildKeyExtractor t (strings_ReplaceAll t ''{key}'' (recordKeyToFileName k)) = k"
  using validateRecordPathSegment_segment_key [OF assms(2)]
  by (intro buildKeyExtractor_expanded assms(1)) (auto simp: segment_key_def)

text \<open>
  \<open>CollectionForKey\<close> picks the collection with the longest identifier that is a proper
  path prefix of the record ID, in whatever order the definition map is walked, and fails
  exactly when there is none or no key is left.
\<close>

lemma collection_for_key_longest:
  assumes "wf_map collections" and "ValidateCollectionID A (fst (strings_Cut rid slash)) = Inr ()"
  shows "CollectionForKey A collections rid = Inr (cd, k) \<longleftrightarrow>
     k \<noteq> [] \<and> (\<exists>c. go_get collections c = Some cd \<and> c \<noteq> [] \<and> rid = c @ slash # k \<and>
       (\<forall>d. go_get collections d \<noteq> None \<longrightarrow> matching rid d \<longrightarrow> length d \<le> length c))"
  using assms by (rule CollectionForKey_iff)

end
