(* ===== verification/StoreProperties.thy ===== *)
theory StoreProperties
  imports Sample
begin

text \<open>
  What the adapter promises about stored records: writing, reading back, inserting,
  deleting, listing, referential integrity and field updates.
\<close>

text \<open>
  C3. A successful \<open>Set\<close> is visible: in an environment without failures the next \<open>Get\<close> of
  the same key succeeds and returns the row that was written, as the codec of the collection
  gives it back and with the computed columns added.
\<close>

theorem write_then_get:
  assumes "set_record E A tx key d w = (Inr u, w')"
    and "resolveCollection A (txDef tx) key = Inr (cd, rf, k)" and "DataToMap A d = Inr data"
    and "row_codec A cd rf data out" and "quiet E'" and "applyDerivedValues A tx out cd k = Inr row"
    and "MapToData A (rData rec) row = Inr target" and "rKey rec = key"
  shows "\<exists>w''. Get E' A tx rec w' = ((None, rec\<lparr>rErr := None, rData := target\<rparr>), w'')"
  using assms by (rule set_then_get)

lemma sample_quiet: "quiet sample_env"
  by (simp add: quiet_def sample_env_def)

lemma sample_codec: "row_codec sample_api people sample_file [(''team'', VStr s)] [(''team'', VStr s)]"
  by (simp add: row_codec_def sample_file_def sample_api_def sample_encode_def sample_parse_def)

theorem write_then_get_witness:
  "fst (Get sample_env sample_api sample_tx (sample_rec ''people'' ''bob'' ''x'')
          (snd (set_record sample_env sample_api sample_tx (sample_key ''people'' ''bob'')
                 (VMap [(''team'', VStr ''red'')]) sample_world)))
   = (None, \<lparr>rKey = sample_key ''people'' ''bob'',
             rData = VMap [(''team'', VStr ''red''), (''label'', VStr ''red'')], rErr = None\<rparr>)"
proof -
  let ?s = "set_record sample_env sample_api sample_tx (sample_key ''people'' ''bob'') (VMap [(''team'', VStr ''red'')]) sample_world"
  let ?rec = "sample_rec ''people'' ''bob'' ''x''"
  have "fst ?s = Inr ()" by code_simp
  then have s: "?s = (Inr (), snd ?s)" by (metis prod.collapse)
  have "resolveCollection sample_api (txDef sample_tx) (sample_key ''people'' ''bob'') = Inr (people, sample_file, ''bob'')"
      "DataToMap sample_api (VMap [(''team'', VStr ''red'')]) = Inr [(''team'', VStr ''red'')]"
      "applyDerivedValues sample_api sample_tx [(''team'', VStr ''red'')] people ''bob'' =
         Inr [(''team'', VStr ''red''), (''label'', VStr ''red'')]"
      "MapToData sample_api (rData ?rec) [(''team'', VStr ''red''), (''label'', VStr ''red'')] =
         Inr (VMap [(''team'', VStr ''red''), (''label'', VStr ''red'')])"
      "rKey ?rec = sample_key ''people'' ''bob''"
    by code_simp+
  from write_then_get [OF s this(1,2) sample_codec sample_quiet this(3-5)] show ?thesis
    by (auto simp: sample_rec_def)
qed

text \<open>
  C4. Referential integrity on write: when \<open>Set\<close> succeeds, every element of every stored
  foreign key of the written row names a record that is present, and a required foreign key
  is not empty.
\<close>

theorem written_references_exist:
  assumes run: "set_record E A tx key d w = (Inr u, w')"
    and r: "resolveCollection A (txDef tx) key = Inr (cd, rf, k)" and d: "DataToMap A d = Inr data"
    and def: "txDef tx = Some cols" and f: "f \<in> set (orderedForeignKeyFields cd)"
    and col: "column_of cd f = Some c" and els: "ForeignKeyElements A (field data f) = (keys, errs)"
  shows "errs = [] \<and> (keys = [] \<longrightarrow> \<not> cRequired c) \<and>
         (\<forall>pk \<in> set keys. \<exists>pd rf. go_get cols (cForeignKey c) = Some pd \<and> cdRecordFile pd = Some rf \<and>
            record_present A (wFs w) pd rf pk)"
proof -
  from run obtain cd' rf' k' data' w1 where
      p: "prepare_write E A tx ''Set'' key d w = (Inr (cd', rf', k', data'), w1)"
    by (auto simp: set_record_def res_simps split: prod.splits)
  note q = prepare_write_Inr [OF p]
  with r d have eq: "cd' = cd" "data' = data" by simp_all
  with q(4) obtain w2 where
    v: "validateWriteForeignKeys E A tx ''Set'' (case key of None \<Rightarrow> [] | Some k \<Rightarrow> kCollection k) cd data w = (Inr (), w2)"
    by blast
  from validateWriteForeignKeys_each [OF v def f] obtain w3 w4 where
      "same_fs w w3" "check_stored_fk E A cols ''Set'' (case key of None \<Rightarrow> [] | Some k \<Rightarrow> kCollection k) cd data f w3 = (Inr (), w4)"
    by blast
  from check_stored_fk_Inr [OF this(2) col els] this(1) show ?thesis by (simp add: same_fs_def)
qed

theorem written_references_exist_witness:
  "\<exists>pd rf. go_get sample_cols ''teams'' = Some pd \<and> cdRecordFile pd = Some rf \<and>
     record_present sample_api sample_fs pd rf ''red''"
proof -
  let ?s = "set_record sample_env sample_api sample_tx (sample_key ''people'' ''bob'') (VMap [(''team'', VStr ''red'')]) sample_world"
  have "fst ?s = Inr ()" by code_simp
  then have s: "?s = (Inr (), snd ?s)" by (metis prod.collapse)
  have "resolveCollection sample_api (txDef sample_tx) (sample_key ''people'' ''bob'') = Inr (people, sample_file, ''bob'')"
      "DataToMap sample_api (VMap [(''team'', VStr ''red'')]) = Inr [(''team'', VStr ''red'')]"
      "txDef sample_tx = Some sample_cols" "''team'' \<in> set (orderedForeignKeyFields people)"
      "column_of people ''team'' = Some \<lparr>cType = ColumnTypeString, cRequired = False, cForeignKey = ''teams'', cFormula = []\<rparr>"
      "ForeignKeyElements sample_api (field [(''team'', VStr ''red'')] ''team'') = ([''red''], [])"
    by code_simp+
  from written_references_exist [OF s this] show ?thesis by (simp add: sample_world_def)
qed

text \<open>
  C5. Referential integrity on delete: when the checks of \<open>Delete\<close> pass in an environment
  without I/O faults, no record file of any single-record root collection refers to the
  deleted key through a stored foreign key.
\<close>

theorem deleted_key_unreferenced:
  assumes "\<And>n. osFault E n = None"
    and "validateDeleteForeignKeys E A tx pc pk w = (Inr u, w')" and "txDef tx = Some cols"
    and "go_get cols child = Some cd" and "cdRecordFile cd = Some rf" and "rfRecordType rf = SingleRecord"
    and "wf_map (cdColumns cd)" and "f \<in> set (foreignKeyFieldsReferencing cd pc)"
    and "scan_ok A cd rf pre suf" and "segment_key k"
    and "lookup_node (wFs w) (resolveRecordPath A cd rf k) = Inr (NFile m c)"
    and "\<not> IsExcluded A rf (pre @ recordKeyToFileName k @ suf)"
  shows "\<exists>d. ParseRecordContentForCollection A c cd = Inr d \<and>
           pk \<notin> set (fst (ForeignKeyElements A (field (ApplyLocaleToRead A d (cdColumns cd)) f)))"
  using assms by (rule delete_leaves_no_reference)

lemma sample_scan: "scan_ok sample_api people sample_file [] ''.txt''"
proof -
  have "csegs (filepath_Join [cdDirPath people, RecordsBasePath sample_api sample_file]) = [''db'', ''people'']"
    by code_simp
  moreover have "strings_Index (rfName sample_file) ''{key}'' = Some 0" "\<not> strings_Contains ''.txt'' ''{key}''"
      "slash \<notin> set (rfName sample_file)" "CHR 0x00 \<notin> set (rfName sample_file)" "\<not> has_meta []" "\<not> has_meta ''.txt''"
      "climb_free sample_api sample_file" "cdDirPath people \<noteq> []" "rfName sample_file = [] @ ''{key}'' @ ''.txt''"
      "\<not> has_meta ''db''" "\<not> has_meta ''people''"
    by code_simp+
  ultimately show ?thesis by (simp add: scan_ok_def)
qed

lemma sample_ann:
  "segment_key ''ann''"
  "lookup_node sample_fs (resolveRecordPath sample_api people sample_file ''ann'') = Inr (NFile 420 ''red'')"
  "\<not> IsExcluded sample_api sample_file ([] @ recordKeyToFileName ''ann'' @ ''.txt'')"
  by code_simp+

theorem deleted_key_unreferenced_witness:
  "\<exists>d. ParseRecordContentForCollection sample_api ''red'' people = Inr d \<and>
     ''blue'' \<notin> set (fst (ForeignKeyElements sample_api (field (ApplyLocaleToRead sample_api d (cdColumns people)) ''team'')))"
proof -
  let ?v = "validateDeleteForeignKeys sample_env sample_api sample_tx ''teams'' ''blue'' sample_world"
  have "fst ?v = Inr ()" by code_simp
  then have v: "?v = (Inr (), snd ?v)" by (metis prod.collapse)
  have ok: "txDef sample_tx = Some sample_cols" "go_get sample_cols ''people'' = Some people"
      "cdRecordFile people = Some sample_file" "rfRecordType sample_file = SingleRecord" "wf_map (cdColumns people)"
      "''team'' \<in> set (foreignKeyFieldsReferencing people ''teams'')"
    by code_simp+
  have quiet: "osFault sample_env n = None" for n by (simp add: sample_env_def)
  have there: "lookup_node (wFs sample_world) (resolveRecordPath sample_api people sample_file ''ann'') = Inr (NFile 420 ''red'')"
    using sample_ann(2) by (simp add: sample_world_def)
  show ?thesis
    by (rule deleted_key_unreferenced [OF quiet v ok sample_scan sample_ann(1) there sample_ann(3)])
qed

text \<open>
  C6. \<open>Insert\<close> never overwrites: over a record that is present it fails and leaves every
  file as it was, whatever calls fail in between.
\<close>

theorem insert_never_overwrites:
  assumes "resolveCollection A (txDef tx) key = Inr (cd, rf, k)" and "record_present A (wFs w) cd rf k"
    and "insert_record E A tx key d w = (r, w')"
  shows "(\<exists>e. r = Inl e) \<and> wFs w' = wFs w"
  using assms by (rule insert_record_present)

theorem insert_never_overwrites_witness:
  "wFs (snd (insert_record sample_env sample_api sample_tx (sample_key ''people'' ''ann'')
              (VMap [(''team'', VStr ''red'')]) sample_world)) = sample_fs"
proof -
  let ?i = "insert_record sample_env sample_api sample_tx (sample_key ''people'' ''ann'') (VMap [(''team'', VStr ''red'')]) sample_world"
  have r: "resolveCollection sample_api (txDef sample_tx) (sample_key ''people'' ''ann'') = Inr (people, sample_file, ''ann'')"
    and v: "validateRecordFileKey sample_api people sample_file ''ann'' = Inr ()" "rfRecordType sample_file = SingleRecord"
    by code_simp+
  have p: "record_present sample_api (wFs sample_world) people sample_file ''ann''"
    using sample_ann(2) v by (simp add: record_present_def sample_world_def)
  have "?i = (fst ?i, snd ?i)" by simp
  from insert_never_overwrites [OF r p this] show ?thesis by (simp add: sample_world_def)
qed

text \<open>
  C7. A \<open>Delete\<close> that reports success leaves no record under the key, also when there was
  none; for map files this needs a codec that keeps the set of keys.
\<close>

theorem delete_removes:
  assumes "Delete_tx E A tx key w = (Inr u, w')"
    and "resolveCollection A (txDef tx) key = Inr (cd, rf, k)"
    and "rfRecordType rf = MapOfRecords \<longrightarrow> map_codec A cd rf"
    and "resolveRecordPath A cd rf k \<noteq> []"
  shows "\<not> record_present A (wFs w') cd rf k"
  using assms by (rule Delete_tx_gone)

theorem delete_removes_witness:
  "\<not> record_present sample_api (wFs (snd (Delete_tx sample_env sample_api sample_tx (sample_key ''people'' ''ann'') sample_world)))
       people sample_file ''ann''"
proof -
  let ?d = "Delete_tx sample_env sample_api sample_tx (sample_key ''people'' ''ann'') sample_world"
  have "fst ?d = Inr ()" by code_simp
  then have d: "?d = (Inr (), snd ?d)" by (metis prod.collapse)
  have "resolveCollection sample_api (txDef sample_tx) (sample_key ''people'' ''ann'') = Inr (people, sample_file, ''ann'')"
      "rfRecordType sample_file \<noteq> MapOfRecords" "resolveRecordPath sample_api people sample_file ''ann'' \<noteq> []"
    by code_simp+
  with delete_removes [OF d] show ?thesis by blast
qed

text \<open>
  C8. A write leaves the other records alone: a \<open>Set\<close>, \<open>Insert\<close> or \<open>Delete\<close> of one key, even
  one that fails halfway, changes no file but the one its own key resolves to; a key that
  does not resolve changes nothing.
\<close>

theorem write_touches_own_file:
  "only_record_file A tx key w (snd (set_record E A tx key d w)) \<and>
   only_record_file A tx key w (snd (insert_record E A tx key d w)) \<and>
   only_record_file A tx key w (snd (Delete_tx E A tx key w))"
  using set_record_frame insert_record_frame Delete_tx_frame by blast

text \<open>
  C12. A scan that succeeds without an I/O fault on its listing returns every stored record:
  each reachable record file appears under its own key with its parsed row.
\<close>

theorem scan_finds_every_record:
  assumes "scan_ok A cd rf pre suf" and "readAllSingleStored E A cd rf w = (Inr items, w')"
    and "osFault E (wTick w) = None" and "segment_key k"
    and "go_get (wFs w) (resolveRecordPath A cd rf k) = Some n"
    and "\<not> IsExcluded A rf (pre @ recordKeyToFileName k @ suf)"
    and "\<not> blocked (wFs w) (resolveRecordPath A cd rf k)"
  shows "\<exists>m c d. n = NFile m c \<and> ParseRecordContentForCollection A c cd = Inr d \<and>
           \<lparr>ksKey = k, ksStored = ApplyLocaleToRead A d (cdColumns cd)\<rparr> \<in> set items"
  using assms by (rule readAllSingleStored_complete)

theorem scan_finds_every_record_witness:
  "\<exists>items. fst (readAllSingleStored sample_env sample_api people sample_file sample_world) = Inr items \<and>
     \<lparr>ksKey = ''ann'', ksStored = [(''team'', VStr ''red'')]\<rparr> \<in> set items"
proof -
  let ?r = "readAllSingleStored sample_env sample_api people sample_file sample_world"
  have "fst ?r = Inr [\<lparr>ksKey = ''ann'', ksStored = [(''team'', VStr ''red'')]\<rparr>]" by code_simp
  then have r: "?r = (Inr [\<lparr>ksKey = ''ann'', ksStored = [(''team'', VStr ''red'')]\<rparr>], snd ?r)"
    by (metis prod.collapse)
  have "osFault sample_env (wTick sample_world) = None" by (simp add: sample_env_def)
  moreover have "go_get (wFs sample_world) (resolveRecordPath sample_api people sample_file ''ann'') = Some (NFile 420 ''red'')"
      "\<not> blocked (wFs sample_world) (resolveRecordPath sample_api people sample_file ''ann'')"
    by code_simp+
  ultimately have "\<exists>m c d. NFile 420 ''red'' = NFile m c \<and> ParseRecordContentForCollection sample_api c people = Inr d \<and>
      \<lparr>ksKey = ''ann'', ksStored = ApplyLocaleToRead sample_api d (cdColumns people)\<rparr>
        \<in> set [\<lparr>ksKey = ''ann'', ksStored = [(''team'', VStr ''red'')]\<rparr>]"
    using scan_finds_every_record [OF sample_scan r _ sample_ann(1) _ sample_ann(3)] by blast
  with r show ?thesis by (metis fst_conv list.set_intros(1))
qed

text \<open>
  A field update by path: setting a value makes exactly that path read as the value and
  leaves every path that diverges from it as it was.
\<close>

lemma update_sets_path:
  assumes "applyFieldUpdate A now m p (UValue v) = (None, m')"
  shows "path_get m' p = Some v \<and> (\<forall>q. apart p q \<longrightarrow> path_get m' q = path_get m q)"
proof -
  from assms have a: "at_leaf (set_leaf v) 0 m p = (None, m')" by (simp add: applyFieldUpdate_def)
  show ?thesis using set_path_get [OF a] at_leaf_apart [OF a set_leaf_local] by blast
qed

text \<open>
  Deleting a field by path makes the path unreadable, is a no-op on what diverges from
  it, and never fails.
\<close>

lemma update_deletes_path:
  "\<exists>m'. applyFieldUpdate A now m p UDeleteField = (None, m') \<and> path_get m' p = None \<and>
     (\<forall>q. apart p q \<longrightarrow> path_get m' q = path_get m q)"
  using delete_path_get delete_path_apart by (auto simp: applyFieldUpdate_def)

text \<open>
  Incrementing an integer field is exact while the operands and the sum stay below
  \<open>2 ^ 53\<close> in magnitude, and leaves the other fields as they were; a missing field counts as
  zero.
\<close>

lemma increment_below_2_53:
  assumes "\<bar>cur\<bar> < 2 ^ 53" and "\<bar>d\<bar> < 2 ^ 53" and "\<bar>cur + d\<bar> < 2 ^ 53"
    and "go_get m leaf = Some (VNum k cur) \<or> (go_get m leaf = None \<and> cur = 0)"
  shows "applyFieldUpdate A now m [leaf] (UTransform ''increment'' (VNum j d)) =
           (None, go_set leaf (VNum KInt64 (cur + d)) m)"
  using assms increment_exact [of m leaf k cur d A j] increment_missing [of m leaf d A j]
  by (auto simp: applyFieldUpdate_def applyIncrement_def)

end
