(* ===== verification/QueryProperties.thy ===== *)
theory QueryProperties
  imports Sample
begin

text \<open>
  What the adapter promises about reads and queries: computed columns, filters, order,
  groups, aggregates, paging and the readers.
\<close>

text \<open>
  Computed columns on read: a field of the returned row is the coerced value of its
  formula when the column has one, and the stored field otherwise.
\<close>

lemma formulas_on_read:
  assumes "wf_map cols" and "ApplyFormulasToRead A data cols cid key = Inr out"
  shows "go_get out n =
           (case go_get cols n of
              Some (Some c) \<Rightarrow>
                if cFormula c \<noteq> []
                then (case rbind (EvaluateFormula A (cFormula c) data)
                             (\<lambda>raw. coerceFormulaResult A raw (cType c)) of
                        Inr v \<Rightarrow> Some v | Inl e \<Rightarrow> None)
                else go_get data n
            | _ \<Rightarrow> go_get data n)"
  using assms by (rule ApplyFormulasToRead_get)

definition int64 :: "int \<Rightarrow> bool" where
  "int64 i \<longleftrightarrow> - (2 ^ 63) \<le> i \<and> i < 2 ^ 63"

text \<open>
  What a formula can evaluate to, as the comment of \<open>coerceFormulaResult\<close> lists it. A float is a
  binary64 value; one beyond the int64 range is left out, since Go leaves its conversion to
  the implementation.
\<close>

definition formula_result :: "val \<Rightarrow> bool" where
  "formula_result v =
     (case v of
        VNum k n \<Rightarrow> k = KInt64 \<and> int64 n
      | VFloat64 (FFin q) \<Rightarrow> f64_round q = FFin q \<and> int64 (f64_trunc q)
      | VFloat64 x \<Rightarrow> True
      | VStr s \<Rightarrow> True | VBool b \<Rightarrow> True | VNil \<Rightarrow> True | _ \<Rightarrow> False)"

fun number_of :: "val \<Rightarrow> rat option" where
  "number_of (VNum k n) = Some (of_int n)"
| "number_of (VFloat64 (FFin q)) = Some q"
| "number_of (VFloat64 FNegZero) = Some 0"
| "number_of _ = None"

text \<open>
  The value of a column type that a formula result stands for, by its number: an integer column
  holds the integer equal to it, a float column the float64 nearest to it.
\<close>

definition column_value :: "column_type \<Rightarrow> val \<Rightarrow> val option" where
  "column_value t v =
     (if t = ColumnTypeAny then Some v
      else if t = ColumnTypeInt then
        (case number_of v of Some q \<Rightarrow> if of_int \<lfloor>q\<rfloor> = q then Some (VNum KInt64 \<lfloor>q\<rfloor>) else None | None \<Rightarrow> None)
      else if has_type t v then Some v
      else if t = ColumnTypeFloat then
        (case number_of v of Some q \<Rightarrow> Some (VFloat64 (f64_round q)) | None \<Rightarrow> None)
      else None)"

lemma coerce_float_int:
  assumes "formula_result (VFloat64 x)" and "\<And>x. int64 (Int64OutOfRange A x)"
  shows "(let i = f64_to_int64 (Int64OutOfRange A) x in if f64_eq (f64_of_int i) x then Some (VNum KInt64 i) else None) =
     column_value ColumnTypeInt (VFloat64 x)"
proof (cases x)
  case (FFin q)
  with assms(1) have "f64_round q = FFin q" "f64_to_int64 (Int64OutOfRange A) x = f64_trunc q"
    by (simp_all add: formula_result_def int64_def)
  moreover have "of_int \<lfloor>q\<rfloor> = q \<longleftrightarrow> q \<in> \<int>" by (metis Ints_cases Ints_of_int floor_of_int)
  moreover have "q \<in> \<int> \<Longrightarrow> f64_trunc q = \<lfloor>q\<rfloor>" using f64_trunc_integral [of q] by (metis floor_of_int)
  ultimately show ?thesis using FFin f64_of_trunc [of q] by (simp add: column_value_def Let_def)
next
  case (FInf b)
  have "f64_of_int (Int64OutOfRange A x) \<noteq> FInf b" for b using f64_of_int_finite assms(2) by (simp add: int64_def)
  then have "f64_key (f64_of_int (Int64OutOfRange A x)) \<noteq> f64_key (FInf b)" for b
    by (cases "f64_of_int (Int64OutOfRange A x)") auto
  with FInf show ?thesis by (simp add: column_value_def Let_def f64_eq_def)
qed (simp_all add: column_value_def Let_def f64_eq_def f64_of_int_def f64_round_def)

lemma coerce_column_value:
  assumes "formula_result v" and "\<And>x. int64 (Int64OutOfRange A x)"
  shows "coerceFormulaResult A v t = Inr w \<longleftrightarrow> column_value t v = Some w"
proof (cases "t = ColumnTypeInt \<and> (\<exists>x. v = VFloat64 x)")
  case True
  then obtain x where x: "t = ColumnTypeInt" "v = VFloat64 x" by blast
  with coerce_float_int [of x A] assms show ?thesis
    by (auto simp: coerceFormulaResult_def Let_def split: if_splits)
next
  case False
  with assms(1) show ?thesis
    by (auto simp: coerceFormulaResult_def column_value_def formula_result_def has_type_def f64_of_int_def
        split: column_type.splits val.splits float64.splits int_kind.splits if_splits)
qed
text \<open>
  C15. Coercing a formula result to the type of its column keeps its value or fails: it succeeds
  exactly when the column type has a value for the result (an integer column takes an integer or
  a float that is integral, a float column a float or the float64 nearest to an integer, string
  and Boolean columns their own kind), and returns that value, which has the type of the column
  and is unchanged by coercing it again.
\<close>

theorem formula_types:
  assumes "formula_result v" and "\<And>x. int64 (Int64OutOfRange A x)"
  shows "(coerceFormulaResult A v t = Inr w \<longleftrightarrow> column_value t v = Some w) \<and>
         (coerceFormulaResult A v t = Inr w \<longrightarrow> has_type t w \<and> coerceFormulaResult A w t = Inr w)"
  using coerce_column_value [OF assms] coerce_has_type coerce_idem by blast

theorem formula_types_witness:
  "coerceFormulaResult sample_api (VFloat64 (FFin 3)) ColumnTypeInt = Inr (VNum KInt64 3) \<and>
   (\<nexists>w. coerceFormulaResult sample_api (VFloat64 (FFin (5 / 2))) ColumnTypeInt = Inr w)"
proof -
  have oor: "int64 (Int64OutOfRange sample_api x)" for x by (simp add: sample_api_def int64_def)
  have r: "formula_result (VFloat64 (FFin 3))" "formula_result (VFloat64 (FFin (5 / 2)))" by code_simp+
  have "column_value ColumnTypeInt (VFloat64 (FFin 3)) = Some (VNum KInt64 3)" by code_simp
  then have "coerceFormulaResult sample_api (VFloat64 (FFin 3)) ColumnTypeInt = Inr (VNum KInt64 3)"
    using formula_types [OF r(1) oor] by blast
  moreover have "column_value ColumnTypeInt (VFloat64 (FFin (5 / 2))) = None" by code_simp
  then have "coerceFormulaResult sample_api (VFloat64 (FFin (5 / 2))) ColumnTypeInt \<noteq> Inr w" for w
    using formula_types [OF r(2) oor, of ColumnTypeInt w] by auto
  ultimately show ?thesis by blast
qed

text \<open>
  A row passes the computed-column check of \<open>Set\<close> and \<open>Insert\<close> exactly when it holds no
  field of a computed column, whatever the value.
\<close>

lemma computed_never_stored:
  assumes "wf_map (cdColumns cd)"
  shows "validateNoStoredComputedValues cid cd key data = Inr u \<longleftrightarrow>
           (\<forall>f c. go_get (cdColumns cd) f = Some (Some c) \<longrightarrow> cFormula c \<noteq> [] \<longrightarrow> go_get data f = None)"
  using assms by (rule validateNoStoredComputedValues_ok)

text \<open>
  The column lists that drive validation and recordsets depend only on the contents of
  the column map and on the declared order, never on the order a map is walked in.
\<close>

lemma column_order_deterministic:
  assumes "wf_map (cdColumns a)" and "wf_map (cdColumns b)"
    and "go_get (cdColumns a) = go_get (cdColumns b)" and "cdColumnsOrder a = cdColumnsOrder b"
  shows "orderedColumns (Some a) pred = orderedColumns (Some b) pred"
  using assms by (rule orderedColumns_cong)

text \<open>
  \<open>WHERE\<close> keeps exactly the records its condition holds for, in their order; it succeeds
  whenever the condition can be evaluated on every record.
\<close>

lemma where_filters:
  assumes "\<And>r. r \<in> set records \<Longrightarrow> \<exists>b. evaluateCondition A (dData r) (dID r) cond = Inr b"
  shows "applyWhere A records cond s =
           (Inr (filter (\<lambda>r. evaluateCondition A (dData r) (dID r) cond = Inr True) records), s)"
  using assms by (rule applyWhere_total)

definition three :: "drec list" where
  "three = [\<lparr>dColl = ''c'', dID = ''x'', dData = [(''n'', VNum KInt 3)]\<rparr>,
            \<lparr>dColl = ''c'', dID = ''y'', dData = [(''n'', VNum KInt 1)]\<rparr>,
            \<lparr>dColl = ''c'', dID = ''z'', dData = [(''n'', VNum KInt 3)]\<rparr>]"



text \<open>
  C16. The whole pipeline of an ungrouped query without projection: filter, then sort, then
  skip \<open>offset\<close> rows, then take at most \<open>limit\<close> rows (no limit when it is not positive).
\<close>

theorem query_pipeline:
  assumes "sqWhere sq = Some cond" and "sqGroupBy sq = []" and "sqColumns sq = []"
    and "\<And>r. r \<in> set records \<Longrightarrow> \<exists>b. evaluateCondition A (dData r) (dID r) cond = Inr b"
  shows "run_query (ioret ()) A es C False sq coll records s =
           (Inr ((if 0 < sqLimit sq then take (nat (sqLimit sq)) else (\<lambda>ys. ys))
              (drop (nat (sqOffset sq))
                ((if sqOrderBy sq = [] then (\<lambda>xs. xs) else (\<lambda>xs. applyOrderBy A xs (sqOrderBy sq)))
                  (filter (\<lambda>r. evaluateCondition A (dData r) (dID r) cond = Inr True) records)))), s)"
proof -
  have "applyWhereContext (ioret ()) A records cond s =
      (Inr (filter (\<lambda>r. evaluateCondition A (dData r) (dID r) cond = Inr True) records), s)"
    unfolding applyWhereContext_def by (rule iofilter_total) (use assms(4) in \<open>fastforce simp: iolift_def\<close>)
  then show ?thesis
    using assms(1-3) by (simp add: run_query_def iobind_def page_take_drop ioret_def Let_def)
qed

definition three_query :: squery where
  "three_query = \<lparr>sqFrom = Some (CollectionRef ''c'' None),
     sqWhere = Some (Comparison (FieldRef ''n'') GreaterOrEqual (Constant (VNum KInt 1))), sqGroupBy = [], sqHaving = None,
     sqOrderBy = [(FieldRef ''n'', True)], sqOffset = 1, sqLimit = 5, sqColumns = []\<rparr>"

theorem query_pipeline_witness:
  "fst (run_query (ioret ()) sample_api (\<lambda>_. []) (engCond sample_engine) False three_query ''c'' three ()) =
     Inr [three ! 2, three ! 1]"
proof -
  let ?c = "Comparison (FieldRef ''n'') GreaterOrEqual (Constant (VNum KInt 1))"
  have "map (\<lambda>r. evaluateCondition sample_api (dData r) (dID r) ?c) three = [Inr True, Inr True, Inr True]"
    by code_simp
  then have e: "\<exists>b. evaluateCondition sample_api (dData r) (dID r) ?c = Inr b" if "r \<in> set three" for r
    using that by (auto simp: three_def)
  have q: "sqWhere three_query = Some ?c" "sqGroupBy three_query = []" "sqColumns three_query = []"
    by (simp_all add: three_query_def)
  have "filter (\<lambda>r. evaluateCondition sample_api (dData r) (dID r) ?c = Inr True) three = three"
    using \<open>map _ three = _\<close> by (simp add: three_def)
  moreover have "applyOrderBy sample_api three [(FieldRef ''n'', True)] = [three ! 0, three ! 2, three ! 1]" by code_simp
  ultimately show ?thesis using query_pipeline [of three_query ?c three sample_api _ _ _ "()", OF q e] by (simp add: three_query_def)
qed

text \<open>
  C18. \<open>GROUP BY\<close> partitions the records: the groups appear in the order their keys are first
  seen, no group is empty, and each holds exactly the rows with its key, in input order.
\<close>

theorem group_by_partitions:
  assumes "partition_groups ctx A groupBy records s = (Inr parts, t)"
  shows "map Inr (go_keys parts) = first_seen (map (\<lambda>r. groupKeyStr A groupBy (dData r) (dID r)) records) \<and>
         (\<forall>gk rows. go_get parts gk = Some rows \<longrightarrow> rows \<noteq> [] \<and>
            rows = map dData (filter (\<lambda>r. groupKeyStr A groupBy (dData r) (dID r) = Inr gk) records))"
proof -
  have inv: "group_inv A groupBy records parts" using assms by (rule partition_groups_Inr)
  then show ?thesis
    using group_inv_nonempty [OF inv] by (simp add: group_inv_def group_key_def [abs_def])
qed

theorem group_by_partitions_witness:
  "\<exists>parts. fst (partition_groups (ioret ()) sample_api [FieldRef ''n''] three ()) = Inr parts \<and>
     map snd parts = [[[(''n'', VNum KInt 3)], [(''n'', VNum KInt 3)]], [[(''n'', VNum KInt 1)]]] \<and>
     map Inr (go_keys parts) = first_seen (map (\<lambda>r. groupKeyStr sample_api [FieldRef ''n''] (dData r) (dID r)) three)"
proof -
  let ?g = "partition_groups (ioret ()) sample_api [FieldRef ''n''] three ()"
  have ok: "case fst ?g of Inr p \<Rightarrow> map snd p = [[[(''n'', VNum KInt 3)], [(''n'', VNum KInt 3)]], [[(''n'', VNum KInt 1)]]]
      | Inl _ \<Rightarrow> False" by code_simp
  then obtain parts where p: "fst ?g = Inr parts" by (cases "fst ?g") auto
  then have "?g = (Inr parts, snd ?g)" by (metis prod.collapse)
  from group_by_partitions [OF this] p ok show ?thesis by auto
qed

text \<open>
  \<open>MIN\<close> and \<open>MAX\<close> over mutually comparable values return a non-nil value of the column
  that no other non-nil value lies beyond, and nil exactly when every value is nil.
\<close>

lemma min_max_extreme:
  assumes "comparable {v \<in> set (field_values rows name). v \<noteq> VNil}"
  shows "\<exists>w. evalAggregate A (if m then Agg_MIN else Agg_MAX) [FieldRef name] rows = Inr w \<and>
           (if \<forall>v \<in> set (field_values rows name). v = VNil then w = VNil
            else w \<in> set (field_values rows name) \<and> w \<noteq> VNil \<and>
                 (\<forall>v \<in> set (field_values rows name). v \<noteq> VNil \<longrightarrow> not_beyond A m v w))"
proof -
  let ?vs = "field_values rows name"
  have ev: "evalAggregate A (if m then Agg_MIN else Agg_MAX) [FieldRef name] rows =
      (case best_value A m None ?vs of None \<Rightarrow> Inr VNil | Some v \<Rightarrow> Inr v)"
    by (simp add: evalAggregate_def)
  show ?thesis
  proof (cases "best_value A m None ?vs")
    case None
    with ev best_value_None [of A m ?vs] show ?thesis by auto
  next
    case (Some w)
    with best_value_None [of A m ?vs] have "\<not> (\<forall>v \<in> set ?vs. v = VNil)" by auto
    with best_value_start [OF Some assms] ev Some show ?thesis by auto
  qed
qed

text \<open>
  \<open>SUM\<close> over integers is exact while every partial sum stays below \<open>2 ^ 53\<close> in magnitude;
  nil and non-numeric fields are skipped.
\<close>

lemma sum_exact:
  assumes "is \<noteq> []" and "field_values rows name = map (VNum k) is"
    and "\<And>n. n \<le> length is \<Longrightarrow> \<bar>sum_list (take n is)\<bar> < 2 ^ 53" and "\<forall>i \<in> set is. \<bar>i\<bar> < 2 ^ 53"
  shows "evalAggregate A Agg_SUM [FieldRef name] rows = Inr (VFloat64 (FFin (of_int (sum_list is))))"
  using sum_count_ints [of "is" 0 0 k] assms by (simp add: evalAggregate_def)

text \<open>
  A records reader yields every row of the result exactly once and in order, then
  reports the end, and keeps reporting it.
\<close>

lemma reader_yields_all:
  "drain slice_Next (Suc (length rows)) (newSliceRecordsReader rows) = Some rows \<and>
   (\<forall>r. slice_remaining r = [] \<longrightarrow> slice_Next r = (None, r))"
proof -
  have "slice_remaining (newSliceRecordsReader rows) = rows"
    by (simp add: slice_remaining_def newSliceRecordsReader_def)
  with slice.drain_complete [of "newSliceRecordsReader rows" "Suc (length rows)"] slice.Next_end
  show ?thesis by auto
qed

text \<open>
  C14. In stored-only mode no formula is evaluated: \<open>Get\<close> and queries return the same results
  and leave the same world whatever the formula evaluator does.
\<close>

theorem stored_only_ignores_formulas:
  assumes "txStoredOnly tx"
  shows "Get E (A\<lparr>EvaluateFormula := f\<rparr>) tx rec w = Get E A tx rec w \<and>
         executeQueryToRecordsReader E (A\<lparr>EvaluateFormula := f\<rparr>) es C tx q w =
           executeQueryToRecordsReader E A es C tx q w"
  using Get_formula [OF assms] executeQuery_formula [OF assms] by metis

theorem stored_only_ignores_formulas_witness:
  "fst (fst (Get sample_env (sample_api\<lparr>EvaluateFormula := \<lambda>_ _. Inl (EExternal ''boom'')\<rparr>)
       (sample_tx\<lparr>txStoredOnly := True\<rparr>) (sample_rec ''people'' ''ann'' []) sample_world)) = None"
proof -
  have "txStoredOnly (sample_tx\<lparr>txStoredOnly := True\<rparr>)" by simp
  from stored_only_ignores_formulas [OF this]
  have "Get sample_env (sample_api\<lparr>EvaluateFormula := \<lambda>_ _. Inl (EExternal ''boom'')\<rparr>)
       (sample_tx\<lparr>txStoredOnly := True\<rparr>) (sample_rec ''people'' ''ann'' []) sample_world =
     Get sample_env sample_api (sample_tx\<lparr>txStoredOnly := True\<rparr>) (sample_rec ''people'' ''ann'' []) sample_world" by blast
  moreover have "fst (fst (Get sample_env sample_api (sample_tx\<lparr>txStoredOnly := True\<rparr>)
      (sample_rec ''people'' ''ann'' []) sample_world)) = None" by code_simp
  ultimately show ?thesis by simp
qed

end
