(* ===== verification/BatchParsers.thy ===== *)
theory BatchParsers
  imports RecordKeys
begin

text \<open>
  The batch parsers of \<open>batch_parsers.go\<close>. The decoders of JSON, YAML, INGR and CSV are
  parameters: each gives the sequence of results its reader yields before the end of the
  input. Line splitting (\<open>bufio.Scanner\<close> with its 4 MiB limit) is modelled.
\<close>

record parsed_record =
  prPosition :: nat
  prKey :: string
  prData :: row

definition maxRecordKeyLen :: nat where
  "maxRecordKeyLen = 255"

definition validateRecordKey :: "string \<Rightarrow> unit res" where
  "validateRecordKey key =
     (if key = [] then Inl EKeyEmpty
      else if length key > maxRecordKeyLen then Inl (EKeyTooLong (length key))
      else if strings_TrimSpace key \<noteq> key then Inl (EKeyWhitespace key)
      else if strings_ContainsAny key [CHR ''/'', CHR 0x5C] then Inl (EKeySeparator key)
      else if strings_Contains key ''..'' then Inl (EKeyTraversal key)
      else Inr ())"

text \<open>One decoded record: the key field must be there, a non-empty string and a valid key.\<close>

definition keyed_record :: "string \<Rightarrow> string \<Rightarrow> nat \<Rightarrow> row \<Rightarrow> parsed_record res" where
  "keyed_record unit_name id_field pos data =
     (case go_get data id_field of
        None \<Rightarrow> Inl (EAt unit_name pos (EMissingKeyField id_field))
      | Some (VStr key) \<Rightarrow>
          (if key = [] then Inl (EAt unit_name pos (EKeyFieldEmpty id_field))
           else rbind (map_err (EAt unit_name pos) (validateRecordKey key)) (\<lambda>_.
             Inr \<lparr>prPosition = pos, prKey = key, prData = go_delete id_field data\<rparr>))
      | Some v \<Rightarrow> Inl (EAt unit_name pos (EKeyFieldType id_field (fmt_T v))))"

text \<open>
  The loop over a stream of items, numbered from \<open>pos\<close>: \<open>None\<close> is skipped but counted.
\<close>

fun parse_items ::
  "string \<Rightarrow> string \<Rightarrow> nat \<Rightarrow> row option res list \<Rightarrow> parsed_record list res" where
  "parse_items unit_name id_field pos [] = Inr []"
| "parse_items unit_name id_field pos (item # items) =
     (case item of
        Inl e \<Rightarrow> Inl (EAt unit_name pos e)
      | Inr None \<Rightarrow> parse_items unit_name id_field (Suc pos) items
      | Inr (Some data) \<Rightarrow>
          rbind (keyed_record unit_name id_field pos data) (\<lambda>r.
            rbind (parse_items unit_name id_field (Suc pos) items) (\<lambda>rs. Inr (r # rs))))"

section \<open>JSON lines\<close>

definition maxLine :: nat where
  "maxLine = 2 ^ 22"

definition dropCR :: "string \<Rightarrow> string" where
  "dropCR line = (if line \<noteq> [] \<and> last line = CHR 0x0D then butlast line else line)"

text \<open>\<open>bufio.ScanLines\<close>: the lines before the first that fills the buffer, and whether there is one.\<close>

definition raw_lines :: "string \<Rightarrow> string list" where
  "raw_lines content =
     (let parts = strings_Split (CHR 0x0A) content in if last parts = [] then butlast parts else parts)"

definition scan_lines :: "string \<Rightarrow> string list \<times> bool" where
  "scan_lines content =
     (let ls = raw_lines content in
      (map dropCR (takeWhile (\<lambda>l. length l < maxLine) ls), list_ex (\<lambda>l. maxLine \<le> length l) ls))"

text \<open>A stream: what can be read, and the error that ends it before its end.\<close>

type_synonym stream = "string \<times> dberr option"

definition ParseBatchJSONL :: "(string \<Rightarrow> row res) \<Rightarrow> stream \<Rightarrow> parsed_record list res" where
  "ParseBatchJSONL json_Unmarshal r =
     (case scan_lines (fst r) of (ls, too_long) \<Rightarrow>
        rbind (parse_items ''line'' ''$id'' 1
                 (map (\<lambda>raw. if strings_TrimSpace raw = [] then Inr None
                              else map_sum (EWrap ''invalid JSON'') Some (json_Unmarshal raw)) ls)) (\<lambda>records.
          if too_long then Inl (EWrap ''read jsonl stream'' EBatchSyntax)
          else case snd r of Some e \<Rightarrow> Inl (EWrap ''read jsonl stream'' e) | None \<Rightarrow> Inr records))"

section \<open>YAML documents and INGR\<close>

definition ParseBatchYAMLStream :: "(stream \<Rightarrow> row option res list) \<Rightarrow> stream \<Rightarrow> parsed_record list res" where
  "ParseBatchYAMLStream decode r =
     parse_items ''document'' ''$id'' 1 (map (map_sum (EWrap ''invalid YAML'') id) (decode r))"

definition ParseBatchINGR :: "(string \<Rightarrow> row list res) \<Rightarrow> stream \<Rightarrow> parsed_record list res" where
  "ParseBatchINGR ingr_Unmarshal r =
     (case snd r of
        Some e \<Rightarrow> Inl (EWrap ''read ingr stream'' e)
      | None \<Rightarrow>
          if fst r = [] then Inr []
          else rbind (map_err (EWrap ''parse ingr stream'') (ingr_Unmarshal (fst r))) (\<lambda>rows.
            parse_items ''record'' ''$ID'' 1 (map (\<lambda>row. Inr (Some row)) rows)))"

section \<open>CSV\<close>

record csv_options =
  coKeyColumn :: string
  coFields :: "string list"

fun index_of :: "string \<Rightarrow> string list \<Rightarrow> nat option" where
  "index_of x [] = None"
| "index_of x (y # ys) = (if y = x then Some 0 else map_option Suc (index_of x ys))"

definition resolveCSVKeyColumn :: "string list \<Rightarrow> string \<Rightarrow> (string \<times> nat) res" where
  "resolveCSVKeyColumn header override =
     (if override \<noteq> []
      then (case index_of override header of
              Some i \<Rightarrow> Inr (override, i) | None \<Rightarrow> Inl (EKeyColumnMissing override))
      else case index_of ''$id'' header of
        Some i \<Rightarrow> Inr (''$id'', i)
      | None \<Rightarrow> (case index_of ''id'' header of Some i \<Rightarrow> Inr (''id'', i) | None \<Rightarrow> Inl ENoKeyColumn))"

definition csv_data :: "string list \<Rightarrow> nat \<Rightarrow> string list \<Rightarrow> row" where
  "csv_data header keyColIdx values =
     foldl (\<lambda>m (i, col). if i = keyColIdx then m else go_set col (VStr (values ! i)) m) [] (enumerate 0 header)"

definition csv_row :: "string list \<Rightarrow> string \<Rightarrow> nat \<Rightarrow> nat \<Rightarrow> string list \<Rightarrow> parsed_record res" where
  "csv_row header keyCol keyColIdx lineNo values =
     (if length values \<noteq> length header then Inl (EAt ''line'' lineNo (EColumnCount (length values) (length header)))
      else let keyVal = values ! keyColIdx in
        if keyVal = [] then Inl (EAt ''line'' lineNo (EKeyFieldEmpty keyCol))
        else rbind (map_err (EAt ''line'' lineNo) (validateRecordKey keyVal)) (\<lambda>_.
          Inr \<lparr>prPosition = lineNo, prKey = keyVal, prData = csv_data header keyColIdx values\<rparr>))"

fun csv_rows :: "string list \<Rightarrow> string \<Rightarrow> nat \<Rightarrow> nat \<Rightarrow> string list res list \<Rightarrow> parsed_record list res" where
  "csv_rows header keyCol keyColIdx lineNo [] = Inr []"
| "csv_rows header keyCol keyColIdx lineNo (read # reads) =
     (case read of
        Inl e \<Rightarrow> Inl (EAt ''line'' lineNo (EWrap ''csv parse error'' e))
      | Inr values \<Rightarrow>
          rbind (csv_row header keyCol keyColIdx lineNo values) (\<lambda>r.
            rbind (csv_rows header keyCol keyColIdx (Suc lineNo) reads) (\<lambda>rs. Inr (r # rs))))"

definition ParseBatchCSV ::
  "(stream \<Rightarrow> string list res list) \<Rightarrow> stream \<Rightarrow> csv_options \<Rightarrow> parsed_record list res" where
  "ParseBatchCSV csv_Reader r opts =
     (let body = (\<lambda>header firstDataLine reads.
            rbind (resolveCSVKeyColumn header (coKeyColumn opts)) (\<lambda>(keyCol, keyColIdx).
              csv_rows header keyCol keyColIdx firstDataLine reads)) in
      if coFields opts \<noteq> [] then body (coFields opts) 1 (csv_Reader r)
      else case csv_Reader r of
        [] \<Rightarrow> Inr []
      | Inl e # _ \<Rightarrow> Inl (EWrap ''read csv header'' e)
      | Inr header # reads \<Rightarrow> body header 2 reads)"

section \<open>What the parsers return\<close>

lemma keyed_record_Inr [res_simps]:
  "keyed_record u f pos data = Inr r \<longleftrightarrow>
     go_get data f = Some (VStr (prKey r)) \<and> validateRecordKey (prKey r) = Inr () \<and>
     prPosition r = pos \<and> prData r = go_delete f data"
  by (cases r) (auto simp: keyed_record_def res_simps validateRecordKey_def split: option.splits val.splits if_splits)

text \<open>The records of a stream: one for each item that is not skipped, in order, at its number.\<close>

definition item_record :: "string \<Rightarrow> nat \<times> row option res \<Rightarrow> parsed_record \<Rightarrow> bool" where
  "item_record f x r \<longleftrightarrow>
     prPosition r = fst x \<and> validateRecordKey (prKey r) = Inr () \<and>
     (\<exists>data. snd x = Inr (Some data) \<and> go_get data f = Some (VStr (prKey r)) \<and> prData r = go_delete f data)"

lemma parse_items_Inr:
  "parse_items u f pos items = Inr rs \<Longrightarrow>
     list_all2 (item_record f) (filter (\<lambda>x. snd x \<noteq> Inr None) (enumerate pos items)) rs"
proof (induction items arbitrary: pos rs)
  case (Cons item items)
  then show ?case
    by (cases item) (auto simp: res_simps item_record_def split: option.splits)
qed simp

lemma parse_items_complete:
  assumes "list_all2 (item_record f) (filter (\<lambda>x. snd x \<noteq> Inr None) (enumerate pos items)) rs"
  shows "parse_items u f pos items = Inr rs"
  using assms
proof (induction items arbitrary: pos rs)
  case (Cons item items)
  show ?case
  proof (cases "item = Inr None")
    case True
    with Cons show ?thesis by simp
  next
    case False
    with Cons.prems obtain r rs' where rs: "rs = r # rs'" "item_record f (pos, item) r"
        "list_all2 (item_record f) (filter (\<lambda>x. snd x \<noteq> Inr None) (enumerate (Suc pos) items)) rs'"
      by (auto simp: list_all2_Cons1)
    then obtain data where d: "item = Inr (Some data)" "keyed_record u f pos data = Inr r"
      by (auto simp: item_record_def keyed_record_Inr)
    with Cons.IH [OF rs(3)] rs(1) show ?thesis by simp
  qed
qed simp

lemma validateRecordKey_safe:
  assumes "validateRecordKey k = Inr u"
  shows "k \<noteq> []" and "length k \<le> 255" and "CHR ''/'' \<notin> set k" and "CHR 0x5C \<notin> set k"
    and "\<not> strings_Contains k ''..''"
  using assms by (auto simp: validateRecordKey_def maxRecordKeyLen_def ContainsAny_iff split: if_splits)

lemma ToFileName_id: "CHR ''/'' \<notin> set k \<Longrightarrow> CHR 0x5C \<notin> set k \<Longrightarrow> recordKeyToFileName k = k"
  by (induction k) auto

lemma index_of_Some: "index_of x xs = Some i \<Longrightarrow> i < length xs \<and> xs ! i = x \<and> x \<notin> set (take i xs)"
proof (induction xs arbitrary: i)
  case (Cons y ys)
  then show ?case by (cases i) (auto split: if_splits)
qed simp

lemma index_of_None: "index_of x xs = None \<longleftrightarrow> x \<notin> set xs"
  by (induction xs) auto

lemma csv_fold_get:
  assumes "distinct (map snd ps)"
  shows "go_get (foldl (\<lambda>m (i, col). if i = k then m else go_set col (VStr (values ! i)) m) acc ps) c =
           (case map_of (map prod.swap ps) c of
              Some i \<Rightarrow> if i = k then go_get acc c else Some (VStr (values ! i))
            | None \<Rightarrow> go_get acc c)"
  using assms
proof (induction ps arbitrary: acc)
  case (Cons p ps)
  obtain i col where p: "p = (i, col)" by (cases p)
  from Cons.prems p have "map_of (map prod.swap ps) col = None"
    by (force simp: map_of_eq_None_iff)
  with Cons p show ?case by (auto simp: go_get_set split: option.splits)
qed simp

lemma csv_data_get:
  assumes "distinct header" and "i < length header"
  shows "go_get (csv_data header k values) (header ! i) = (if i = k then None else Some (VStr (values ! i)))"
proof -
  have d: "distinct (map snd (enumerate 0 header))" using assms(1) by simp
  have "(header ! i, i) \<in> set (map prod.swap (enumerate 0 header))"
    using assms(2) by (force simp: in_set_enumerate_eq)
  moreover have "map fst (map prod.swap (enumerate 0 header)) = header"
    by (simp add: comp_def)
  ultimately have "map_of (map prod.swap (enumerate 0 header)) (header ! i) = Some i"
    using assms(1) by (metis map_of_is_SomeI)
  then show ?thesis unfolding csv_data_def by (simp add: csv_fold_get [OF d])
qed

lemma csv_row_Inr:
  "csv_row header c k n values = Inr x \<Longrightarrow>
     prPosition x = n \<and> prKey x = values ! k \<and> validateRecordKey (prKey x) = Inr () \<and>
     length values = length header \<and> prData x = csv_data header k values"
  by (auto simp: csv_row_def res_simps Let_def split: if_splits)

lemma csv_rows_Inr:
  "csv_rows header kc ki n reads = Inr rs \<Longrightarrow>
     list_all2 (\<lambda>(m, read) r. \<exists>values. read = Inr values \<and> csv_row header kc ki m values = Inr r)
       (enumerate n reads) rs"
proof (induction reads arbitrary: n rs)
  case (Cons read reads)
  then show ?case by (cases read) (auto simp: res_simps)
qed simp

section \<open>Properties\<close>

text \<open>
  C26. A JSON-lines batch parses to exactly one record for each non-blank line, in order: the
  record carries its line number, the \<open>$id\<close> of the line as a valid key, and the rest of the
  decoded object. Every other input is an error, never a partial batch.
\<close>

theorem jsonl_batch_records:
  "ParseBatchJSONL J (content, err) = Inr rs \<longleftrightarrow>
     snd (scan_lines content) = False \<and> err = None \<and>
     list_all2 (item_record ''$id'')
       (filter (\<lambda>x. snd x \<noteq> Inr None)
         (enumerate 1 (map (\<lambda>raw. if strings_TrimSpace raw = [] then Inr None
                                     else map_sum (EWrap ''invalid JSON'') Some (J raw)) (fst (scan_lines content)))))
       rs"
  (is "?L \<longleftrightarrow> ?R")
proof
  assume ?L
  then show ?R
    by (auto simp: ParseBatchJSONL_def res_simps split: prod.splits if_splits option.splits dest!: parse_items_Inr)
next
  assume ?R
  then show ?L
    using parse_items_complete [of "''$id''" 1 _ rs "''line''"]
    by (auto simp: ParseBatchJSONL_def split: prod.splits)
qed

text \<open>
  A CSV batch with distinct column names parses, when it succeeds, to one record per data
  row, in order: each non-key column holds the field of the row, the key column is not part
  of the data, and the key is valid.
\<close>

lemma csv_batch_records:
  assumes "ParseBatchCSV R r \<lparr>coKeyColumn = kc, coFields = header\<rparr> = Inr rs" and "header \<noteq> []" and "distinct header"
  shows "\<exists>k < length header.
           (if kc \<noteq> [] then header ! k = kc
            else if ''$id'' \<in> set header then header ! k = ''$id'' else header ! k = ''id'') \<and>
           list_all2 (\<lambda>(n, read) x. \<exists>values. read = Inr values \<and> length values = length header \<and>
               prPosition x = n \<and> prKey x = values ! k \<and> validateRecordKey (prKey x) = Inr () \<and>
               (\<forall>i < length header. go_get (prData x) (header ! i) =
                  (if i = k then None else Some (VStr (values ! i)))))
             (enumerate 1 (R r)) rs"
proof -
  from assms(1,2) obtain c k where k: "resolveCSVKeyColumn header kc = Inr (c, k)"
      and rows: "csv_rows header c k 1 (R r) = Inr rs"
    by (auto simp: ParseBatchCSV_def res_simps Let_def)
  have ck: "k < length header \<and> (if kc \<noteq> [] then header ! k = kc
            else if ''$id'' \<in> set header then header ! k = ''$id'' else header ! k = ''id'')"
    using k index_of_None [of "''$id''" header]
    by (auto simp: resolveCSVKeyColumn_def split: if_splits option.splits dest!: index_of_Some)
  have "list_all2 (\<lambda>(n, read) x. \<exists>values. read = Inr values \<and> length values = length header \<and>
               prPosition x = n \<and> prKey x = values ! k \<and> validateRecordKey (prKey x) = Inr () \<and>
               (\<forall>i < length header. go_get (prData x) (header ! i) =
                  (if i = k then None else Some (VStr (values ! i)))))
             (enumerate 1 (R r)) rs"
    using csv_rows_Inr [OF rows] csv_data_get [OF assms(3)]
    by (auto elim!: list_all2_mono dest!: csv_row_Inr)
  with ck show ?thesis by blast
qed

text \<open>
  A key accepted from a batch is its own file name: it has no separator to escape, no
  parent traversal, and at most 255 bytes.
\<close>

lemma batch_keys_are_file_names:
  assumes "validateRecordKey k = Inr u"
  shows "recordKeyToFileName k = k \<and> recordKeyFromFileName (recordKeyToFileName k) = recordKeyFromFileName k \<and>
         0 < length k \<and> length k \<le> 255 \<and> \<not> strings_Contains k ''..''"
  using validateRecordKey_safe [OF assms] by (simp add: ToFileName_id)

end
