(* ===== verification/JsonLines.thy ===== *)
theory JsonLines
  imports RecordKeys
begin

text \<open>
  The pure core of \<open>rooted_files.go\<close>: the paths a capability accepts, the bounded read of a
  JSON-lines stream, the committed prefix of a file and the records of its lines.
  \<open>json.Valid\<close> is a parameter. A reader answers a read into a buffer of \<open>k\<close> bytes with a
  count, the bytes it put there and an error, as \<open>io.Reader\<close> does; the interface of a
  reader that delivers a given string is the locale \<open>byte_source\<close>.
\<close>

abbreviation newline :: char where
  "newline \<equiv> CHR 0x0A"

section \<open>Paths\<close>

definition rootedRelativePath :: "string \<Rightarrow> string res" where
  "rootedRelativePath value =
     (if value = [] \<or> strings_Contains value [CHR 0x5C] \<or> rooted value
      then Inl (ERoot (RootedPathForm value))
      else let clean = path_Clean value in
        if clean = ''.'' \<or> clean = ''..'' \<or> strings_HasPrefix clean ''../''
        then Inl (ERoot (RootedPathEscapes value))
        else Inr clean)"

definition scope_validate :: "string \<Rightarrow> string res" where
  "scope_validate Prefix =
     rbind (map_err (EWrap ''rooted files scope'') (rootedRelativePath Prefix)) (\<lambda>pre.
       if strings_Contains pre [slash]
       then Inl (EMsg ''rooted files scope must be one top-level path segment'' [Prefix])
       else Inr pre)"

section \<open>The bounded read\<close>

definition maxInt :: int where
  "maxInt = 2 ^ 63 - 1"

definition rootedJSONLBufferSizeWithMax :: "int \<Rightarrow> int \<Rightarrow> nat res" where
  "rootedJSONLBufferSizeWithMax maxBytes limit =
     (if maxBytes \<le> 0 \<or> limit \<le> 0 \<or> maxBytes > limit then Inl (ERoot (MaxBytesInvalid maxBytes))
      else Inr (nat maxBytes))"

definition rootedJSONLBufferSize :: "int \<Rightarrow> nat res" where
  "rootedJSONLBufferSize maxBytes = rootedJSONLBufferSizeWithMax maxBytes maxInt"

definition rootedJSONLInitialReadCapacity :: nat where
  "rootedJSONLInitialReadCapacity = 4096"

definition minRootedJSONLReadCapacity :: "nat \<Rightarrow> nat" where
  "minRootedJSONLReadCapacity maxCapacity =
     (if maxCapacity < rootedJSONLInitialReadCapacity then maxCapacity
      else rootedJSONLInitialReadCapacity)"

text \<open>A slice is its content and its capacity.\<close>

type_synonym slice = "string \<times> nat"

definition growRootedJSONLBuffer :: "slice \<Rightarrow> nat \<Rightarrow> slice" where
  "growRootedJSONLBuffer b maxCapacity =
     (let current = snd b;
          growth = (if current > maxCapacity - current then maxCapacity - current else current)
      in (fst b, current + growth))"

text \<open>
  A read: the number of bytes reported, the bytes put into the buffer, the error. The rest
  of the buffer is zero.
\<close>

type_synonym 's reader = "nat \<Rightarrow> 's \<Rightarrow> (int \<times> string \<times> dberr option) \<times> 's"

definition buffer_prefix :: "nat \<Rightarrow> string \<Rightarrow> string" where
  "buffer_prefix n bs = take n (bs @ replicate n (CHR 0x00))"

lemma length_buffer_prefix [simp]: "length (buffer_prefix n bs) = n"
  by (simp add: buffer_prefix_def)

definition probeRootedJSONLOverflow :: "'s reader \<Rightarrow> slice \<Rightarrow> 's \<Rightarrow> slice res \<times> 's" where
  "probeRootedJSONLOverflow read content s =
     (case read 1 s of ((n, extra, readErr), s') \<Rightarrow>
        (if n < 0 \<or> n > 1 then Inl (ERoot ByteCount)
         else if n > 0 then Inl (ERoot MaxBytesExceeded)
         else case readErr of
           None \<Rightarrow> Inl (ERoot NoProgress)
         | Some e \<Rightarrow> if \<not> err_is e (\<lambda>x. x = EEOF) then Inl e else Inr content, s'))"

definition make_room :: "slice \<Rightarrow> nat \<Rightarrow> slice" where
  "make_room b maxCapacity =
     (if length (fst b) = snd b then growRootedJSONLBuffer b maxCapacity else b)"

lemma make_room_cap: "snd (make_room b m) \<le> max (snd b) m" "fst (make_room b m) = fst b"
  by (auto simp: make_room_def growRootedJSONLBuffer_def Let_def)

function read_loop :: "'s reader \<Rightarrow> nat \<Rightarrow> slice \<Rightarrow> 's \<Rightarrow> slice res \<times> 's" where
  "read_loop read maxCapacity b s =
     (if length (fst b) = snd b \<and> snd b = maxCapacity then probeRootedJSONLOverflow read b s
      else let b = make_room b maxCapacity; available = snd b - length (fst b) in
        case read available s of ((n, bytes, readErr), s') \<Rightarrow>
          if n < 0 \<or> n > int available then (Inl (ERoot ByteCount), s')
          else let content = (fst b @ buffer_prefix (nat n) bytes, snd b) in
            case readErr of
              Some e \<Rightarrow> (if err_is e (\<lambda>x. x = EEOF) then Inr content else Inl e, s')
            | None \<Rightarrow>
                if n = 0 then (Inl (ERoot NoProgress), s') else read_loop read maxCapacity content s')"
  by pat_completeness auto
termination
proof (relation "measure (\<lambda>(read, m, b, s). max (snd b) m - length (fst b))")
  fix read m and b x :: slice and xa xd xf and n :: int
  assume x: "x = make_room b m" and xa: "xa = snd x - length (fst x)"
    and "\<not> (n < 0 \<or> int xa < n)" "n \<noteq> 0"
    and xf: "xf = (fst x @ buffer_prefix (nat n) xd, snd x)"
  then have n: "0 < nat n" "nat n \<le> snd x - length (fst x)" by auto
  have "length (fst xf) = length (fst b) + nat n" "snd xf = snd x"
    using xf x by (auto simp: make_room_cap)
  with n x make_room_cap [of b m]
  show "((read, m, xf, s), read, m, b, s') \<in> measure (\<lambda>(read, m, b, s). max (snd b) m - length (fst b))" for s s'
    by auto
qed auto

declare read_loop.simps [simp del]

definition readJSONLContent ::
  "('s \<Rightarrow> string res \<times> 's) \<Rightarrow> 's reader \<Rightarrow> int \<Rightarrow> 's \<Rightarrow> string res \<times> 's" where
  "readJSONLContent readAll read maxBytes s =
     (if maxBytes < 0 then readAll s
      else case rootedJSONLBufferSize maxBytes of
        Inl e \<Rightarrow> (Inl e, s)
      | Inr maxCapacity \<Rightarrow>
          (case read_loop read maxCapacity ([], minRootedJSONLReadCapacity maxCapacity) s of
             (r, s') \<Rightarrow> (map_sum id fst r, s')))"

text \<open>
  A reader that delivers \<open>rest s\<close> in pieces of any positive size and then the end of the
  file. \<open>ok\<close> says that the source is usable, as an open file is.
\<close>

locale byte_source =
  fixes read :: "'s reader"
    and rest :: "'s \<Rightarrow> string"
    and ok :: "'s \<Rightarrow> bool"
  assumes read_law:
    "ok s \<Longrightarrow> 0 < k \<Longrightarrow> read k s = ((n, bs, err), s') \<Longrightarrow>
       ok s' \<and>
       ((\<exists>e. err = Some e \<and> \<not> err_is e (\<lambda>x. x = EEOF)) \<or>
        (rest s = [] \<and> n = 0 \<and> err = Some EEOF \<and> rest s' = []) \<or>
        (0 < n \<and> nat n \<le> k \<and> nat n \<le> length (rest s) \<and> bs = take (nat n) (rest s) \<and> err = None \<and>
         rest s' = drop (nat n) (rest s)))"
begin

text \<open>A read that fails with an error other than the end of the file.\<close>

definition failing :: bool where
  "failing \<longleftrightarrow> (\<exists>k s n bs e s'. ok s \<and> read k s = ((n, bs, Some e), s') \<and> \<not> err_is e (\<lambda>x. x = EEOF))"

lemma probe_outcome:
  assumes "ok s" and "\<not> failing"
  shows "fst (probeRootedJSONLOverflow read b s) = (if rest s = [] then Inr b else Inl (ERoot MaxBytesExceeded))"
proof -
  obtain n bs err s' where r: "read 1 s = ((n, bs, err), s')" by (cases "read 1 s") auto
  from assms r have "\<not> (\<exists>e. err = Some e \<and> \<not> err_is e (\<lambda>x. x = EEOF))" unfolding failing_def by blast
  with read_law [OF assms(1) _ r] show ?thesis
    unfolding probeRootedJSONLOverflow_def r by auto
qed

lemma probe_keeps: "fst (probeRootedJSONLOverflow read b s) = Inr c \<Longrightarrow> ok s \<Longrightarrow> c = b \<and> rest s = []"
  using read_law [of s 1]
  unfolding probeRootedJSONLOverflow_def
  by (cases "read 1 s") (auto split: if_splits option.splits)

lemma read_loop_outcome:
  assumes "length (fst b) \<le> snd b" and "0 < snd b" and "snd b \<le> m" and "ok s"
  shows "(\<forall>x c. fst (read_loop read m b s) = Inr (x, c) \<longrightarrow> x = fst b @ rest s \<and> length x \<le> c \<and> c \<le> m) \<and>
         (\<not> failing \<longrightarrow> (\<exists>c. fst (read_loop read m b s) =
            (if length (fst b @ rest s) \<le> m then Inr (fst b @ rest s, c) else Inl (ERoot MaxBytesExceeded))))"
  using assms
proof (induction "m - length (fst b)" arbitrary: b s rule: less_induct)
  case less
  show ?case
  proof (cases "length (fst b) = snd b \<and> snd b = m")
    case True
    then have "read_loop read m b s = probeRootedJSONLOverflow read b s" by (simp add: read_loop.simps)
    then have l: "fst (read_loop read m b s) = fst (probeRootedJSONLOverflow read b s)" by simp
    show ?thesis
    proof (intro conjI allI impI)
      fix x c
      assume "fst (read_loop read m b s) = Inr (x, c)"
      with l probe_keeps [of b s "(x, c)"] less.prems(4) have "(x, c) = b" "rest s = []" by simp_all
      with less.prems show "x = fst b @ rest s" "length x \<le> c" "c \<le> m" by auto
    next
      assume "\<not> failing"
      with l probe_outcome [OF less.prems(4), of b] True
      show "\<exists>c. fst (read_loop read m b s) =
          (if length (fst b @ rest s) \<le> m then Inr (fst b @ rest s, c) else Inl (ERoot MaxBytesExceeded))"
        by (cases b) (cases "rest s", auto)
    qed
  next
    case False
    define b' where "b' = make_room b m"
    have b': "fst b' = fst b" "snd b' \<le> m" "length (fst b) < snd b'" "0 < snd b' - length (fst b')"
      using False less.prems
      by (auto simp: b'_def make_room_def growRootedJSONLBuffer_def Let_def)
    obtain n bs err s' where r: "read (snd b' - length (fst b')) s = ((n, bs, err), s')"
      by (cases "read (snd b' - length (fst b')) s") auto
    consider (fail) e where "err = Some e" "\<not> err_is e (\<lambda>x. x = EEOF)" "failing"
      | (eof) "rest s = []" "n = 0" "err = Some EEOF"
      | (more) "0 < n" "nat n \<le> snd b' - length (fst b')" "nat n \<le> length (rest s)"
          "bs = take (nat n) (rest s)" "err = None" "rest s' = drop (nat n) (rest s)" "ok s'"
      using read_law [OF less.prems(4) b'(4) r] r less.prems(4) unfolding failing_def by blast
    then show ?thesis
    proof cases
      case fail
      have "\<exists>e. fst (read_loop read m b s) = Inl e"
        using False r fail(1,2) by (subst read_loop.simps) (auto simp: Let_def b'_def)
      with fail(3) show ?thesis by auto
    next
      case eof
      have "fst (read_loop read m b s) = Inr (fst b, snd b')"
        using False r eof b' by (subst read_loop.simps) (auto simp: Let_def b'_def buffer_prefix_def)
      with eof b' less.prems show ?thesis by auto
    next
      case more
      let ?c = "(fst b @ take (nat n) (rest s), snd b')"
      have bp: "buffer_prefix (nat n) bs = take (nat n) (rest s)"
        using more by (simp add: buffer_prefix_def)
      have step: "read_loop read m b s = read_loop read m ?c s'"
        using False r more b' bp by (subst read_loop.simps) (auto simp: Let_def b'_def)
      have l: "length (fst ?c) = length (fst b) + nat n" using more(3) by simp
      have e: "fst ?c @ rest s' = fst b @ rest s" using more(6) by simp
      have "m - length (fst ?c) < m - length (fst b)" "length (fst ?c) \<le> snd ?c" "0 < snd ?c" "snd ?c \<le> m"
        using l more(1,2) b' by auto
      from less.hyps [OF this more(7)] show ?thesis unfolding step e .
    qed
  qed
qed

lemma bounded_read:
  assumes "readJSONLContent readAll read maxBytes s = (r, s')" and "0 < maxBytes" and "maxBytes \<le> maxInt" and "ok s"
  shows "(\<forall>x. r = Inr x \<longrightarrow> x = rest s \<and> int (length x) \<le> maxBytes) \<and>
         (\<not> failing \<longrightarrow> r = (if int (length (rest s)) \<le> maxBytes then Inr (rest s) else Inl (ERoot MaxBytesExceeded)))"
proof -
  let ?m = "nat maxBytes"
  let ?b = "([], minRootedJSONLReadCapacity ?m)"
  have "length (fst ?b) \<le> snd ?b" "0 < snd ?b" "snd ?b \<le> ?m"
    using assms(2) by (auto simp: minRootedJSONLReadCapacity_def rootedJSONLInitialReadCapacity_def)
  note out = read_loop_outcome [OF this assms(4)]
  have o: "x = rest s \<and> length x \<le> ?m" if "fst (read_loop read ?m ?b s) = Inr (x, c)" for x c
    using conjunct1 [OF out] that by (auto intro: le_trans)
  have o2: "\<exists>c. fst (read_loop read ?m ?b s) =
            (if length (rest s) \<le> ?m then Inr (rest s, c) else Inl (ERoot MaxBytesExceeded))" if "\<not> failing"
    using mp [OF conjunct2 [OF out] that] by (auto split: if_splits)
  have r: "r = map_sum id fst (fst (read_loop read ?m ?b s))"
    using assms(1-3) by (auto simp: readJSONLContent_def rootedJSONLBufferSize_def rootedJSONLBufferSizeWithMax_def maxInt_def
        split: prod.splits)
  show ?thesis
  proof (intro conjI allI impI)
    fix x
    assume "r = Inr x"
    with r obtain c where "fst (read_loop read ?m ?b s) = Inr (x, c)"
      by (cases "fst (read_loop read ?m ?b s)") auto
    with o [of x c] assms(2) show "x = rest s" "int (length x) \<le> maxBytes" by auto
  next
    assume "\<not> failing"
    from o2 [OF this] r assms(2) show "r = (if int (length (rest s)) \<le> maxBytes then Inr (rest s) else Inl (ERoot MaxBytesExceeded))"
      by (auto split: if_splits)
  qed
qed

end

section \<open>Lines and records\<close>

definition bytes_LastIndexByte :: "string \<Rightarrow> char \<Rightarrow> int" where
  "bytes_LastIndexByte s c =
     (if c \<in> set s then int (length s - Suc (length (takeWhile (\<lambda>x. x \<noteq> c) (rev s)))) else -1)"

text \<open>What an interrupted append left after the last line end is not committed.\<close>

definition committed :: "string \<Rightarrow> string" where
  "committed content =
     (if content \<noteq> [] \<and> last content \<noteq> newline
      then take (nat (bytes_LastIndexByte content newline + 1)) content else content)"

text \<open>The loop of the recovery, which only checks, and the loop of the read, which collects.\<close>

fun check_lines :: "(string \<Rightarrow> bool) \<Rightarrow> string \<Rightarrow> nat \<Rightarrow> string list \<Rightarrow> unit res" where
  "check_lines V relativePath lineNumber [] = Inr ()"
| "check_lines V relativePath lineNumber (raw # raws) =
     (let line = strings_TrimSpace raw in
      if line = [] then check_lines V relativePath (lineNumber + 1) raws
      else if \<not> V line \<or> line ! 0 \<noteq> CHR 0x7B
           then Inl (EWrap ''committed'' (ERoot (InvalidJSONL relativePath (lineNumber + 1))))
      else check_lines V relativePath (lineNumber + 1) raws)"

fun collect_lines :: "(string \<Rightarrow> bool) \<Rightarrow> string \<Rightarrow> nat \<Rightarrow> string list \<Rightarrow> string list res" where
  "collect_lines V relativePath lineNumber [] = Inr []"
| "collect_lines V relativePath lineNumber (raw # raws) =
     (let line = strings_TrimSpace raw in
      if line = [] then collect_lines V relativePath (lineNumber + 1) raws
      else if \<not> V line \<or> line ! 0 \<noteq> CHR 0x7B
           then Inl (ERoot (InvalidJSONL relativePath (lineNumber + 1)))
      else rbind (collect_lines V relativePath (lineNumber + 1) raws) (\<lambda>records. Inr (line # records)))"

text \<open>The records of a file, and the files whose every line is blank or a JSON object.\<close>

definition jsonl_records :: "string \<Rightarrow> string list" where
  "jsonl_records content = filter (\<lambda>l. l \<noteq> []) (map strings_TrimSpace (strings_Split newline content))"

definition jsonl_object :: "(string \<Rightarrow> bool) \<Rightarrow> string \<Rightarrow> bool" where
  "jsonl_object V line \<longleftrightarrow> V line \<and> line ! 0 = CHR 0x7B"

definition jsonl_ok :: "(string \<Rightarrow> bool) \<Rightarrow> string \<Rightarrow> bool" where
  "jsonl_ok V content \<longleftrightarrow> list_all (jsonl_object V) (jsonl_records content)"

definition terminated :: "string \<Rightarrow> bool" where
  "terminated content \<longleftrightarrow> content = [] \<or> last content = newline"

lemma check_lines_iff [res_simps]:
  "check_lines V p n raws = Inr u \<longleftrightarrow>
     list_all (jsonl_object V) (filter (\<lambda>l. l \<noteq> []) (map strings_TrimSpace raws))"
  by (induction raws arbitrary: n) (auto simp: Let_def jsonl_object_def)

lemma collect_lines_iff [res_simps]:
  "collect_lines V p n raws = Inr rs \<longleftrightarrow>
     list_all (jsonl_object V) (filter (\<lambda>l. l \<noteq> []) (map strings_TrimSpace raws)) \<and>
     rs = filter (\<lambda>l. l \<noteq> []) (map strings_TrimSpace raws)"
  by (induction raws arbitrary: n rs) (auto simp: Let_def jsonl_object_def res_simps)

lemma committed_terminated [simp]: "terminated d \<Longrightarrow> committed d = d"
  by (auto simp: committed_def terminated_def)

lemma committed_tail: "terminated d \<Longrightarrow> newline \<notin> set x \<Longrightarrow> committed (d @ x) = d"
proof (cases "x = []")
  case False
  assume d: "terminated d" and x: "newline \<notin> set x"
  have l: "last (d @ x) \<noteq> newline" using False x by (metis last_appendR last_in_set)
  show ?thesis
  proof (cases d rule: rev_cases)
    case Nil
    with x False l show ?thesis by (simp add: committed_def bytes_LastIndexByte_def)
  next
    case (snoc d' c)
    with d have c: "c = newline" by (simp add: terminated_def)
    have "takeWhile (\<lambda>y. y \<noteq> newline) (rev (d @ x)) = rev x"
      using x snoc c by (subst rev_append, subst takeWhile_append2) auto
    with l snoc c False show ?thesis
      by (simp add: committed_def bytes_LastIndexByte_def nat_add_distrib)
  qed
qed simp

lemma committed_split: "\<exists>x. d = committed d @ x \<and> newline \<notin> set x \<and> terminated (committed d)"
proof (cases "newline \<in> set d")
  case True
  then obtain a x where d: "d = a @ newline # x" "newline \<notin> set x"
    by (meson split_list_last)
  then have "committed ((a @ [newline]) @ x) = a @ [newline]"
    by (intro committed_tail) (auto simp: terminated_def)
  with d show ?thesis by (auto simp: terminated_def)
next
  case False
  then have "committed ([] @ d) = []" by (intro committed_tail) (auto simp: terminated_def)
  with False show ?thesis by (auto simp: terminated_def)
qed

lemma committed_idem [simp]: "committed (committed d) = committed d" "terminated (committed d)"
  using committed_split [of d] by auto

lemma Split_app_sep: "strings_Split c (a @ c # b) = strings_Split c a @ strings_Split c b"
  by (induction a) (auto split: list.splits)

lemma TrimSpace_Nil [simp]: "strings_TrimSpace [] = []"
  by (simp add: strings_TrimSpace_def TrimLeftSpace.simps TrimRightSpace.simps)

text \<open>A line appended to a terminated file is one more record.\<close>

lemma jsonl_records_append:
  assumes "terminated d" and "newline \<notin> set x"
  shows "jsonl_records (d @ x @ [newline]) =
           jsonl_records d @ (if strings_TrimSpace x = [] then [] else [strings_TrimSpace x])"
proof (cases d rule: rev_cases)
  case Nil
  with assms show ?thesis by (simp add: jsonl_records_def Split_append_sep)
next
  case (snoc d' c)
  with assms show ?thesis
    by (simp add: terminated_def jsonl_records_def Split_app_sep Split_no_sep)
qed

text \<open>An append cut short adds no record; a whole one adds its own.\<close>

lemma committed_torn:
  assumes "newline \<notin> set x" and "strings_TrimSpace x = x" and "x \<noteq> []"
  shows "jsonl_records (committed (committed d @ take k (x @ [newline]))) \<in>
           {jsonl_records (committed d), jsonl_records (committed d) @ [x]}"
proof (cases "k \<le> length x")
  case True
  then have "newline \<notin> set (take k x)" using assms(1) by (meson in_set_takeD)
  with True show ?thesis using committed_tail [of "committed d" "take k x"] by simp
next
  case False
  then have t: "take k (x @ [newline]) = x @ [newline]" by simp
  have "terminated (committed d @ x @ [newline])" by (simp add: terminated_def)
  with t assms show ?thesis by (simp add: jsonl_records_append)
qed

section \<open>Containment\<close>

lemma rootedRelativePath_inside:
  assumes "rootedRelativePath p = Inr q"
  shows "q = path_Clean p \<and> \<not> rooted q \<and> csegs q \<noteq> [] \<and> list_all plain_seg (csegs q)"
proof -
  from assms have p: "p \<noteq> []" "\<not> rooted p" "q = path_Clean p" and q: "q \<noteq> ''.''" "q \<noteq> ''..''" "\<not> strings_HasPrefix q ''../''"
    by (auto simp: rootedRelativePath_def Let_def split: if_splits)
  have ne: "csegs p \<noteq> []" using p q(1) by (auto simp: path_Clean_def render_def)
  have hd: "hd (csegs p) \<noteq> ''..''"
  proof
    assume h: "hd (csegs p) = ''..''"
    with ne obtain ss where ss: "csegs p = ''..'' # ss" by (cases "csegs p") auto
    with p(2,3) q(2,3) show False
      by (cases ss) (auto simp: path_Clean_def render_def strings_HasPrefix_def)
  qed
  have "list_all plain_seg (csegs p)"
    using ok_stack_suffix_plain [of "rooted p" "csegs p" "[]"] csegs_ok [of p] ne hd by simp
  moreover have "\<not> rooted q" using p by (metis Clean_eq_iff Clean_idem)
  ultimately show ?thesis using p ne by simp
qed

end
