(* ===== verification/RootedFiles.thy ===== *)
theory RootedFiles
  imports JsonLines RecordIO
begin

text \<open>
  The rooted-files capability of \<open>rooted_files.go\<close> and \<open>rooted_files_unix.go\<close> over the file
  system of the model. Paths are relative to the opened scope directory, whose descriptor
  is \<open>lcRoot\<close>. Every call on a descriptor (\<open>rootedFileOps\<close>) and on the root takes one tick
  and can fail there; a failing append leaves any part of its bytes behind, a failing
  truncate or rename may or may not have happened. The descriptor in use is named by its
  path, with its offset in \<open>fdOff\<close>. \<open>json\<close>, the random bytes, the size of the pieces a read
  delivers and \<open>os.SameFile\<close> are parameters (\<open>rooted_api\<close>). The model has no symbolic links
  and waits for no lock.
\<close>

unbundle bit_operations_syntax

record lifecycle =
  lcRoot :: bool
  lcClosing :: bool
  lcClosed :: bool
  lcOperations :: int

record rworld = world +
  rfLife :: lifecycle
  rfSyncDirectory :: bool
  fdOff :: nat
  dirModes :: "nat go_map"
  lkActive :: bool

record 'v rooted_api =
  jMarshal :: "'v \<Rightarrow> string res"
  jUnmarshal :: "string \<Rightarrow> 'v res"
  jValid :: "string \<Rightarrow> bool"
  rRandom :: "nat \<Rightarrow> string res"
  rChunk :: "nat \<Rightarrow> nat"
  rSameFile :: "nat \<Rightarrow> bool"

type_synonym 'a rio = "(rworld, dberr, 'a) io"

text \<open>A deferred call whose error is dropped.\<close>

definition deferred :: "('s, dberr, 'b) io \<Rightarrow> ('s, dberr, 'a) io \<Rightarrow> ('s, dberr, 'a) io" where
  "deferred d m = (\<lambda>s. case m s of (r, s') \<Rightarrow> (r, snd (d s')))"

section \<open>Calls on the root and on open files\<close>

definition rootHandle :: "unit rio" where
  "rootHandle = (\<lambda>w. (if lcRoot (rfLife w) then Inr () else Inl (ERoot FilesClosed), w))"

definition fd_quiet :: "osenv \<Rightarrow> unit rio" where
  "fd_quiet E = os_call E intact (\<lambda>fs. (Inr (), fs))"

abbreviation fd_sync :: "osenv \<Rightarrow> unit rio" where "fd_sync E \<equiv> fd_quiet E"
abbreviation fd_close :: "osenv \<Rightarrow> unit rio" where "fd_close E \<equiv> fd_quiet E"
abbreviation rf_flock :: "osenv \<Rightarrow> unit rio" where "rf_flock E \<equiv> fd_quiet E"

definition open_data :: "string \<Rightarrow> fs \<Rightarrow> string res" where
  "open_data p fs =
     (case lookup_node fs p of Inr (NFile m d) \<Rightarrow> Inr d | _ \<Rightarrow> Inl (EIO ''bad file descriptor''))"

datatype whence = SeekStart | SeekEnd

definition fd_seek :: "osenv \<Rightarrow> string \<Rightarrow> whence \<Rightarrow> unit rio" where
  "fd_seek E p wh =
     iobind (os_call E intact (\<lambda>fs. (open_data p fs, fs))) (\<lambda>d w.
       (Inr (), w\<lparr>fdOff := (case wh of SeekStart \<Rightarrow> 0 | SeekEnd \<Rightarrow> length d)\<rparr>))"

definition fd_readAll :: "osenv \<Rightarrow> string \<Rightarrow> string rio" where
  "fd_readAll E p =
     iobind (os_call E intact (\<lambda>fs. (open_data p fs, fs))) (\<lambda>d w.
       (Inr (drop (fdOff w) d), w\<lparr>fdOff := max (fdOff w) (length d)\<rparr>))"

definition fd_read :: "osenv \<Rightarrow> (nat \<Rightarrow> nat) \<Rightarrow> string \<Rightarrow> rworld reader" where
  "fd_read E piece p k w =
     (case os_call E intact (\<lambda>fs. (open_data p fs, fs)) w of
        (Inl e, w') \<Rightarrow> ((0, [], Some e), w')
      | (Inr d, w') \<Rightarrow>
          (let rest = drop (fdOff w') d; n = min (length rest) (min k (Suc (piece (wTick w)))) in
           if rest = [] then ((0, [], Some EEOF), w')
           else ((int n, take n rest, None), w'\<lparr>fdOff := fdOff w' + n\<rparr>)))"

definition splice :: "string \<Rightarrow> nat \<Rightarrow> string \<Rightarrow> string" where
  "splice d off c = take off (d @ replicate (off - length d) (CHR 0x00)) @ c @ drop (off + length c) d"

text \<open>A write at the offset, or at the end of a file opened with \<open>O_APPEND\<close>.\<close>

definition write_node :: "bool \<Rightarrow> nat \<Rightarrow> string \<Rightarrow> string \<Rightarrow> fs \<Rightarrow> unit res \<times> fs" where
  "write_node app off p c fs =
     (case lookup_node fs p of
        Inr (NFile m d) \<Rightarrow>
          (Inr (), go_set (path_Clean p) (NFile m (splice d (if app then length d else off) c)) fs)
      | _ \<Rightarrow> (Inl (EIO ''bad file descriptor''), fs))"

definition fd_write :: "osenv \<Rightarrow> bool \<Rightarrow> string \<Rightarrow> string \<Rightarrow> unit rio" where
  "fd_write E app p c w =
     os_call E
       (\<lambda>t fs. case t of None \<Rightarrow> fs | Some k \<Rightarrow> snd (write_node app (fdOff w) p (take k c) fs))
       (write_node app (fdOff w) p c) w"

definition truncate_node :: "string \<Rightarrow> nat \<Rightarrow> fs \<Rightarrow> unit res \<times> fs" where
  "truncate_node p n fs =
     (case lookup_node fs p of
        Inr (NFile m d) \<Rightarrow>
          (Inr (), go_set (path_Clean p) (NFile m (take n (d @ replicate (n - length d) (CHR 0x00)))) fs)
      | _ \<Rightarrow> (Inl (EIO ''bad file descriptor''), fs))"

definition maybe_done :: "(fs \<Rightarrow> unit res \<times> fs) \<Rightarrow> nat option \<Rightarrow> fs \<Rightarrow> fs" where
  "maybe_done act t fs = (case t of None \<Rightarrow> fs | Some k \<Rightarrow> snd (act fs))"

definition fd_truncate :: "osenv \<Rightarrow> string \<Rightarrow> nat \<Rightarrow> unit rio" where
  "fd_truncate E p n = os_call E (maybe_done (truncate_node p n)) (truncate_node p n)"

text \<open>Opening a file with its flags: only what the flags in use can do.\<close>

datatype oflag = O_RDONLY | O_WRONLY | O_RDWR | O_APPEND | O_CREATE | O_EXCL

definition open_node :: "osenv \<Rightarrow> string \<Rightarrow> oflag list \<Rightarrow> nat \<Rightarrow> fs \<Rightarrow> unit res \<times> fs" where
  "open_node E p flags perm fs =
     (case lookup_node fs p of
        Inr n \<Rightarrow>
          if O_EXCL \<in> set flags \<and> O_CREATE \<in> set flags then (Inl EExist, fs)
          else if n = NDir \<and> O_RDONLY \<notin> set flags then (Inl (EIO ''is a directory''), fs)
          else (Inr (), fs)
      | Inl e \<Rightarrow>
          if e = ENotExist \<and> O_CREATE \<in> set flags \<and> p \<noteq> [] \<and> parent_ok fs p
          then (Inr (), go_set (path_Clean p) (NFile (osUmask E perm) []) fs)
          else (Inl e, fs))"

definition openFile :: "osenv \<Rightarrow> string \<Rightarrow> oflag list \<Rightarrow> nat \<Rightarrow> unit rio" where
  "openFile E p flags perm =
     iobind rootHandle (\<lambda>_.
     iobind (os_call E (maybe_done (open_node E p flags perm)) (open_node E p flags perm)) (\<lambda>_ w.
       (Inr (), w\<lparr>fdOff := 0\<rparr>)))"

definition root_Open :: "osenv \<Rightarrow> string \<Rightarrow> unit rio" where
  "root_Open E p =
     os_call E intact (\<lambda>fs. (if path_Clean p = ''.'' then Inr () else rbind (lookup_node fs p) (\<lambda>_. Inr ()), fs))"

definition mkdir_node :: "string \<Rightarrow> fs \<Rightarrow> unit res \<times> fs" where
  "mkdir_node p fs =
     (case lookup_node fs p of
        Inr n \<Rightarrow> (Inl EExist, fs)
      | Inl e \<Rightarrow>
          if e = ENotExist \<and> p \<noteq> [] \<and> parent_ok fs p then (Inr (), go_set (path_Clean p) NDir fs)
          else (Inl e, fs))"

definition root_Mkdir :: "osenv \<Rightarrow> string \<Rightarrow> nat \<Rightarrow> unit rio" where
  "root_Mkdir E p perm =
     iobind (os_call E (maybe_done (mkdir_node p)) (mkdir_node p)) (\<lambda>_ w.
       (Inr (), w\<lparr>dirModes := go_set (path_Clean p) (osUmask E perm) (dirModes w)\<rparr>))"

definition rename_node :: "string \<Rightarrow> string \<Rightarrow> fs \<Rightarrow> unit res \<times> fs" where
  "rename_node a b fs =
     (case lookup_node fs a of
        Inr (NFile m d) \<Rightarrow>
          (case lookup_node fs b of
             Inr NDir \<Rightarrow> (Inl EExist, fs)
           | Inr (NFile m' d') \<Rightarrow> (Inr (), go_set (path_Clean b) (NFile m d) (go_delete (path_Clean a) fs))
           | Inl e \<Rightarrow>
               if e = ENotExist \<and> parent_ok fs b
               then (Inr (), go_set (path_Clean b) (NFile m d) (go_delete (path_Clean a) fs))
               else (Inl e, fs))
      | Inr NDir \<Rightarrow> (Inl (EIO ''is a directory''), fs)
      | Inl e \<Rightarrow> (Inl e, fs))"

definition root_Rename :: "osenv \<Rightarrow> string \<Rightarrow> string \<Rightarrow> unit rio" where
  "root_Rename E a b = os_call E (maybe_done (rename_node a b)) (rename_node a b)"

section \<open>Directories\<close>

definition syncRootDirectory :: "osenv \<Rightarrow> string \<Rightarrow> unit rio" where
  "syncRootDirectory E p =
     iobind (iowrap ''open'' (root_Open E p)) (\<lambda>_. deferred (fd_close E) (iowrap ''sync'' (fd_sync E)))"

definition syncDir :: "osenv \<Rightarrow> string \<Rightarrow> unit rio" where
  "syncDir E p =
     iobind rootHandle (\<lambda>_.
     iobind (\<lambda>w. (if \<not> rfSyncDirectory w then Inl (EMsg ''rooted directory sync is unavailable'' []) else Inr (), w)) (\<lambda>_.
       iowrap (''sync JSON directory '' @ p) (syncRootDirectory E p)))"

fun mkdir_links :: "osenv \<Rightarrow> string \<Rightarrow> string list \<Rightarrow> unit rio" where
  "mkdir_links E current [] = ioret ()"
| "mkdir_links E current (segment # segments) =
     (let parent = current;
          current = (if parent = [] then segment else filepath_Join [parent, segment])
      in iobind (iocatch (iobind (root_Mkdir E current 493) (\<lambda>_. ioret True))
                   (\<lambda>e. if err_is e is_exist then ioret False
                        else iofail (EWrap (''create rooted directory '' @ current) e))) (\<lambda>created.
         if created
         then iobind (syncDir E (if parent = [] then ''.'' else parent)) (\<lambda>_.
              iobind (syncDir E current) (\<lambda>_. mkdir_links E current segments))
         else mkdir_links E current segments))"

definition mkdirParent :: "osenv \<Rightarrow> string \<Rightarrow> unit rio" where
  "mkdirParent E p =
     (let dir = path_Dir p in
      if dir = ''.'' then ioret ()
      else iobind rootHandle (\<lambda>_. mkdir_links E [] (strings_Split slash dir)))"

text \<open>\<open>EnsureDir\<close>: one top-level directory with its mode; modes are kept in \<open>dirModes\<close>.\<close>

definition root_Chmod :: "osenv \<Rightarrow> string \<Rightarrow> nat \<Rightarrow> unit rio" where
  "root_Chmod E p mode =
     iobind (fd_quiet E) (\<lambda>_ w. (Inr (), w\<lparr>dirModes := go_set (path_Clean p) mode (dirModes w)\<rparr>))"

definition mode_of :: "string \<Rightarrow> nat rio" where
  "mode_of p = (\<lambda>w. (Inr (case go_get (dirModes w) (path_Clean p) of Some m \<Rightarrow> m | None \<Rightarrow> 493), w))"

definition create_dir :: "osenv \<Rightarrow> string \<Rightarrow> nat \<Rightarrow> (bool \<times> node) rio" where
  "create_dir E p mode =
     (\<lambda>w. case os_Stat E p w of
        (Inr info, w') \<Rightarrow> (Inr (False, info), w')
      | (Inl e, w') \<Rightarrow>
          if err_is e is_not_exist
          then iobind (iocatch (iobind (root_Mkdir E p mode) (\<lambda>_. ioret True))
                         (\<lambda>e. if err_is e is_exist then ioret False
                              else iofail (EWrap (''create rooted directory '' @ p) e))) (\<lambda>created.
               iobind (iowrap (''inspect rooted directory '' @ p) (os_Stat E p)) (\<lambda>info. ioret (created, info))) w'
          else (Inl (EWrap (''inspect rooted directory '' @ p) e), w'))"

definition set_dir_mode :: "osenv \<Rightarrow> 'v rooted_api \<Rightarrow> string \<Rightarrow> nat \<Rightarrow> bool rio" where
  "set_dir_mode E A p mode =
     (\<lambda>w. case iobind (fd_quiet E) (\<lambda>_.
             iobind (\<lambda>w. (Inr (wTick w), w)) (\<lambda>n.
             iobind (ioguard (rSameFile A n) (EMsg ''rooted directory changed during acquisition'' [])) (\<lambda>_.
             iobind (mode_of p) (\<lambda>m.
               if m \<noteq> mode mod 512 then iobind (root_Chmod E p mode) (\<lambda>_. ioret True) else ioret False)))) w of
        (Inl e, w') \<Rightarrow> (Inl e, snd (fd_close E w'))
      | (Inr changed, w') \<Rightarrow> iobind (fd_close E) (\<lambda>_. ioret changed) w')"

definition ensureTopLevelDir :: "osenv \<Rightarrow> 'v rooted_api \<Rightarrow> string \<Rightarrow> nat \<Rightarrow> unit rio" where
  "ensureTopLevelDir E A p mode =
     iobind rootHandle (\<lambda>_.
     iobind (create_dir E p mode) (\<lambda>(created, info).
     iobind (ioguard (info = NDir) (EMsg ''rooted directory must be a real directory'' [p])) (\<lambda>_.
     iobind (iowrap (''open rooted directory '' @ p) (root_Open E p)) (\<lambda>_.
     iobind (iowrap (''set rooted directory mode '' @ p) (set_dir_mode E A p mode)) (\<lambda>modeChanged.
       if created then iobind (syncDir E ''.'') (\<lambda>_. syncDir E p)
       else if modeChanged then syncDir E p
       else ioret ())))))"

section \<open>Leases\<close>

definition begin_lease :: "lifecycle \<Rightarrow> lifecycle res" where
  "begin_lease l =
     (if lcClosed l \<or> lcClosing l then Inl (ERoot FilesClosed)
      else Inr (l\<lparr>lcOperations := lcOperations l + 1\<rparr>))"

text \<open>\<open>end_lease\<close> also says whether the condition of the waiting \<open>Close\<close> calls is broadcast.\<close>

definition end_lease :: "lifecycle \<Rightarrow> lifecycle \<times> bool" where
  "end_lease l = (let l' = l\<lparr>lcOperations := lcOperations l - 1\<rparr> in (l', lcOperations l' = 0))"

definition beginOperation :: "unit rio" where
  "beginOperation = (\<lambda>w. case begin_lease (rfLife w) of
     Inl e \<Rightarrow> (Inl e, w) | Inr l \<Rightarrow> (Inr (), w\<lparr>rfLife := l\<rparr>))"

definition endOperation :: "unit rio" where
  "endOperation = (\<lambda>w. (Inr (), w\<lparr>rfLife := fst (end_lease (rfLife w))\<rparr>))"

definition leased :: "'a rio \<Rightarrow> 'a rio" where
  "leased m = iobind beginOperation (\<lambda>_. deferred endOperation m)"

definition EnsureDir :: "osenv \<Rightarrow> 'v rooted_api \<Rightarrow> string \<Rightarrow> nat \<Rightarrow> unit rio" where
  "EnsureDir E A relativePath mode =
     (if 512 \<le> mode then iofail (EMsg ''rooted directory mode contains non-permission bits'' [])
      else if mode AND 320 \<noteq> 320 then iofail (EMsg ''rooted directory mode must include owner read and execute'' [])
      else leased (
        iobind (iolift (rootedRelativePath relativePath)) (\<lambda>p.
        iobind (ioguard (\<not> strings_Contains p [slash]) (EMsg ''rooted directory must be one top-level path segment'' [p])) (\<lambda>_.
          ensureTopLevelDir E A p mode))))"

section \<open>JSON lines\<close>

definition rf_locked :: "string \<Rightarrow> osenv \<Rightarrow> 'a rio \<Rightarrow> 'a rio" where
  "rf_locked kind E fn = iobind (iowrap (''acquire rooted '' @ kind @ '' file lock'') (rf_flock E)) (\<lambda>_. deferred (rf_flock E) fn)"

definition withRootedSharedFileLock :: "osenv \<Rightarrow> 'a rio \<Rightarrow> 'a rio" where
  "withRootedSharedFileLock E fn = rf_locked ''shared'' E fn"

definition withRootedExclusiveFileLock :: "osenv \<Rightarrow> 'a rio \<Rightarrow> 'a rio" where
  "withRootedExclusiveFileLock E fn = rf_locked ''exclusive'' E fn"

definition read_content :: "osenv \<Rightarrow> 'v rooted_api \<Rightarrow> string \<Rightarrow> int \<Rightarrow> string rio" where
  "read_content E A p maxBytes = readJSONLContent (fd_readAll E p) (fd_read E (rChunk A) p) maxBytes"

definition recoverJSONLTailWithLimit :: "osenv \<Rightarrow> 'v rooted_api \<Rightarrow> string \<Rightarrow> int \<Rightarrow> unit rio" where
  "recoverJSONLTailWithLimit E A p maxBytes =
     iobind (iowrap (''seek JSONL for recovery '' @ p) (fd_seek E p SeekStart)) (\<lambda>_.
     iobind (iowrap (''read JSONL for recovery '' @ p) (read_content E A p maxBytes)) (\<lambda>content.
     iobind (iolift (check_lines (jValid A) p 0 (strings_Split newline (committed content)))) (\<lambda>_.
     iobind (if length (committed content) \<noteq> length content
             then iobind (iowrap (''truncate interrupted JSONL tail '' @ p) (fd_truncate E p (length (committed content)))) (\<lambda>_.
                  iowrap (''sync recovered JSONL '' @ p) (fd_sync E))
             else ioret ()) (\<lambda>_.
       iowrap (''seek JSONL for append '' @ p) (fd_seek E p SeekEnd)))))"

definition recoverJSONLTail :: "osenv \<Rightarrow> 'v rooted_api \<Rightarrow> string \<Rightarrow> unit rio" where
  "recoverJSONLTail E A p = recoverJSONLTailWithLimit E A p (-1)"

definition readJSONLRecords :: "osenv \<Rightarrow> 'v rooted_api \<Rightarrow> string \<Rightarrow> int \<Rightarrow> string list rio" where
  "readJSONLRecords E A p maxBytes =
     iobind (iowrap (''seek JSONL for read '' @ p) (fd_seek E p SeekStart)) (\<lambda>_.
     iobind (iowrap (''read JSONL '' @ p) (read_content E A p maxBytes)) (\<lambda>content.
       if content \<noteq> [] \<and> last content \<noteq> newline then iofail (ERoot (InterruptedTail p))
       else iolift (collect_lines (jValid A) p 0 (strings_Split newline content))))"

fun open_attempts :: "nat \<Rightarrow> osenv \<Rightarrow> string \<Rightarrow> bool rio" where
  "open_attempts 0 E p = iofail (EMsg ''directory chain remained unavailable after concurrent rooted setup'' [])"
| "open_attempts (Suc n) E p =
     iobind (mkdirParent E p) (\<lambda>_.
     iobind (iocatch (iobind (os_Stat E p) (\<lambda>_. ioret False))
               (\<lambda>e. if err_is e is_not_exist then ioret True else iofail (EWrap ''stat'' e))) (\<lambda>created.
     (\<lambda>w. case openFile E p [O_RDWR, O_APPEND, O_CREATE] 420 w of
        (Inr _, w') \<Rightarrow> (Inr created, w')
      | (Inl e, w') \<Rightarrow> if \<not> err_is e is_not_exist then (Inl e, w') else open_attempts n E p w')))"

definition openJSONLAppendFile :: "osenv \<Rightarrow> string \<Rightarrow> bool rio" where
  "openJSONLAppendFile E p = open_attempts 3 E p"

definition appendJSONL :: "osenv \<Rightarrow> 'v rooted_api \<Rightarrow> string \<Rightarrow> 'v \<Rightarrow> unit rio" where
  "appendJSONL E A relativePath v =
     iobind (iolift (rootedRelativePath relativePath)) (\<lambda>p.
     iobind (iowrap ''encode JSONL record'' (iolift (jMarshal A v))) (\<lambda>content.
     iobind (ioguard (\<not> (content = [] \<or> content ! 0 \<noteq> CHR 0x7B)) (ERoot NotJSONObject)) (\<lambda>_.
     iobind (iowrap (''open JSONL append '' @ p) (openJSONLAppendFile E p)) (\<lambda>_.
       deferred (fd_close E) (withRootedExclusiveFileLock E (
         iobind (recoverJSONLTail E A p) (\<lambda>_.
         iobind (iowrap (''append JSONL '' @ p) (fd_write E True p (content @ [newline]))) (\<lambda>_.
         iobind (iowrap (''sync JSONL '' @ p) (fd_sync E)) (\<lambda>_.
           syncDir E (path_Dir p))))))))))"

definition AppendJSONL :: "osenv \<Rightarrow> 'v rooted_api \<Rightarrow> string \<Rightarrow> 'v \<Rightarrow> unit rio" where
  "AppendJSONL E A relativePath v = leased (appendJSONL E A relativePath v)"

definition readJSONL :: "osenv \<Rightarrow> 'v rooted_api \<Rightarrow> string \<Rightarrow> int \<Rightarrow> string list rio" where
  "readJSONL E A relativePath maxBytes =
     iobind (iolift (rootedRelativePath relativePath)) (\<lambda>p.
     iobind (iowrap (''open JSONL read '' @ p) (openFile E p [O_RDONLY] 0)) (\<lambda>_.
       deferred (fd_close E) (withRootedSharedFileLock E (readJSONLRecords E A p maxBytes))))"

definition ReadJSONL :: "osenv \<Rightarrow> 'v rooted_api \<Rightarrow> string \<Rightarrow> string list rio" where
  "ReadJSONL E A relativePath = leased (readJSONL E A relativePath (-1))"

definition ReadJSONLWithLimit :: "osenv \<Rightarrow> 'v rooted_api \<Rightarrow> string \<Rightarrow> int \<Rightarrow> string list rio" where
  "ReadJSONLWithLimit E A relativePath maxBytes =
     iobind (iolift (rootedJSONLBufferSize maxBytes)) (\<lambda>_. leased (readJSONL E A relativePath maxBytes))"

definition recoverAndReadJSONL :: "osenv \<Rightarrow> 'v rooted_api \<Rightarrow> string \<Rightarrow> int \<Rightarrow> string list rio" where
  "recoverAndReadJSONL E A relativePath maxBytes =
     (if maxBytes = 0 \<or> maxBytes < -1 then iofail (ERoot (MaxBytesInvalid maxBytes))
      else iobind (if 0 \<le> maxBytes then iolift (rbind (rootedJSONLBufferSize maxBytes) (\<lambda>_. Inr ())) else ioret ()) (\<lambda>_.
        iobind (iolift (rootedRelativePath relativePath)) (\<lambda>p.
        iobind (iowrap (''open JSONL recovery read '' @ p) (openFile E p [O_RDWR] 0)) (\<lambda>_.
          deferred (fd_close E) (withRootedExclusiveFileLock E (
            iobind (recoverJSONLTailWithLimit E A p maxBytes) (\<lambda>_. readJSONLRecords E A p maxBytes)))))))"

section \<open>Whole documents\<close>

definition hex_digit :: "nat \<Rightarrow> char" where
  "hex_digit n = ''0123456789abcdef'' ! n"

definition hex_EncodeToString :: "string \<Rightarrow> string" where
  "hex_EncodeToString bs = concat (map (\<lambda>c. [hex_digit (of_char c div 16), hex_digit (of_char c mod 16)]) bs)"

definition rootedTemporaryPath :: "'v rooted_api \<Rightarrow> string \<Rightarrow> string \<Rightarrow> string rio" where
  "rootedTemporaryPath A dir base =
     iobind (\<lambda>w. (rRandom A (wTick w), w\<lparr>wTick := Suc (wTick w)\<rparr>)) (\<lambda>random.
       ioret (filepath_Join [dir, ''.'' @ base @ ''.tmp-'' @ hex_EncodeToString random]))"

definition publish_temp :: "osenv \<Rightarrow> string \<Rightarrow> string \<Rightarrow> string \<Rightarrow> unit rio" where
  "publish_temp E tempPath p content =
     iobind (iocatch (fd_write E False tempPath content) (\<lambda>e.
               deferred (fd_close E) (iofail (EWrap (''write JSON temporary file '' @ tempPath) e)))) (\<lambda>_.
     iobind (iocatch (fd_sync E) (\<lambda>e.
               deferred (fd_close E) (iofail (EWrap (''sync JSON temporary file '' @ tempPath) e)))) (\<lambda>_.
     iobind (iowrap (''close JSON temporary file '' @ tempPath) (fd_close E)) (\<lambda>_.
     iobind (iowrap (''publish JSON '' @ p) (root_Rename E tempPath p)) (\<lambda>_.
       syncDir E (path_Dir p)))))"

definition writeJSONAtomicLocked :: "osenv \<Rightarrow> 'v rooted_api \<Rightarrow> string \<Rightarrow> 'v \<Rightarrow> nat \<Rightarrow> unit rio" where
  "writeJSONAtomicLocked E A relativePath v mode =
     iobind (iolift (rootedRelativePath relativePath)) (\<lambda>p.
     iobind (iowrap (''encode JSON '' @ p) (iolift (jMarshal A v))) (\<lambda>content.
     iobind (mkdirParent E p) (\<lambda>_.
     iobind (iowrap ''generate temporary JSON file suffix'' (rootedTemporaryPath A (path_Dir p) (path_Base p))) (\<lambda>tempPath.
     iobind (iowrap (''create JSON temporary file '' @ tempPath) (openFile E tempPath [O_WRONLY, O_CREATE, O_EXCL] mode)) (\<lambda>_.
       iocatch (publish_temp E tempPath p (content @ [newline]))
         (\<lambda>e. deferred (os_Remove E tempPath) (iofail e)))))))"

definition writeJSONAtomic :: "osenv \<Rightarrow> 'v rooted_api \<Rightarrow> string \<Rightarrow> 'v \<Rightarrow> nat \<Rightarrow> unit rio" where
  "writeJSONAtomic E A relativePath v mode = leased (writeJSONAtomicLocked E A relativePath v mode)"

definition WriteJSONAtomicWithMode :: "osenv \<Rightarrow> 'v rooted_api \<Rightarrow> string \<Rightarrow> 'v \<Rightarrow> nat \<Rightarrow> unit rio" where
  "WriteJSONAtomicWithMode E A relativePath v mode =
     (if 512 \<le> mode then iofail (EMsg ''JSON file mode contains non-permission bits'' [])
      else writeJSONAtomic E A relativePath v mode)"

definition WriteJSONAtomic :: "osenv \<Rightarrow> 'v rooted_api \<Rightarrow> string \<Rightarrow> 'v \<Rightarrow> unit rio" where
  "WriteJSONAtomic E A relativePath v = writeJSONAtomic E A relativePath v 420"

definition readJSON :: "osenv \<Rightarrow> 'v rooted_api \<Rightarrow> string \<Rightarrow> 'v rio" where
  "readJSON E A relativePath =
     iobind (iolift (rootedRelativePath relativePath)) (\<lambda>p.
     iobind rootHandle (\<lambda>_.
     iobind (iowrap (''read JSON '' @ p) (os_ReadFile E p)) (\<lambda>content.
       iowrap (''decode JSON '' @ p) (iolift (jUnmarshal A content)))))"

definition ReadJSON :: "osenv \<Rightarrow> 'v rooted_api \<Rightarrow> string \<Rightarrow> 'v rio" where
  "ReadJSON E A relativePath = leased (readJSON E A relativePath)"

definition dir_entries :: "fs \<Rightarrow> string \<Rightarrow> (string \<times> node) list" where
  "dir_entries fs p =
     map (\<lambda>(q, n). (last (csegs q), n))
       (filter (\<lambda>(q, n). csegs q \<noteq> [] \<and> butlast (csegs q) = csegs p \<and> rooted q = rooted p) fs)"

definition readDir :: "osenv \<Rightarrow> string \<Rightarrow> (string \<times> node) list rio" where
  "readDir E relativePath =
     iobind (iolift (rootedRelativePath relativePath)) (\<lambda>p.
     iobind rootHandle (\<lambda>_.
     iobind (iowrap (''open rooted directory '' @ p) (root_Open E p)) (\<lambda>_.
       iowrap (''read rooted directory '' @ p) (\<lambda>w.
         case os_call E intact (\<lambda>fs. (rbind (lookup_node fs p) (\<lambda>n.
                if n = NDir then Inr (dir_entries fs p) else Inl (EIO ''not a directory'')), fs)) w of
           (Inl e, w') \<Rightarrow> (Inl e, snd (fd_close E w'))
         | (Inr entries, w') \<Rightarrow> iobind (fd_close E) (\<lambda>_. ioret entries) w'))))"

definition ReadDir :: "osenv \<Rightarrow> string \<Rightarrow> (string \<times> node) list rio" where
  "ReadDir E relativePath = leased (readDir E relativePath)"

section \<open>The callback of an exclusive lock\<close>

text \<open>
  What a callback can do with its \<open>LockedFiles\<close> view, as a tree of calls and continuations.
  The view is live while \<open>lkActive\<close> holds.
\<close>

datatype 'v locked_op =
    LAppendJSONL string 'v
  | LReadJSONL string
  | LReadJSONLWithLimit string int
  | LWriteJSONAtomic string 'v
  | LWriteJSONAtomicWithMode string 'v nat
  | LReadJSON string
  | LReadDir string

datatype 'v locked_reply =
    LUnit
  | LRecords "string list"
  | LValue 'v
  | LEntries "(string \<times> node) list"

datatype 'v callback =
    CReturn "unit res"
  | CCall "'v locked_op" "'v locked_reply res \<Rightarrow> 'v callback"

definition if_active :: "'a rio \<Rightarrow> 'a rio" where
  "if_active m = (\<lambda>w. if \<not> lkActive w then (Inl (ERoot LockExpired), w) else m w)"

definition ioreply :: "('a \<Rightarrow> 'b) \<Rightarrow> 'a rio \<Rightarrow> 'b rio" where
  "ioreply f m = iobind m (\<lambda>x. ioret (f x))"

fun locked_call :: "osenv \<Rightarrow> 'v rooted_api \<Rightarrow> 'v locked_op \<Rightarrow> 'v locked_reply rio" where
  "locked_call E A (LAppendJSONL p v) = ioreply (\<lambda>_. LUnit) (if_active (appendJSONL E A p v))"
| "locked_call E A (LReadJSONL p) = ioreply LRecords (if_active (recoverAndReadJSONL E A p (-1)))"
| "locked_call E A (LReadJSONLWithLimit p maxBytes) =
     iobind (iolift (rootedJSONLBufferSize maxBytes)) (\<lambda>_.
       ioreply LRecords (if_active (recoverAndReadJSONL E A p maxBytes)))"
| "locked_call E A (LWriteJSONAtomic p v) = ioreply (\<lambda>_. LUnit) (if_active (writeJSONAtomicLocked E A p v 420))"
| "locked_call E A (LWriteJSONAtomicWithMode p v mode) =
     ioreply (\<lambda>_. LUnit) (if_active (
       if 512 \<le> mode then iofail (EMsg ''JSON file mode contains non-permission bits'' [])
       else writeJSONAtomicLocked E A p v mode))"
| "locked_call E A (LReadJSON p) = ioreply LValue (if_active (readJSON E A p))"
| "locked_call E A (LReadDir p) = ioreply LEntries (if_active (readDir E p))"

primrec run_callback :: "osenv \<Rightarrow> 'v rooted_api \<Rightarrow> 'v callback \<Rightarrow> unit rio" where
  "run_callback E A (CReturn r) = iolift r"
| "run_callback E A (CCall op k) = (\<lambda>w. case locked_call E A op w of (r, w') \<Rightarrow> run_callback E A (k r) w')"

definition invalidate :: "unit rio" where
  "invalidate = (\<lambda>w. (Inr (), w\<lparr>lkActive := False\<rparr>))"

definition withRootedExclusiveFileLockContext :: "osenv \<Rightarrow> 'a rio \<Rightarrow> 'a rio" where
  "withRootedExclusiveFileLockContext E fn = rf_locked ''exclusive'' E fn"

definition open_lock :: "osenv \<Rightarrow> string \<Rightarrow> bool rio" where
  "open_lock E p =
     iobind (mkdirParent E p) (\<lambda>_.
     iobind rootHandle (\<lambda>_.
     iobind (iocatch (iobind (os_Stat E p) (\<lambda>_. ioret False))
               (\<lambda>e. if err_is e is_not_exist then ioret True else iofail (EWrap (''stat rooted lock '' @ p) e))) (\<lambda>created.
     iobind (openFile E p [O_CREATE, O_RDWR] 384) (\<lambda>_. ioret created))))"

definition WithExclusiveLock ::
  "osenv \<Rightarrow> 'v rooted_api \<Rightarrow> string \<Rightarrow> 'v callback option \<Rightarrow> unit rio" where
  "WithExclusiveLock E A relativePath fn =
     (case fn of
        None \<Rightarrow> iofail (EMsg ''rooted files lock callback is required'' [])
      | Some cb \<Rightarrow>
          iobind (ctx_Err E) (\<lambda>_. leased (
          iobind (iolift (rootedRelativePath relativePath)) (\<lambda>p.
          iobind (iowrap (''open rooted exclusive lock '' @ p) (open_lock E p)) (\<lambda>created.
            deferred (fd_close E) (
            iobind (iowrap (''open rooted exclusive lock '' @ p) (if created then syncDir E (path_Dir p) else ioret ())) (\<lambda>_.
            withRootedExclusiveFileLockContext E (
              iobind (\<lambda>w. (Inr (), w\<lparr>lkActive := True\<rparr>)) (\<lambda>_.
                deferred invalidate (run_callback E A cb)))))))))) "

section \<open>Opening a capability\<close>

text \<open>
  \<open>OpenRootedFiles\<close> and \<open>openRootedFilesWithProject\<close> over an abstract operating system: what
  \<open>Lstat\<close> says of a path, what \<open>Stat\<close> says of an opened root. \<open>fiFile\<close> identifies a file for
  \<open>os.SameFile\<close>; the answers may differ from call to call, as they do when a directory is
  swapped in between.
\<close>

record finfo =
  fiSymlink :: bool
  fiDir :: bool
  fiFile :: nat

record ('h, 's) rootos =
  roAbs :: "string \<Rightarrow> string res"
  roLstat :: "string \<Rightarrow> ('s, dberr, finfo) io"
  roOpenProject :: "string \<Rightarrow> ('s, dberr, 'h) io"
  roStatRoot :: "'h \<Rightarrow> ('s, dberr, finfo) io"
  roLstatIn :: "'h \<Rightarrow> string \<Rightarrow> ('s, dberr, finfo) io"
  roMkdir :: "'h \<Rightarrow> string \<Rightarrow> ('s, dberr, unit) io"
  roSyncDir :: "'h \<Rightarrow> string \<Rightarrow> ('s, dberr, unit) io"
  roOpenScope :: "'h \<Rightarrow> string \<Rightarrow> ('s, dberr, 'h) io"
  roClose :: "'h \<Rightarrow> ('s, dberr, unit) io"

definition real_dir :: "finfo \<Rightarrow> bool" where
  "real_dir i \<longleftrightarrow> \<not> (fiSymlink i \<or> \<not> fiDir i)"

definition ensureRealRootedScope :: "('h, 's) rootos \<Rightarrow> 'h \<Rightarrow> string \<Rightarrow> ('s, dberr, finfo) io" where
  "ensureRealRootedScope S h pre =
     iobind (iocatch (roLstatIn S h pre) (\<lambda>e.
       if err_is e is_not_exist
       then iobind (iocatch (iobind (roMkdir S h pre) (\<lambda>_. ioret True))
                      (\<lambda>e. if err_is e is_exist then ioret False
                           else iofail (EWrap (''create rooted files scope '' @ pre) e))) (\<lambda>created.
            iobind (if created
                    then iobind (iowrap ''sync rooted files scope parent'' (roSyncDir S h ''.'')) (\<lambda>_.
                         iowrap (''sync rooted files scope '' @ pre) (roSyncDir S h pre))
                    else ioret ()) (\<lambda>_.
            iowrap (''inspect rooted files scope '' @ pre) (roLstatIn S h pre)))
       else iofail (EWrap (''inspect rooted files scope '' @ pre) e))) (\<lambda>info.
     if \<not> real_dir info then iofail (EMsg ''rooted files scope must be a real directory'' [pre])
     else ioret info)"

definition open_scope :: "('h, 's) rootos \<Rightarrow> 'h \<Rightarrow> string \<Rightarrow> ('s, dberr, 'h) io" where
  "open_scope S project pre =
     iobind (ensureRealRootedScope S project pre) (\<lambda>verifiedScope.
     iobind (iowrap (''open rooted files scope '' @ pre) (roOpenScope S project pre)) (\<lambda>h.
     iobind (iocatch (iowrap (''stat opened rooted files scope '' @ pre) (roStatRoot S h)) (\<lambda>e.
               deferred (roClose S h) (iofail e))) (\<lambda>openedScope.
       if fiFile verifiedScope \<noteq> fiFile openedScope
       then deferred (roClose S h) (iofail (EMsg ''rooted files scope changed during acquisition'' [pre]))
       else ioret h)))"

definition openRootedFilesWithProject :: "('h, 's) rootos \<Rightarrow> string \<Rightarrow> string \<Rightarrow> ('s, dberr, 'h) io" where
  "openRootedFilesWithProject S projectPath scope =
     iobind (iolift (scope_validate scope)) (\<lambda>pre.
     iobind (ioguard (strings_TrimSpace projectPath \<noteq> []) (EMsg ''rooted files project path is required'' [])) (\<lambda>_.
     iobind (iowrap ''absolute rooted files path'' (iolift (roAbs S projectPath))) (\<lambda>abs0.
     let abs = path_Clean abs0 in
     iobind (iowrap ''rooted files root'' (roLstat S abs)) (\<lambda>verifiedProject.
     iobind (ioguard (real_dir verifiedProject) (EMsg ''rooted files root must be a real directory'' [])) (\<lambda>_.
     iobind (iowrap ''open rooted files root'' (roOpenProject S abs)) (\<lambda>project.
       deferred (roClose S project) (
       iobind (iowrap ''stat opened rooted files root'' (roStatRoot S project)) (\<lambda>openedProject.
       iobind (ioguard (fiFile verifiedProject = fiFile openedProject)
                 (EMsg ''rooted files root changed during acquisition'' [])) (\<lambda>_.
         open_scope S project pre)))))))))"

text \<open>\<open>wrapRootedFilesDatabase\<close>: the scopes a mount authorizes; \<open>None\<close> is the database as it is.\<close>

definition wrapRootedFilesDatabase :: "string list \<Rightarrow> string list option res" where
  "wrapRootedFilesDatabase scopes =
     (if scopes = [] then Inr None else rbind (rtraverse scope_validate scopes) (\<lambda>ps. Inr (Some ps)))"

definition OpenRootedFiles ::
  "('h, 's) rootos \<Rightarrow> ('s, dberr, unit) io \<Rightarrow> string list \<Rightarrow> string option \<Rightarrow> string \<Rightarrow> ('s, dberr, 'h) io" where
  "OpenRootedFiles S ctx scopes backend scope =
     iobind ctx (\<lambda>_.
     iobind (iolift (scope_validate scope)) (\<lambda>pre.
     iobind (ioguard (pre \<in> set scopes) (EMsg ''rooted files scope is not authorized'' [pre])) (\<lambda>_.
       case backend of
         None \<Rightarrow> iofail (EMsg ''rooted files backend unavailable'' [])
       | Some projectPath \<Rightarrow> openRootedFilesWithProject S projectPath pre)))"

definition RootedFilesFor ::
  "('h, 's) rootos \<Rightarrow> ('s, dberr, unit) io \<Rightarrow> (string list \<times> string option) option option \<Rightarrow> string \<Rightarrow> ('s, dberr, 'h) io" where
  "RootedFilesFor S ctx db scope =
     (case db of
        None \<Rightarrow> iofail (EMsg ''rooted files database is required'' [])
      | Some None \<Rightarrow> iofail (EMsg ''database does not provide authorized rooted files'' [])
      | Some (Some (scopes, backend)) \<Rightarrow> OpenRootedFiles S ctx scopes backend scope)"

section \<open>What deferred and wrapped calls keep\<close>

context world_frame
begin

lemma frame_iowrap: "iokeeps R m \<Longrightarrow> iokeeps R (iowrap msg m)"
  unfolding iowrap_def by (rule keeps_catch) simp_all

lemma bind_at:
  assumes "R s (snd (m s))" and "\<And>x t. m s = (Inr x, t) \<Longrightarrow> R t (snd (f x t))"
  shows "R s (snd (iobind m f s))"
proof (cases "m s")
  case (Pair r t)
  with assms frame_trans [of s t] show ?thesis by (cases r) (auto simp: iobind_def)
qed

lemma iowrap_at: "R s (snd (m s)) \<Longrightarrow> R s (snd (iowrap msg m s))"
  by (auto simp: iowrap_def iocatch_def iofail_def split: prod.splits sum.splits)

lemma frame_deferred:
  assumes "iokeeps R d" and "iokeeps R m"
  shows "iokeeps R (deferred d m)"
proof
  fix s
  obtain r t where m: "m s = (r, t)" by (cases "m s")
  have "R s t" using assms(2) m by (rule iokeepsD)
  moreover have "R t (snd (d t))" using assms(1) by (simp add: iokeeps_def)
  ultimately show "R s (snd (deferred d m s))" using m frame_trans by (simp add: deferred_def)
qed

end

end
