(* ===== verification/RootedProperties.thy ===== *)
theory RootedProperties
  imports RootedFiles
begin

text \<open>
  What the rooted-files capability promises: committed JSON lines survive every failure, a
  successful append is read back, a document is replaced whole or not at all, a bounded
  read is exact, and an opened capability is the directory that was verified.
\<close>

section \<open>Calls that leave the files alone\<close>

definition still :: "rworld \<Rightarrow> rworld \<Rightarrow> bool" where
  "still w w' \<longleftrightarrow> wFs w' = wFs w \<and> rfLife w' = rfLife w"

interpretation still: world_frame still
  by unfold_locales (auto simp: still_def)

context world_frame
begin

lemma frame_read_loop:
  assumes "\<forall>k s. R s (snd (rd k s))"
  shows "R s (snd (read_loop rd m b s))"
  using assms
proof (induction rd m b s rule: read_loop.induct)
  case (1 rd m b s)
  show ?case
  proof (cases "length (fst b) = snd b \<and> snd b = m")
    case True
    then have l: "read_loop rd m b s = probeRootedJSONLOverflow rd b s" by (simp add: read_loop.simps)
    show ?thesis
      using 1(2) unfolding l by (cases "rd 1 s") (metis (no_types, lifting) old.prod.case probeRootedJSONLOverflow_def snd_conv split_pairs)
  next
    case False
    define b' where "b' = make_room b m"
    obtain n bs err t where r: "rd (snd b' - length (fst b')) s = ((n, bs, err), t)"
      by (cases "rd (snd b' - length (fst b')) s") auto
    with 1(2) have st: "R s t" by (metis snd_conv)
    have "R t (snd (read_loop rd m (fst b' @ buffer_prefix (nat n) bs, snd b') t))"
      if "\<not> (n < 0 \<or> n > int (snd b' - length (fst b')))" "err = None" "n \<noteq> 0"
      by (rule 1(1) [OF False b'_def refl r [symmetric] refl refl that(1) refl that(2) that(3) 1(2)])
    with False r st show ?thesis
      by (subst read_loop.simps) (auto simp: Let_def b'_def [symmetric] intro: frame_trans split: option.splits)
  qed
qed

end

lemma still_calls [simp]:
  "iokeeps still rootHandle" "iokeeps still (fd_quiet E)" "iokeeps still (fd_seek E p wh)"
  "iokeeps still (fd_readAll E p)" "iokeeps still (root_Open E p)" "iokeeps still (os_Stat E p)"
  "iokeeps still (os_ReadFile E p)" "iokeeps still (ctx_Err E)"
  by (auto simp: iokeeps_def still_def rootHandle_def fd_quiet_def fd_seek_def fd_readAll_def root_Open_def
      os_Stat_def os_ReadFile_def ctx_Err_def os_call_def intact_def iobind_def Let_def
      split: option.splits prod.splits sum.splits)

lemma still_read: "still w (snd (fd_read E piece p k w))"
  by (auto simp: still_def fd_read_def os_call_def intact_def Let_def split: option.splits prod.splits sum.splits)

lemma still_content [simp]: "iokeeps still (read_content E A p maxBytes)"
proof
  fix w
  have loop: "still w (snd (read_loop (fd_read E (rChunk A) p) m b w))" for m b
    by (rule still.frame_read_loop) (simp add: still_read)
  have readAll: "still w (snd (fd_readAll E p w))"
    using still_calls(4) [of E p] unfolding iokeeps_def by blast
  have ret: "still w (snd (Inl e :: string res, w))" for e by (simp add: still.frame_refl)
  show "still w (snd (read_content E A p maxBytes w))"
    using readAll ret loop
    by (simp add: read_content_def readJSONLContent_def case_prod_beta split: sum.split)
qed

lemmas still_intros = still.keeps_intros still.frame_iowrap still.frame_deferred

lemma still_records: "iokeeps still (readJSONLRecords E A p maxBytes)"
  unfolding readJSONLRecords_def by (auto intro!: still_intros)

lemma still_sync: "iokeeps still (syncDir E p)"
  unfolding syncDir_def syncRootDirectory_def
  by (auto intro!: still_intros) (simp_all add: iokeeps_def still_def)

section \<open>The content of an open file\<close>

definition file_data :: "fs \<Rightarrow> string \<Rightarrow> string" where
  "file_data fs q = (case data_at fs q of Some d \<Rightarrow> d | None \<Rightarrow> [])"

lemma open_data_file: "open_data p fs = Inr d \<Longrightarrow> file_data fs (path_Clean p) = d"
  by (auto simp: open_data_def file_data_def data_at_def split: sum.splits node.splits dest!: lookup_node_file)

definition fd_rest :: "string \<Rightarrow> rworld \<Rightarrow> string" where
  "fd_rest p w = (case open_data p (wFs w) of Inr d \<Rightarrow> drop (fdOff w) d | Inl _ \<Rightarrow> [])"

definition fd_ok :: "string \<Rightarrow> rworld \<Rightarrow> bool" where
  "fd_ok p w \<longleftrightarrow> (\<exists>d. open_data p (wFs w) = Inr d)"

interpretation fd: byte_source "fd_read E piece p" "fd_rest p" "fd_ok p" for E piece p
proof
  fix s k n bs err s'
  assume ok: "fd_ok p s" and k: "0 < k" and r: "fd_read E piece p k s = ((n, bs, err), s')"
  from ok obtain d where d: "open_data p (wFs s) = Inr d" by (auto simp: fd_ok_def)
  have fs: "wFs s' = wFs s" using still_read [of s E piece p k] r by (simp add: still_def)
  have "(\<exists>e. err = Some e \<and> \<not> err_is e (\<lambda>x. x = EEOF)) \<or>
        (fd_rest p s = [] \<and> n = 0 \<and> err = Some EEOF \<and> fdOff s' = fdOff s) \<or>
        (0 < n \<and> nat n \<le> k \<and> nat n \<le> length (fd_rest p s) \<and> bs = take (nat n) (fd_rest p s) \<and> err = None \<and>
         fdOff s' = fdOff s + nat n)"
    using r d k
    by (auto simp: fd_read_def os_call_def intact_def Let_def fd_rest_def split: option.splits if_splits)
  with fs d show "fd_ok p s' \<and>
       ((\<exists>e. err = Some e \<and> \<not> err_is e (\<lambda>x. x = EEOF)) \<or>
        (fd_rest p s = [] \<and> n = 0 \<and> err = Some EEOF \<and> fd_rest p s' = []) \<or>
        (0 < n \<and> nat n \<le> k \<and> nat n \<le> length (fd_rest p s) \<and> bs = take (nat n) (fd_rest p s) \<and> err = None \<and>
         fd_rest p s' = drop (nat n) (fd_rest p s)))"
    by (auto simp: fd_ok_def fd_rest_def add.commute)
qed

lemma fd_seek_start: "fd_seek E p SeekStart w = (Inr u, w') \<Longrightarrow> fd_ok p w' \<and> fdOff w' = 0 \<and> still w w'"
  using iokeepsD [OF still_calls(3) [of E p SeekStart], of w "Inr u" w']
  by (auto simp: fd_seek_def res_simps os_call_Inr fd_ok_def still_def)

lemma read_content_Inr:
  assumes "fd_seek E p SeekStart w = (Inr u, w1)" and "read_content E A p maxBytes w1 = (Inr c, w2)"
  shows "open_data p (wFs w) = Inr c"
proof -
  from fd_seek_start [OF assms(1)] obtain d where d: "open_data p (wFs w1) = Inr d" "fdOff w1 = 0" "fd_ok p w1"
      "wFs w1 = wFs w"
    by (auto simp: fd_ok_def still_def)
  have "c = d"
  proof (cases "maxBytes < 0")
    case True
    with assms(2) d show ?thesis
      by (auto simp: read_content_def readJSONLContent_def fd_readAll_def res_simps os_call_Inr)
  next
    case False
    with assms(2) have "0 < maxBytes" "maxBytes \<le> maxInt"
      by (auto simp: read_content_def readJSONLContent_def rootedJSONLBufferSize_def rootedJSONLBufferSizeWithMax_def
          split: if_splits)
    with fd.bounded_read [OF assms(2) [unfolded read_content_def] _ _ d(3)] d show ?thesis
      by (simp add: fd_rest_def)
  qed
  with d show ?thesis by simp
qed

section \<open>Recovery\<close>

text \<open>
  What may happen to a file of JSON lines before a new line is written: it stays, comes
  into being empty, or loses what follows its last line end. No other file changes.
\<close>

definition settled :: "string \<Rightarrow> rworld \<Rightarrow> rworld \<Rightarrow> bool" where
  "settled q w w' \<longleftrightarrow>
     same_files_but {q} (wFs w) (wFs w') \<and> lcRoot (rfLife w') = lcRoot (rfLife w) \<and>
     file_data (wFs w') q \<in> {file_data (wFs w) q, committed (file_data (wFs w) q)}"

interpretation settled: world_frame "settled q" for q
  by unfold_locales (auto simp: settled_def intro: same_files_but_trans)

lemma still_settled: "still w w' \<Longrightarrow> settled q w w'"
  by (simp add: still_def settled_def)

lemma settled_of_still: "iokeeps still m \<Longrightarrow> iokeeps (settled q) m"
  by (auto simp: iokeeps_def still_settled)

lemma open_data_put:
  "open_data p fs = Inr d \<Longrightarrow> open_data p (go_set (path_Clean p) (NFile m x) fs) = Inr x"
  by (auto simp: open_data_def lookup_node_def blocked_put go_get_set split: if_splits option.splits)

lemma file_data_put [simp]: "file_data (go_set q (NFile m x) fs) q = x"
  by (simp add: file_data_def data_at_def file_at_def go_get_set)

lemma same_files_put: "same_files_but {q} fs (go_set q n fs)"
  by (simp add: same_files_but_def file_at_def go_get_set)

lemma truncate_node_committed:
  assumes "open_data p fs = Inr d"
  shows "\<exists>m. truncate_node p (length (committed d)) fs = (Inr (), go_set (path_Clean p) (NFile m (committed d)) fs)"
proof -
  from assms obtain m where "lookup_node fs p = Inr (NFile m d)"
    by (auto simp: open_data_def split: sum.splits node.splits)
  moreover obtain x where "d = committed d @ x" using committed_split [of d] by blast
  then have "take (length (committed d)) d = committed d" by (metis append_eq_conv_conj)
  moreover have "length (committed d) \<le> length d"
    using \<open>d = committed d @ x\<close> by (metis le_add1 length_append)
  ultimately show ?thesis by (auto simp: truncate_node_def)
qed

lemma fd_truncate_committed:
  assumes "open_data p (wFs w) = Inr d" and "fd_truncate E p (length (committed d)) w = (r, w')"
  shows "settled (path_Clean p) w w'" and "r = Inr () \<Longrightarrow> open_data p (wFs w') = Inr (committed d)"
  using truncate_node_committed [OF assms(1)] assms open_data_file [OF assms(1)]
  by (auto simp: fd_truncate_def os_call_def maybe_done_def Let_def settled_def same_files_put open_data_put
      split: option.splits)

lemma recover_keeps: "iokeeps (settled (path_Clean p)) (recoverJSONLTailWithLimit E A p maxBytes)"
proof
  fix w
  have keep: "settled (path_Clean p) s (snd (m s))" if "iokeeps still m" for s and m :: "'b rio"
    using settled_of_still [OF that] by (simp add: iokeeps_def)
  show "settled (path_Clean p) w (snd (recoverJSONLTailWithLimit E A p maxBytes w))"
    unfolding recoverJSONLTailWithLimit_def
  proof (rule settled.bind_at, (rule keep, intro still_intros still_calls), rule settled.bind_at, (rule keep, intro still_intros still_content))
    fix u w1 c w2
    assume "iowrap (''seek JSONL for recovery '' @ p) (fd_seek E p SeekStart) w = (Inr u, w1)"
      and "iowrap (''read JSONL for recovery '' @ p) (read_content E A p maxBytes) w1 = (Inr c, w2)"
    then have r: "fd_seek E p SeekStart w = (Inr u, w1)" "read_content E A p maxBytes w1 = (Inr c, w2)"
      by (simp_all add: res_simps)
    have "wFs w2 = wFs w"
      using iokeepsD [OF still_calls(3) r(1)] iokeepsD [OF still_content r(2)] by (simp add: still_def)
    with read_content_Inr [OF r] have c: "open_data p (wFs w2) = Inr c" by simp
    have t: "settled (path_Clean p) w2 (snd (fd_truncate E p (length (committed c)) w2))"
      using fd_truncate_committed(1) [OF c] by (metis prod.collapse)
    then have trunc: "settled (path_Clean p) w2 (snd (iowrap msg (fd_truncate E p (length (committed c))) w2))" for msg
      by (rule settled.iowrap_at)
    have sync: "settled (path_Clean p) s (snd (iowrap msg (fd_sync E) s))" for s msg
      by (rule keep) (intro still_intros still_calls)
    have seek: "settled (path_Clean p) s (snd (iowrap msg (fd_seek E p SeekEnd) s))" for s msg
      by (rule keep) (intro still_intros still_calls)
    show "settled (path_Clean p) w2 (snd (iobind (iolift (check_lines (jValid A) p 0 (strings_Split newline (committed c)))) (\<lambda>_.
       iobind (if length (committed c) \<noteq> length c
             then iobind (iowrap (''truncate interrupted JSONL tail '' @ p) (fd_truncate E p (length (committed c)))) (\<lambda>_.
                  iowrap (''sync recovered JSONL '' @ p) (fd_sync E))
             else ioret ()) (\<lambda>_. iowrap (''seek JSONL for append '' @ p) (fd_seek E p SeekEnd))) w2))"
    proof (rule settled.bind_at)
      fix v w3
      assume "iolift (check_lines (jValid A) p 0 (strings_Split newline (committed c))) w2 = (Inr v, w3)"
      then have w3: "w3 = w2" by (simp add: res_simps)
      show "settled (path_Clean p) w3 (snd (iobind (if length (committed c) \<noteq> length c
             then iobind (iowrap (''truncate interrupted JSONL tail '' @ p) (fd_truncate E p (length (committed c)))) (\<lambda>_.
                  iowrap (''sync recovered JSONL '' @ p) (fd_sync E))
             else ioret ()) (\<lambda>_. iowrap (''seek JSONL for append '' @ p) (fd_seek E p SeekEnd)) w3))"
        unfolding w3
        by (rule settled.bind_at)
          (auto simp: settled.frame_refl ioret_def seek intro!: settled.bind_at trunc sync)
    qed (auto simp: iolift_def settled.frame_refl)
  qed
qed

lemma recover_Inr:
  assumes "recoverJSONLTailWithLimit E A p maxBytes w = (Inr u, w')"
  shows "\<exists>d. open_data p (wFs w) = Inr d \<and> jsonl_ok (jValid A) (committed d) \<and> open_data p (wFs w') = Inr (committed d)"
proof -
  from assms obtain u1 w1 c w2 u3 w3 where s: "fd_seek E p SeekStart w = (Inr u1, w1)"
      and c: "read_content E A p maxBytes w1 = (Inr c, w2)"
      and ok: "jsonl_ok (jValid A) (committed c)"
      and t: "(if length (committed c) \<noteq> length c
             then iobind (iowrap (''truncate interrupted JSONL tail '' @ p) (fd_truncate E p (length (committed c)))) (\<lambda>_.
                  iowrap (''sync recovered JSONL '' @ p) (fd_sync E))
             else ioret ()) w2 = (Inr u3, w3)"
      and e: "fd_seek E p SeekEnd w3 = (Inr u, w')"
    by (fastforce simp: recoverJSONLTailWithLimit_def res_simps jsonl_ok_def jsonl_records_def)
  have fs: "wFs w2 = wFs w" "wFs w' = wFs w3"
    using iokeepsD [OF still_calls(3) s] iokeepsD [OF still_content c] iokeepsD [OF still_calls(3) e]
    by (simp_all add: still_def)
  with read_content_Inr [OF s c] have d: "open_data p (wFs w2) = Inr c" by simp
  have "open_data p (wFs w3) = Inr (committed c)"
  proof (cases "length (committed c) = length c")
    case True
    with committed_split [of c] have "committed c = c" by (metis append_eq_conv_conj append_self_conv length_append self_append_conv take_all_iff order.refl)
    with True t d show ?thesis by (simp add: res_simps)
  next
    case False
    with t obtain u4 w4 where "fd_truncate E p (length (committed c)) w2 = (Inr u4, w4)" "fd_sync E w4 = (Inr u3, w3)"
      by (auto simp: res_simps)
    with fd_truncate_committed(2) [OF d] iokeepsD [OF still_calls(2), of E w4] show ?thesis
      by (simp add: still_def)
  qed
  with read_content_Inr [OF s c] ok fs show ?thesis by auto
qed

section \<open>Setting the file up\<close>

lemma settled_act:
  assumes "\<And>fs. same_files_but {q} fs (snd (act fs))" and "\<And>fs. file_data (snd (act fs)) q = file_data fs q"
  shows "iokeeps (settled q) (os_call E (maybe_done act) act)"
proof
  fix w
  show "settled q w (snd (os_call E (maybe_done act) act w))"
    using assms [of "wFs w"]
    by (auto simp: os_call_def maybe_done_def settled_def Let_def split: option.splits prod.splits)
qed

lemma mkdir_node_keeps: "same_files_but {} fs (snd (mkdir_node p fs))"
  by (auto simp: mkdir_node_def same_files_but_def file_at_def go_get_set
      dest: lookup_node_missing split: sum.splits)

lemma file_data_same: "same_files_but {} fs fs' \<Longrightarrow> file_data fs' q = file_data fs q"
  by (simp add: same_files_but_def file_data_def data_at_def)

lemma open_node_keeps:
  "same_files_but {path_Clean p} fs (snd (open_node E p flags perm fs))"
  "file_data (snd (open_node E p flags perm fs)) (path_Clean p) = file_data fs (path_Clean p)"
  by (auto simp: open_node_def same_files_put file_data_def data_at_def file_at_def
      dest: lookup_node_missing split: sum.splits)

lemma settled_Mkdir: "iokeeps (settled q) (root_Mkdir E p perm)"
  unfolding root_Mkdir_def
proof (rule settled.keeps_bind)
  show "iokeeps (settled q) (os_call E (maybe_done (mkdir_node p)) (mkdir_node p))"
    using mkdir_node_keeps
    by (intro settled_act) (auto intro: same_files_but_mono file_data_same)
qed (auto simp: iokeeps_def settled_def)

lemma settled_open: "iokeeps (settled (path_Clean p)) (openFile E p flags perm)"
  unfolding openFile_def
  by (rule settled.keeps_bind [OF settled_of_still [OF still_calls(1)]],
      rule settled.keeps_bind [OF settled_act [OF open_node_keeps]])
    (auto simp: iokeeps_def settled_def)

lemmas settled_intros =
  settled.keeps_bind settled.keeps_catch settled.frame_iowrap settled.frame_deferred settled_Mkdir settled_open
  settled_of_still [OF still_sync] settled_of_still [OF still_calls(1)] settled_of_still [OF still_calls(2)]
  settled_of_still [OF still_calls(6)]

lemma settled_links: "iokeeps (settled q) (mkdir_links E current segments)"
  by (induction segments arbitrary: current) (auto simp: Let_def intro!: settled_intros)

lemma settled_parent: "iokeeps (settled q) (mkdirParent E p)"
  unfolding mkdirParent_def Let_def by (auto intro!: settled_intros settled_links)

lemma settled_attempts: "iokeeps (settled (path_Clean p)) (open_attempts n E p)"
proof (induction n)
  case (Suc n)
  have "iokeeps (settled (path_Clean p)) (\<lambda>w. case openFile E p flags 420 w of
        (Inr _, w') \<Rightarrow> (Inr created, w')
      | (Inl e, w') \<Rightarrow> if \<not> err_is e is_not_exist then (Inl e, w') else open_attempts n E p w')" for created flags
  proof
    fix w
    show "settled (path_Clean p) w (snd (case openFile E p flags 420 w of
        (Inr _, w') \<Rightarrow> (Inr created, w')
      | (Inl e, w') \<Rightarrow> if \<not> err_is e is_not_exist then (Inl e, w') else open_attempts n E p w'))"
      using iokeepsD [OF settled_open [of p E flags 420], of w] Suc settled.frame_trans [of "path_Clean p" w]
      by (auto simp: iokeeps_def split: prod.splits sum.splits)
  qed
  then show ?case by (auto intro!: settled_intros settled_parent)
qed simp

section \<open>Appending\<close>

lemma fd_append:
  assumes "open_data p (wFs w) = Inr d" and "fd_write E True p c w = (r, w')"
  shows "\<exists>k. open_data p (wFs w') = Inr (d @ take k c) \<and> (r = Inr () \<longrightarrow> length c \<le> k) \<and>
           same_files_but {path_Clean p} (wFs w) (wFs w') \<and> rfLife w' = rfLife w"
proof -
  obtain m where "lookup_node (wFs w) p = Inr (NFile m d)"
    using assms(1) by (auto simp: open_data_def split: sum.splits node.splits)
  then have n: "write_node True off p x (wFs w) = (Inr (), go_set (path_Clean p) (NFile m (d @ x)) (wFs w))" for off x
    by (simp add: write_node_def splice_def)
  have put: "open_data p (go_set (path_Clean p) (NFile m x) (wFs w)) = Inr x" for x
    using assms(1) by (rule open_data_put)
  show ?thesis
  proof (cases "osFault E (wTick w)")
    case None
    with assms n put show ?thesis
      by (intro exI [of _ "length c"]) (auto simp: fd_write_def os_call_def same_files_put)
  next
    case (Some msg)
    with assms n put show ?thesis
      by (cases "osTorn E (wTick w)")
        (auto simp: fd_write_def os_call_def same_files_put intro: exI [of _ "0::nat"])
  qed
qed

definition append_body :: "osenv \<Rightarrow> 'v rooted_api \<Rightarrow> string \<Rightarrow> string \<Rightarrow> unit rio" where
  "append_body E A p content =
     iobind (recoverJSONLTail E A p) (\<lambda>_.
     iobind (iowrap (''append JSONL '' @ p) (fd_write E True p (content @ [newline]))) (\<lambda>_.
     iobind (iowrap (''sync JSONL '' @ p) (fd_sync E)) (\<lambda>_.
       syncDir E (path_Dir p))))"

text \<open>The outcome of an append: settled only, or settled and followed by a part of the new line.\<close>

definition grown :: "string \<Rightarrow> string \<Rightarrow> rworld \<Rightarrow> rworld \<Rightarrow> bool" where
  "grown q x w w' \<longleftrightarrow>
     settled q w w' \<or>
     (same_files_but {q} (wFs w) (wFs w') \<and> lcRoot (rfLife w') = lcRoot (rfLife w) \<and>
      (\<exists>k. file_data (wFs w') q = committed (file_data (wFs w) q) @ take k x))"

definition appended :: "(string \<Rightarrow> bool) \<Rightarrow> string \<Rightarrow> string \<Rightarrow> rworld \<Rightarrow> rworld \<Rightarrow> bool" where
  "appended V p x w w' \<longleftrightarrow>
     jsonl_ok V (committed (file_data (wFs w) (path_Clean p))) \<and> lcRoot (rfLife w') = lcRoot (rfLife w) \<and>
     open_data p (wFs w') = Inr (committed (file_data (wFs w) (path_Clean p)) @ x)"

lemma grown_still: "grown q x w w' \<Longrightarrow> still w' w'' \<Longrightarrow> grown q x w w''"
  by (auto simp: grown_def settled_def still_def)

lemma settled_grown: "settled q w w' \<Longrightarrow> grown q x w' w'' \<Longrightarrow> grown q x w w''"
  by (auto simp: grown_def settled_def intro: same_files_but_trans)

lemma appended_still: "appended V p x w w' \<Longrightarrow> still w' w'' \<Longrightarrow> appended V p x w w''"
  by (auto simp: appended_def still_def)

lemma settled_appended: "settled (path_Clean p) w w' \<Longrightarrow> appended V p x w' w'' \<Longrightarrow> appended V p x w w''"
  by (auto simp: appended_def settled_def)

lemma write_phase:
  assumes "open_data p (wFs w) = Inr (committed d)" and "fd_write E True p x w = (r, w')"
  shows "grown (path_Clean p) x w w' \<and> (r = Inr () \<longrightarrow> jsonl_ok V (committed d) \<longrightarrow> appended V p x w w')"
proof -
  from fd_append [OF assms] obtain k where k: "open_data p (wFs w') = Inr (committed d @ take k x)"
      "r = Inr () \<longrightarrow> length x \<le> k" "same_files_but {path_Clean p} (wFs w) (wFs w')" "rfLife w' = rfLife w"
    by blast
  with open_data_file [OF k(1)] open_data_file [OF assms(1)] show ?thesis
    by (auto simp: grown_def appended_def)
qed

lemma tail_phase:
  assumes "iobind (iowrap m1 (fd_sync E)) (\<lambda>_. syncDir E d) w = (r, w')"
  shows "still w w'"
proof -
  have "iokeeps still (iobind (iowrap m1 (fd_sync E)) (\<lambda>_. syncDir E d))"
    by (intro still_intros still_calls still_sync)
  then show ?thesis using assms by (rule iokeepsD)
qed

lemma append_body_outcome:
  assumes "append_body E A p c w = (r, w')"
  shows "grown (path_Clean p) (c @ [newline]) w w' \<and> (r = Inr () \<longrightarrow> appended (jValid A) p (c @ [newline]) w w')"
proof (cases "recoverJSONLTail E A p w")
  case (Pair r1 w1)
  have s1: "settled (path_Clean p) w w1"
    using recover_keeps Pair unfolding recoverJSONLTail_def by (rule iokeepsD)
  show ?thesis
  proof (cases r1)
    case (Inl e)
    with Pair assms s1 show ?thesis by (auto simp: append_body_def iobind_def grown_def)
  next
    case (Inr u)
    with Pair recover_Inr [of E A p "-1" w u w1] obtain d where d: "jsonl_ok (jValid A) (committed d)"
        "open_data p (wFs w1) = Inr (committed d)"
      by (auto simp: recoverJSONLTail_def)
    obtain r2 w2 where w2: "fd_write E True p (c @ [newline]) w1 = (r2, w2)"
      by (cases "fd_write E True p (c @ [newline]) w1")
    note ph = write_phase [OF d(2) w2, of "jValid A"]
    have g: "grown (path_Clean p) (c @ [newline]) w w2" using settled_grown [OF s1] ph by blast
    show ?thesis
    proof (cases r2)
      case (Inl e)
      with Pair Inr assms w2 g show ?thesis by (auto simp: append_body_def iobind_def iowrap_def iocatch_def iofail_def)
    next
      case (Inr u2)
      with Pair \<open>r1 = Inr u\<close> w2 assms
      have t: "iobind (iowrap (''sync JSONL '' @ p) (fd_sync E)) (\<lambda>_. syncDir E (path_Dir p)) w2 = (r, w')"
        by (simp add: append_body_def iobind_def iowrap_def iocatch_def)
      have "appended (jValid A) p (c @ [newline]) w w2"
        using ph d(1) Inr settled_appended [OF s1] by simp
      with g tail_phase [OF t] show ?thesis by (auto intro: grown_still appended_still)
    qed
  qed
qed

lemma locked_body_outcome:
  assumes "deferred (fd_close E) (withRootedExclusiveFileLock E m) w = (r, w')"
    and "\<And>w r w'. m w = (r, w') \<Longrightarrow> grown q x w w' \<and> (r = Inr () \<longrightarrow> appended V p x w w')"
    and "q = path_Clean p"
  shows "grown q x w w' \<and> (r = Inr () \<longrightarrow> appended V p x w w')"
proof -
  obtain r1 w1 where f: "iowrap (''acquire rooted exclusive file lock'') (rf_flock E) w = (r1, w1)"
    by (cases "iowrap (''acquire rooted exclusive file lock'') (rf_flock E) w")
  have s1: "still w w1"
    using f by (rule iokeepsD [rotated]) (intro still_intros still_calls)
  have q: "still s (snd (fd_quiet E s))" for s using still_calls(2) [of E] by (simp add: iokeeps_def)
  show ?thesis
  proof (cases r1)
    case (Inl e)
    with f assms(1) have "w' = snd (fd_quiet E w1)" "r = Inl e"
      by (auto simp: deferred_def withRootedExclusiveFileLock_def rf_locked_def iobind_def)
    with s1 q [of w1] still.frame_trans show ?thesis by (auto simp: grown_def intro: still_settled)
  next
    case (Inr u)
    obtain r2 w2 where m: "m w1 = (r2, w2)" by (cases "m w1")
    with Inr f assms(1) have e: "w' = snd (fd_quiet E (snd (fd_quiet E w2)))" "r = r2"
      by (auto simp: deferred_def withRootedExclusiveFileLock_def rf_locked_def iobind_def)
    have "still w2 w'" using e(1) q still.frame_trans by blast
    moreover have "settled q w w1" using s1 by (rule still_settled)
    ultimately show ?thesis
      using assms(2) [OF m] e(2) assms(3) settled_grown settled_appended grown_still appended_still by metis
  qed
qed

lemma append_outcome:
  assumes "appendJSONL E A rp v w = (r, w')" and "rootedRelativePath rp = Inr p" and "jMarshal A v = Inr c"
  shows "grown p (c @ [newline]) w w' \<and> (r = Inr () \<longrightarrow> appended (jValid A) p (c @ [newline]) w w')"
proof (cases "c = [] \<or> c ! 0 \<noteq> CHR 0x7B")
  case True
  with assms have "w' = w" "r = Inl (ERoot NotJSONObject)"
    by (auto simp: appendJSONL_def iobind_def iolift_def iowrap_def iocatch_def ioguard_def iofail_def)
  then show ?thesis by (simp add: grown_def settled.frame_refl)
next
  case False
  have pc: "path_Clean p = p" using rootedRelativePath_inside [OF assms(2)] by simp
  obtain r1 w1 where o: "openJSONLAppendFile E p w = (r1, w1)" by (cases "openJSONLAppendFile E p w")
  have s1: "settled p w w1"
    using settled_attempts [of p 3 E] o pc unfolding openJSONLAppendFile_def by (metis iokeepsD)
  show ?thesis
  proof (cases r1)
    case (Inl e)
    with o assms False have "w' = w1" "r = Inl (EWrap (''open JSONL append '' @ p) e)"
      by (auto simp: appendJSONL_def iobind_def iolift_def iowrap_def iocatch_def ioguard_def ioret_def iofail_def)
    with s1 show ?thesis by (simp add: grown_def)
  next
    case (Inr u)
    with o assms False have "deferred (fd_close E) (withRootedExclusiveFileLock E (append_body E A p c)) w1 = (r, w')"
      by (simp add: appendJSONL_def append_body_def iobind_def iolift_def iowrap_def iocatch_def ioguard_def ioret_def)
    then have "grown (path_Clean p) (c @ [newline]) w1 w' \<and>
        (r = Inr () \<longrightarrow> appended (jValid A) p (c @ [newline]) w1 w')"
      by (rule locked_body_outcome [OF _ _ refl]) (rule append_body_outcome)
    then have "grown p (c @ [newline]) w1 w'" "r = Inr () \<Longrightarrow> appended (jValid A) p (c @ [newline]) w1 w'"
      using pc by simp_all
    with settled_grown [OF s1] settled_appended [of p w w1] s1 pc show ?thesis by simp
  qed
qed

section \<open>Reading back\<close>

text \<open>Without faults a read of a terminated file of objects returns its records.\<close>

definition calm :: "osenv \<Rightarrow> bool" where
  "calm E \<longleftrightarrow> (\<forall>n. osFault E n = None)"

lemma calm_call: "calm E \<Longrightarrow> os_call E torn act w = (fst (act (wFs w)), w\<lparr>wTick := Suc (wTick w), wFs := snd (act (wFs w))\<rparr>)"
  by (simp add: calm_def os_call_def Let_def split: prod.splits)

lemma calm_not_failing: "calm E \<Longrightarrow> \<not> fd.failing E piece p"
  unfolding fd.failing_def
  by (auto simp: fd_read_def calm_call intact_def fd_ok_def Let_def split: if_splits)

lemma calm_content:
  assumes "calm E" and "open_data p (wFs w) = Inr d" and "fdOff w = 0"
    and "maxBytes < 0 \<or> int (length d) \<le> maxBytes \<and> 0 < maxBytes \<and> maxBytes \<le> maxInt"
  shows "fst (read_content E A p maxBytes w) = Inr d"
proof (cases "maxBytes < 0")
  case True
  with assms show ?thesis
    by (simp add: read_content_def readJSONLContent_def fd_readAll_def iobind_def calm_call intact_def)
next
  case False
  obtain r w' where r: "read_content E A p maxBytes w = (r, w')" by (cases "read_content E A p maxBytes w")
  have d: "fd_ok p w" "fd_rest p w = d" using assms(2,3) by (auto simp: fd_ok_def fd_rest_def)
  have m: "0 < maxBytes" "maxBytes \<le> maxInt" "int (length d) \<le> maxBytes" using assms(4) False by auto
  from fd.bounded_read [OF r [unfolded read_content_def] m(1,2) d(1), THEN conjunct2, THEN mp, OF calm_not_failing [OF assms(1)]]
  show ?thesis by (simp add: d(2) m(3) r)
qed

lemma calm_records:
  assumes "calm E" and "open_data p (wFs w) = Inr d" and "terminated d" and "jsonl_ok (jValid A) d"
    and "maxBytes < 0 \<or> int (length d) \<le> maxBytes \<and> 0 < maxBytes \<and> maxBytes \<le> maxInt"
  shows "fst (readJSONLRecords E A p maxBytes w) = Inr (jsonl_records d)"
proof -
  let ?w = "w\<lparr>wTick := Suc (wTick w), fdOff := 0\<rparr>"
  have "fd_seek E p SeekStart w = (Inr (), ?w)"
    using assms(1,2) by (simp add: fd_seek_def iobind_def calm_call intact_def)
  moreover have "fst (read_content E A p maxBytes ?w) = Inr d"
    using assms by (intro calm_content) simp_all
  moreover have "collect_lines (jValid A) p 0 (strings_Split newline d) = Inr (jsonl_records d)"
    using assms(4) by (simp add: collect_lines_iff jsonl_ok_def jsonl_records_def)
  ultimately show ?thesis
    using assms(3)
    by (cases "read_content E A p maxBytes ?w")
      (auto simp: readJSONLRecords_def iobind_def iowrap_def iocatch_def iolift_def terminated_def)
qed

lemma calm_readJSONL:
  assumes "calm E" and "rootedRelativePath rp = Inr p" and "lcRoot (rfLife w)"
    and "open_data p (wFs w) = Inr d" and "terminated d" and "jsonl_ok (jValid A) d"
    and "maxBytes < 0 \<or> int (length d) \<le> maxBytes \<and> 0 < maxBytes \<and> maxBytes \<le> maxInt"
  shows "fst (readJSONL E A rp maxBytes w) = Inr (jsonl_records d)"
proof -
  obtain m where "lookup_node (wFs w) p = Inr (NFile m d)"
    using assms(4) by (auto simp: open_data_def split: sum.splits node.splits)
  then have o: "openFile E p [O_RDONLY] 0 w = (Inr (), w\<lparr>wTick := Suc (wTick w), fdOff := 0\<rparr>)"
    using assms(1,3) by (simp add: openFile_def rootHandle_def iobind_def calm_call open_node_def)
  let ?w = "w\<lparr>wTick := Suc (Suc (wTick w)), fdOff := 0\<rparr>"
  have l: "rf_flock E (w\<lparr>wTick := Suc (wTick w), fdOff := 0\<rparr>) = (Inr (), ?w)"
    using assms(1) by (simp add: fd_quiet_def calm_call)
  have "fst (readJSONLRecords E A p maxBytes ?w) = Inr (jsonl_records d)"
    using assms by (intro calm_records) simp_all
  with o l assms(2) show ?thesis
    by (cases "readJSONLRecords E A p maxBytes ?w")
      (simp add: readJSONL_def withRootedSharedFileLock_def rf_locked_def iobind_def iolift_def iowrap_def iocatch_def deferred_def)
qed

lemma openFile_root: "openFile E p flags perm w = (Inr u, w') \<Longrightarrow> lcRoot (rfLife w')"
  by (auto simp: openFile_def rootHandle_def res_simps os_call_Inr split: if_splits)

lemma open_attempts_root: "open_attempts n E p w = (Inr b, w') \<Longrightarrow> lcRoot (rfLife w')"
proof (induction n arbitrary: w)
  case (Suc n)
  from Suc.prems obtain x t where o: "(case openFile E p [O_RDWR, O_APPEND, O_CREATE] 420 t of
        (Inr _, w') \<Rightarrow> (Inr x, w')
      | (Inl e, w') \<Rightarrow> if \<not> err_is e is_not_exist then (Inl e, w') else open_attempts n E p w') = (Inr b, w')"
    unfolding open_attempts.simps iobind_eq_Inr by blast
  obtain r t' where r: "openFile E p [O_RDWR, O_APPEND, O_CREATE] 420 t = (r, t')"
    by (cases "openFile E p [O_RDWR, O_APPEND, O_CREATE] 420 t")
  show ?case
  proof (cases r)
    case (Inr u)
    with o r openFile_root [OF r [unfolded Inr]] show ?thesis by simp
  next
    case (Inl e)
    with o r Suc.IH [of t'] show ?thesis by (simp split: if_splits)
  qed
qed (simp add: res_simps)

lemma append_needs:
  assumes "appendJSONL E A rp v w = (Inr u, w')"
  shows "\<exists>p c. rootedRelativePath rp = Inr p \<and> jMarshal A v = Inr c \<and> c \<noteq> [] \<and> c ! 0 = CHR 0x7B \<and> lcRoot (rfLife w)"
proof -
  from assms obtain p c b w1 where r: "rootedRelativePath rp = Inr p" "jMarshal A v = Inr c"
      "c \<noteq> []" "c ! 0 = CHR 0x7B" "openJSONLAppendFile E p w = (Inr b, w1)"
    by (auto simp: appendJSONL_def res_simps)
  have "settled (path_Clean p) w w1"
    using settled_attempts r(5) unfolding openJSONLAppendFile_def by (rule iokeepsD)
  with r open_attempts_root [of 3 E p w b w1] show ?thesis
    by (auto simp: openJSONLAppendFile_def settled_def)
qed

section \<open>Replacing a document\<close>

lemma hex_no_slash: "slash \<notin> set (hex_EncodeToString bs)"
proof -
  have digit: "hex_digit n \<noteq> slash" if "n < 16" for n
  proof -
    have "hex_digit n \<in> set ''0123456789abcdef''"
      using that unfolding hex_digit_def by (intro nth_mem) simp
    then show ?thesis by auto
  qed
  have "hex_digit (of_char c div 16) \<noteq> slash" "hex_digit (of_char c mod 16) \<noteq> slash" for c
    by (intro digit; auto intro: less_mult_imp_div_less)+
  then show ?thesis by (auto simp: hex_EncodeToString_def) metis+
qed

lemma temp_path:
  assumes "rootedRelativePath rp = Inr p"
    and "t = filepath_Join [path_Dir p, ''.'' @ path_Base p @ ''.tmp-'' @ hex_EncodeToString bs]"
  shows "path_Clean t = t" and "t \<noteq> []" and "t \<noteq> p"
proof -
  from rootedRelativePath_inside [OF assms(1)] obtain ss n where p: "path_Clean p = p" "csegs p = ss @ [n]"
      "list_all plain_seg (csegs p)"
    by (metis Clean_idem append_butlast_last_id)
  have b: "path_Base p = n" using path_Base_clean [OF p(1,2)] .
  let ?name = "''.'' @ n @ ''.tmp-'' @ hex_EncodeToString bs"
  have "plain_seg ?name"
    using p(2,3) hex_no_slash [of bs] by (auto simp: plain_seg_def)
  then have c: "csegs t = csegs (path_Dir p) @ [?name]"
    unfolding assms(2) b by (intro filepath_Join_plain) (auto simp: path_Dir_def)
  show "t \<noteq> p"
  proof
    assume "t = p"
    with c p(2) have "length ?name = length n" by simp
    then show False by simp
  qed
  show "t \<noteq> []" using c by (auto simp: csegs_def clean_stack_def)
  then show "path_Clean t = t" unfolding assms(2) by (rule Join_is_clean)
qed

text \<open>Calls that change no file but those of \<open>P\<close>.\<close>

definition keeps_but :: "string set \<Rightarrow> rworld \<Rightarrow> rworld \<Rightarrow> bool" where
  "keeps_but P w w' \<longleftrightarrow> same_files_but P (wFs w) (wFs w')"

interpretation keeps_but: world_frame "keeps_but P" for P
  by unfold_locales (auto simp: keeps_but_def intro: same_files_but_trans)

lemma still_keeps_but: "iokeeps still m \<Longrightarrow> iokeeps (keeps_but P) m"
  by (auto simp: iokeeps_def keeps_but_def still_def)

lemma keeps_but_act:
  assumes "\<And>fs. same_files_but P fs (snd (act fs))"
  shows "iokeeps (keeps_but P) (os_call E (maybe_done act) act)"
proof
  fix w
  show "keeps_but P w (snd (os_call E (maybe_done act) act w))"
    using assms [of "wFs w"]
    by (auto simp: os_call_def maybe_done_def keeps_but_def Let_def split: option.splits prod.splits)
qed

lemma keeps_but_Mkdir: "iokeeps (keeps_but {}) (root_Mkdir E p perm)"
  unfolding root_Mkdir_def
  by (rule keeps_but.keeps_bind [OF keeps_but_act [OF mkdir_node_keeps]]) (auto simp: iokeeps_def keeps_but_def)

lemmas keeps_but_intros =
  keeps_but.keeps_bind keeps_but.keeps_catch keeps_but.frame_iowrap keeps_but.frame_deferred keeps_but_Mkdir
  still_keeps_but [OF still_sync] still_keeps_but [OF still_calls(1)] still_keeps_but [OF still_calls(2)]

lemma keeps_but_links: "iokeeps (keeps_but {}) (mkdir_links E current segments)"
  by (induction segments arbitrary: current) (auto simp: Let_def intro!: keeps_but_intros)

lemma keeps_but_parent: "iokeeps (keeps_but {}) (mkdirParent E p)"
  unfolding mkdirParent_def Let_def by (auto intro!: keeps_but_intros keeps_but_links)

lemma keeps_but_open: "iokeeps (keeps_but {path_Clean p}) (openFile E p flags perm)"
  unfolding openFile_def
  by (rule keeps_but.keeps_bind [OF still_keeps_but [OF still_calls(1)]],
      rule keeps_but.keeps_bind [OF keeps_but_act [OF open_node_keeps(1)]])
    (auto simp: iokeeps_def keeps_but_def)

lemma keeps_but_mono: "iokeeps (keeps_but P) m \<Longrightarrow> P \<subseteq> Q \<Longrightarrow> iokeeps (keeps_but Q) m"
  by (auto simp: iokeeps_def keeps_but_def intro: same_files_but_mono)

lemma excl_open:
  assumes "openFile E t [O_WRONLY, O_CREATE, O_EXCL] mode w = (r, w')" and "t \<noteq> []"
  shows "data_at (wFs w) (path_Clean t) = None \<or> (r \<noteq> Inr () \<and> wFs w' = wFs w)"
    and "r = Inr () \<Longrightarrow> open_data t (wFs w') = Inr [] \<and> fdOff w' = 0"
proof -
  have absent: "go_get (wFs w) (path_Clean t) = None \<or> (r \<noteq> Inr () \<and> wFs w' = wFs w)"
    using assms
    by (auto simp: openFile_def rootHandle_def iobind_def os_call_def maybe_done_def open_node_def Let_def
        split: if_splits option.splits prod.splits sum.splits dest: lookup_node_missing)
  then show "data_at (wFs w) (path_Clean t) = None \<or> (r \<noteq> Inr () \<and> wFs w' = wFs w)"
    by (auto simp: data_at_def file_at_def)
  assume "r = Inr ()"
  with assms have "lookup_node (wFs w) t = Inl ENotExist" "fdOff w' = 0"
      "wFs w' = go_set (path_Clean t) (NFile (osUmask E mode) []) (wFs w)"
    by (auto simp: openFile_def rootHandle_def res_simps os_call_Inr open_node_def split: if_splits sum.splits)
  then show "open_data t (wFs w') = Inr [] \<and> fdOff w' = 0"
    using assms(2) by (auto simp: open_data_def lookup_node_def blocked_put go_get_set split: if_splits option.splits)
qed

lemma write_node_keeps: "same_files_but {path_Clean p} fs (snd (write_node app off p c fs))"
  by (auto simp: write_node_def same_files_put split: sum.splits node.splits)

lemma keeps_but_write: "iokeeps (keeps_but {path_Clean p}) (fd_write E app p c)"
proof
  fix w
  show "keeps_but {path_Clean p} w (snd (fd_write E app p c w))"
    using write_node_keeps [of p "wFs w"]
    by (simp add: fd_write_def os_call_def keeps_but_def Let_def case_prod_beta split: option.split)
qed

lemma fd_write_whole:
  assumes "open_data t (wFs w) = Inr []" and "fdOff w = 0" and "fd_write E False t c w = (Inr u, w')"
  shows "open_data t (wFs w') = Inr c"
proof -
  obtain m where "lookup_node (wFs w) t = Inr (NFile m [])"
    using assms(1) by (auto simp: open_data_def split: sum.splits node.splits)
  then have "write_node False 0 t c (wFs w) = (Inr (), go_set (path_Clean t) (NFile m c) (wFs w))"
    by (simp add: write_node_def splice_def)
  with assms open_data_put [OF assms(1)] show ?thesis by (auto simp: fd_write_def os_call_Inr)
qed

lemma rename_outcome:
  assumes "open_data t (wFs w) = Inr c" and "path_Clean t = t" and "path_Clean p = p"
    and "root_Rename E t p w = (r, w')"
  shows "data_at (wFs w') p \<in> {data_at (wFs w) p, Some c}" and "r = Inr () \<Longrightarrow> data_at (wFs w') p = Some c"
    and "same_files_but {t, p} (wFs w) (wFs w')"
proof -
  obtain m where m: "lookup_node (wFs w) t = Inr (NFile m c)"
    using assms(1) by (auto simp: open_data_def split: sum.splits node.splits)
  let ?new = "go_set p (NFile m c) (go_delete t (wFs w))"
  obtain r0 fs0 where n: "rename_node t p (wFs w) = (r0, fs0)" by (cases "rename_node t p (wFs w)")
  with m assms(2,3) have n2: "fs0 = ?new \<or> (fs0 = wFs w \<and> r0 \<noteq> Inr ())"
    by (auto simp: rename_node_def split: sum.splits node.splits if_splits)
  have d: "data_at ?new p = Some c" "same_files_but {t, p} (wFs w) ?new"
    by (auto simp: data_at_def file_at_def go_get_set go_get_delete same_files_but_def)
  have "wFs w' = wFs w \<and> r \<noteq> Inr () \<or> wFs w' = fs0 \<and> (r = Inr () \<longrightarrow> r0 = Inr ())"
    using assms(4) n by (auto simp: root_Rename_def os_call_def maybe_done_def Let_def split: option.splits)
  with n2 d show "data_at (wFs w') p \<in> {data_at (wFs w) p, Some c}" "r = Inr () \<Longrightarrow> data_at (wFs w') p = Some c"
      "same_files_but {t, p} (wFs w) (wFs w')"
    by auto
qed

text \<open>
  The outcome of publishing a temporary file: the target is as before or holds the whole
  content, and only the target and the temporary file may have changed.
\<close>

definition published_or_kept :: "string \<Rightarrow> string \<Rightarrow> string \<Rightarrow> rworld \<Rightarrow> rworld \<Rightarrow> bool" where
  "published_or_kept t p c w w' \<longleftrightarrow>
     data_at (wFs w') p \<in> {data_at (wFs w) p, Some c} \<and> same_files_but {t, p} (wFs w) (wFs w')"

lemma same_data_but: "same_files_but P fs fs' \<Longrightarrow> q \<notin> P \<Longrightarrow> data_at fs' q = data_at fs q"
  by (simp add: same_files_but_def data_at_def)

lemma keeps_published: "keeps_but {t} w w' \<Longrightarrow> t \<noteq> p \<Longrightarrow> published_or_kept t p c w w'"
  by (auto simp: keeps_but_def published_or_kept_def same_files_but_def data_at_def)

lemma published_then_keeps:
  "published_or_kept t p c w w' \<Longrightarrow> keeps_but {t} w' w'' \<Longrightarrow> t \<noteq> p \<Longrightarrow> published_or_kept t p c w w''"
  by (auto simp: keeps_but_def published_or_kept_def same_files_but_def data_at_def)

lemma keeps_then_published:
  "keeps_but {t} w w' \<Longrightarrow> published_or_kept t p c w' w'' \<Longrightarrow> t \<noteq> p \<Longrightarrow> published_or_kept t p c w w''"
  by (auto simp: keeps_but_def published_or_kept_def same_files_but_def data_at_def)

definition fill_temp :: "osenv \<Rightarrow> string \<Rightarrow> string \<Rightarrow> unit rio" where
  "fill_temp E tempPath content =
     iobind (iocatch (fd_write E False tempPath content) (\<lambda>e.
               deferred (fd_close E) (iofail (EWrap (''write JSON temporary file '' @ tempPath) e)))) (\<lambda>_.
     iobind (iocatch (fd_sync E) (\<lambda>e.
               deferred (fd_close E) (iofail (EWrap (''sync JSON temporary file '' @ tempPath) e)))) (\<lambda>_.
       iowrap (''close JSON temporary file '' @ tempPath) (fd_close E)))"

lemma publish_temp_split:
  "publish_temp E t p c = iobind (fill_temp E t c) (\<lambda>_.
     iobind (iowrap (''publish JSON '' @ p) (root_Rename E t p)) (\<lambda>_. syncDir E (path_Dir p)))"
  by (simp add: publish_temp_def fill_temp_def iobind_assoc)

lemma fill_temp_keeps: "path_Clean t = t \<Longrightarrow> iokeeps (keeps_but {t}) (fill_temp E t c)"
  unfolding fill_temp_def using keeps_but_write [of t E False c]
  by (auto intro!: keeps_but_intros)

lemma catch_deferred_Inr [res_simps]:
  "iocatch m (\<lambda>e. deferred d (iofail (f e))) s = (Inr x, t) \<longleftrightarrow> m s = (Inr x, t)"
  by (auto simp: iocatch_def deferred_def iofail_def split: prod.splits sum.splits)

lemma fill_temp_Inr:
  assumes "open_data t (wFs w) = Inr []" and "fdOff w = 0" and "fill_temp E t c w = (Inr u, w')"
  shows "open_data t (wFs w') = Inr c"
proof -
  from assms(3) obtain u1 w1 u2 w2 where w: "fd_write E False t c w = (Inr u1, w1)" "fd_sync E w1 = (Inr u2, w2)"
      "fd_close E w2 = (Inr u, w')"
    by (auto simp: fill_temp_def res_simps)
  have "wFs w' = wFs w1"
    using iokeepsD [OF still_calls(2) w(2)] iokeepsD [OF still_calls(2) w(3)] by (simp add: still_def)
  with fd_write_whole [OF assms(1,2) w(1)] show ?thesis by simp
qed

lemma publish_outcome:
  assumes "open_data t (wFs w) = Inr []" and "fdOff w = 0" and "path_Clean t = t" and "path_Clean p = p" and "t \<noteq> p"
    and "publish_temp E t p c w = (r, w')"
  shows "published_or_kept t p c w w' \<and> (r = Inr () \<longrightarrow> data_at (wFs w') p = Some c)"
proof -
  obtain r1 w1 where f: "fill_temp E t c w = (r1, w1)" by (cases "fill_temp E t c w")
  have k1: "keeps_but {t} w w1" using fill_temp_keeps [OF assms(3)] f by (rule iokeepsD)
  show ?thesis
  proof (cases r1)
    case (Inl e)
    with f assms(6) keeps_published [OF k1 assms(5)] show ?thesis by (auto simp: publish_temp_split iobind_def)
  next
    case (Inr u)
    obtain r2 w2 where n: "root_Rename E t p w1 = (r2, w2)" by (cases "root_Rename E t p w1")
    note o = rename_outcome [OF fill_temp_Inr [OF assms(1,2) f [unfolded Inr]] assms(3,4) n]
    from o(1,3) have p2: "published_or_kept t p c w1 w2" by (simp add: published_or_kept_def)
    show ?thesis
    proof (cases r2)
      case (Inl e)
      with f \<open>r1 = Inr u\<close> n assms(6) have "w' = w2" "r = Inl (EWrap (''publish JSON '' @ p) e)"
        by (auto simp: publish_temp_split iobind_def iowrap_def iocatch_def iofail_def)
      with keeps_then_published [OF k1 p2 assms(5)] show ?thesis by simp
    next
      case (Inr u2)
      with f \<open>r1 = Inr u\<close> n assms(6) have "syncDir E (path_Dir p) w2 = (r, w')"
        by (simp add: publish_temp_split iobind_def iowrap_def iocatch_def)
      then have "still w2 w'" by (rule iokeepsD [OF still_sync])
      with keeps_then_published [OF k1 p2 assms(5)] o(2) Inr show ?thesis
        by (simp add: published_or_kept_def still_def)
    qed
  qed
qed

lemma deferred_Inr [res_simps]:
  "deferred d m s = (Inr x, t) \<longleftrightarrow> (\<exists>u. m s = (Inr x, u) \<and> t = snd (d u))"
  by (auto simp: deferred_def split: prod.splits)

lemma keeps_but_Remove: "iokeeps (keeps_but {path_Clean p}) (os_Remove E p)"
  by (rule iokeeps_mono [OF os_Remove_frame]) (auto simp: frame_rel_def keeps_but_def)

definition temp_phase :: "osenv \<Rightarrow> string \<Rightarrow> string \<Rightarrow> string \<Rightarrow> nat \<Rightarrow> unit rio" where
  "temp_phase E tempPath p content mode =
     iobind (iowrap (''create JSON temporary file '' @ tempPath) (openFile E tempPath [O_WRONLY, O_CREATE, O_EXCL] mode)) (\<lambda>_.
       iocatch (publish_temp E tempPath p content) (\<lambda>e. deferred (os_Remove E tempPath) (iofail e)))"

lemma temp_phase_outcome:
  assumes "temp_phase E t p c mode w = (r, w')" and "path_Clean t = t" and "path_Clean p = p" and "t \<noteq> p" and "t \<noteq> []"
  shows "published_or_kept t p c w w' \<and> (data_at (wFs w) t = None \<or> wFs w' = wFs w) \<and>
         (r = Inr () \<longrightarrow> data_at (wFs w') p = Some c)"
proof -
  obtain r1 w1 where o: "openFile E t [O_WRONLY, O_CREATE, O_EXCL] mode w = (r1, w1)"
    by (cases "openFile E t [O_WRONLY, O_CREATE, O_EXCL] mode w")
  have k1: "keeps_but {t} w w1" using keeps_but_open o assms(2) by (metis iokeepsD)
  note x = excl_open [OF o assms(5)]
  show ?thesis
  proof (cases r1)
    case (Inl e)
    with o assms(1) have "w' = w1" "r = Inl (EWrap (''create JSON temporary file '' @ t) e)"
      by (auto simp: temp_phase_def iobind_def iowrap_def iocatch_def iofail_def)
    with keeps_published [OF k1 assms(4)] x(1) assms(2) show ?thesis by auto
  next
    case (Inr u)
    obtain r2 w2 where p: "publish_temp E t p c w1 = (r2, w2)" by (cases "publish_temp E t p c w1")
    have po: "published_or_kept t p c w1 w2" "r2 = Inr () \<Longrightarrow> data_at (wFs w2) p = Some c"
      using publish_outcome [OF _ _ assms(2-4) p] x(2) Inr by simp_all
    have "(r = r2 \<and> w' = w2) \<or> (r \<noteq> Inr () \<and> w' = snd (os_Remove E t w2))"
      using o Inr p assms(1)
      by (cases r2) (auto simp: temp_phase_def iobind_def iowrap_def iocatch_def deferred_def iofail_def)
    moreover have "keeps_but {t} w2 (snd (os_Remove E t w2))"
      using keeps_but_Remove [of t E] assms(2) by (simp add: iokeeps_def)
    ultimately have "published_or_kept t p c w w' \<and> (r = Inr () \<longrightarrow> data_at (wFs w') p = Some c)"
      using keeps_then_published [OF k1 po(1) assms(4)] po(2) published_then_keeps assms(4) by blast
    with x(1) Inr assms(2) show ?thesis by auto
  qed
qed

lemma write_outcome:
  assumes "writeJSONAtomicLocked E A rp v mode w = (r, w')" and "rootedRelativePath rp = Inr p" and "jMarshal A v = Inr c"
  shows "data_at (wFs w') p \<in> {data_at (wFs w) p, Some (c @ [newline])} \<and>
         (r = Inr () \<longrightarrow> data_at (wFs w') p = Some (c @ [newline])) \<and>
         (\<forall>q d. q \<noteq> p \<longrightarrow> data_at (wFs w) q = Some d \<longrightarrow> data_at (wFs w') q = Some d)"
proof -
  have pc: "path_Clean p = p" using rootedRelativePath_inside [OF assms(2)] by simp
  obtain r1 w1 where m: "mkdirParent E p w = (r1, w1)" by (cases "mkdirParent E p w")
  have k1: "keeps_but {} w w1" using keeps_but_parent m by (rule iokeepsD)
  have same: "data_at (wFs w1) q = data_at (wFs w) q" for q
    using k1 by (simp add: keeps_but_def same_files_but_def data_at_def)
  let ?w = "w1\<lparr>wTick := Suc (wTick w1)\<rparr>"
  show ?thesis
  proof (cases "r1 = Inr () \<and> (\<exists>bs. rRandom A (wTick w1) = Inr bs)")
    case False
    with m assms have "wFs w' = wFs w1" "r \<noteq> Inr ()"
      by (cases r1; cases "rRandom A (wTick w1)";
          auto simp: writeJSONAtomicLocked_def rootedTemporaryPath_def iobind_def iolift_def iowrap_def iocatch_def iofail_def)+
    with same show ?thesis by simp
  next
    case True
    then obtain bs where bs: "rRandom A (wTick w1) = Inr bs" by blast
    define t where "t = filepath_Join [path_Dir p, ''.'' @ path_Base p @ ''.tmp-'' @ hex_EncodeToString bs]"
    note t = temp_path [OF assms(2) t_def]
    have "temp_phase E t p (c @ [newline]) mode ?w = (r, w')"
      using assms m True bs
      by (simp add: writeJSONAtomicLocked_def temp_phase_def rootedTemporaryPath_def t_def iobind_def iolift_def
          iowrap_def iocatch_def ioret_def del: filepath_Join.simps)
    from temp_phase_outcome [OF this t(1) pc t(3,2)]
    have o: "published_or_kept t p (c @ [newline]) ?w w'" "data_at (wFs w) t = None \<or> wFs w' = wFs w1"
        "r = Inr () \<longrightarrow> data_at (wFs w') p = Some (c @ [newline])"
      using same by simp_all
    have "data_at (wFs w') q = data_at (wFs w) q" if "q \<noteq> t" "q \<noteq> p" for q
      using same_data_but [of "{t, p}" "wFs w1" "wFs w'" q] o(1) that same by (simp add: published_or_kept_def)
    with o(2) same have "data_at (wFs w') q = Some d" if "q \<noteq> p" "data_at (wFs w) q = Some d" for q d
      using that by (cases "q = t") auto
    with o(1,3) same show ?thesis by (simp add: published_or_kept_def)
  qed
qed

lemma csegs_single:
  assumes "path_Clean p = p" and "\<not> rooted p" and "csegs p \<noteq> []" and "slash \<notin> set p"
  shows "csegs p = [p]"
proof -
  have "p = strings_Join (csegs p) [slash]" using assms(1-3) by (metis path_Clean_def render_def)
  with assms(3,4) show ?thesis
    by (cases "csegs p" rule: list.exhaust) (metis Join_Split Split_Join Split_no_sep csegs_parts)+
qed

section \<open>Properties\<close>

text \<open>A concrete capability: the scope directory is empty, the values are their own encodings.\<close>

definition rooted_sample_api :: "string rooted_api" where
  "rooted_sample_api = \<lparr>jMarshal = Inr, jUnmarshal = Inr, jValid = (\<lambda>_. True), rRandom = (\<lambda>_. Inr ''0''),
     rChunk = (\<lambda>_. 2), rSameFile = (\<lambda>_. True)\<rparr>"

definition rooted_sample_env :: "nat option \<Rightarrow> osenv" where
  "rooted_sample_env fault = \<lparr>osFault = (\<lambda>n. if fault = Some n then Some ''disk full'' else None),
     osTorn = (\<lambda>_. Some 3), osCancelled = (\<lambda>_. False), osUmask = (\<lambda>m. m), osLockPerm = 384\<rparr>"

definition rooted_sample_world :: rworld where
  "rooted_sample_world = \<lparr>wFs = [(''log'', NFile 420 (''{1}'' @ [newline] @ ''{'' ))], wTick = 0,
     rfLife = \<lparr>lcRoot = True, lcClosing = False, lcClosed = False, lcOperations = 0\<rparr>,
     rfSyncDirectory = True, fdOff = 0, dirModes = [], lkActive = False\<rparr>"

text \<open>
  C19. An append to a JSON-lines file loses no committed record, whatever fails and however much
  of the new line reaches the disk: the committed lines stay a prefix of the file, the
  committed records afterwards are the ones before, with at most the new record after
  them, and no other file changes.
\<close>

theorem committed_records_survive:
  assumes "appendJSONL E A rp v w = (r, w')" and "rootedRelativePath rp = Inr p" and "jMarshal A v = Inr c"
    and "newline \<notin> set c" and "strings_TrimSpace c = c" and "c \<noteq> []"
  shows "prefix (committed (file_data (wFs w) p)) (file_data (wFs w') p) \<and>
         jsonl_records (committed (file_data (wFs w') p)) \<in>
           {jsonl_records (committed (file_data (wFs w) p)), jsonl_records (committed (file_data (wFs w) p)) @ [c]} \<and>
         (\<forall>q. q \<noteq> p \<longrightarrow> data_at (wFs w') q = data_at (wFs w) q)"
proof -
  have g: "grown p (c @ [newline]) w w'" using append_outcome [OF assms(1-3)] by blast
  have "same_files_but {p} (wFs w) (wFs w')" using g by (auto simp: grown_def settled_def)
  then have "\<forall>q. q \<noteq> p \<longrightarrow> data_at (wFs w') q = data_at (wFs w) q" by (simp add: same_data_but)
  moreover have "prefix (committed d) d" for d
    using committed_split [of d] by (metis prefixI)
  moreover have "\<forall>k. jsonl_records (committed (committed (file_data (wFs w) p) @ take k (c @ [newline]))) \<in>
      {jsonl_records (committed (file_data (wFs w) p)), jsonl_records (committed (file_data (wFs w) p)) @ [c]}"
    using committed_torn [OF assms(4-6)] by blast
  ultimately show ?thesis
    using g by (auto simp: grown_def settled_def simp del: take_append)
qed

theorem committed_records_survive_witness:
  "jsonl_records (committed (file_data (wFs (snd (appendJSONL (rooted_sample_env (Some 5)) rooted_sample_api ''log'' ''{22}''
      rooted_sample_world))) ''log'')) \<in> {[''{1}''], [''{1}'', ''{22}'']}"
proof -
  let ?r = "appendJSONL (rooted_sample_env (Some 5)) rooted_sample_api ''log'' ''{22}'' rooted_sample_world"
  have "newline \<notin> set ''{22}''" "strings_TrimSpace ''{22}'' = ''{22}''" "''{22}'' \<noteq> []" by code_simp+
  moreover have "?r = (fst ?r, snd ?r)" by simp
  moreover have "case rootedRelativePath ''log'' of Inr p \<Rightarrow> p = ''log'' | Inl _ \<Rightarrow> False" by code_simp
  then have "rootedRelativePath ''log'' = Inr ''log''" by (auto split: sum.splits)
  moreover have "jMarshal rooted_sample_api ''{22}'' = Inr ''{22}''" by (simp add: rooted_sample_api_def)
  moreover have "jsonl_records (committed (file_data (wFs rooted_sample_world) ''log'')) = [''{1}'']" by code_simp
  ultimately show ?thesis
    using committed_records_survive [of "rooted_sample_env (Some 5)" rooted_sample_api "''log''" "''{22}''"
        rooted_sample_world "fst ?r" "snd ?r" "''log''" "''{22}''"] by simp
qed

text \<open>
  C20. After an append that succeeded, a read without faults returns the committed records there
  were before, in order, and the new record last; an interrupted line of an earlier writer is
  gone.
\<close>

theorem append_then_read:
  assumes "appendJSONL E A rp v w = (Inr (), w')" and "calm E'"
    and "\<forall>x c. jMarshal A x = Inr c \<longrightarrow> newline \<notin> set c \<and> strings_TrimSpace c = c \<and> jValid A c"
  shows "\<exists>p c. rootedRelativePath rp = Inr p \<and> jMarshal A v = Inr c \<and>
           fst (readJSONL E' A rp (-1) w') = Inr (jsonl_records (committed (file_data (wFs w) p)) @ [c])"
proof -
  from append_needs [OF assms(1)] obtain p c where r: "rootedRelativePath rp = Inr p" "jMarshal A v = Inr c" "c \<noteq> []"
      "c ! 0 = CHR 0x7B" "lcRoot (rfLife w)"
    by blast
  have c: "newline \<notin> set c" "strings_TrimSpace c = c" "jValid A c" using assms(3) r(2) by blast+
  have pc: "path_Clean p = p" using rootedRelativePath_inside [OF r(1)] by simp
  let ?d = "committed (file_data (wFs w) p)"
  have a: "jsonl_ok (jValid A) ?d" "lcRoot (rfLife w')" "open_data p (wFs w') = Inr (?d @ c @ [newline])"
    using append_outcome [OF assms(1) r(1,2)] pc r(5) by (auto simp: appended_def)
  have rec: "jsonl_records (?d @ c @ [newline]) = jsonl_records ?d @ [c]"
    using jsonl_records_append [of ?d c] c r(3) by simp
  have "jsonl_ok (jValid A) (?d @ c @ [newline])"
    using a(1) c(3) r(4) by (simp add: jsonl_ok_def rec jsonl_object_def)
  then have "fst (readJSONL E' A rp (-1) w') = Inr (jsonl_records (?d @ c @ [newline]))"
    by (intro calm_readJSONL [OF assms(2) r(1) a(2,3)]) (auto simp: terminated_def)
  with r(1,2) rec show ?thesis by auto
qed

theorem append_then_read_witness:
  "\<exists>p c. fst (readJSONL (rooted_sample_env None) (rooted_sample_api\<lparr>jMarshal := \<lambda>_. Inr ''{}''\<rparr>) ''log'' (-1)
     (snd (appendJSONL (rooted_sample_env None) (rooted_sample_api\<lparr>jMarshal := \<lambda>_. Inr ''{}''\<rparr>) ''log'' ''x'' rooted_sample_world))) =
     Inr (jsonl_records (committed (file_data (wFs rooted_sample_world) p)) @ [c])"
proof -
  let ?A = "rooted_sample_api\<lparr>jMarshal := \<lambda>_. Inr ''{}''\<rparr>"
  let ?r = "appendJSONL (rooted_sample_env None) ?A ''log'' ''x'' rooted_sample_world"
  have "case fst ?r of Inr u \<Rightarrow> True | Inl _ \<Rightarrow> False" by code_simp
  then have "?r = (Inr (), snd ?r)" by (cases ?r) (auto split: sum.splits)
  moreover have "calm (rooted_sample_env None)" by (simp add: calm_def rooted_sample_env_def)
  moreover have "newline \<notin> set ''{}''" "strings_TrimSpace ''{}'' = ''{}''" by code_simp+
  ultimately show ?thesis
    using append_then_read [of "rooted_sample_env None" ?A "''log''" "''x''" rooted_sample_world "snd ?r" "rooted_sample_env None"]
    by (auto simp: rooted_sample_api_def)
qed

text \<open>
  C21. Writing a document leaves the target as it was or with the whole new content, whatever
  fails; when it succeeds the new content is there. No other file that existed is changed.
\<close>

theorem atomic_write_old_or_new:
  assumes "writeJSONAtomicLocked E A rp v mode w = (r, w')" and "rootedRelativePath rp = Inr p" and "jMarshal A v = Inr c"
  shows "data_at (wFs w') p \<in> {data_at (wFs w) p, Some (c @ [newline])} \<and>
         (r = Inr () \<longrightarrow> data_at (wFs w') p = Some (c @ [newline])) \<and>
         (\<forall>q d. q \<noteq> p \<longrightarrow> data_at (wFs w) q = Some d \<longrightarrow> data_at (wFs w') q = Some d)"
  using assms by (rule write_outcome)

theorem atomic_write_old_or_new_witness:
  "data_at (wFs (snd (writeJSONAtomicLocked (rooted_sample_env (Some 3)) rooted_sample_api ''doc'' ''new'' 420 rooted_sample_world)))
     ''doc'' \<in> {None, Some (''new'' @ [newline])}"
proof -
  let ?r = "writeJSONAtomicLocked (rooted_sample_env (Some 3)) rooted_sample_api ''doc'' ''new'' 420 rooted_sample_world"
  have "?r = (fst ?r, snd ?r)" by simp
  moreover have "case rootedRelativePath ''doc'' of Inr p \<Rightarrow> p = ''doc'' | Inl _ \<Rightarrow> False" by code_simp
  then have "rootedRelativePath ''doc'' = Inr ''doc''" by (auto split: sum.splits)
  moreover have "jMarshal rooted_sample_api ''new'' = Inr ''new''" by (simp add: rooted_sample_api_def)
  moreover have "data_at (wFs rooted_sample_world) ''doc'' = None" by code_simp
  ultimately show ?thesis
    using atomic_write_old_or_new [of "rooted_sample_env (Some 3)" rooted_sample_api "''doc''" "''new''" 420 rooted_sample_world
        "fst ?r" "snd ?r" "''doc''" "''new''"] by simp
qed

text \<open>
  C22. A bounded read returns the file exactly when it has at most the maximum number of bytes,
  in whatever pieces the bytes arrive, and the error for a larger file otherwise; a read that
  returns content never returns anything but the whole file, in a buffer whose capacity stays
  within the maximum.
\<close>

theorem bounded_read_exact:
  assumes "open_data p (wFs w) = Inr d" and "fdOff w = 0" and "0 < maxBytes" and "maxBytes \<le> maxInt"
    and "readJSONLContent (fd_readAll E p) (fd_read E piece p) maxBytes w = (r, w')"
  shows "(\<forall>x. r = Inr x \<longrightarrow> x = d \<and> int (length d) \<le> maxBytes) \<and>
         (calm E \<longrightarrow> r = (if int (length d) \<le> maxBytes then Inr d else Inl (ERoot MaxBytesExceeded))) \<and>
         (\<forall>x cap. fst (read_loop (fd_read E piece p) (nat maxBytes)
             ([], minRootedJSONLReadCapacity (nat maxBytes)) w) = Inr (x, cap) \<longrightarrow> cap \<le> nat maxBytes)"
proof -
  have ok: "fd_ok p w" "fd_rest p w = d" using assms(1,2) by (auto simp: fd_ok_def fd_rest_def)
  let ?m = "nat maxBytes"
  let ?b = "([], minRootedJSONLReadCapacity ?m)"
  have "length (fst ?b) \<le> snd ?b" "0 < snd ?b" "snd ?b \<le> ?m"
    using assms(3) by (auto simp: minRootedJSONLReadCapacity_def rootedJSONLInitialReadCapacity_def)
  from fd.read_loop_outcome [OF this ok(1), THEN conjunct1]
  have "\<forall>x cap. fst (read_loop (fd_read E piece p) ?m ?b w) = Inr (x, cap) \<longrightarrow> cap \<le> ?m" by blast
  moreover have "calm E \<longrightarrow> r = (if int (length d) \<le> maxBytes then Inr d else Inl (ERoot MaxBytesExceeded))"
    using fd.bounded_read [OF assms(5,3,4) ok(1), THEN conjunct2] calm_not_failing unfolding ok(2) by blast
  moreover have "\<forall>x. r = Inr x \<longrightarrow> x = d \<and> int (length d) \<le> maxBytes"
    using fd.bounded_read [OF assms(5,3,4) ok(1), THEN conjunct1] unfolding ok(2) by blast
  ultimately show ?thesis by blast
qed

theorem bounded_read_exact_witness:
  "fst (readJSONLContent (fd_readAll (rooted_sample_env None) ''log'') (fd_read (rooted_sample_env None) (\<lambda>_. 2) ''log'') 5
     rooted_sample_world) = Inr (''{1}'' @ [newline] @ ''{'')"
proof -
  let ?r = "readJSONLContent (fd_readAll (rooted_sample_env None) ''log'') (fd_read (rooted_sample_env None) (\<lambda>_. 2) ''log'') 5
     rooted_sample_world"
  have "case open_data ''log'' (wFs rooted_sample_world) of Inr d \<Rightarrow> d = ''{1}'' @ [newline] @ ''{'' | Inl _ \<Rightarrow> False" by code_simp
  then have d: "open_data ''log'' (wFs rooted_sample_world) = Inr (''{1}'' @ [newline] @ ''{'')"
    by (auto split: sum.splits)
  have o: "fdOff rooted_sample_world = 0" by (simp add: rooted_sample_world_def)
  have m: "(0::int) < 5" "5 \<le> maxInt" by (simp_all add: maxInt_def)
  have r: "?r = (fst ?r, snd ?r)" by simp
  have c: "calm (rooted_sample_env None)" by (simp add: calm_def rooted_sample_env_def)
  from bounded_read_exact [OF d o m r, THEN conjunct2, THEN conjunct1, THEN mp, OF c] show ?thesis by simp
qed

text \<open>
  C23. Opening a capability returns a handle only for a scope that is one plain path segment, only
  when the project directory and the scope directory were real directories, and only when
  the opened project and the returned handle are those very directories; a swap between the
  check and the open is refused.
\<close>

theorem opened_scope_is_verified:
  assumes "openRootedFilesWithProject S projectPath scope s = (Inr h, s')"
  shows "\<exists>pre project vp op vs os. scope_validate scope = Inr pre \<and> slash \<notin> set pre \<and> csegs pre = [pre] \<and>
           real_dir vp \<and> (\<exists>a b c d. roLstat S c a = (Inr vp, b) \<and> roAbs S projectPath = Inr d \<and> c = path_Clean d) \<and>
           (\<exists>a b. roStatRoot S project a = (Inr op, b)) \<and> fiFile op = fiFile vp \<and>
           real_dir vs \<and> (\<exists>a b. roLstatIn S project pre a = (Inr vs, b)) \<and>
           (\<exists>a b. roStatRoot S h a = (Inr os, b)) \<and> fiFile os = fiFile vs"
proof -
  from assms obtain pre d vp project op s1 s2 s3 s4 s5 where
      pre: "scope_validate scope = Inr pre" and d: "roAbs S projectPath = Inr d"
      and vp: "roLstat S (path_Clean d) s1 = (Inr vp, s2)" "real_dir vp"
      and op: "roStatRoot S project s3 = (Inr op, s4)" "fiFile vp = fiFile op"
      and sc: "open_scope S project pre s4 = (Inr h, s5)"
    by (auto simp: openRootedFilesWithProject_def res_simps Let_def)
  from sc obtain vs os t1 t2 t3 where vs: "ensureRealRootedScope S project pre s4 = (Inr vs, t1)"
      and os: "roStatRoot S h t2 = (Inr os, t3)" "fiFile vs = fiFile os"
    by (auto simp: open_scope_def res_simps split: if_splits)
  from vs have vs2: "real_dir vs" "\<exists>a b. roLstatIn S project pre a = (Inr vs, b)"
    by (auto simp: ensureRealRootedScope_def res_simps iocatch_def split: if_splits prod.splits sum.splits)
  have ns: "slash \<notin> set pre" and r: "rootedRelativePath scope = Inr pre"
    using pre by (auto simp: scope_validate_def res_simps Contains_singleton split: if_splits)
  have "csegs pre = [pre]" using rootedRelativePath_inside [OF r] ns by (intro csegs_single) auto
  with ns pre d vp op vs2 os show ?thesis by metis
qed

definition rooted_sample_os :: "(string, unit) rootos" where
  "rooted_sample_os = (let dir = \<lparr>fiSymlink = False, fiDir = True, fiFile = 7\<rparr> in
     \<lparr>roAbs = Inr, roLstat = (\<lambda>_. ioret dir), roOpenProject = ioret, roStatRoot = (\<lambda>_. ioret dir),
      roLstatIn = (\<lambda>_ _. ioret dir), roMkdir = (\<lambda>_ _. ioret ()), roSyncDir = (\<lambda>_ _. ioret ()),
      roOpenScope = (\<lambda>_. ioret), roClose = (\<lambda>_. ioret ())\<rparr>)"

theorem opened_scope_is_verified_witness:
  "\<exists>pre. scope_validate ''logs'' = Inr pre \<and> csegs pre = [pre]"
proof -
  let ?r = "openRootedFilesWithProject rooted_sample_os ''/p'' ''logs'' ()"
  have "case fst ?r of Inr h \<Rightarrow> h = ''logs'' | Inl _ \<Rightarrow> False" by code_simp
  then have "?r = (Inr ''logs'', snd ?r)" by (cases ?r) (auto split: sum.splits)
  from opened_scope_is_verified [OF this] show ?thesis by blast
qed

end
