(* ===== verification/RootedLifecycle.thy ===== *)
theory RootedLifecycle
  imports RootedFiles
begin

text \<open>
  \<open>Close\<close> against concurrent operations of one \<open>RootedFiles\<close> capability, as a step relation.
  A step is what a goroutine does in one critical section of \<open>lifecycleMu\<close>, or when it takes
  or releases \<open>mu\<close>: take a lease (\<open>begin_lease\<close>), be refused, give the lease back
  (\<open>end_lease\<close>, which may broadcast), mark the capability as closing and wait for the
  operations left, wake up and look again, take \<open>mu\<close>, close the descriptor. Goroutines are
  numbered. Their phases:

  \<^item> \<open>InOperation\<close>: between \<open>beginOperation\<close> and \<open>endOperation\<close>, outside \<open>mu\<close>; \<open>Reading\<close>: the
    same, holding \<open>mu\<close> for reading;
  \<^item> \<open>Waiting\<close>: \<open>Close\<close> parked in \<open>cond.Wait()\<close>; only a broadcast ends this phase;
  \<^item> \<open>Woken\<close>: a broadcast has reached it and it has to take \<open>lifecycleMu\<close> and test the loop
    condition again;
  \<^item> \<open>Drained\<close>: it has set \<open>closed\<close> and wants \<open>mu\<close>; \<open>Exclusive\<close>: it holds \<open>mu\<close> for writing.
\<close>

datatype phase = Idle | InOperation | Reading | Waiting | Woken | Drained | Exclusive

record lstate =
  lsLife :: lifecycle
  lsPhase :: "nat \<Rightarrow> phase"

definition mark_closing :: "lifecycle \<Rightarrow> lifecycle" where
  "mark_closing l = l\<lparr>lcClosing := True\<rparr>"

text \<open>One test of the loop of \<open>Close\<close>: park on the condition, or set \<open>closed\<close> and go on.\<close>

definition finish_drain :: "lifecycle \<Rightarrow> phase \<times> lifecycle" where
  "finish_drain l = (if lcOperations l > 0 then (Waiting, l) else (Drained, l\<lparr>lcClosed := True\<rparr>))"

definition close_root :: "lifecycle \<Rightarrow> lifecycle" where
  "close_root l = (if \<not> lcRoot l then l else l\<lparr>lcRoot := False\<rparr>)"

definition moved :: "lstate \<Rightarrow> nat \<Rightarrow> phase \<Rightarrow> lifecycle \<Rightarrow> lstate" where
  "moved s t ph l = \<lparr>lsLife = l, lsPhase = (lsPhase s)(t := ph)\<rparr>"

text \<open>\<open>sync.Cond.Broadcast\<close> wakes every goroutine that is parked at that moment.\<close>

definition broadcast :: "lstate \<Rightarrow> lstate" where
  "broadcast s = s\<lparr>lsPhase := (\<lambda>t. if lsPhase s t = Waiting then Woken else lsPhase s t)\<rparr>"

definition ended :: "lstate \<Rightarrow> nat \<Rightarrow> lstate" where
  "ended s t = (let (l, wake) = end_lease (lsLife s) in
     if wake then broadcast (moved s t Idle l) else moved s t Idle l)"

definition mu_unlocked :: "lstate \<Rightarrow> bool" where
  "mu_unlocked s \<longleftrightarrow> (\<forall>u. lsPhase s u \<noteq> Reading \<and> lsPhase s u \<noteq> Exclusive)"

inductive lifecycle_step :: "lstate \<Rightarrow> lstate \<Rightarrow> bool" where
  step_begin: "lsPhase s t = Idle \<Longrightarrow> begin_lease (lsLife s) = Inr l \<Longrightarrow> lifecycle_step s (moved s t InOperation l)"
| step_refuse: "lsPhase s t = Idle \<Longrightarrow> begin_lease (lsLife s) = Inl e \<Longrightarrow> lifecycle_step s s"
| step_rlock: "lsPhase s t = InOperation \<Longrightarrow> \<forall>u. lsPhase s u \<noteq> Exclusive \<Longrightarrow> lifecycle_step s (moved s t Reading (lsLife s))"
| step_runlock: "lsPhase s t = Reading \<Longrightarrow> lifecycle_step s (moved s t InOperation (lsLife s))"
| step_end: "lsPhase s t = InOperation \<Longrightarrow> lifecycle_step s (ended s t)"
| step_close: "lsPhase s t = Idle \<Longrightarrow> finish_drain (mark_closing (lsLife s)) = (ph, l) \<Longrightarrow> lifecycle_step s (moved s t ph l)"
| step_recheck: "lsPhase s t = Woken \<Longrightarrow> finish_drain (lsLife s) = (ph, l) \<Longrightarrow> lifecycle_step s (moved s t ph l)"
| step_lock: "lsPhase s t = Drained \<Longrightarrow> mu_unlocked s \<Longrightarrow> lifecycle_step s (moved s t Exclusive (lsLife s))"
| step_root: "lsPhase s t = Exclusive \<Longrightarrow> lifecycle_step s (moved s t Idle (close_root (lsLife s)))"

inductive_cases lifecycle_stepE: "lifecycle_step s s'"

definition opened :: lstate where
  "opened = \<lparr>lsLife = \<lparr>lcRoot = True, lcClosing = False, lcClosed = False, lcOperations = 0\<rparr>, lsPhase = (\<lambda>_. Idle)\<rparr>"

inductive lifecycle_reachable :: "lstate \<Rightarrow> bool" where
  reach_opened: "lifecycle_reachable opened"
| reach_step: "lifecycle_reachable s \<Longrightarrow> lifecycle_step s s' \<Longrightarrow> lifecycle_reachable s'"

definition operating :: "lstate \<Rightarrow> nat set" where
  "operating s = {t. lsPhase s t = InOperation \<or> lsPhase s t = Reading}"

text \<open>
  Infinite runs, which may also stutter. Two assumptions make a run fair: every operation
  ends; and a goroutine in \<open>Close\<close> that could move again and again (it has been woken, or holds
  \<open>mu\<close>, or wants \<open>mu\<close> and finds it free) moves at some time. Nothing is assumed of a parked
  goroutine.
\<close>

definition lifecycle_run :: "(nat \<Rightarrow> lstate) \<Rightarrow> bool" where
  "lifecycle_run r \<longleftrightarrow> r 0 = opened \<and> (\<forall>i. r (Suc i) = r i \<or> lifecycle_step (r i) (r (Suc i)))"

definition can_move :: "lstate \<Rightarrow> nat \<Rightarrow> bool" where
  "can_move s t \<longleftrightarrow> lsPhase s t = Woken \<or> lsPhase s t = Exclusive \<or> (lsPhase s t = Drained \<and> mu_unlocked s)"

definition fair :: "(nat \<Rightarrow> lstate) \<Rightarrow> bool" where
  "fair r \<longleftrightarrow> (\<forall>i t. (\<forall>k\<ge>i. \<exists>j\<ge>k. can_move (r j) t) \<longrightarrow> (\<exists>j\<ge>i. lsPhase (r j) t \<noteq> lsPhase (r i) t))"

definition operations_end :: "(nat \<Rightarrow> lstate) \<Rightarrow> bool" where
  "operations_end r \<longleftrightarrow> (\<forall>i. \<forall>t \<in> operating (r i). \<exists>j\<ge>i. t \<notin> operating (r j))"

definition fair_run :: "(nat \<Rightarrow> lstate) \<Rightarrow> bool" where
  "fair_run r \<longleftrightarrow> lifecycle_run r \<and> fair r \<and> operations_end r"

section \<open>Invariant\<close>

definition lifecycle_inv :: "lstate \<Rightarrow> bool" where
  "lifecycle_inv s \<longleftrightarrow>
     finite (operating s) \<and> lcOperations (lsLife s) = int (card (operating s)) \<and>
     (lcClosed (lsLife s) \<longrightarrow> lcClosing (lsLife s) \<and> operating s = {}) \<and>
     (\<not> lcRoot (lsLife s) \<longrightarrow> lcClosed (lsLife s)) \<and>
     (\<forall>t. lsPhase s t = Waiting \<longrightarrow> lcClosing (lsLife s) \<and> operating s \<noteq> {}) \<and>
     (\<forall>t. lsPhase s t = Woken \<longrightarrow> lcClosing (lsLife s) \<and> operating s = {}) \<and>
     (\<forall>t. lsPhase s t = Drained \<or> lsPhase s t = Exclusive \<longrightarrow> lcClosed (lsLife s)) \<and>
     (\<forall>t u. lsPhase s t = Exclusive \<and> lsPhase s u = Exclusive \<longrightarrow> t = u)"

lemma moved_simps [simp]:
  "lsLife (moved s t ph l) = l" "lsPhase (moved s t ph l) x = (if x = t then ph else lsPhase s x)"
  by (auto simp: moved_def)

lemma broadcast_simps [simp]:
  "lsLife (broadcast s) = lsLife s" "lsPhase (broadcast s) x = (if lsPhase s x = Waiting then Woken else lsPhase s x)"
  by (auto simp: broadcast_def)

lemma operating_moved:
  "operating (moved s t ph l) = (if ph = InOperation \<or> ph = Reading then insert t (operating s) else operating s - {t})"
  by (auto simp: operating_def)

lemma operating_broadcast [simp]: "operating (broadcast s) = operating s"
  by (auto simp: operating_def)

lemma not_operating: "lsPhase s t \<noteq> InOperation \<Longrightarrow> lsPhase s t \<noteq> Reading \<Longrightarrow> t \<notin> operating s"
  by (simp add: operating_def)

lemma ended_simps:
  "operating (ended s t) = operating s - {t}"
  "lsLife (ended s t) = (lsLife s)\<lparr>lcOperations := lcOperations (lsLife s) - 1\<rparr>"
  "lsPhase (ended s t) x = (if x = t then Idle else if lsPhase s x = Waiting \<and> lcOperations (lsLife s) = 1 then Woken else lsPhase s x)"
  by (auto simp: ended_def end_lease_def Let_def operating_moved)

lemmas lease_defs = begin_lease_def mark_closing_def finish_drain_def close_root_def

lemma inv_opened: "lifecycle_inv opened"
  by (simp add: lifecycle_inv_def opened_def operating_def)

lemma inv_end:
  assumes "lsPhase s t = InOperation" and "lifecycle_inv s"
  shows "lifecycle_inv (ended s t)"
proof -
  have t: "t \<in> operating s" using assms(1) by (simp add: operating_def)
  with assms(2) have "0 < card (operating s)" by (auto simp: lifecycle_inv_def card_gt_0_iff)
  moreover have "card (operating s) = 1 \<longleftrightarrow> operating s - {t} = {}"
    using t by (auto simp: card_1_singleton_iff)
  ultimately show ?thesis
    using t assms(2) unfolding lifecycle_inv_def ended_simps by (auto simp: of_nat_diff)
qed

lemma inv_step:
  assumes "lifecycle_step s s'" and "lifecycle_inv s"
  shows "lifecycle_inv s'"
  using assms(1)
proof cases
  case (step_begin t l)
  have "t \<notin> operating s" using step_begin by (simp add: not_operating)
  with step_begin assms(2) show ?thesis
    by (auto simp: lifecycle_inv_def operating_moved lease_defs split: if_splits)
next
  case (step_end t)
  then show ?thesis using inv_end assms(2) by simp
next
  case (step_rlock t)
  then have "insert t (operating s) = operating s" by (auto simp: operating_def)
  with step_rlock assms(2) show ?thesis by (auto simp: lifecycle_inv_def operating_moved)
next
  case (step_runlock t)
  then have "insert t (operating s) = operating s" by (auto simp: operating_def)
  with step_runlock assms(2) show ?thesis by (auto simp: lifecycle_inv_def operating_moved)
next
  case (step_close t ph l)
  then have "operating s - {t} = operating s" by (auto simp: operating_def)
  with step_close assms(2) show ?thesis
    by (auto simp: lifecycle_inv_def operating_moved lease_defs split: if_splits)
next
  case (step_recheck t ph l)
  then have "operating s - {t} = operating s" by (auto simp: operating_def)
  with step_recheck assms(2) show ?thesis
    by (auto simp: lifecycle_inv_def operating_moved lease_defs split: if_splits)
next
  case (step_lock t)
  then have "operating s - {t} = operating s" by (auto simp: operating_def)
  with step_lock assms(2) show ?thesis
    by (auto simp: lifecycle_inv_def operating_moved mu_unlocked_def)
next
  case (step_root t)
  then have "operating s - {t} = operating s" by (auto simp: operating_def)
  with step_root assms(2) show ?thesis
    by (auto simp: lifecycle_inv_def operating_moved lease_defs)
qed (use assms in simp)

lemma inv_reachable: "lifecycle_reachable s \<Longrightarrow> lifecycle_inv s"
  by (induction rule: lifecycle_reachable.induct) (auto intro: inv_opened inv_step)

lemma closing_admits_none:
  "lifecycle_step s s' \<Longrightarrow> lcClosing (lsLife s) \<Longrightarrow> operating s' \<subseteq> operating s \<and> lcClosing (lsLife s')"
  by (erule lifecycle_stepE)
    (auto simp: operating_moved lease_defs ended_simps operating_def split: if_splits)

section \<open>Progress of \<open>Close\<close>\<close>

text \<open>What the next phase of a goroutine in \<open>Close\<close> is when it leaves its phase.\<close>

lemma leaves_waiting: "lifecycle_step s s' \<Longrightarrow> lsPhase s t = Waiting \<Longrightarrow> lsPhase s' t \<noteq> Waiting \<Longrightarrow> lsPhase s' t = Woken"
  by (erule lifecycle_stepE) (auto simp: ended_simps split: if_splits)

lemma leaves_woken:
  "lifecycle_step s s' \<Longrightarrow> lifecycle_inv s \<Longrightarrow> lsPhase s t = Woken \<Longrightarrow> lsPhase s' t \<noteq> Woken \<Longrightarrow> lsPhase s' t = Drained"
  by (erule lifecycle_stepE) (auto simp: ended_simps finish_drain_def lifecycle_inv_def split: if_splits)

lemma leaves_drained: "lifecycle_step s s' \<Longrightarrow> lsPhase s t = Drained \<Longrightarrow> lsPhase s' t \<noteq> Drained \<Longrightarrow> lsPhase s' t = Exclusive"
  by (erule lifecycle_stepE) (auto simp: ended_simps split: if_splits)

lemma leaves_exclusive:
  "lifecycle_step s s' \<Longrightarrow> lifecycle_inv s \<Longrightarrow> lsPhase s t = Exclusive \<Longrightarrow> lsPhase s' t \<noteq> Exclusive \<Longrightarrow>
   lsPhase s' t = Idle \<and> \<not> lcRoot (lsLife s') \<and> lcClosed (lsLife s') \<and> (\<forall>u. lsPhase s' u \<noteq> Exclusive)"
  by (erule lifecycle_stepE) (auto simp: ended_simps close_root_def lifecycle_inv_def split: if_splits)

lemma first_change:
  assumes "f i = a" and "f j \<noteq> a" and "i \<le> (j :: nat)"
  obtains k where "i \<le> k" "f k = a" "f (Suc k) \<noteq> a"
proof -
  have "\<exists>k\<ge>i. f k = a \<and> f (Suc k) \<noteq> a"
    using assms(3,2) assms(1) by (induction j rule: dec_induct) auto
  then show thesis using that by blast
qed

lemma run_step: "fair_run r \<Longrightarrow> r (Suc i) = r i \<or> lifecycle_step (r i) (r (Suc i))"
  by (simp add: fair_run_def lifecycle_run_def)

lemma run_reachable:
  assumes "fair_run r"
  shows "lifecycle_reachable (r i)"
proof (induction i)
  case 0
  from assms show ?case by (simp add: fair_run_def lifecycle_run_def reach_opened)
next
  case (Suc i)
  with run_step [OF assms, of i] show ?case by (auto intro: reach_step)
qed

lemma run_inv: "fair_run r \<Longrightarrow> lifecycle_inv (r i)"
  by (rule inv_reachable [OF run_reachable])

lemma closing_in_wait: "lifecycle_inv s \<Longrightarrow> lsPhase s t = Waiting \<Longrightarrow> lcClosing (lsLife s)"
  by (auto simp: lifecycle_inv_def)

lemma closing_stays:
  assumes F: "fair_run r"
  shows "i \<le> j \<Longrightarrow> lcClosing (lsLife (r i)) \<Longrightarrow> lcClosing (lsLife (r j)) \<and> operating (r j) \<subseteq> operating (r i)"
proof (induction j rule: dec_induct)
  case (step j)
  then show ?case using run_step [OF F, of j] closing_admits_none [of "r j"] by force
qed simp

lemma leaves:
  assumes F: "fair_run r" and "lsPhase (r i) t = a" and "\<exists>j\<ge>i. lsPhase (r j) t \<noteq> a"
  obtains k where "i \<le> k" "lsPhase (r k) t = a" "lsPhase (r (Suc k)) t \<noteq> a" "lifecycle_step (r k) (r (Suc k))"
proof -
  from assms(3) obtain j where "j \<ge> i" "lsPhase (r j) t \<noteq> a" by blast
  from first_change [OF assms(2) this(2,1)] obtain k where k: "i \<le> k" "lsPhase (r k) t = a" "lsPhase (r (Suc k)) t \<noteq> a" .
  with run_step [OF F, of k] have "lifecycle_step (r k) (r (Suc k))" by auto
  with k show thesis by (rule that)
qed

lemma moves:
  assumes F: "fair_run r"
    and "\<And>k. i \<le> k \<Longrightarrow> lsPhase (r k) t = lsPhase (r i) t \<Longrightarrow> \<exists>j\<ge>k. lsPhase (r j) t = lsPhase (r i) t \<longrightarrow> can_move (r j) t"
  shows "\<exists>j\<ge>i. lsPhase (r j) t \<noteq> lsPhase (r i) t"
proof (rule ccontr)
  assume "\<not> ?thesis"
  then have same: "\<And>j. i \<le> j \<Longrightarrow> lsPhase (r j) t = lsPhase (r i) t" by blast
  have "\<forall>k\<ge>i. \<exists>j\<ge>k. can_move (r j) t" using assms(2) same by (meson order_trans)
  with F have "\<exists>j\<ge>i. lsPhase (r j) t \<noteq> lsPhase (r i) t" unfolding fair_run_def fair_def by blast
  with same show False by blast
qed

lemma operations_drain:
  assumes F: "fair_run r"
  shows "lcClosing (lsLife (r i)) \<Longrightarrow> \<exists>j\<ge>i. operating (r j) = {}"
proof (induction "card (operating (r i))" arbitrary: i rule: less_induct)
  case less
  show ?case
  proof (cases "operating (r i) = {}")
    case False
    then obtain t where t: "t \<in> operating (r i)" by blast
    with F obtain j where j: "i \<le> j" "t \<notin> operating (r j)" by (auto simp: fair_run_def operations_end_def)
    from closing_stays [OF F j(1) less.prems] t j(2) have "operating (r j) \<subset> operating (r i)" by blast
    moreover have "finite (operating (r i))" using run_inv [OF F, of i] by (simp add: lifecycle_inv_def)
    ultimately have "card (operating (r j)) < card (operating (r i))" by (rule psubset_card_mono [rotated])
    with less.hyps [of j] closing_stays [OF F j(1) less.prems] j(1) show ?thesis by (meson order_trans)
  qed blast
qed

lemma waiting_wakes:
  assumes F: "fair_run r" and "lsPhase (r i) t = Waiting"
  shows "\<exists>j\<ge>i. lsPhase (r j) t = Woken"
proof -
  have "lcClosing (lsLife (r i))" by (rule closing_in_wait [OF run_inv [OF F] assms(2)])
  then obtain j where j: "i \<le> j" "operating (r j) = {}" using operations_drain [OF F] by blast
  then have "lsPhase (r j) t \<noteq> Waiting" using run_inv [OF F, of j] by (auto simp: lifecycle_inv_def)
  with leaves [OF F assms(2)] j(1) obtain k where "i \<le> k" "lsPhase (r k) t = Waiting" "lsPhase (r (Suc k)) t \<noteq> Waiting"
      "lifecycle_step (r k) (r (Suc k))" by blast
  with leaves_waiting [OF this(4,2,3)] show ?thesis by (meson le_SucI)
qed

lemma woken_drains:
  assumes F: "fair_run r" and "lsPhase (r i) t = Woken"
  shows "\<exists>j\<ge>i. lsPhase (r j) t = Drained"
proof -
  have "\<exists>j\<ge>i. lsPhase (r j) t \<noteq> Woken"
    using moves [OF F, of i t] assms(2) by (auto simp: can_move_def)
  from leaves [OF F assms(2) this] obtain k where "i \<le> k" "lsPhase (r k) t = Woken" "lsPhase (r (Suc k)) t \<noteq> Woken"
      "lifecycle_step (r k) (r (Suc k))" by blast
  with leaves_woken [OF this(4) run_inv [OF F] this(2,3)] show ?thesis by (meson le_SucI)
qed

lemma exclusive_closes:
  assumes F: "fair_run r" and "lsPhase (r i) t = Exclusive"
  shows "\<exists>j\<ge>i. lsPhase (r j) t = Idle \<and> \<not> lcRoot (lsLife (r j)) \<and> lcClosed (lsLife (r j)) \<and> (\<forall>u. lsPhase (r j) u \<noteq> Exclusive)"
proof -
  have "\<exists>j\<ge>i. lsPhase (r j) t \<noteq> Exclusive"
    using moves [OF F, of i t] assms(2) by (auto simp: can_move_def)
  from leaves [OF F assms(2) this] obtain k where "i \<le> k" "lsPhase (r k) t = Exclusive" "lsPhase (r (Suc k)) t \<noteq> Exclusive"
      "lifecycle_step (r k) (r (Suc k))" by blast
  with leaves_exclusive [OF this(4) run_inv [OF F] this(2,3)] show ?thesis by (meson le_SucI)
qed

lemma mu_is_freed:
  assumes F: "fair_run r" and "lsPhase (r i) t = Drained"
  shows "\<exists>j\<ge>i. \<forall>u. lsPhase (r j) u \<noteq> Exclusive"
  using exclusive_closes [OF F, of i] by blast

lemma drained_locks:
  assumes F: "fair_run r" and "lsPhase (r i) t = Drained"
  shows "\<exists>j\<ge>i. lsPhase (r j) t = Exclusive"
proof -
  have "\<exists>j\<ge>k. lsPhase (r j) t = Drained \<longrightarrow> can_move (r j) t" if "lsPhase (r k) t = Drained" for k
  proof -
    from mu_is_freed [OF F that] obtain j where j: "k \<le> j" "\<forall>u. lsPhase (r j) u \<noteq> Exclusive" by blast
    have "lsPhase (r j) t = Drained \<longrightarrow> operating (r j) = {}" using run_inv [OF F, of j] by (auto simp: lifecycle_inv_def)
    with j show ?thesis by (auto simp: can_move_def mu_unlocked_def operating_def)
  qed
  with moves [OF F, of i t] assms(2) have "\<exists>j\<ge>i. lsPhase (r j) t \<noteq> Drained" by simp
  from leaves [OF F assms(2) this] obtain k where "i \<le> k" "lsPhase (r k) t = Drained" "lsPhase (r (Suc k)) t \<noteq> Drained"
      "lifecycle_step (r k) (r (Suc k))" by blast
  with leaves_drained [OF this(4,2,3)] show ?thesis by (meson le_SucI)
qed

lemma close_returns:
  assumes F: "fair_run r" and "lsPhase (r i) t \<in> {Waiting, Woken, Drained, Exclusive}"
  shows "\<exists>j\<ge>i. lsPhase (r j) t = Idle \<and> \<not> lcRoot (lsLife (r j)) \<and> lcClosed (lsLife (r j))"
proof -
  have e: "lsPhase (r k) t = Exclusive \<Longrightarrow> i \<le> k \<Longrightarrow> ?thesis" for k
    using exclusive_closes [OF F, of k t] by (meson order_trans)
  have d: "lsPhase (r k) t = Drained \<Longrightarrow> i \<le> k \<Longrightarrow> ?thesis" for k
    using drained_locks [OF F, of k t] e by (meson order_trans)
  have w: "lsPhase (r k) t = Woken \<Longrightarrow> i \<le> k \<Longrightarrow> ?thesis" for k
    using woken_drains [OF F, of k t] d by (meson order_trans)
  show ?thesis using assms(2) waiting_wakes [OF F, of i t] w d e by blast
qed

section \<open>Properties\<close>

text \<open>
  C24. While an operation holds its lease the descriptor of the capability is open, in every
  interleaving of operations and calls of \<open>Close\<close>; the counter of operations is their number;
  and once a \<open>Close\<close> has begun no further operation is admitted.
\<close>

theorem operations_keep_the_root:
  assumes "lifecycle_reachable s"
  shows "lcOperations (lsLife s) = int (card (operating s)) \<and>
         (operating s \<noteq> {} \<longrightarrow> lcRoot (lsLife s) \<and> \<not> lcClosed (lsLife s)) \<and>
         (lcClosing (lsLife s) \<longrightarrow> (\<forall>s'. lifecycle_step s s' \<longrightarrow> operating s' \<subseteq> operating s))"
  using inv_reachable [OF assms] closing_admits_none [of s] by (auto simp: lifecycle_inv_def)

theorem operations_keep_the_root_witness:
  "lcRoot (lsLife (moved (moved opened 0 InOperation ((lsLife opened)\<lparr>lcOperations := 1\<rparr>)) 1 Waiting
     (mark_closing ((lsLife opened)\<lparr>lcOperations := 1\<rparr>))))"
proof -
  let ?l = "(lsLife opened)\<lparr>lcOperations := 1\<rparr>"
  let ?s = "moved opened 0 InOperation ?l"
  let ?c = "moved ?s 1 Waiting (mark_closing ?l)"
  have "lifecycle_step opened ?s"
    by (rule step_begin) (simp_all add: opened_def begin_lease_def)
  moreover have "lifecycle_step ?s ?c"
    by (rule step_close) (simp_all add: opened_def finish_drain_def mark_closing_def)
  ultimately have "lifecycle_reachable ?c" by (meson reach_opened reach_step)
  moreover have "operating ?c \<noteq> {}" by (auto simp: operating_moved)
  ultimately show ?thesis using operations_keep_the_root [of ?c] by blast
qed

text \<open>
  C25. Every call of \<open>Close\<close> returns, with the descriptor closed: in every interleaving in which
  the operations end and no goroutine that can move is passed over for ever, a goroutine that
  is inside \<open>Close\<close> (also one parked on the condition, which only a broadcast wakes) gets out of
  it, and at that moment the capability is closed and its descriptor released. No wakeup is
  lost and \<open>mu\<close> is obtained.
\<close>

theorem close_completes:
  assumes "lifecycle_run r" and "fair r" and "operations_end r"
    and "lsPhase (r i) t \<in> {Waiting, Woken, Drained, Exclusive}"
  shows "\<exists>j\<ge>i. lsPhase (r j) t = Idle \<and> \<not> lcRoot (lsLife (r j)) \<and> lcClosed (lsLife (r j))"
  using assms by (intro close_returns) (simp_all add: fair_run_def)

text \<open>A run: goroutine 0 operates, goroutine 1 closes and waits, 0 ends and wakes 1.\<close>

definition sample_state :: "phase \<Rightarrow> phase \<Rightarrow> bool \<Rightarrow> bool \<Rightarrow> bool \<Rightarrow> int \<Rightarrow> lstate" where
  "sample_state p q rt cg cd n =
     \<lparr>lsLife = \<lparr>lcRoot = rt, lcClosing = cg, lcClosed = cd, lcOperations = n\<rparr>,
      lsPhase = (\<lambda>t. if t = 0 then p else if t = 1 then q else Idle)\<rparr>"

definition sample_run :: "nat \<Rightarrow> lstate" where
  "sample_run i =
     (if i = 0 then sample_state Idle Idle True False False 0
      else if i = 1 then sample_state InOperation Idle True False False 1
      else if i = 2 then sample_state InOperation Waiting True True False 1
      else if i = 3 then sample_state Idle Woken True True False 0
      else if i = 4 then sample_state Idle Drained True True True 0
      else if i = 5 then sample_state Idle Exclusive True True True 0
      else sample_state Idle Idle False True True 0)"

lemma sample_step:
  assumes "i < 6"
  shows "lifecycle_step (sample_run i) (sample_run (Suc i))"
proof -
  note defs = sample_run_def sample_state_def moved_def fun_eq_iff
  have m: "moved (sample_run 0) 0 InOperation ((lsLife (sample_run 0))\<lparr>lcOperations := 1\<rparr>) = sample_run 1"
    "moved (sample_run 1) 1 Waiting (mark_closing (lsLife (sample_run 1))) = sample_run 2"
    "ended (sample_run 2) 0 = sample_run 3"
    "moved (sample_run 3) 1 Drained ((lsLife (sample_run 3))\<lparr>lcClosed := True\<rparr>) = sample_run 4"
    "moved (sample_run 4) 1 Exclusive (lsLife (sample_run 4)) = sample_run 5"
    "moved (sample_run 5) 1 Idle (close_root (lsLife (sample_run 5))) = sample_run 6"
    by (auto simp: defs mark_closing_def ended_def end_lease_def broadcast_def close_root_def)
  have "lifecycle_step (sample_run 0) (sample_run 1)" unfolding m [symmetric]
    by (rule step_begin) (simp_all add: defs begin_lease_def)
  moreover have "lifecycle_step (sample_run 1) (sample_run 2)" unfolding m(2) [symmetric]
    by (rule step_close) (simp_all add: defs finish_drain_def mark_closing_def)
  moreover have "lifecycle_step (sample_run 2) (sample_run 3)" unfolding m(3) [symmetric]
    by (rule step_end) (simp add: defs)
  moreover have "lifecycle_step (sample_run 3) (sample_run 4)" unfolding m(4) [symmetric]
    by (rule step_recheck) (simp_all add: defs finish_drain_def)
  moreover have "lifecycle_step (sample_run 4) (sample_run 5)" unfolding m(5) [symmetric]
    by (rule step_lock) (simp_all add: defs mu_unlocked_def)
  moreover have "lifecycle_step (sample_run 5) (sample_run 6)" unfolding m(6) [symmetric]
    by (rule step_root) (simp add: defs)
  moreover have "i = 0 \<or> i = 1 \<or> i = 2 \<or> i = 3 \<or> i = 4 \<or> i = 5" using assms by arith
  ultimately show ?thesis by (elim disjE) (simp_all add: numeral_eq_Suc)
qed

lemma sample_last: "6 \<le> i \<Longrightarrow> sample_run i = sample_state Idle Idle False True True 0"
  by (simp add: sample_run_def)

theorem close_completes_witness:
  "\<exists>j\<ge>2. lsPhase (sample_run j) 1 = Idle \<and> \<not> lcRoot (lsLife (sample_run j)) \<and> lcClosed (lsLife (sample_run j))"
proof (rule close_completes)
  have "sample_run (Suc i) = sample_run i \<or> lifecycle_step (sample_run i) (sample_run (Suc i))" for i
    by (cases "i < 6") (simp_all add: sample_step sample_last)
  then show "lifecycle_run sample_run"
    by (simp add: lifecycle_run_def sample_run_def [of 0] sample_state_def opened_def fun_eq_iff)
  have idle: "6 \<le> j \<Longrightarrow> lsPhase (sample_run j) t = Idle" for j t by (simp add: sample_last sample_state_def)
  then have "6 \<le> j \<Longrightarrow> \<not> can_move (sample_run j) t" for j t by (simp add: can_move_def)
  then show "fair sample_run" unfolding fair_def by (metis max.cobounded1 max.cobounded2 order_trans)
  have "6 \<le> j \<Longrightarrow> operating (sample_run j) = {}" for j using idle by (simp add: operating_def)
  then show "operations_end sample_run" unfolding operations_end_def by (metis empty_iff max.cobounded1 max.cobounded2)
  show "lsPhase (sample_run 2) 1 \<in> {Waiting, Woken, Drained, Exclusive}" by (simp add: sample_run_def sample_state_def)
qed

end
