(* ===== verification/SchemaDef.thy ===== *)
theory SchemaDef
  imports Schema
begin

text \<open>
  Portable schemas and stored definitions: the type mapping of \<open>type_mapping.go\<close>, the
  translation of a portable schema into a collection definition of \<open>schema_modifier.go\<close>
  (\<open>buildIngitdbCollectionDef\<close>) and the translation back of \<open>schema_reader.go\<close>
  (\<open>describeCollectionDefinition\<close>), with the round trip between them.

  The portable types belong to the package \<open>dbschema\<close>; its \<open>Type.String\<close> and the JSON
  encoders and decoders are parameters (\<open>schema_api\<close>). A decoder gives the value and
  whether nothing follows it.
\<close>

section \<open>Portable schemas\<close>

datatype db_type = DBNull | DBBool | DBInt | DBFloat | DBDecimal | DBString | DBBytes | DBTime | DBOther nat

datatype default_expr = DefaultCurrentTimestamp | DefaultLiteral val | OtherDefault string

record field_def =
  fdName :: string
  fdType :: db_type
  fdNullable :: bool
  fdAutoIncrement :: bool
  fdLength :: "int option"
  fdPrecision :: "(int \<times> int) option"
  fdDefault :: "default_expr option"

record index_def =
  ixName :: string
  ixCollection :: string
  ixFields :: "string list"
  ixUnique :: bool

record fkey_def =
  fkName :: string
  fkFields :: "string list"
  fkReferencedCollection :: string
  fkReferencedNamespace :: string
  fkReferencedFields :: "string list"
  fkEnforcement :: string
  fkOnUpdate :: string
  fkOnDelete :: string

record collection_def =
  scName :: string
  scFields :: "field_def list"
  scPrimaryKey :: "string list option"
  scIndexes :: "index_def list"
  scForeignKeys :: "fkey_def list"
  scSourceDefinition :: "val option"
  scSourceRights :: "val list"

text \<open>JSON values as a decoder with \<open>UseNumber\<close> gives them.\<close>

datatype jval = JNull | JBool bool | JNumber string | JString string | JOther

record schema_api =
  TypeString :: "db_type \<Rightarrow> string"
  json_Marshal :: "val \<Rightarrow> string res"
  json_Decode :: "string \<Rightarrow> (jval \<times> bool) res"
  json_UnmarshalBytes :: "string \<Rightarrow> string res"
  number_Int64 :: "string \<Rightarrow> int res"
  number_Float64 :: "string \<Rightarrow> float64 res"
  defn_Marshal :: "val \<Rightarrow> string"
  defn_Decode :: "string \<Rightarrow> (val \<times> bool) res"
  rights_Marshal :: "val list \<Rightarrow> string"
  rights_Decode :: "string \<Rightarrow> (val list \<times> bool) res"

section \<open>Types\<close>

fun ingitdbTypeToDBSchema :: "column_type \<Rightarrow> db_type res" where
  "ingitdbTypeToDBSchema ColumnTypeString = Inr DBString"
| "ingitdbTypeToDBSchema ColumnTypeInt = Inr DBInt"
| "ingitdbTypeToDBSchema ColumnTypeFloat = Inr DBFloat"
| "ingitdbTypeToDBSchema ColumnTypeBool = Inr DBBool"
| "ingitdbTypeToDBSchema ColumnTypeDate = Inr DBTime"
| "ingitdbTypeToDBSchema ColumnTypeTime = Inr DBTime"
| "ingitdbTypeToDBSchema ColumnTypeDateTime = Inr DBTime"
| "ingitdbTypeToDBSchema ColumnTypeAny = Inr DBString"
| "ingitdbTypeToDBSchema ColumnTypeL10N = Inr DBString"
| "ingitdbTypeToDBSchema (OtherColumnType t) =
     (if t = [] then Inl (EMsg ''empty ingitdb column type'' [])
      else if strings_HasPrefix t ''map['' then Inr DBString
      else Inl (EMsg ''unsupported ingitdb column type'' [t]))"

fun dbschemaTypeToIngitdb :: "db_type \<Rightarrow> column_type res" where
  "dbschemaTypeToIngitdb DBBool = Inr ColumnTypeBool"
| "dbschemaTypeToIngitdb DBInt = Inr ColumnTypeInt"
| "dbschemaTypeToIngitdb DBFloat = Inr ColumnTypeFloat"
| "dbschemaTypeToIngitdb DBDecimal = Inr ColumnTypeString"
| "dbschemaTypeToIngitdb DBString = Inr ColumnTypeString"
| "dbschemaTypeToIngitdb DBBytes = Inr ColumnTypeString"
| "dbschemaTypeToIngitdb DBTime = Inr ColumnTypeDateTime"
| "dbschemaTypeToIngitdb DBNull = Inl (EMsg ''dbschema.Null cannot be mapped to an ingitdb column type'' [])"
| "dbschemaTypeToIngitdb (DBOther n) = Inl (EMsg ''unsupported dbschema.Type'' [])"

definition sourceFieldType :: "string \<Rightarrow> db_type option" where
  "sourceFieldType name =
     (if name = ''bool'' then Some DBBool
      else if name = ''int'' then Some DBInt
      else if name = ''float'' then Some DBFloat
      else if name = ''string'' then Some DBString
      else if name = ''bytes'' then Some DBBytes
      else if name = ''time'' then Some DBTime
      else if name = ''decimal'' then Some DBDecimal
      else None)"

section \<open>From a portable schema to a definition\<close>

definition literal_ok :: "val \<Rightarrow> bool" where
  "literal_ok v = (case v of
     VNil \<Rightarrow> True | VNum k n \<Rightarrow> k = KInt \<or> k = KInt64 | VFloat64 x \<Rightarrow> True
   | VStr s \<Rightarrow> True | VBool b \<Rightarrow> True | VBytes b \<Rightarrow> True | _ \<Rightarrow> False)"

text \<open>The three default fields of a source field: kind, type and JSON.\<close>

definition build_default ::
  "schema_api \<Rightarrow> string \<Rightarrow> default_expr option \<Rightarrow> (string \<times> string \<times> string) res" where
  "build_default S name d =
     (case d of
        None \<Rightarrow> Inr ([], [], [])
      | Some DefaultCurrentTimestamp \<Rightarrow> Inr (''current-timestamp'', [], [])
      | Some (DefaultLiteral v) \<Rightarrow>
          if \<not> literal_ok v then Inl (EMsg ''field default literal has unsupported value type'' [name, fmt_T v])
          else rbind (map_err (EWrap (''field default '' @ name)) (json_Marshal S v)) (\<lambda>b.
            Inr (''literal'', fmt_T v, b))
      | Some (OtherDefault t) \<Rightarrow> Inl (EMsg ''field default has unsupported type'' [name, t]))"

definition build_field :: "schema_api \<Rightarrow> field_def \<Rightarrow> (column \<times> source_field) res" where
  "build_field S f =
     rbind (map_err (EWrap (''field '' @ fdName f)) (dbschemaTypeToIngitdb (fdType f))) (\<lambda>colType.
     rbind (build_default S (fdName f) (fdDefault f)) (\<lambda>(kind, ty, json).
       Inr (\<lparr>cType = colType, cRequired = \<not> fdNullable f, cForeignKey = [], cFormula = []\<rparr>,
            \<lparr>sfName = fdName f, sfType = TypeString S (fdType f), sfNullable = fdNullable f,
             sfAutoIncrement = fdAutoIncrement f, sfLength = fdLength f,
             sfPrecision = (case fdPrecision f of Some (t, s) \<Rightarrow> t | None \<Rightarrow> 0),
             sfScale = (case fdPrecision f of Some (t, s) \<Rightarrow> s | None \<Rightarrow> 0),
             sfEncoding = (if fdType f = DBBytes then ''base64'' else if fdType f = DBDecimal then ''decimal-string'' else []),
             sfDefaultKind = kind, sfDefaultType = ty, sfDefaultJSON = json\<rparr>)))"

definition build_index :: "index_def \<Rightarrow> source_index" where
  "build_index i = \<lparr>siName = ixName i, siFields = ixFields i, siUnique = ixUnique i\<rparr>"

definition build_fkey :: "fkey_def \<Rightarrow> source_fkey" where
  "build_fkey f =
     \<lparr>skName = fkName f, skFields = fkFields f, skReferencedCollection = fkReferencedCollection f,
      skReferencedNamespace = fkReferencedNamespace f, skReferencedFields = fkReferencedFields f,
      skSourceEnforcement = fkEnforcement f, skOnUpdate = fkOnUpdate f, skOnDelete = fkOnDelete f\<rparr>"

definition defaultRecordFile :: recfile where
  "defaultRecordFile =
     \<lparr>rfName = ''{key}.yaml'', rfRecordType = SingleRecord, rfFormat = RecordFormatYAML, rfCSVCellEncoding = []\<rparr>"

definition buildIngitdbCollectionDef :: "schema_api \<Rightarrow> collection_def \<Rightarrow> coldef res" where
  "buildIngitdbCollectionDef S c =
     rbind (rtraverse (build_field S) (scFields c)) (\<lambda>built.
       let cols = foldl (\<lambda>m (f, col, _). go_set (fdName f) (Some col) m) [] (zip (scFields c) built);
           source = \<lparr>ssKeyMode = [], ssFields = map snd built,
             ssIndexes = map build_index (scIndexes c), ssForeignKeys = map build_fkey (scForeignKeys c),
             ssSourceDefinitionJSON = (case scSourceDefinition c of Some d \<Rightarrow> defn_Marshal S d | None \<Rightarrow> []),
             ssSourceRightsJSON = (if scSourceRights c \<noteq> [] then rights_Marshal S (scSourceRights c) else [])\<rparr>
       in Inr (CollectionDef (scName c) [] (Some defaultRecordFile) cols (map fdName (scFields c)) []
            (Some source) (case scPrimaryKey c of Some pk \<Rightarrow> pk | None \<Rightarrow> [])))"

fun with_SourceSchema :: "source_schema option \<Rightarrow> coldef \<Rightarrow> coldef" where
  "with_SourceSchema s (CollectionDef i d rf cols ord subs src pk) = CollectionDef i d rf cols ord subs s pk"

fun with_Columns :: "(string \<times> column option) list \<Rightarrow> string list \<Rightarrow> coldef \<Rightarrow> coldef" where
  "with_Columns cs os (CollectionDef i d rf cols ord subs src pk) = CollectionDef i d rf cs os subs src pk"

lemma with_simps [simp]:
  "cdSourceSchema (with_SourceSchema s cd) = s" "cdColumns (with_SourceSchema s cd) = cdColumns cd"
  "cdColumnsOrder (with_SourceSchema s cd) = cdColumnsOrder cd" "cdRecordFile (with_SourceSchema s cd) = cdRecordFile cd"
  "cdPrimaryKey (with_SourceSchema s cd) = cdPrimaryKey cd"
  "cdSourceSchema (with_Columns cs os cd) = cdSourceSchema cd" "cdColumns (with_Columns cs os cd) = cs"
  "cdColumnsOrder (with_Columns cs os cd) = os" "cdRecordFile (with_Columns cs os cd) = cdRecordFile cd"
  "cdPrimaryKey (with_Columns cs os cd) = cdPrimaryKey cd"
  by (cases cd; simp)+

definition ExportCollectionDefinition :: "schema_api \<Rightarrow> collection_def \<Rightarrow> coldef res" where
  "ExportCollectionDefinition S c =
     rbind (buildIngitdbCollectionDef S c) (\<lambda>def.
       case cdSourceSchema def of
         None \<Rightarrow> Inl (EPanic ''nil source schema'')
       | Some src \<Rightarrow>
           Inr (with_SourceSchema (Some (src\<lparr>ssKeyMode :=
             (if (case scPrimaryKey c of Some pk \<Rightarrow> pk | None \<Rightarrow> []) = [] then ''export-ordinal''
              else ''source-primary-key'')\<rparr>)) def))"

section \<open>From a definition to a portable schema\<close>

definition pkFieldName :: string where
  "pkFieldName = ''$key''"

definition field_order :: "coldef \<Rightarrow> string list" where
  "field_order cd = (if cdColumnsOrder cd = [] then sort_Strings (map fst (cdColumns cd)) else cdColumnsOrder cd)"

text \<open>The transport key of an imported typed CSV file is no field of the collection.\<close>

definition transport_key :: "coldef \<Rightarrow> string \<Rightarrow> bool" where
  "transport_key cd colName \<longleftrightarrow>
     colName = ''$ID'' \<and>
     (case cdRecordFile cd of Some rf \<Rightarrow> rfFormat rf = RecordFormatCSV \<and> rfCSVCellEncoding rf = ''json-v1'' | None \<Rightarrow> False) \<and>
     (case cdSourceSchema cd of Some s \<Rightarrow> ssKeyMode s \<noteq> [] | None \<Rightarrow> False)"

fun describe_fields :: "string \<Rightarrow> coldef \<Rightarrow> string list \<Rightarrow> field_def list res" where
  "describe_fields name cd [] = Inr []"
| "describe_fields name cd (colName # rest) =
     (if transport_key cd colName \<or> colName = pkFieldName then describe_fields name cd rest
      else case go_get (cdColumns cd) colName of
        None \<Rightarrow> Inl (EMsg ''columns_order references unknown column'' [name, colName])
      | Some None \<Rightarrow> Inl (EPanic ''nil column'')
      | Some (Some col) \<Rightarrow>
          rbind (map_err (EWrap (''describe field '' @ colName)) (ingitdbTypeToDBSchema (cType col))) (\<lambda>t.
          rbind (describe_fields name cd rest) (\<lambda>fs.
            Inr (\<lparr>fdName = colName, fdType = t, fdNullable = \<not> cRequired col, fdAutoIncrement = False,
                  fdLength = None, fdPrecision = None, fdDefault = None\<rparr> # fs))))"

definition literal_value :: "schema_api \<Rightarrow> source_field \<Rightarrow> jval \<Rightarrow> val res" where
  "literal_value S sf value =
     (let t = sfDefaultType sf in
      if t = ''[]uint8''
      then rbind (map_err (EWrap (''byte default for '' @ sfName sf)) (json_UnmarshalBytes S (sfDefaultJSON sf))) (\<lambda>b. Inr (VBytes b))
      else if t = ''int'' \<or> t = ''int64''
      then (case value of
              JNumber n \<Rightarrow> rbind (number_Int64 S n) (\<lambda>i. Inr (VNum (if t = ''int'' then KInt else KInt64) i))
            | _ \<Rightarrow> Inl (EMsg ''integer default is not numeric'' [sfName sf]))
      else if t = ''<nil>''
      then (if value \<noteq> JNull then Inl (EMsg ''nil default has value'' [sfName sf]) else Inr VNil)
      else if t = ''string''
      then (case value of JString s \<Rightarrow> Inr (VStr s) | _ \<Rightarrow> Inl (EMsg ''string default is not a string'' [sfName sf]))
      else if t = ''bool''
      then (case value of JBool b \<Rightarrow> Inr (VBool b) | _ \<Rightarrow> Inl (EMsg ''bool default is not a bool'' [sfName sf]))
      else if t = ''float64''
      then (case value of
              JNumber n \<Rightarrow> rbind (number_Float64 S n) (\<lambda>x. Inr (VFloat64 x))
            | _ \<Rightarrow> Inl (EMsg ''float default is not numeric'' [sfName sf]))
      else Inl (EMsg ''unknown default literal type'' [t]))"

definition describe_default :: "schema_api \<Rightarrow> source_field \<Rightarrow> default_expr option \<Rightarrow> default_expr option res" where
  "describe_default S sf old =
     (if sfDefaultKind sf = [] then Inr old
      else if sfDefaultKind sf = ''current-timestamp'' then Inr (Some DefaultCurrentTimestamp)
      else if sfDefaultKind sf = ''literal''
      then rbind (map_err (EWrap (''default for '' @ sfName sf)) (json_Decode S (sfDefaultJSON sf))) (\<lambda>(value, ended).
             if \<not> ended then Inl (EMsg ''default has trailing content'' [sfName sf])
             else rbind (literal_value S sf value) (\<lambda>v. Inr (Some (DefaultLiteral v))))
      else Inl (EMsg ''unknown default kind'' [sfDefaultKind sf]))"

definition describe_source_field :: "schema_api \<Rightarrow> source_field \<Rightarrow> field_def \<Rightarrow> field_def res" where
  "describe_source_field S sf f =
     (case sourceFieldType (sfType sf) of
        None \<Rightarrow> Inl (EMsg ''unsupported source type'' [sfType sf])
      | Some t \<Rightarrow>
          rbind (describe_default S sf (fdDefault f)) (\<lambda>d.
            Inr (f\<lparr>fdType := t, fdNullable := sfNullable sf, fdAutoIncrement := sfAutoIncrement sf,
                   fdLength := sfLength sf, fdDefault := d,
                   fdPrecision := (if sfPrecision sf > 0 then Some (sfPrecision sf, sfScale sf) else fdPrecision f)\<rparr>)))"

definition field_positions :: "field_def list \<Rightarrow> nat go_map" where
  "field_positions flds = foldl (\<lambda>m (i, f). go_set (fdName f) i m) [] (enumerate 0 flds)"

fun describe_source_fields ::
  "schema_api \<Rightarrow> nat go_map \<Rightarrow> nat \<Rightarrow> source_field list \<Rightarrow> field_def list \<Rightarrow> field_def list res" where
  "describe_source_fields S pos i [] flds = Inr flds"
| "describe_source_fields S pos i (sf # sfs) flds =
     (case go_get pos (sfName sf) of
        None \<Rightarrow> Inl (EMsg ''source schema field missing from columns'' [sfName sf])
      | Some fieldIndex \<Rightarrow>
          if fieldIndex \<noteq> i then Inl (EMsg ''source schema field out of order'' [sfName sf])
          else rbind (describe_source_field S sf (flds ! fieldIndex)) (\<lambda>f.
            describe_source_fields S pos (Suc i) sfs (flds[fieldIndex := f])))"

definition decodeSingleJSON :: "(string \<Rightarrow> ('a \<times> bool) res) \<Rightarrow> string \<Rightarrow> 'a res" where
  "decodeSingleJSON decode input =
     rbind (decode input) (\<lambda>(v, ended). if \<not> ended then Inl (EMsg ''trailing JSON content'' []) else Inr v)"

definition describe_index :: "string \<Rightarrow> source_index \<Rightarrow> index_def" where
  "describe_index name i = \<lparr>ixName = siName i, ixCollection = name, ixFields = siFields i, ixUnique = siUnique i\<rparr>"

definition describe_fkey :: "source_fkey \<Rightarrow> fkey_def" where
  "describe_fkey k =
     \<lparr>fkName = skName k, fkFields = skFields k, fkReferencedCollection = skReferencedCollection k,
      fkReferencedNamespace = skReferencedNamespace k, fkReferencedFields = skReferencedFields k,
      fkEnforcement = skSourceEnforcement k, fkOnUpdate = skOnUpdate k, fkOnDelete = skOnDelete k\<rparr>"

definition describe_typed_fields :: "schema_api \<Rightarrow> string \<Rightarrow> source_schema \<Rightarrow> field_def list \<Rightarrow> field_def list res" where
  "describe_typed_fields S name schema flds =
     (let strictSource = (ssKeyMode schema \<noteq> []);
          sourceFieldsMatch = (map sfName (ssFields schema) = map fdName flds) in
      if strictSource \<and> length (ssFields schema) \<noteq> length flds
      then Inl (EMsg ''source schema fields do not match columns'' [name])
      else if strictSource \<or> sourceFieldsMatch
      then describe_source_fields S (field_positions flds) 0 (ssFields schema) flds
      else Inr flds)"

definition primaryKeyFromColDef :: "coldef \<Rightarrow> string list" where
  "primaryKeyFromColDef cd = (if cdPrimaryKey cd = [] then [pkFieldName] else cdPrimaryKey cd)"

definition describeCollectionDefinition :: "schema_api \<Rightarrow> string \<Rightarrow> coldef \<Rightarrow> collection_def res" where
  "describeCollectionDefinition S name cd =
     rbind (describe_fields name cd (field_order cd)) (\<lambda>flds.
     rbind (case cdSourceSchema cd of
              None \<Rightarrow> Inr (flds, [], [], None, [])
            | Some schema \<Rightarrow>
                rbind (describe_typed_fields S name schema flds) (\<lambda>flds.
                rbind (if ssSourceDefinitionJSON schema \<noteq> []
                       then map_err (EWrap ''source definition'')
                              (rbind (decodeSingleJSON (defn_Decode S) (ssSourceDefinitionJSON schema)) (\<lambda>d. Inr (Some d)))
                       else Inr None) (\<lambda>sourceDefinition.
                rbind (if ssSourceRightsJSON schema \<noteq> []
                       then map_err (EWrap ''source rights'') (decodeSingleJSON (rights_Decode S) (ssSourceRightsJSON schema))
                       else Inr []) (\<lambda>sourceRights.
                  Inr (flds, map (describe_index name) (ssIndexes schema), map describe_fkey (ssForeignKeys schema),
                       sourceDefinition, sourceRights)))))
       (\<lambda>(flds, indexes, foreignKeys, sourceDefinition, sourceRights).
          Inr \<lparr>scName = name, scFields = flds,
            scPrimaryKey = (case cdSourceSchema cd of
               Some s \<Rightarrow> if ssKeyMode s = ''export-ordinal'' then None else Some (primaryKeyFromColDef cd)
             | None \<Rightarrow> Some (primaryKeyFromColDef cd)),
            scIndexes = indexes, scForeignKeys = foreignKeys,
            scSourceDefinition = sourceDefinition, scSourceRights = sourceRights\<rparr>))"

section \<open>The round trip\<close>

text \<open>What the round trip needs of the type names and of the JSON codecs.\<close>

definition literal_codec :: "schema_api \<Rightarrow> val \<Rightarrow> bool" where
  "literal_codec S v \<longleftrightarrow>
     (\<forall>j. json_Marshal S v = Inr j \<longrightarrow>
        (\<exists>x. json_Decode S j = Inr (x, True) \<and>
           (case v of
              VNil \<Rightarrow> x = JNull | VBool b \<Rightarrow> x = JBool b | VStr s \<Rightarrow> x = JString s
            | VNum k n \<Rightarrow> (\<exists>m. x = JNumber m \<and> number_Int64 S m = Inr n)
            | VFloat64 f \<Rightarrow> (\<exists>m. x = JNumber m \<and> number_Float64 S m = Inr f)
            | VBytes b \<Rightarrow> json_UnmarshalBytes S j = Inr b
            | _ \<Rightarrow> True)))"

definition type_names :: "schema_api \<Rightarrow> bool" where
  "type_names S \<longleftrightarrow>
     (\<forall>t \<in> {DBBool, DBInt, DBFloat, DBDecimal, DBString, DBBytes, DBTime}. sourceFieldType (TypeString S t) = Some t)"

definition schema_codec :: "schema_api \<Rightarrow> collection_def \<Rightarrow> bool" where
  "schema_codec S c \<longleftrightarrow>
     type_names S \<and>
     (\<forall>f \<in> set (scFields c). \<forall>v. fdDefault f = Some (DefaultLiteral v) \<longrightarrow> literal_codec S v) \<and>
     (\<forall>d. scSourceDefinition c = Some d \<longrightarrow> defn_Marshal S d \<noteq> [] \<and> defn_Decode S (defn_Marshal S d) = Inr (d, True)) \<and>
     (scSourceRights c \<noteq> [] \<longrightarrow> rights_Marshal S (scSourceRights c) \<noteq> [] \<and>
        rights_Decode S (rights_Marshal S (scSourceRights c)) = Inr (scSourceRights c, True))"

lemma mapped_type:
  "dbschemaTypeToIngitdb t = Inr ct \<Longrightarrow>
     t \<in> {DBBool, DBInt, DBFloat, DBDecimal, DBString, DBBytes, DBTime} \<and> (\<exists>t'. ingitdbTypeToDBSchema ct = Inr t')"
  by (cases t) auto

lemma default_round_trip:
  assumes "\<forall>v. d = Some (DefaultLiteral v) \<longrightarrow> literal_codec S v" and "build_default S name d = Inr (kind, ty, json)"
    and "sfDefaultKind sf = kind" and "sfDefaultType sf = ty" and "sfDefaultJSON sf = json"
  shows "describe_default S sf None = Inr d"
proof (cases d)
  case None
  with assms show ?thesis by (simp add: build_default_def describe_default_def)
next
  case (Some e)
  show ?thesis
  proof (cases e)
    case (DefaultLiteral v)
    with Some assms(2) have v: "literal_ok v" "json_Marshal S v = Inr json" "kind = ''literal''" "ty = fmt_T v"
      by (auto simp: build_default_def res_simps split: if_splits)
    have "\<exists>x. json_Decode S json = Inr (x, True) \<and>
           (case v of
              VNil \<Rightarrow> x = JNull | VBool b \<Rightarrow> x = JBool b | VStr s \<Rightarrow> x = JString s
            | VNum k n \<Rightarrow> (\<exists>m. x = JNumber m \<and> number_Int64 S m = Inr n)
            | VFloat64 f \<Rightarrow> (\<exists>m. x = JNumber m \<and> number_Float64 S m = Inr f)
            | VBytes b \<Rightarrow> json_UnmarshalBytes S json = Inr b
            | _ \<Rightarrow> True)"
      using assms(1) Some DefaultLiteral v(2) unfolding literal_codec_def by blast
    then obtain x where x: "json_Decode S json = Inr (x, True)"
           "case v of
              VNil \<Rightarrow> x = JNull | VBool b \<Rightarrow> x = JBool b | VStr s \<Rightarrow> x = JString s
            | VNum k n \<Rightarrow> (\<exists>m. x = JNumber m \<and> number_Int64 S m = Inr n)
            | VFloat64 f \<Rightarrow> (\<exists>m. x = JNumber m \<and> number_Float64 S m = Inr f)
            | VBytes b \<Rightarrow> json_UnmarshalBytes S json = Inr b
            | _ \<Rightarrow> True"
      by blast
    have "literal_value S sf x = Inr v"
      using x(2) v(1,4) assms(4,5)
      by (cases v) (auto simp: literal_value_def literal_ok_def Let_def split: int_kind.splits)
    with Some DefaultLiteral x(1) v(3) assms show ?thesis by (simp add: describe_default_def)
  qed (use Some assms in \<open>auto simp: build_default_def describe_default_def\<close>)
qed

definition base_field :: "field_def \<Rightarrow> db_type \<Rightarrow> field_def" where
  "base_field f t = \<lparr>fdName = fdName f, fdType = t, fdNullable = fdNullable f, fdAutoIncrement = False,
     fdLength = None, fdPrecision = None, fdDefault = None\<rparr>"

definition precise :: "field_def \<Rightarrow> bool" where
  "precise f \<longleftrightarrow> (case fdPrecision f of None \<Rightarrow> True | Some (t, s) \<Rightarrow> 0 < t)"

lemma source_field_round_trip:
  assumes "type_names S" and "\<forall>v. fdDefault f = Some (DefaultLiteral v) \<longrightarrow> literal_codec S v"
    and "build_field S f = Inr (col, sf)" and "precise f"
  shows "describe_source_field S sf (base_field f t) = Inr f" and "sfName sf = fdName f"
    and "\<exists>t. ingitdbTypeToDBSchema (cType col) = Inr t" and "cRequired col = (\<not> fdNullable f)"
proof -
  from assms(3) obtain ct kind ty json where b: "dbschemaTypeToIngitdb (fdType f) = Inr ct"
      "build_default S (fdName f) (fdDefault f) = Inr (kind, ty, json)"
      and col: "cType col = ct" "cRequired col = (\<not> fdNullable f)"
      and sf: "sfName sf = fdName f" "sfType sf = TypeString S (fdType f)" "sfNullable sf = fdNullable f"
        "sfAutoIncrement sf = fdAutoIncrement f" "sfLength sf = fdLength f"
        "sfPrecision sf = (case fdPrecision f of Some (t, s) \<Rightarrow> t | None \<Rightarrow> 0)"
        "sfScale sf = (case fdPrecision f of Some (t, s) \<Rightarrow> s | None \<Rightarrow> 0)"
        "sfDefaultKind sf = kind" "sfDefaultType sf = ty" "sfDefaultJSON sf = json"
    by (auto simp: build_field_def res_simps)
  have "sourceFieldType (TypeString S (fdType f)) = Some (fdType f)"
    using assms(1) mapped_type [OF b(1)] unfolding type_names_def by blast
  moreover have "describe_default S sf None = Inr (fdDefault f)"
    using default_round_trip [OF assms(2) b(2) sf(8-10)] .
  ultimately show "describe_source_field S sf (base_field f t) = Inr f"
    using assms(4) sf(1-7)
    by (cases f) (auto simp: describe_source_field_def base_field_def precise_def split: option.splits)
  show "sfName sf = fdName f" "\<exists>t. ingitdbTypeToDBSchema (cType col) = Inr t" "cRequired col = (\<not> fdNullable f)"
    using sf(1) col mapped_type [OF b(1)] by auto
qed

lemma describe_source_fields_all:
  assumes "\<forall>j < length sfs. go_get pos (sfName (sfs ! j)) = Some (i + j)"
    and "\<forall>j < length sfs. describe_source_field S (sfs ! j) (flds ! (i + j)) = Inr (out ! j)"
    and "length flds = i + length sfs" and "length out = length sfs"
  shows "describe_source_fields S pos i sfs flds = Inr (take i flds @ out)"
  using assms
proof (induction sfs arbitrary: i flds out)
  case (Cons sf sfs)
  obtain f fs where out: "out = f # fs" using Cons.prems(4) by (cases out) auto
  have p: "go_get pos (sfName sf) = Some i" "describe_source_field S sf (flds ! i) = Inr f"
    using Cons.prems(1,2) out by (metis nth_Cons_0 length_greater_0_conv list.distinct(1) add_0_right)+
  have i: "i < length flds" using Cons.prems(3) by simp
  have rest: "go_get pos (sfName (sfs ! j)) = Some (Suc i + j)"
      "describe_source_field S (sfs ! j) (flds[i := f] ! (Suc i + j)) = Inr (fs ! j)" if "j < length sfs" for j
    using Cons.prems(1,2) [rule_format, of "Suc j"] that out by simp_all
  have "describe_source_fields S pos (Suc i) sfs (flds[i := f]) = Inr (take (Suc i) (flds[i := f]) @ fs)"
    using Cons.prems(3,4) out rest by (intro Cons.IH) auto
  with p out i show ?case by (simp add: take_Suc_conv_app_nth)
qed simp

lemma positions_get:
  assumes "distinct (map fdName flds)" and "i < length flds"
  shows "go_get (field_positions flds) (fdName (flds ! i)) = Some i"
proof -
  have fold: "go_get (foldl (\<lambda>m (i, f). go_set (fdName f) i m) m (enumerate k fs)) x =
      (case map_of (map (\<lambda>(i, f). (fdName f, i)) (enumerate k fs)) x of Some j \<Rightarrow> Some j | None \<Rightarrow> go_get m x)"
    if "distinct (map fdName fs)" for k m fs x
    using that
  proof (induction fs arbitrary: k m)
    case (Cons f fs)
    have "map_of (map (\<lambda>(i, f). (fdName f, i)) (enumerate (Suc k) fs)) (fdName f) = None"
      using Cons.prems by (force simp: map_of_eq_None_iff dest: in_set_enumerate_eq [THEN iffD1])
    with Cons show ?case by (auto simp: go_get_set split: option.splits)
  qed simp
  have "map fst (map (\<lambda>(i, f). (fdName f, i)) (enumerate 0 flds)) = map fdName flds"
    by (rule nth_equalityI) (simp_all add: nth_enumerate_eq)
  moreover have "(fdName (flds ! i), i) \<in> set (map (\<lambda>(i, f). (fdName f, i)) (enumerate 0 flds))"
    using assms(2) by (force simp: in_set_enumerate_eq)
  ultimately have "map_of (map (\<lambda>(i, f). (fdName f, i)) (enumerate 0 flds)) (fdName (flds ! i)) = Some i"
    using assms(1) by (metis map_of_is_SomeI)
  then show ?thesis by (simp add: field_positions_def fold [OF assms(1)])
qed

lemma columns_keep:
  "x \<notin> fdName ` set fs \<Longrightarrow>
     go_get (foldl (\<lambda>m (f, col, _). go_set (fdName f) (Some col) m) m (zip fs bs)) x = go_get m x"
  by (induction fs arbitrary: bs m) (auto simp: zip_Cons1 go_get_set split: list.splits)

lemma columns_get:
  assumes "distinct (map fdName fs)" and "i < length fs" and "length bs = length fs"
  shows "go_get (foldl (\<lambda>m (f, col, _). go_set (fdName f) (Some col) m) m (zip fs bs)) (fdName (fs ! i)) =
           Some (Some (fst (bs ! i)))"
  using assms
proof (induction fs arbitrary: bs i m)
  case (Cons f fs)
  then obtain b bs' where bs: "bs = b # bs'" by (cases bs) auto
  show ?case
  proof (cases i)
    case 0
    have "fdName f \<notin> fdName ` set fs" using Cons.prems(1) by auto
    with 0 bs show ?thesis by (cases b) (simp add: columns_keep go_get_set)
  next
    case (Suc j)
    with Cons bs show ?thesis by (cases b) simp
  qed
qed simp

lemma describe_fields_all:
  assumes "list_all2 (\<lambda>n b. \<not> transport_key cd n \<and> n \<noteq> pkFieldName \<and>
      (\<exists>col t. go_get (cdColumns cd) n = Some (Some col) \<and> ingitdbTypeToDBSchema (cType col) = Inr t \<and>
         b = \<lparr>fdName = n, fdType = t, fdNullable = \<not> cRequired col, fdAutoIncrement = False,
               fdLength = None, fdPrecision = None, fdDefault = None\<rparr>)) ns bs"
  shows "describe_fields name cd ns = Inr bs"
  using assms by (induction ns bs rule: list_all2_induct) auto

definition described :: "collection_def \<Rightarrow> collection_def" where
  "described c = c\<lparr>scPrimaryKey := Some (case scPrimaryKey c of Some (k # ks) \<Rightarrow> k # ks | _ \<Rightarrow> [pkFieldName]),
     scIndexes := map (\<lambda>i. i\<lparr>ixCollection := scName c\<rparr>) (scIndexes c)\<rparr>"

lemma describe_build:
  assumes "schema_codec S c" and "buildIngitdbCollectionDef S c = Inr cd"
    and "distinct (map fdName (scFields c))" and "pkFieldName \<notin> fdName ` set (scFields c)"
    and "\<forall>f \<in> set (scFields c). precise f"
  shows "describeCollectionDefinition S (scName c) cd = Inr (described c)"
proof -
  let ?fs = "scFields c"
  from assms(2) obtain bs where bs: "rtraverse (build_field S) ?fs = Inr bs"
    by (auto simp: buildIngitdbCollectionDef_def res_simps)
  have len: "length bs = length ?fs" using bs by (rule rtraverse_length)
  have each: "build_field S (?fs ! i) = Inr (bs ! i)" if "i < length ?fs" for i
    using bs that by (auto simp: rtraverse_eq_Inr list_all2_conv_all_nth)
  have rt: "describe_source_field S (snd (bs ! i)) (base_field (?fs ! i) t) = Inr (?fs ! i)"
      "sfName (snd (bs ! i)) = fdName (?fs ! i)" "\<exists>t. ingitdbTypeToDBSchema (cType (fst (bs ! i))) = Inr t"
      "cRequired (fst (bs ! i)) = (\<not> fdNullable (?fs ! i))" if "i < length ?fs" for i t
  proof -
    have f: "?fs ! i \<in> set ?fs" using that by simp
    have "type_names S" "\<forall>v. fdDefault (?fs ! i) = Some (DefaultLiteral v) \<longrightarrow> literal_codec S v"
      using assms(1) f by (auto simp: schema_codec_def)
    moreover have "build_field S (?fs ! i) = Inr (fst (bs ! i), snd (bs ! i))" using each [OF that] by simp
    moreover have "precise (?fs ! i)" using assms(5) f by blast
    ultimately show "describe_source_field S (snd (bs ! i)) (base_field (?fs ! i) t) = Inr (?fs ! i)"
        "sfName (snd (bs ! i)) = fdName (?fs ! i)" "\<exists>t. ingitdbTypeToDBSchema (cType (fst (bs ! i))) = Inr t"
        "cRequired (fst (bs ! i)) = (\<not> fdNullable (?fs ! i))"
      by (rule source_field_round_trip)+
  qed
  define schema where "schema = \<lparr>ssKeyMode = [], ssFields = map snd bs,
     ssIndexes = map build_index (scIndexes c), ssForeignKeys = map build_fkey (scForeignKeys c),
     ssSourceDefinitionJSON = (case scSourceDefinition c of Some d \<Rightarrow> defn_Marshal S d | None \<Rightarrow> []),
     ssSourceRightsJSON = (if scSourceRights c \<noteq> [] then rights_Marshal S (scSourceRights c) else [])\<rparr>"
  have cd: "cdColumns cd = foldl (\<lambda>m (f, col, _). go_set (fdName f) (Some col) m) [] (zip ?fs bs)"
      "cdColumnsOrder cd = map fdName ?fs" "cdRecordFile cd = Some defaultRecordFile" "cdSourceSchema cd = Some schema"
      "cdPrimaryKey cd = (case scPrimaryKey c of Some pk \<Rightarrow> pk | None \<Rightarrow> [])"
    using assms(2) bs by (auto simp: buildIngitdbCollectionDef_def Let_def schema_def)
  define ty where "ty i = (case ingitdbTypeToDBSchema (cType (fst (bs ! i))) of Inr t \<Rightarrow> t | Inl _ \<Rightarrow> DBNull)" for i
  define base where "base = map (\<lambda>i. base_field (?fs ! i) (ty i)) [0..<length ?fs]"
  have order: "field_order cd = map fdName ?fs"
    using cd(1,2) by (cases ?fs) (simp_all add: field_order_def sort_Strings_def)
  have "list_all2 (\<lambda>n b. \<not> transport_key cd n \<and> n \<noteq> pkFieldName \<and>
      (\<exists>col t. go_get (cdColumns cd) n = Some (Some col) \<and> ingitdbTypeToDBSchema (cType col) = Inr t \<and>
         b = \<lparr>fdName = n, fdType = t, fdNullable = \<not> cRequired col, fdAutoIncrement = False,
               fdLength = None, fdPrecision = None, fdDefault = None\<rparr>)) (map fdName ?fs) base"
    unfolding list_all2_conv_all_nth
  proof (intro conjI allI impI)
    fix i
    assume "i < length (map fdName ?fs)"
    then have i: "i < length ?fs" by simp
    obtain t where t: "ingitdbTypeToDBSchema (cType (fst (bs ! i))) = Inr t" using rt(3) [OF i] by blast
    show "\<not> transport_key cd (map fdName ?fs ! i)"
      using cd(3) by (simp add: transport_key_def defaultRecordFile_def)
    show "map fdName ?fs ! i \<noteq> pkFieldName" using assms(4) i by (metis image_eqI nth_map nth_mem)
    show "\<exists>col t. go_get (cdColumns cd) (map fdName ?fs ! i) = Some (Some col) \<and> ingitdbTypeToDBSchema (cType col) = Inr t \<and>
         base ! i = \<lparr>fdName = map fdName ?fs ! i, fdType = t, fdNullable = \<not> cRequired col, fdAutoIncrement = False,
               fdLength = None, fdPrecision = None, fdDefault = None\<rparr>"
      using columns_get [OF assms(3) i len, of "[]"] cd(1) t rt(4) [OF i] i
      by (auto simp: base_def base_field_def ty_def)
  qed (simp add: base_def)
  then have base: "describe_fields (scName c) cd (field_order cd) = Inr base"
    unfolding order by (rule describe_fields_all)
  have names: "map fdName base = map fdName ?fs"
    by (rule nth_equalityI) (simp_all add: base_def base_field_def)
  have lb: "length base = length ?fs" by (simp add: base_def)
  have "describe_source_fields S (field_positions base) 0 (map snd bs) base = Inr (take 0 base @ ?fs)"
  proof (rule describe_source_fields_all)
    have "go_get (field_positions base) (fdName (?fs ! j)) = Some j" if "j < length ?fs" for j
      using positions_get [of base j] names assms(3) that lb by (metis nth_map)
    then show "\<forall>j < length (map snd bs). go_get (field_positions base) (sfName (map snd bs ! j)) = Some (0 + j)"
      using rt(2) len by simp
    show "\<forall>j < length (map snd bs). describe_source_field S (map snd bs ! j) (base ! (0 + j)) = Inr (?fs ! j)"
      using rt(1) len by (simp add: base_def)
  qed (simp_all add: len lb)
  moreover have "map sfName (map snd bs) = map fdName base"
    unfolding names by (rule nth_equalityI) (simp_all add: len rt(2))
  ultimately have typed: "describe_typed_fields S (scName c) schema base = Inr ?fs"
    by (simp add: describe_typed_fields_def schema_def Let_def)
  have meta: "map (describe_index (scName c)) (map build_index (scIndexes c)) = map (\<lambda>i. i\<lparr>ixCollection := scName c\<rparr>) (scIndexes c)"
      "map describe_fkey (map build_fkey (scForeignKeys c)) = scForeignKeys c"
    by (auto simp: describe_index_def build_index_def describe_fkey_def build_fkey_def intro: map_idI)
  have codec: "rbind (if ssSourceDefinitionJSON schema \<noteq> []
                       then map_err (EWrap ''source definition'')
                              (rbind (decodeSingleJSON (defn_Decode S) (ssSourceDefinitionJSON schema)) (\<lambda>d. Inr (Some d)))
                       else Inr None) g = g (scSourceDefinition c)"
      "rbind (if ssSourceRightsJSON schema \<noteq> []
                       then map_err (EWrap ''source rights'') (decodeSingleJSON (rights_Decode S) (ssSourceRightsJSON schema))
                       else Inr []) h = h (scSourceRights c)" for g h
    using assms(1) by (auto simp: schema_codec_def schema_def decodeSingleJSON_def split: option.splits)
  have pk: "ssKeyMode schema = []" "ssIndexes schema = map build_index (scIndexes c)"
      "ssForeignKeys schema = map build_fkey (scForeignKeys c)"
    by (simp_all add: schema_def)
  show ?thesis
    using base typed meta cd(4,5) pk
    by (simp add: describeCollectionDefinition_def described_def codec primaryKeyFromColDef_def split: option.split list.split)
qed

end
