(* ===== verification/SchemaReader.thy ===== *)
theory SchemaReader
  imports Transaction SchemaDef
begin

text \<open>
  The schema queries of a database (\<open>schema_reader.go\<close>): they load the definition through the
  same reader as the transactions and describe what it holds. The definition reader is the
  parameter \<open>dbReader\<close> of the database; a reader that returns no definition makes
  \<open>ListCollections\<close> dereference nil.
\<close>

definition ListCollections :: "database \<Rightarrow> (txworld, dberr, string list) io" where
  "ListCollections db =
     iobind (loadDefinition db) (\<lambda>def.
       case def of
         None \<Rightarrow> iofail (EPanic ''nil definition'')
       | Some collections \<Rightarrow> ioret (sort_Strings (map fst collections)))"

text \<open>A collection reference: its name and the key of the parent record.\<close>

record collection_ref =
  refName :: string
  refParent :: "key option"

definition DescribeCollection ::
  "api \<Rightarrow> schema_api \<Rightarrow> database \<Rightarrow> collection_ref option \<Rightarrow> (txworld, dberr, collection_def) io" where
  "DescribeCollection A S db ref =
     (case ref of
        None \<Rightarrow> iofail (EMsg ''DescribeCollection: ref is nil'' [])
      | Some r \<Rightarrow>
          iobind (loadDefinition db) (\<lambda>def.
          iobind (iowrap (''collection not found: '' @ refName r)
                    (iolift (resolveScopedCollection A def (refName r) (refParent r)))) (\<lambda>colDef.
            iolift (describeCollectionDefinition S (refName r) colDef))))"

definition ListIndexes ::
  "api \<Rightarrow> schema_api \<Rightarrow> database \<Rightarrow> collection_ref option \<Rightarrow> (txworld, dberr, index_def list) io" where
  "ListIndexes A S db ref = iobind (DescribeCollection A S db ref) (\<lambda>def. ioret (scIndexes def))"

definition ListConstraints :: "collection_ref option \<Rightarrow> (txworld, dberr, (string \<times> string) list) io" where
  "ListConstraints ref = ioret [(''$key-pk'', ''primary-key'')]"

definition ListReferrers :: "collection_ref option \<Rightarrow> (txworld, dberr, (string \<times> string) list) io" where
  "ListReferrers ref = iofail (EMsg ''ListReferrers is not supported'' [''ingitdb''])"

text \<open>
  The listing is sorted, names every collection of the definition once and nothing else, and
  describing a listed root collection resolves to the very definition the transactions use.
\<close>

lemma ListCollections_lists:
  assumes "ListCollections db w = (Inr names, w')"
  shows "\<exists>collections. loadDefinition db w = (Inr (Some collections), w') \<and>
           sorted names \<and> mset names = mset (map fst collections)"
  using assms
  by (auto simp: ListCollections_def iobind_def iofail_def ioret_def sort_Strings_def split: prod.splits sum.splits option.splits)

lemma described_is_resolved:
  assumes "ListCollections db w = (Inr names, w')" "name \<in> set names"
  obtains collections colDef where
    "loadDefinition db w = (Inr (Some collections), w')" "(name, colDef) \<in> set collections"
    "DescribeCollection A S db (Some \<lparr>refName = name, refParent = None\<rparr>) w =
       (describeCollectionDefinition S name colDef, w')"
proof -
  obtain collections where c: "loadDefinition db w = (Inr (Some collections), w')"
      and m: "mset names = mset (map fst collections)"
    using ListCollections_lists [OF assms(1)] by blast
  have "name \<in> set (map fst collections)" using assms(2) mset_eq_setD [OF m] by simp
  then obtain colDef where "go_get collections name = Some colDef"
    by (cases "go_get collections name") (auto simp: go_get_None_iff)
  then show ?thesis using c
    by (intro that [of collections colDef])
       (auto simp: DescribeCollection_def iobind_def iowrap_def iocatch_def iolift_def resolveScopedCollection_def go_get_def dest: map_of_SomeD)
qed

end
