(* ===== verification/Ddl.thy ===== *)
theory Ddl
  imports SchemaDef RecordIO
begin

text \<open>
  Schema changes: the registry of root collections (\<open>registry.go\<close>) and \<open>CreateCollection\<close>,
  \<open>DropCollection\<close> and \<open>AlterCollection\<close> of \<open>schema_modifier.go\<close>, over the file system of the
  model. The YAML codecs and \<open>config.ReadRootCollectionsFromFile\<close> are parameters
  (\<open>ddl_api\<close>); the latter gives \<open>None\<close> for a missing file. An \<open>AlterOp\<close> is the call it makes
  on the applier, with its options.
\<close>

record ddl_api = schema_api +
  yaml_MarshalDef :: "coldef \<Rightarrow> string res"
  yaml_UnmarshalDef :: "string \<Rightarrow> coldef res"
  yaml_MarshalRow :: "row \<Rightarrow> string res"
  yaml_UnmarshalRow :: "string \<Rightarrow> row res"
  yaml_MarshalNames :: "string go_map \<Rightarrow> string res"
  ReadRootCollections :: "string \<Rightarrow> fs \<Rightarrow> string go_map option res"

record ddl_options =
  optIfNotExists :: bool
  optIfExists :: bool

section \<open>The registry\<close>

definition registry_path :: "string \<Rightarrow> string" where
  "registry_path dirPath =
     filepath_Join [filepath_Join [if dirPath = [] then ''.'' else dirPath, ''.ingitdb''], ''root-collections.yaml'']"

definition writeRootCollectionsYAML ::
  "osenv \<Rightarrow> ddl_api \<Rightarrow> string \<Rightarrow> string go_map \<Rightarrow> ('b world_scheme, dberr, unit) io" where
  "writeRootCollectionsYAML E D dirPath m =
     (let cfgDir = filepath_Join [if dirPath = [] then ''.'' else dirPath, ''.ingitdb''] in
      iobind (iowrap (''failed to create '' @ cfgDir) (os_MkdirAll E cfgDir)) (\<lambda>_.
      iobind (if m = [] then ioret [] else iowrap ''failed to encode root collections'' (iolift (yaml_MarshalNames D m))) (\<lambda>content.
        iowrap ''failed to write root collections file'' (os_WriteFile E (registry_path dirPath) content 420))))"

definition read_registry :: "osenv \<Rightarrow> ddl_api \<Rightarrow> string \<Rightarrow> ('b world_scheme, dberr, string go_map option) io" where
  "read_registry E D projectPath =
     iowrap ''read root-collections.yaml'' (os_call E intact (\<lambda>fs. (ReadRootCollections D projectPath fs, fs)))"

definition registerInRootCollections ::
  "osenv \<Rightarrow> ddl_api \<Rightarrow> string \<Rightarrow> string \<Rightarrow> ('b world_scheme, dberr, unit) io" where
  "registerInRootCollections E D projectPath name =
     iobind (read_registry E D projectPath) (\<lambda>m0.
       let m = (case m0 of Some m \<Rightarrow> m | None \<Rightarrow> []) in
       case go_get m name of
         Some existing \<Rightarrow>
           if existing = name then ioret ()
           else iofail (EMsg ''root-collections.yaml entry conflicts with auto-registration'' [name, existing])
       | None \<Rightarrow> iowrap ''write root-collections.yaml'' (writeRootCollectionsYAML E D projectPath (go_set name name m)))"

definition deregisterFromRootCollections ::
  "osenv \<Rightarrow> ddl_api \<Rightarrow> string \<Rightarrow> string \<Rightarrow> ('b world_scheme, dberr, unit) io" where
  "deregisterFromRootCollections E D projectPath name =
     iobind (read_registry E D projectPath) (\<lambda>m0.
       case m0 of
         None \<Rightarrow> ioret ()
       | Some m \<Rightarrow>
           if go_get m name = None then ioret ()
           else iowrap ''write root-collections.yaml'' (writeRootCollectionsYAML E D projectPath (go_delete name m)))"

section \<open>Creating and dropping\<close>

definition validateCollectionName :: "string \<Rightarrow> unit res" where
  "validateCollectionName name =
     (if name = [] then Inl (EMsg ''collection name must not be empty'' [])
      else if strings_TrimSpace name \<noteq> name then Inl (EMsg ''collection name has leading/trailing whitespace'' [name])
      else if has_control name then Inl (EMsg ''collection name contains a control character'' [name])
      else if CHR 0x5C \<in> set name then Inl (EMsg ''collection name must not contain a backslash'' [name])
      else if list_ex (\<lambda>seg. seg = ''..'' \<or> seg = ''.'' \<or> seg = []) (strings_Split slash name)
           then Inl (EMsg ''collection name has invalid path segment'' [name])
      else if rooted name then Inl (EMsg ''collection name must be relative'' [name])
      else Inr ())"

definition schema_dir :: "string \<Rightarrow> string \<Rightarrow> string" where
  "schema_dir projectPath name = filepath_Join [projectPath, name, ''.collection'']"

definition def_path :: "string \<Rightarrow> string" where
  "def_path schemaDir = filepath_Join [schemaDir, ''definition.yaml'']"

definition writeCollectionDefYAML ::
  "osenv \<Rightarrow> ddl_api \<Rightarrow> string \<Rightarrow> coldef \<Rightarrow> ('b world_scheme, dberr, unit) io" where
  "writeCollectionDefYAML E D defPath colDef =
     iobind (iowrap ''marshal definition.yaml'' (iolift (yaml_MarshalDef D colDef))) (\<lambda>data.
       iowrap (''write '' @ defPath) (os_WriteFile E defPath data 420))"

definition readCollectionDefYAML ::
  "osenv \<Rightarrow> ddl_api \<Rightarrow> string \<Rightarrow> ('b world_scheme, dberr, coldef) io" where
  "readCollectionDefYAML E D defPath =
     iobind (iowrap (''read '' @ defPath) (os_ReadFile E defPath)) (\<lambda>content.
       iowrap (''parse '' @ defPath) (iolift (yaml_UnmarshalDef D content)))"

text \<open>The part both kinds of creation share once the definition is built.\<close>

definition create_at ::
  "osenv \<Rightarrow> ddl_api \<Rightarrow> ddl_options \<Rightarrow> string \<Rightarrow> string \<Rightarrow> coldef \<Rightarrow>
     ('b world_scheme, dberr, unit) io \<Rightarrow> ('b world_scheme, dberr, unit) io" where
  "create_at E D options name schemaDir colDef register =
     (\<lambda>w. case os_Stat E (def_path schemaDir) w of
        (Inr _, w') \<Rightarrow>
          if optIfNotExists options then register w'
          else (Inl (EMsg ''CreateCollection: collection already exists'' [name]), w')
      | (Inl e, w') \<Rightarrow>
          if \<not> err_is e is_not_exist then (Inl (EWrap (''CreateCollection: stat '' @ def_path schemaDir) e), w')
          else iobind (iowrap (''CreateCollection: mkdir '' @ schemaDir) (os_MkdirAll E schemaDir)) (\<lambda>_.
               iobind (withExclusiveLock E (def_path schemaDir)
                         (writeCollectionDefYAML E D (def_path schemaDir) colDef)) (\<lambda>_. register)) w')"

fun sub_schema_dir :: "string \<Rightarrow> string list \<Rightarrow> string" where
  "sub_schema_dir dir [] = dir"
| "sub_schema_dir dir (seg # segs) = sub_schema_dir (filepath_Join [dir, ''subcollections'', seg]) segs"

definition createSubCollection ::
  "osenv \<Rightarrow> ddl_api \<Rightarrow> string \<Rightarrow> string list \<Rightarrow> collection_def \<Rightarrow> ddl_options \<Rightarrow> ('b world_scheme, dberr, unit) io" where
  "createSubCollection E D projectPath segments c options =
     iobind (iowrap (''CreateCollection '' @ scName c @ '': root collection must exist first'')
               (os_Stat E (def_path (schema_dir projectPath (hd segments))))) (\<lambda>_.
     iobind (iowrap (''CreateCollection '' @ scName c)
               (iolift (buildIngitdbCollectionDef (schema_api.truncate D) (c\<lparr>scName := last segments\<rparr>)))) (\<lambda>colDef.
       create_at E D options (scName c) (sub_schema_dir (schema_dir projectPath (hd segments)) (tl segments)) colDef (ioret ())))"

definition CreateCollection ::
  "osenv \<Rightarrow> ddl_api \<Rightarrow> string \<Rightarrow> collection_def \<Rightarrow> ddl_options \<Rightarrow> ('b world_scheme, dberr, unit) io" where
  "CreateCollection E D projectPath c options =
     iobind (iowrap ''CreateCollection'' (iolift (validateCollectionName (scName c)))) (\<lambda>_.
       let segments = strings_Split slash (scName c) in
       if length segments > 1 then createSubCollection E D projectPath segments c options
       else iobind (iowrap (''CreateCollection '' @ scName c)
                      (iolift (buildIngitdbCollectionDef (schema_api.truncate D) c))) (\<lambda>colDef.
         create_at E D options (scName c) (schema_dir projectPath (scName c)) colDef
           (iowrap (''CreateCollection '' @ scName c) (registerInRootCollections E D projectPath (scName c)))))"

definition subtree :: "fs \<Rightarrow> string \<Rightarrow> string list" where
  "subtree fs p = filter (\<lambda>q. q = path_Clean p \<or> strictly_inside p q) (map fst fs)"

definition os_RemoveAll :: "osenv \<Rightarrow> string \<Rightarrow> ('b world_scheme, dberr, unit) io" where
  "os_RemoveAll E p =
     os_call E (\<lambda>t fs. case t of None \<Rightarrow> fs | Some k \<Rightarrow> foldr go_delete (take k (subtree fs p)) fs)
       (\<lambda>fs. (Inr (), foldr go_delete (subtree fs p) fs))"

definition DropCollection ::
  "osenv \<Rightarrow> ddl_api \<Rightarrow> string \<Rightarrow> string \<Rightarrow> ddl_options \<Rightarrow> ('b world_scheme, dberr, unit) io" where
  "DropCollection E D projectPath name options =
     iobind (iowrap ''DropCollection'' (iolift (validateCollectionName name))) (\<lambda>_ w.
       let colDir = filepath_Join [projectPath, name];
           defPath = filepath_Join [colDir, ''.collection'', ''definition.yaml''] in
       case os_Stat E defPath w of
         (Inl e, w') \<Rightarrow>
           if err_is e is_not_exist
           then (if optIfExists options then (Inr (), w')
                 else (Inl (EMsg ''DropCollection: collection not found'' [name]), w'))
           else (Inl (EWrap (''DropCollection: stat '' @ defPath) e), w')
       | (Inr _, w') \<Rightarrow>
           iobind (iowrap (''DropCollection: remove '' @ colDir) (os_RemoveAll E colDir)) (\<lambda>_.
             iowrap (''DropCollection '' @ name) (deregisterFromRootCollections E D projectPath name)) w')"

section \<open>Altering\<close>

text \<open>\<open>filepath.WalkDir\<close>: every node at or under a directory, parents first, names in byte order.\<close>

definition walk_entries :: "fs \<Rightarrow> string \<Rightarrow> (string \<times> node) list" where
  "walk_entries fs dir = sort_key (\<lambda>x. csegs (fst x)) (filter (\<lambda>(q, n). q = path_Clean dir \<or> strictly_inside dir q) fs)"

definition rewrite_file ::
  "osenv \<Rightarrow> ddl_api \<Rightarrow> (row \<Rightarrow> row) \<Rightarrow> string \<Rightarrow> ('b world_scheme, dberr, unit) io" where
  "rewrite_file E D mutate path =
     withExclusiveLock E path (
       iobind (iowrap (''read '' @ path) (os_ReadFile E path)) (\<lambda>content.
       iobind (if content = [] then ioret [] else iowrap (''parse '' @ path) (iolift (yaml_UnmarshalRow D content))) (\<lambda>rec.
       iobind (iowrap (''marshal '' @ path) (iolift (yaml_MarshalRow D (mutate rec)))) (\<lambda>out.
         iowrap (''write '' @ path) (os_WriteFile E path out 420)))))"

definition visit ::
  "osenv \<Rightarrow> ddl_api \<Rightarrow> (row \<Rightarrow> row) \<Rightarrow> string \<times> node \<Rightarrow> ('b world_scheme, dberr, unit) io" where
  "visit E D mutate x =
     (if snd x = NDir then os_call E intact (\<lambda>fs. (Inr (), fs))
      else if \<not> strings_HasSuffix (fst x) ''.yaml'' then ioret ()
      else rewrite_file E D mutate (fst x))"

definition rewriteRecordFiles ::
  "osenv \<Rightarrow> ddl_api \<Rightarrow> string \<Rightarrow> record_format \<Rightarrow> (row \<Rightarrow> row) \<Rightarrow> ('b world_scheme, dberr, unit) io" where
  "rewriteRecordFiles E D recordsDir format mutate =
     (if format \<noteq> RecordFormatYAML then ioret ()
      else (\<lambda>w. case os_Stat E recordsDir w of
        (Inl e, w') \<Rightarrow>
          if err_is e is_not_exist then (Inr (), w')
          else (Inl (EWrap (''rewriteRecordFiles stat '' @ recordsDir) e), w')
      | (Inr _, w') \<Rightarrow> ioeach (visit E D mutate) (walk_entries (wFs w') recordsDir) w'))"

datatype alter_op =
    AddField field_def ddl_options
  | DropField string ddl_options
  | ModifyField string field_def
  | RenameField string string
  | AddIndex index_def
  | DropIndex string

record applier =
  apDef :: coldef
  apSourceFieldsUpdated :: bool
  apRecordsDir :: string
  apRecordFormat :: record_format

definition move_field :: "string \<Rightarrow> string \<Rightarrow> row \<Rightarrow> row" where
  "move_field old new rec =
     (case go_get rec old of None \<Rightarrow> rec | Some v \<Rightarrow> go_delete old (go_set new v rec))"

definition rename_in :: "string \<Rightarrow> string \<Rightarrow> string list \<Rightarrow> string list" where
  "rename_in old new order = map (\<lambda>n. if n = old then new else n) order"

text \<open>What each method does to the definition, and the change of the record files it asks for.\<close>

definition add_field :: "field_def \<Rightarrow> ddl_options \<Rightarrow> coldef \<Rightarrow> coldef res" where
  "add_field f opts cd =
     (if go_get (cdColumns cd) (fdName f) \<noteq> None
      then (if optIfNotExists opts then Inr cd else Inl (EMsg ''AddField: column already exists'' [fdName f]))
      else rbind (map_err (EWrap (''AddField '' @ fdName f)) (dbschemaTypeToIngitdb (fdType f))) (\<lambda>colType.
        Inr (with_Columns
          (go_set (fdName f) (Some \<lparr>cType = colType, cRequired = \<not> fdNullable f, cForeignKey = [], cFormula = []\<rparr>) (cdColumns cd))
          (cdColumnsOrder cd @ [fdName f]) cd)))"

definition drop_field :: "string \<Rightarrow> ddl_options \<Rightarrow> coldef \<Rightarrow> (coldef \<times> (row \<Rightarrow> row) option) res" where
  "drop_field col opts cd =
     (if go_get (cdColumns cd) col = None
      then (if optIfExists opts then Inr (cd, None) else Inl (EMsg ''DropField: column does not exist'' [col]))
      else Inr (with_Columns (go_delete col (cdColumns cd)) (filter (\<lambda>s. s \<noteq> col) (cdColumnsOrder cd)) cd,
                Some (go_delete col)))"

fun replace_source :: "string \<Rightarrow> source_field \<Rightarrow> source_field list \<Rightarrow> source_field list" where
  "replace_source n new [] = []"
| "replace_source n new (sf # sfs) = (if sfName sf = n then new # sfs else sf # replace_source n new sfs)"

definition one_field :: "field_def \<Rightarrow> collection_def" where
  "one_field f = \<lparr>scName = [], scFields = [f], scPrimaryKey = None, scIndexes = [], scForeignKeys = [],
     scSourceDefinition = None, scSourceRights = []\<rparr>"

definition modify_source ::
  "schema_api \<Rightarrow> string \<Rightarrow> field_def \<Rightarrow> coldef \<Rightarrow> (coldef \<times> bool) res" where
  "modify_source S oldName newDef cd =
     (case cdSourceSchema cd of
        Some src \<Rightarrow>
          if ssKeyMode src = []
          then rbind (map_err (EWrap (''ModifyField source metadata '' @ oldName)) (buildIngitdbCollectionDef S (one_field newDef))) (\<lambda>mapped.
            case cdSourceSchema mapped of
              None \<Rightarrow> Inl (EPanic ''nil source schema'')
            | Some ms \<Rightarrow>
                Inr (with_SourceSchema (Some (src\<lparr>ssFields := replace_source oldName (ssFields ms ! 0) (ssFields src)\<rparr>)) cd,
                     oldName \<in> set (map sfName (ssFields src))))
          else Inr (cd, False)
      | None \<Rightarrow> Inr (cd, False))"

definition modify_field ::
  "schema_api \<Rightarrow> string \<Rightarrow> field_def \<Rightarrow> coldef \<Rightarrow> (coldef \<times> bool \<times> (row \<Rightarrow> row) option) res" where
  "modify_field S oldName newDef0 cd =
     (case go_get (cdColumns cd) oldName of
        None \<Rightarrow> Inl (EMsg ''ModifyField: column does not exist'' [oldName])
      | Some colp \<Rightarrow>
          rbind (map_err (EWrap (''ModifyField '' @ oldName)) (dbschemaTypeToIngitdb (fdType newDef0))) (\<lambda>colType.
          let newDef = (if fdName newDef0 = [] then newDef0\<lparr>fdName := oldName\<rparr> else newDef0); newName = fdName newDef in
          rbind (modify_source S oldName newDef cd) (\<lambda>(cd1, updated).
          case colp of
            None \<Rightarrow> Inl (EPanic ''nil column'')
          | Some col0 \<Rightarrow>
              let col = col0\<lparr>cType := colType, cRequired := \<not> fdNullable newDef\<rparr> in
              if newName \<noteq> [] \<and> newName \<noteq> oldName
              then (if go_get (cdColumns cd) newName \<noteq> None
                    then Inl (EMsg ''ModifyField: target name already in use'' [newName])
                    else Inr (with_Columns (go_set newName (Some col) (go_delete oldName (cdColumns cd)))
                                (rename_in oldName newName (cdColumnsOrder cd)) cd1, updated, Some (move_field oldName newName)))
              else Inr (with_Columns (go_set oldName (Some col) (cdColumns cd)) (cdColumnsOrder cd) cd1, updated, None))))"

definition rename_field :: "string \<Rightarrow> string \<Rightarrow> coldef \<Rightarrow> (coldef \<times> (row \<Rightarrow> row)) res" where
  "rename_field old new cd =
     (case go_get (cdColumns cd) old of
        None \<Rightarrow> Inl (EMsg ''RenameField: column does not exist'' [old])
      | Some col \<Rightarrow>
          if go_get (cdColumns cd) new \<noteq> None then Inl (EMsg ''RenameField: target name already in use'' [new])
          else Inr (with_Columns (go_set new col (go_delete old (cdColumns cd))) (rename_in old new (cdColumnsOrder cd)) cd,
                    move_field old new))"

text \<open>The change of an operation: the definition, whether it updated the source fields, the rewrite.\<close>

fun op_change :: "schema_api \<Rightarrow> alter_op \<Rightarrow> coldef \<Rightarrow> (coldef \<times> bool \<times> (row \<Rightarrow> row) option) res" where
  "op_change S (AddField f opts) cd = rbind (add_field f opts cd) (\<lambda>cd. Inr (cd, False, None))"
| "op_change S (DropField n opts) cd = rbind (drop_field n opts cd) (\<lambda>(cd, rw). Inr (cd, False, rw))"
| "op_change S (ModifyField n f) cd = modify_field S n f cd"
| "op_change S (RenameField a b) cd = rbind (rename_field a b cd) (\<lambda>(cd, rw). Inr (cd, False, Some rw))"
| "op_change S (AddIndex i) cd = Inr (cd, False, None)"
| "op_change S (DropIndex n) cd = Inr (cd, False, None)"

definition ApplyTo :: "osenv \<Rightarrow> ddl_api \<Rightarrow> alter_op \<Rightarrow> applier \<Rightarrow> ('b world_scheme, dberr, applier) io" where
  "ApplyTo E D op ap =
     iobind (iolift (op_change (schema_api.truncate D) op (apDef ap))) (\<lambda>(cd, updated, rewrite).
     iobind (case rewrite of
               None \<Rightarrow> ioret ()
             | Some mutate \<Rightarrow> rewriteRecordFiles E D (apRecordsDir ap) (apRecordFormat ap) mutate) (\<lambda>_.
       ioret (ap\<lparr>apDef := cd, apSourceFieldsUpdated := apSourceFieldsUpdated ap \<or> updated\<rparr>)))"

text \<open>Source hints of a definition that is no export are dropped unless the operation renewed them.\<close>

definition refresh_source :: "applier \<Rightarrow> applier" where
  "refresh_source ap =
     (case cdSourceSchema (apDef ap) of
        Some src \<Rightarrow>
          if ssKeyMode src = [] \<and> \<not> apSourceFieldsUpdated ap
          then ap\<lparr>apDef := with_SourceSchema (Some (src\<lparr>ssFields := []\<rparr>)) (apDef ap), apSourceFieldsUpdated := False\<rparr>
          else ap\<lparr>apSourceFieldsUpdated := False\<rparr>
      | None \<Rightarrow> ap\<lparr>apSourceFieldsUpdated := False\<rparr>)"

fun alter_loop ::
  "osenv \<Rightarrow> ddl_api \<Rightarrow> string \<Rightarrow> nat \<Rightarrow> alter_op list \<Rightarrow> applier \<Rightarrow> ('b world_scheme, dberr, unit) io" where
  "alter_loop E D defPath i [] ap = ioret ()"
| "alter_loop E D defPath i (op # ops) ap =
     iobind (iocatch (ApplyTo E D op ap) (\<lambda>e. iofail (EAt ''AlterCollection'' i e))) (\<lambda>ap1.
       let ap2 = refresh_source ap1 in
       iobind (iocatch (writeCollectionDefYAML E D defPath (apDef ap2))
                 (\<lambda>e. iofail (EAt ''AlterCollection'' i (EWrap ''flush definition.yaml'' e)))) (\<lambda>_.
         alter_loop E D defPath (Suc i) ops ap2))"

definition AlterCollection ::
  "osenv \<Rightarrow> api \<Rightarrow> ddl_api \<Rightarrow> string \<Rightarrow> string \<Rightarrow> alter_op list \<Rightarrow> ('b world_scheme, dberr, unit) io" where
  "AlterCollection E A D projectPath name ops =
     iobind (iowrap ''AlterCollection'' (iolift (validateCollectionName name))) (\<lambda>_.
     let defPath = filepath_Join [projectPath, name, ''.collection'', ''definition.yaml''] in
     iobind (iowrap (''AlterCollection: collection not found '' @ name) (os_Stat E defPath)) (\<lambda>_.
     withExclusiveLock E defPath (
       iobind (iowrap (''AlterCollection '' @ name) (readCollectionDefYAML E D defPath)) (\<lambda>colDef.
       case cdRecordFile colDef of
         None \<Rightarrow> iofail (EPanic ''nil record file'')
       | Some rf \<Rightarrow>
           alter_loop E D defPath 0 ops
             \<lparr>apDef = colDef, apSourceFieldsUpdated = False,
              apRecordsDir = filepath_Join [projectPath, name, RecordsBasePath A rf], apRecordFormat = rfFormat rf\<rparr>))))"

end
