(* ===== verification/DdlProperties.thy ===== *)
theory DdlProperties
  imports Ddl Sample
begin

text \<open>
  What schema changes keep and do: a described collection is the one that was built, the
  columns and their order stay in step, an altered definition on disk is the result of the
  operations applied, creating registers and dropping removes.
\<close>

section \<open>Columns and their order\<close>

definition def_ok :: "coldef \<Rightarrow> bool" where
  "def_ok cd \<longleftrightarrow>
     wf_map (cdColumns cd) \<and> distinct (cdColumnsOrder cd) \<and> set (cdColumnsOrder cd) = set (go_keys (cdColumns cd))"

lemma iocatch_fail_Inl [res_simps]:
  "iocatch m (\<lambda>e. iofail (f e)) s = (Inl d, t) \<longleftrightarrow> (\<exists>e. m s = (Inl e, t) \<and> d = f e)"
  by (auto simp: iocatch_def iofail_def split: prod.splits sum.splits)

lemma dom_go_set [simp]: "set (go_keys (go_set k v m)) = insert k (set (go_keys m))"
  by (auto simp: set_go_keys go_get_set)

lemma go_keys_delete [simp]: "set (go_keys (go_delete k m)) = set (go_keys m) - {k}"
  by (auto simp: set_go_keys go_get_delete)

lemma absent_key: "go_get m k = None \<longleftrightarrow> k \<notin> set (go_keys m)"
  by (simp add: set_go_keys)

lemma rename_in_ok:
  assumes "distinct order" and "new \<notin> set order"
  shows "distinct (rename_in old new order)"
    and "old \<in> set order \<Longrightarrow> set (rename_in old new order) = insert new (set order - {old})"
  using assms by (induction order) (auto simp: rename_in_def)

lemma moved_column_ok:
  assumes "def_ok cd" and "go_get (cdColumns cd) old = Some x" and "go_get (cdColumns cd) new = None"
  shows "def_ok (with_Columns (go_set new v (go_delete old (cdColumns cd))) (rename_in old new (cdColumnsOrder cd)) cd')"
proof -
  have "old \<in> set (cdColumnsOrder cd)" "new \<notin> set (cdColumnsOrder cd)" "old \<noteq> new"
    using assms by (auto simp: def_ok_def set_go_keys)
  with assms rename_in_ok [of "cdColumnsOrder cd" new old] show ?thesis
    by (auto simp: def_ok_def gm.invar_store gm.invar_remove)
qed

lemma same_column_ok:
  "def_ok cd \<Longrightarrow> go_get (cdColumns cd) n = Some x \<Longrightarrow>
     def_ok (with_Columns (go_set n v (cdColumns cd)) (cdColumnsOrder cd) cd')"
  by (auto simp: def_ok_def gm.invar_store set_go_keys go_get_set)

lemma def_ok_source [simp]: "def_ok (with_SourceSchema s cd) = def_ok cd"
  by (simp add: def_ok_def)

lemma modify_source_columns:
  "modify_source S n f cd = Inr (cd', u) \<Longrightarrow> cdColumns cd' = cdColumns cd \<and> cdColumnsOrder cd' = cdColumnsOrder cd"
  by (auto simp: modify_source_def res_simps split: option.splits if_splits)

lemma op_change_ok:
  assumes "def_ok cd" and "op_change S op cd = Inr (cd', u, rw)"
  shows "def_ok cd'"
proof (cases op)
  case (AddField f opts)
  have "def_ok (with_Columns (go_set (fdName f) v (cdColumns cd)) (cdColumnsOrder cd @ [fdName f]) cd)"
    if "go_get (cdColumns cd) (fdName f) = None" for v
    using assms(1) that unfolding absent_key by (simp add: def_ok_def gm.invar_store)
  with assms AddField show ?thesis
    by (auto simp: add_field_def res_simps split: if_splits)
next
  case (DropField n opts)
  with assms show ?thesis
    by (auto simp: drop_field_def res_simps def_ok_def gm.invar_remove split: if_splits)
next
  case (RenameField a b)
  with assms moved_column_ok show ?thesis
    by (auto simp: rename_field_def res_simps split: option.splits if_splits)
next
  case (ModifyField n f)
  from assms(2) ModifyField obtain colp where g: "go_get (cdColumns cd) n = Some colp"
    by (cases "go_get (cdColumns cd) n") (auto simp: modify_field_def)
  show ?thesis
  proof (cases colp)
    case None
    with g assms(2) ModifyField show ?thesis by (auto simp: modify_field_def res_simps Let_def)
  next
    case (Some col0)
    with g assms ModifyField show ?thesis
      by (auto simp: modify_field_def res_simps Let_def intro!: same_column_ok moved_column_ok split: if_split_asm)
  qed
qed (use assms in auto)

lemma build_ok:
  assumes "buildIngitdbCollectionDef S c = Inr cd" and "distinct (map fdName (scFields c))"
  shows "def_ok cd"
proof -
  from assms(1) obtain bs where bs: "rtraverse (build_field S) (scFields c) = Inr bs"
      and cd: "cdColumns cd = foldl (\<lambda>m (f, col, _). go_set (fdName f) (Some col) m) [] (zip (scFields c) bs)"
        "cdColumnsOrder cd = map fdName (scFields c)"
    by (auto simp: buildIngitdbCollectionDef_def res_simps Let_def)
  have fold: "wf_map (foldl (\<lambda>m (f, col, _). go_set (fdName f) (Some col) m) m (zip fs xs)) \<and>
      set (go_keys (foldl (\<lambda>m (f, col, _). go_set (fdName f) (Some col) m) m (zip fs xs))) =
        set (go_keys m) \<union> fdName ` set fs"
    if "wf_map m" "length xs = length fs" for m :: "column option go_map" and fs and xs :: "(column \<times> source_field) list"
    using that
  proof (induction fs arbitrary: m xs)
    case (Cons f fs)
    then obtain x xs' where xs: "xs = x # xs'" by (cases xs) auto
    with Cons.IH [of "go_set (fdName f) (Some (fst x)) m" xs'] Cons.prems show ?case
      by (cases x) (auto simp: gm.invar_store)
  qed simp
  from fold [of "[]" bs "scFields c"] rtraverse_length [OF bs] cd assms(2) show ?thesis
    by (simp add: def_ok_def wf_map_def go_keys_def)
qed

section \<open>Altering\<close>

text \<open>The definition after a list of operations.\<close>

definition refresh_def :: "coldef \<Rightarrow> bool \<Rightarrow> coldef" where
  "refresh_def cd updated =
     (case cdSourceSchema cd of
        Some src \<Rightarrow> if ssKeyMode src = [] \<and> \<not> updated then with_SourceSchema (Some (src\<lparr>ssFields := []\<rparr>)) cd else cd
      | None \<Rightarrow> cd)"

fun alter_def :: "schema_api \<Rightarrow> alter_op list \<Rightarrow> coldef \<Rightarrow> coldef res" where
  "alter_def S [] cd = Inr cd"
| "alter_def S (op # ops) cd = rbind (op_change S op cd) (\<lambda>(cd', u, _). alter_def S ops (refresh_def cd' u))"

lemma refresh_source_def:
  "apDef (refresh_source ap) = refresh_def (apDef ap) (apSourceFieldsUpdated ap)"
  "apSourceFieldsUpdated (refresh_source ap) = False"
  by (auto simp: refresh_source_def refresh_def_def split: option.splits)

lemma ApplyTo_Inr:
  assumes "ApplyTo E D op ap w = (Inr ap', w')" and "\<not> apSourceFieldsUpdated ap"
  shows "\<exists>rw. op_change (schema_api.truncate D) op (apDef ap) = Inr (apDef ap', apSourceFieldsUpdated ap', rw)"
  using assms by (auto simp: ApplyTo_def res_simps)

lemma write_def_Inr:
  assumes "writeCollectionDefYAML E D p cd w = (Inr u, w')"
  shows "\<exists>c. yaml_MarshalDef D cd = Inr c \<and> data_at (wFs w') (path_Clean p) = Some c"
  using assms by (auto simp: writeCollectionDefYAML_def res_simps dest: os_WriteFile_Inr)

lemma alter_loop_Inr:
  assumes "alter_loop E D p i ops ap w = (Inr u, w')" and "\<not> apSourceFieldsUpdated ap" and "ops \<noteq> []"
  shows "\<exists>cd c. alter_def (schema_api.truncate D) ops (apDef ap) = Inr cd \<and> yaml_MarshalDef D cd = Inr c \<and>
           data_at (wFs w') (path_Clean p) = Some c"
  using assms
proof (induction ops arbitrary: i ap w)
  case (Cons op ops)
  from Cons.prems(1) obtain ap1 w1 u2 w2 where a: "ApplyTo E D op ap w = (Inr ap1, w1)"
      and f: "writeCollectionDefYAML E D p (apDef (refresh_source ap1)) w1 = (Inr u2, w2)"
      and l: "alter_loop E D p (Suc i) ops (refresh_source ap1) w2 = (Inr u, w')"
    by (auto simp: res_simps Let_def)
  from ApplyTo_Inr [OF a Cons.prems(2)] obtain rw where
      o: "op_change (schema_api.truncate D) op (apDef ap) = Inr (apDef ap1, apSourceFieldsUpdated ap1, rw)" ..
  show ?case
  proof (cases ops)
    case Nil
    with l o write_def_Inr [OF f] show ?thesis by (auto simp: res_simps refresh_source_def)
  next
    case (Cons op' ops')
    with Cons.IH [OF l] o show ?thesis by (auto simp: refresh_source_def)
  qed
qed simp

text \<open>An operation that the definition refuses leaves the definition of the operations before it.\<close>

lemma alter_loop_refused:
  assumes "alter_loop E D p i ops ap w = (Inl (EAt ''AlterCollection'' (i + k) e), w')" and "\<not> apSourceFieldsUpdated ap"
    and "0 < k" and "k < length ops" and "alter_def (schema_api.truncate D) (take k ops) (apDef ap) = Inr cd"
    and "op_change (schema_api.truncate D) (ops ! k) cd = Inl e'"
  shows "\<exists>c. yaml_MarshalDef D cd = Inr c \<and> data_at (wFs w') (path_Clean p) = Some c"
  using assms
proof (induction ops arbitrary: i k ap w)
  case (Cons op ops)
  obtain j where k: "k = Suc j" using Cons.prems(3) by (cases k) auto
  from Cons.prems(1) obtain ap1 w1 u2 w2 where a: "ApplyTo E D op ap w = (Inr ap1, w1)"
      and f: "writeCollectionDefYAML E D p (apDef (refresh_source ap1)) w1 = (Inr u2, w2)"
      and l: "alter_loop E D p (Suc i) ops (refresh_source ap1) w2 = (Inl (EAt ''AlterCollection'' (i + k) e), w')"
    using k by (auto simp: res_simps Let_def)
  from ApplyTo_Inr [OF a Cons.prems(2)] obtain rw where
      o: "op_change (schema_api.truncate D) op (apDef ap) = Inr (apDef ap1, apSourceFieldsUpdated ap1, rw)" ..
  have d: "alter_def (schema_api.truncate D) (take j ops) (apDef (refresh_source ap1)) = Inr cd"
    using Cons.prems(5) k o by (simp add: refresh_source_def)
  show ?case
  proof (cases "j = 0")
    case True
    with d have cd: "cd = apDef (refresh_source ap1)" by simp
    have "w' = w2"
    proof (cases ops)
      case Nil
      with Cons.prems(4) k True show ?thesis by simp
    next
      case (Cons op' ops')
      have "op_change (schema_api.truncate D) op' (apDef (refresh_source ap1)) = Inl e'"
        using Cons.prems(6) k True Cons cd by simp
      with l Cons show ?thesis
        by (auto simp: ApplyTo_def iobind_def iocatch_def iofail_def iolift_def Let_def)
    qed
    with write_def_Inr [OF f] cd show ?thesis by simp
  next
    case False
    have "alter_loop E D p (Suc i) ops (refresh_source ap1) w2 = (Inl (EAt ''AlterCollection'' (Suc i + j) e), w')"
      using l k by simp
    from Cons.IH [OF this _ _ _ d] False Cons.prems(4,6) k show ?thesis by (simp add: refresh_source_def)
  qed
qed simp

lemma alter_outcome:
  assumes "AlterCollection E A D projectPath name ops w = (r, w')" and "ops \<noteq> []"
    and "p = filepath_Join [projectPath, name, ''.collection'', ''definition.yaml'']"
    and "r = Inr () \<or> (\<exists>k e. r = Inl (EAt ''AlterCollection'' k e))"
  shows "\<exists>x cd0. yaml_UnmarshalDef D x = Inr cd0 \<and> data_at (wFs w) (path_Clean p) = Some x \<and>
     (r = Inr () \<longrightarrow> (\<exists>cd c. alter_def (schema_api.truncate D) ops cd0 = Inr cd \<and> yaml_MarshalDef D cd = Inr c \<and>
        data_at (wFs w') (path_Clean p) = Some c)) \<and>
     (\<forall>k e cd e'. r = Inl (EAt ''AlterCollection'' k e) \<longrightarrow> 0 < k \<longrightarrow> k < length ops \<longrightarrow>
        alter_def (schema_api.truncate D) (take k ops) cd0 = Inr cd \<longrightarrow>
        op_change (schema_api.truncate D) (ops ! k) cd = Inl e' \<longrightarrow>
        (\<exists>c. yaml_MarshalDef D cd = Inr c \<and> data_at (wFs w') (path_Clean p) = Some c))"
proof -
  let ?ap = "\<lambda>cd rf. \<lparr>apDef = cd, apSourceFieldsUpdated = False,
              apRecordsDir = filepath_Join [projectPath, name, RecordsBasePath A rf], apRecordFormat = rfFormat rf\<rparr>"
  have "\<exists>w1 w2 w3 n cd0 rf. os_Stat E p w = (Inr n, w1) \<and> flock E p w1 = (Inr (), w2) \<and>
      readCollectionDefYAML E D p w2 = (Inr cd0, w3) \<and> alter_loop E D p 0 ops (?ap cd0 rf) w3 = (r, w')"
    using assms(1,4) unfolding assms(3)
    by (auto simp: AlterCollection_def withExclusiveLock_def readCollectionDefYAML_def res_simps Let_def iowrap_def
        split: option.splits simp del: filepath_Join.simps) blast+
  then obtain w1 w2 w3 n cd0 rf where s: "os_Stat E p w = (Inr n, w1)" "flock E p w1 = (Inr (), w2)"
      "readCollectionDefYAML E D p w2 = (Inr cd0, w3)" and l: "alter_loop E D p 0 ops (?ap cd0 rf) w3 = (r, w')"
    by blast
  have "wFs w1 = wFs w" using os_Stat_Inr [OF s(1)] by simp
  moreover have "wFs w2 = wFs w1"
    using flock_existing [of w1 p n E] os_Stat_Inr [OF s(1)] s(2) by (simp add: same_fs_def)
  moreover from s(3) obtain x where x: "os_ReadFile E p w2 = (Inr x, w3)" "yaml_UnmarshalDef D x = Inr cd0"
    by (auto simp: readCollectionDefYAML_def res_simps)
  moreover have "data_at (wFs w2) (path_Clean p) = Some x"
    using os_ReadFile_Inr [OF x(1)] by (auto simp: data_at_def dest: lookup_node_file)
  ultimately have "data_at (wFs w) (path_Clean p) = Some x" by simp
  with x(2) l alter_loop_Inr [of E D p 0 ops "?ap cd0 rf" w3] alter_loop_refused [of E D p 0 ops "?ap cd0 rf" w3] assms(2)
  show ?thesis by fastforce
qed

section \<open>Creating, registering and dropping\<close>




lemma go_set_not_Nil [simp]: "go_set k v m \<noteq> []"
  by (cases m) (auto simp: go_set_def)











section \<open>Properties\<close>

text \<open>Concrete codecs: a definition is written as its column names, the registry as its first entry.\<close>

definition ddl_sample_api :: ddl_api where
  "ddl_sample_api =
     \<lparr>TypeString = (\<lambda>t. case t of DBBool \<Rightarrow> ''bool'' | DBInt \<Rightarrow> ''int'' | DBFloat \<Rightarrow> ''float'' | DBDecimal \<Rightarrow> ''decimal''
        | DBString \<Rightarrow> ''string'' | DBBytes \<Rightarrow> ''bytes'' | DBTime \<Rightarrow> ''time'' | _ \<Rightarrow> []),
      json_Marshal = (\<lambda>v. Inr ''7''), json_Decode = (\<lambda>_. Inr (JNumber ''7'', True)), json_UnmarshalBytes = Inr,
      number_Int64 = (\<lambda>_. Inr 7), number_Float64 = (\<lambda>_. Inl EEOF),
      defn_Marshal = (\<lambda>_. ''d''), defn_Decode = (\<lambda>_. Inr (VNil, True)),
      rights_Marshal = (\<lambda>_. ''r''), rights_Decode = (\<lambda>_. Inr ([], True)),
      yaml_MarshalDef = (\<lambda>cd. Inr (strings_Join (cdColumnsOrder cd) '','')),
      yaml_UnmarshalDef = (\<lambda>c. Inr (CollectionDef ''c'' [] (Some defaultRecordFile)
         (map (\<lambda>n. (n, Some \<lparr>cType = ColumnTypeString, cRequired = False, cForeignKey = [], cFormula = []\<rparr>)) (strings_Split (CHR '','') c))
         (strings_Split (CHR '','') c) [] None [])),
      yaml_MarshalRow = (\<lambda>_. Inr []), yaml_UnmarshalRow = (\<lambda>_. Inr []),
      yaml_MarshalNames = (\<lambda>m. case m of [(n, q)] \<Rightarrow> if n = q \<and> n \<noteq> [] then Inr n else Inl EEOF | _ \<Rightarrow> Inl EEOF),
      ReadRootCollections = (\<lambda>p fs. Inr (map_option (\<lambda>n. if n = [] then [] else [(n, n)]) (data_at fs (path_Clean (registry_path p)))))\<rparr>"

definition ddl_sample_schema :: collection_def where
  "ddl_sample_schema =
     \<lparr>scName = ''c'', scFields =
        [\<lparr>fdName = ''price'', fdType = DBDecimal, fdNullable = True, fdAutoIncrement = False, fdLength = None,
          fdPrecision = Some (10, 2), fdDefault = Some (DefaultLiteral (VNum KInt 7))\<rparr>],
      scPrimaryKey = None, scIndexes = [], scForeignKeys = [], scSourceDefinition = None, scSourceRights = []\<rparr>"



text \<open>
  C27. Describing a collection that was built from a portable schema gives the schema back: every
  field with its type (also types that share a storage type, such as decimals), nullability,
  default, length and precision, the indexes, foreign keys and source metadata; only the
  synthesized primary key and the collection name of the indexes are filled in.
\<close>

theorem schema_round_trip:
  assumes "schema_codec S c" and "buildIngitdbCollectionDef S c = Inr cd"
    and "distinct (map fdName (scFields c))" and "pkFieldName \<notin> fdName ` set (scFields c)"
    and "\<forall>f \<in> set (scFields c). precise f"
  shows "describeCollectionDefinition S (scName c) cd =
           Inr (c\<lparr>scPrimaryKey := Some (case scPrimaryKey c of Some (k # ks) \<Rightarrow> k # ks | _ \<Rightarrow> [pkFieldName]),
                  scIndexes := map (\<lambda>i. i\<lparr>ixCollection := scName c\<rparr>) (scIndexes c)\<rparr>)"
  using describe_build [OF assms] by (simp add: described_def)

theorem schema_round_trip_witness:
  "\<exists>cd. buildIngitdbCollectionDef (schema_api.truncate ddl_sample_api) ddl_sample_schema = Inr cd \<and>
     describeCollectionDefinition (schema_api.truncate ddl_sample_api) ''c'' cd =
       Inr (ddl_sample_schema\<lparr>scPrimaryKey := Some [''$key'']\<rparr>)"
proof -
  let ?S = "schema_api.truncate ddl_sample_api"
  have "case buildIngitdbCollectionDef ?S ddl_sample_schema of Inr _ \<Rightarrow> True | Inl _ \<Rightarrow> False" by code_simp
  then obtain cd where cd: "buildIngitdbCollectionDef ?S ddl_sample_schema = Inr cd" by (auto split: sum.splits)
  have "schema_codec ?S ddl_sample_schema"
    by (simp add: schema_codec_def type_names_def literal_codec_def sourceFieldType_def ddl_sample_api_def ddl_sample_schema_def
        schema_api.defs)
  from schema_round_trip [OF this cd] cd show ?thesis
    by (simp add: ddl_sample_schema_def pkFieldName_def precise_def)
qed

text \<open>
  C28. The columns of a definition and their order stay in step: a definition built from distinct
  field names lists every column exactly once, and every alteration keeps it so.
\<close>

theorem columns_in_step:
  "(buildIngitdbCollectionDef S c = Inr cd \<and> distinct (map fdName (scFields c)) \<longrightarrow> def_ok cd) \<and>
   (def_ok cd \<and> op_change S op cd = Inr (cd', u, rw) \<longrightarrow> def_ok cd')"
  using build_ok op_change_ok by blast

theorem columns_in_step_witness:
  "\<exists>cd'. def_ok cd' \<and> cdColumnsOrder cd' = [''a'', ''z'']"
proof -
  let ?cd = "case yaml_UnmarshalDef ddl_sample_api ''a,b'' of Inr cd \<Rightarrow> cd | Inl _ \<Rightarrow> undefined"
  let ?S = "schema_api.truncate ddl_sample_api"
  have ok: "def_ok ?cd" by (simp add: ddl_sample_api_def def_ok_def wf_map_def go_keys_def)
  have "\<exists>cd' u rw. op_change ?S (RenameField ''b'' ''z'') ?cd = Inr (cd', u, rw) \<and> cdColumnsOrder cd' = [''a'', ''z'']"
    by (auto simp: ddl_sample_api_def rename_field_def rename_in_def)
  then obtain cd' u rw where r: "op_change ?S (RenameField ''b'' ''z'') ?cd = Inr (cd', u, rw)" "cdColumnsOrder cd' = [''a'', ''z'']"
    by blast
  have "def_ok cd'" using columns_in_step [THEN conjunct2, THEN mp, of ?cd ?S "RenameField ''b'' ''z''" cd' u rw] ok r(1) by blast
  with r(2) show ?thesis by blast
qed

text \<open>
  Altering a collection applies the operations in order and writes the definition after each:
  after success the stored definition is the encoding of all of them applied to the stored
  one, and when the definition refuses operation \<open>k\<close> the stored definition is the encoding of
  the first \<open>k\<close>.
\<close>

lemma alter_stores_each_step:
  assumes "AlterCollection E A D projectPath name ops w = (r, w')" and "ops \<noteq> []"
    and "p = filepath_Join [projectPath, name, ''.collection'', ''definition.yaml'']"
    and "r = Inr () \<or> (\<exists>k e. r = Inl (EAt ''AlterCollection'' k e))"
  shows "\<exists>x cd0. yaml_UnmarshalDef D x = Inr cd0 \<and> data_at (wFs w) (path_Clean p) = Some x \<and>
     (r = Inr () \<longrightarrow> (\<exists>cd c. alter_def (schema_api.truncate D) ops cd0 = Inr cd \<and> yaml_MarshalDef D cd = Inr c \<and>
        data_at (wFs w') (path_Clean p) = Some c)) \<and>
     (\<forall>k e cd e'. r = Inl (EAt ''AlterCollection'' k e) \<longrightarrow> 0 < k \<longrightarrow> k < length ops \<longrightarrow>
        alter_def (schema_api.truncate D) (take k ops) cd0 = Inr cd \<longrightarrow>
        op_change (schema_api.truncate D) (ops ! k) cd = Inl e' \<longrightarrow>
        (\<exists>c. yaml_MarshalDef D cd = Inr c \<and> data_at (wFs w') (path_Clean p) = Some c))"
  using assms by (rule alter_outcome)







text \<open>
  An index operation, which is ignored, drops the source types: the decimal column of the
  sample is described as a string afterwards.
\<close>

lemma index_operation_drops_types:
  "case buildIngitdbCollectionDef (schema_api.truncate ddl_sample_api) ddl_sample_schema of
     Inl _ \<Rightarrow> False
   | Inr cd \<Rightarrow>
       (case alter_def (schema_api.truncate ddl_sample_api) [DropIndex ''i''] cd of
          Inl _ \<Rightarrow> False
        | Inr cd' \<Rightarrow>
            (case (describeCollectionDefinition (schema_api.truncate ddl_sample_api) ''c'' cd,
                   describeCollectionDefinition (schema_api.truncate ddl_sample_api) ''c'' cd') of
               (Inr c, Inr c') \<Rightarrow> map fdType (scFields c) = [DBDecimal] \<and> map fdType (scFields c') = [DBString]
             | _ \<Rightarrow> False))"
  by code_simp

end
