(* ===== verification/AccessManifest.thy ===== *)
theory AccessManifest
  imports RecordIO
begin

text \<open>
  The access configuration of a project: the manifest of \<open>access_manifest.go\<close>, and the
  immutable policy generations of \<open>access_generation.go\<close> as they are read and verified.

  YAML, the policy language of package \<open>access\<close> and SHA-256 are parameters (\<open>access_api\<close>);
  \<open>yamlActive\<close> and \<open>yamlGeneration\<close> are the decoders that refuse unknown fields, the first
  with the outcome of the next \<open>Decode\<close>. Symbolic links are part of the environment here: the
  tree is what a path resolves to, and \<open>acLink\<close> says at every \<open>Lstat\<close> whether the path is a
  link, so that a link may appear between any two calls. \<open>acHook\<close> is
  \<open>ownerPolicyPublicationHook\<close>, nil in production; a failing hook is a stop at that point.
\<close>

record policy_config =
  pcEnabled :: bool
  pcDatabase :: string
  pcRealm :: string
  pcPolicies :: "string list"

record generationPolicy =
  gpID :: string
  gpFile :: string
  gpDigest :: string

record generationManifest =
  gmAPIVersion :: string
  gmEnabled :: bool
  gmDatabase :: string
  gmRealm :: string
  gmPolicies :: "generationPolicy list"

record activeGenerationManifest =
  amEnabled :: "bool option"
  amDatabase :: string
  amRealm :: string
  amGeneration :: string
  amPolicies :: "string list"

text \<open>A policy document: the name and the target the adapter reads, and the rest.\<close>

record policy_doc =
  pdName :: string
  pdDatabase :: string
  pdBody :: string

record 'p access_api =
  acLink :: "nat \<Rightarrow> string \<Rightarrow> bool"
  acTemp :: "nat \<Rightarrow> string"
  acHook :: "string \<Rightarrow> dberr option"
  acSha256 :: "string \<Rightarrow> string"
  yamlActive :: "string \<Rightarrow> (activeGenerationManifest \<times> dberr option) res"
  yamlActiveLoose :: "string \<Rightarrow> activeGenerationManifest res"
  yamlGeneration :: "string \<Rightarrow> generationManifest res"
  yamlGenerationLoose :: "string \<Rightarrow> generationManifest res"
  yamlMarshalActive :: "activeGenerationManifest \<Rightarrow> string res"
  yamlMarshalGeneration :: "generationManifest \<Rightarrow> string res"
  ParseTugQLPolicy :: "string \<Rightarrow> policy_doc res"
  MarshalTugQLPolicyJSON :: "policy_doc \<Rightarrow> string res"
  MarshalTugQLPolicyYAML :: "policy_doc \<Rightarrow> string res"
  LoadPolicyFiles :: "nat \<Rightarrow> fs \<Rightarrow> string \<Rightarrow> policy_config \<Rightarrow> 'p list res"

section \<open>Names\<close>

definition in_range :: "char \<Rightarrow> char \<Rightarrow> char \<Rightarrow> bool" where
  "in_range a b c \<longleftrightarrow> (of_char a :: nat) \<le> of_char c \<and> (of_char c :: nat) \<le> of_char b"

definition is_hex :: "char \<Rightarrow> bool" where
  "is_hex c \<longleftrightarrow> in_range (CHR ''0'') (CHR ''9'') c \<or> in_range (CHR ''a'') (CHR ''f'') c \<or> in_range (CHR ''A'') (CHR ''F'') c"

definition hex_value :: "char \<Rightarrow> nat" where
  "hex_value c =
     (if in_range (CHR ''0'') (CHR ''9'') c then of_char c - 48
      else if in_range (CHR ''a'') (CHR ''f'') c then of_char c - 87
      else of_char c - 55)"

fun hex_DecodeString :: "string \<Rightarrow> nat list option" where
  "hex_DecodeString [] = Some []"
| "hex_DecodeString [c] = None"
| "hex_DecodeString (c # d # s) =
     (if is_hex c \<and> is_hex d
      then map_option (\<lambda>bs. (hex_value c * 16 + hex_value d) # bs) (hex_DecodeString s)
      else None)"

text \<open>\<open>strings.ToLower\<close> on the ASCII letters: what has been decoded holds no other.\<close>

definition byte_ToLower :: "char \<Rightarrow> char" where
  "byte_ToLower c = (if in_range (CHR ''A'') (CHR ''Z'') c then char_of (of_char c + 32 :: nat) else c)"

definition strings_ToLower :: "string \<Rightarrow> string" where
  "strings_ToLower s = map byte_ToLower s"

definition isSHA256 :: "string \<Rightarrow> bool" where
  "isSHA256 value =
     (case hex_DecodeString value of
        None \<Rightarrow> False
      | Some decoded \<Rightarrow> length decoded = 32 \<and> value = strings_ToLower value)"

definition alnum :: "char \<Rightarrow> bool" where
  "alnum c \<longleftrightarrow> in_range (CHR ''0'') (CHR ''9'') c \<or> in_range (CHR ''a'') (CHR ''z'') c \<or> in_range (CHR ''A'') (CHR ''Z'') c"

definition policy_id_char :: "char \<Rightarrow> bool" where
  "policy_id_char c \<longleftrightarrow> alnum c \<or> c \<in> {CHR ''.'', CHR ''_'', CHR ''-''}"

text \<open>\<open>^[A-Za-z0-9][A-Za-z0-9._-]{0,127}$\<close>\<close>

definition safePolicyID :: "string \<Rightarrow> bool" where
  "safePolicyID s = (case s of [] \<Rightarrow> False | c # cs \<Rightarrow> alnum c \<and> list_all policy_id_char cs \<and> length cs \<le> 127)"

definition generationAPIVersion :: string where
  "generationAPIVersion = ''ingitdb.org/access-generation/v1''"

definition maxAccessManifestSize :: int where
  "maxAccessManifestSize = 65536"

definition accessConfigDir :: string where
  "accessConfigDir = ''.ingitdb/access''"

section \<open>Looking at a path\<close>

text \<open>\<open>os.Lstat\<close>; \<open>None\<close> is a symbolic link.\<close>

definition os_Lstat :: "osenv \<Rightarrow> 'p access_api \<Rightarrow> string \<Rightarrow> ('b world_scheme, dberr, node option) io" where
  "os_Lstat E A p w =
     os_call E intact (\<lambda>fs.
       (if acLink A (wTick w) (path_Clean p) then Inr None else rbind (lookup_node fs p) (\<lambda>n. Inr (Some n)), fs)) w"

definition need_dir :: "osenv \<Rightarrow> 'p access_api \<Rightarrow> string \<Rightarrow> string \<Rightarrow> ('b world_scheme, dberr, unit) io" where
  "need_dir E A p msg =
     iobind (iocatch (os_Lstat E A p) (\<lambda>_. iofail (EMsg msg []))) (\<lambda>info.
       ioguard (info = Some NDir) (EMsg msg []))"

definition need_file :: "osenv \<Rightarrow> 'p access_api \<Rightarrow> string \<Rightarrow> string \<Rightarrow> ('b world_scheme, dberr, unit) io" where
  "need_file E A p msg =
     iobind (iocatch (os_Lstat E A p) (\<lambda>_. iofail (EMsg msg []))) (\<lambda>info.
       case info of Some (NFile m d) \<Rightarrow> ioret () | _ \<Rightarrow> iofail (EMsg msg []))"

section \<open>Verifying a generation\<close>

text \<open>\<open>canonical, _ := access.MarshalTugQLPolicyJSON(doc)\<close>\<close>

definition canonical_digest :: "'p access_api \<Rightarrow> policy_doc \<Rightarrow> string" where
  "canonical_digest A doc = acSha256 A (case MarshalTugQLPolicyJSON A doc of Inr c \<Rightarrow> c | Inl _ \<Rightarrow> [])"

definition check_policy :: "'p access_api \<Rightarrow> string \<Rightarrow> generationPolicy \<Rightarrow> string \<Rightarrow> unit res" where
  "check_policy A msg p source =
     rbind (ParseTugQLPolicy A source) (\<lambda>doc.
       if pdName doc \<noteq> gpID p \<or> canonical_digest A doc \<noteq> gpDigest p then Inl (EMsg msg [gpID p]) else Inr ())"

definition safe_reference :: "generationPolicy \<Rightarrow> bool" where
  "safe_reference p \<longleftrightarrow> safePolicyID (gpID p) \<and> gpFile p = ''policies/'' @ gpID p @ ''.yaml''"

definition verify_policy :: "osenv \<Rightarrow> 'p access_api \<Rightarrow> string \<Rightarrow> generationPolicy \<Rightarrow> ('b world_scheme, dberr, unit) io" where
  "verify_policy E A base p =
     iobind (ioguard (safe_reference p) (EMsg ''unsafe generation policy reference'' [])) (\<lambda>_.
     let policyPath = filepath_Join [base, gpFile p] in
     iobind (need_file E A policyPath ''policy must be a regular non-symlink file'') (\<lambda>_.
     iobind (os_ReadFile E policyPath) (\<lambda>source.
       iolift (check_policy A ''policy digest or id mismatch'' p source))))"

definition readAndVerifyGeneration ::
  "osenv \<Rightarrow> 'p access_api \<Rightarrow> string \<Rightarrow> string \<Rightarrow> ('b world_scheme, dberr, generationManifest) io" where
  "readAndVerifyGeneration E A base revision =
     iobind (need_dir E A base ''generation must be a non-symlink directory'') (\<lambda>_.
     let manifestPath = filepath_Join [base, ''manifest.yaml''] in
     iobind (need_file E A manifestPath ''generation manifest must be a regular non-symlink file'') (\<lambda>_.
     iobind (os_ReadFile E manifestPath) (\<lambda>data.
     iobind (ioguard (acSha256 A data = revision) (EMsg ''generation digest mismatch'' [])) (\<lambda>_.
     iobind (iolift (yamlGeneration A data)) (\<lambda>m.
     iobind (ioguard (gmAPIVersion m = generationAPIVersion) (EMsg ''unsupported generation apiVersion'' [])) (\<lambda>_.
     iobind (need_dir E A (filepath_Join [base, ''policies'']) ''generation policies must be a non-symlink directory'') (\<lambda>_.
     iobind (ioeach (verify_policy E A base) (gmPolicies m)) (\<lambda>_.
       ioret m))))))))"

definition verifyGeneration :: "osenv \<Rightarrow> 'p access_api \<Rightarrow> string \<Rightarrow> string \<Rightarrow> ('b world_scheme, dberr, unit) io" where
  "verifyGeneration E A base revision = iobind (readAndVerifyGeneration E A base revision) (\<lambda>_. ioret ())"

section \<open>The manifest\<close>

text \<open>The two directories, then the manifest: \<open>False\<close> as soon as a directory is missing.\<close>

definition config_dir :: "osenv \<Rightarrow> 'p access_api \<Rightarrow> string \<Rightarrow> ('b world_scheme, dberr, bool) io" where
  "config_dir E A dir w =
     (case os_Lstat E A dir w of
        (Inl e, w') \<Rightarrow>
          if err_is e is_not_exist then (Inr False, w')
          else (Inl (EWrap ''inspect access configuration directory'' e), w')
      | (Inr None, w') \<Rightarrow> (Inl (EMsg ''access configuration directory must not be a symlink'' [dir]), w')
      | (Inr (Some n), w') \<Rightarrow>
          if n \<noteq> NDir then (Inl (EMsg ''access configuration path must be a directory'' [dir]), w') else (Inr True, w'))"

definition manifest_info :: "osenv \<Rightarrow> 'p access_api \<Rightarrow> string \<Rightarrow> ('b world_scheme, dberr, unit) io" where
  "manifest_info E A name w =
     (case os_Lstat E A name w of
        (Inl e, w') \<Rightarrow>
          (Inl (if err_is e is_not_exist then EMsg ''access configuration directory exists but manifest.yaml is missing'' []
                else EWrap ''inspect access manifest'' e), w')
      | (Inr None, w') \<Rightarrow> (Inl (EMsg ''access manifest must not be a symlink'' []), w')
      | (Inr (Some NDir), w') \<Rightarrow> (Inl (EMsg ''access manifest must be a regular file'' []), w')
      | (Inr (Some (NFile m d)), w') \<Rightarrow>
          (if int (length d) > maxAccessManifestSize then Inl (EMsg ''access manifest exceeds the size limit'' []) else Inr (), w'))"

definition decode_manifest :: "'p access_api \<Rightarrow> string \<Rightarrow> activeGenerationManifest res" where
  "decode_manifest A data =
     rbind (map_err (EWrap ''decode access manifest'') (yamlActive A data)) (\<lambda>(document, next).
       case next of
         None \<Rightarrow> Inl (EWrap ''decode access manifest'' (EMsg ''multiple YAML documents are not allowed'' []))
       | Some e \<Rightarrow>
           if err_is e (\<lambda>x. x = EEOF) then Inr document else Inl (EWrap ''decode access manifest'' e))"

definition policy_in_generation :: "string \<Rightarrow> string \<Rightarrow> generationPolicy \<Rightarrow> bool" where
  "policy_in_generation revision policy p \<longleftrightarrow>
     policy = filepath_Join [''generations'', revision, ''policies''] @ ''/'' @ gpID p @ ''.yaml''"

definition check_generation ::
  "osenv \<Rightarrow> 'p access_api \<Rightarrow> string \<Rightarrow> activeGenerationManifest \<Rightarrow> bool \<Rightarrow> ('b world_scheme, dberr, unit) io" where
  "check_generation E A accessDir document enabled =
     iobind (ioguard (isSHA256 (amGeneration document)) (EMsg ''invalid access generation revision'' [])) (\<lambda>_.
     iobind (iowrap ''verify active access generation''
               (readAndVerifyGeneration E A (filepath_Join [accessDir, ''generations'', amGeneration document])
                  (amGeneration document))) (\<lambda>g.
     iobind (ioguard (gmEnabled g = enabled \<and> gmDatabase g = amDatabase document \<and> gmRealm g = amRealm document \<and>
                      length (gmPolicies g) = length (amPolicies document))
               (EMsg ''active manifest does not match its generation'' [])) (\<lambda>_.
       ioguard (list_all2 (policy_in_generation (amGeneration document)) (amPolicies document) (gmPolicies g))
         (EMsg ''active generation policy path is outside its generation'' []))))"

definition read_manifest :: "osenv \<Rightarrow> 'p access_api \<Rightarrow> string \<Rightarrow> ('b world_scheme, dberr, policy_config) io" where
  "read_manifest E A accessDir =
     (let name = filepath_Join [accessDir, ''manifest.yaml''] in
      iobind (manifest_info E A name) (\<lambda>_.
      iobind (iowrap ''read access manifest'' (os_ReadFile E name)) (\<lambda>data.
      iobind (ioguard (int (length data) \<le> maxAccessManifestSize) (EMsg ''access manifest exceeds the size limit'' [])) (\<lambda>_.
      iobind (iolift (decode_manifest A data)) (\<lambda>document.
        case amEnabled document of
          None \<Rightarrow> iofail (EMsg ''access manifest requires explicit enabled'' [])
        | Some enabled \<Rightarrow>
            iobind (if amGeneration document \<noteq> [] then check_generation E A accessDir document enabled else ioret ()) (\<lambda>_.
            iobind (ioguard (\<not> (enabled \<and> amPolicies document = []))
                      (EMsg ''enabled access manifest requires at least one policy'' [])) (\<lambda>_.
              ioret \<lparr>pcEnabled = enabled, pcDatabase = amDatabase document, pcRealm = amRealm document,
                     pcPolicies = amPolicies document\<rparr>)))))))"

text \<open>\<open>None\<close> is the absence of a configuration; on an error the callers look at nothing else.\<close>

definition readAccessManifest :: "osenv \<Rightarrow> 'p access_api \<Rightarrow> string \<Rightarrow> ('b world_scheme, dberr, policy_config option) io" where
  "readAccessManifest E A projectPath =
     (let ingitDir = filepath_Join [projectPath, ''.ingitdb''];
          accessDir = filepath_Join [projectPath, accessConfigDir] in
      iobind (config_dir E A ingitDir) (\<lambda>there.
        if \<not> there then ioret None
        else iobind (config_dir E A accessDir) (\<lambda>there.
          if \<not> there then ioret None
          else iobind (read_manifest E A accessDir) (\<lambda>config. ioret (Some config)))))"

section \<open>Reading changes nothing\<close>

lemma os_Lstat_same: "iokeeps same_fs (os_Lstat E A p)"
  by (auto simp: iokeeps_def os_Lstat_def os_call_def same_fs_def intact_def Let_def split: option.splits)

lemma need_same: "iokeeps same_fs (need_dir E A p msg)" "iokeeps same_fs (need_file E A p msg)"
  unfolding need_dir_def need_file_def
  by (auto intro!: untouched.keeps_intros os_Lstat_same split: option.split node.split)

lemma verify_policy_same: "iokeeps same_fs (verify_policy E A base p)"
  unfolding verify_policy_def Let_def
  by (intro untouched.keeps_intros need_same os_ReadFile_same untouched.keeps_ret)

lemma readAndVerifyGeneration_same: "iokeeps same_fs (readAndVerifyGeneration E A base revision)"
  unfolding readAndVerifyGeneration_def Let_def
  by (intro untouched.keeps_intros need_same os_ReadFile_same untouched.keeps_ret verify_policy_same)

lemma config_dir_same: "iokeeps same_fs (config_dir E A dir)"
proof
  fix w
  show "same_fs w (snd (config_dir E A dir w))"
    using iokeepsD [OF os_Lstat_same, of E A dir w]
    by (auto simp: config_dir_def split: prod.split sum.split option.split)
qed

lemma manifest_info_same: "iokeeps same_fs (manifest_info E A dir)"
proof
  fix w
  show "same_fs w (snd (manifest_info E A dir w))"
    using iokeepsD [OF os_Lstat_same, of E A dir w]
    by (auto simp: manifest_info_def split: prod.split sum.split option.split node.split)
qed

lemma check_generation_same: "iokeeps same_fs (check_generation E A dir doc b)"
  unfolding check_generation_def
  by (intro untouched.keeps_intros readAndVerifyGeneration_same untouched.keeps_ret keeps_wrap)

lemma read_manifest_same: "iokeeps same_fs (read_manifest E A dir)"
  unfolding read_manifest_def Let_def
  by (auto intro!: untouched.keeps_intros manifest_info_same keeps_wrap os_ReadFile_same check_generation_same
      split: option.split)

lemma readAccessManifest_same: "iokeeps same_fs (readAccessManifest E A projectPath)"
  unfolding readAccessManifest_def Let_def
  by (intro untouched.keeps_intros config_dir_same read_manifest_same untouched.keeps_ret untouched.keeps_if)

section \<open>What a verified generation is\<close>

text \<open>
  The specification: the manifest file of the generation has the revision as its digest, and
  every policy it lists is a file of its own directory whose parsed document has the listed
  name and digest.
\<close>

definition policy_verified :: "'p access_api \<Rightarrow> fs \<Rightarrow> string \<Rightarrow> generationPolicy \<Rightarrow> bool" where
  "policy_verified A fs base p \<longleftrightarrow>
     safe_reference p \<and>
     (\<exists>source doc. data_at fs (path_Clean (filepath_Join [base, gpFile p])) = Some source \<and>
        ParseTugQLPolicy A source = Inr doc \<and> pdName doc = gpID p \<and> canonical_digest A doc = gpDigest p)"

definition verified_generation :: "'p access_api \<Rightarrow> fs \<Rightarrow> string \<Rightarrow> string \<Rightarrow> generationManifest \<Rightarrow> bool" where
  "verified_generation A fs base revision m \<longleftrightarrow>
     (\<exists>data. data_at fs (path_Clean (filepath_Join [base, ''manifest.yaml''])) = Some data \<and>
        acSha256 A data = revision \<and> yamlGeneration A data = Inr m) \<and>
     gmAPIVersion m = generationAPIVersion \<and> (\<forall>p \<in> set (gmPolicies m). policy_verified A fs base p)"

lemma os_ReadFile_data:
  "os_ReadFile E p w = (Inr d, w') \<Longrightarrow> data_at (wFs w) (path_Clean p) = Some d \<and> same_fs w w'"
  using os_ReadFile_Inr [of E p w d w'] iokeepsD [OF os_ReadFile_same, of E p w "Inr d" w']
  by (auto simp: data_at_def lookup_node_file)

lemma verify_policy_Inr:
  assumes "verify_policy E A base p w = (Inr u, w')"
  shows "policy_verified A (wFs w) base p"
proof -
  obtain w1 source where n: "need_file E A (filepath_Join [base, gpFile p]) ''policy must be a regular non-symlink file'' w = (Inr (), w1)"
      and r: "os_ReadFile E (filepath_Join [base, gpFile p]) w1 = (Inr source, w')"
      and c: "check_policy A ''policy digest or id mismatch'' p source = Inr u" and s: "safe_reference p"
    using assms by (auto simp: verify_policy_def Let_def res_simps simp del: filepath_Join.simps)
  have "wFs w1 = wFs w" using iokeepsD [OF need_same(2) n] by (simp add: same_fs_def)
  with os_ReadFile_data [OF r] c s show ?thesis
    by (auto simp: policy_verified_def check_policy_def res_simps split: if_splits)
qed

lemma readAndVerifyGeneration_Inr:
  assumes "readAndVerifyGeneration E A base revision w = (Inr m, w')"
  shows "verified_generation A (wFs w) base revision m"
proof -
  obtain w1 w2 w3 w4 data where 1: "need_dir E A base ''generation must be a non-symlink directory'' w = (Inr (), w1)"
      and 2: "need_file E A (filepath_Join [base, ''manifest.yaml'']) ''generation manifest must be a regular non-symlink file'' w1 = (Inr (), w2)"
      and 3: "os_ReadFile E (filepath_Join [base, ''manifest.yaml'']) w2 = (Inr data, w3)"
      and 4: "need_dir E A (filepath_Join [base, ''policies'']) ''generation policies must be a non-symlink directory'' w3 = (Inr (), w4)"
      and d: "acSha256 A data = revision" "yamlGeneration A data = Inr m" "gmAPIVersion m = generationAPIVersion"
      and 5: "ioeach (verify_policy E A base) (gmPolicies m) w4 = (Inr (), w')"
    using assms unfolding readAndVerifyGeneration_def Let_def by (auto simp: res_simps simp del: filepath_Join.simps)
  have fs: "wFs w1 = wFs w" "wFs w2 = wFs w1" "wFs w3 = wFs w2" "wFs w4 = wFs w3"
    using iokeepsD [OF need_same(1) 1] iokeepsD [OF need_same(2) 2] iokeepsD [OF os_ReadFile_same 3] iokeepsD [OF need_same(1) 4]
    by (simp_all add: same_fs_def)
  have "policy_verified A (wFs w) base p" if "p \<in> set (gmPolicies m)" for p
    using untouched.each_each [OF 5 verify_policy_same that] verify_policy_Inr fs by (metis same_fs_def)
  with os_ReadFile_data [OF 3] d fs show ?thesis by (auto simp: verified_generation_def)
qed

section \<open>What the manifest promises\<close>

lemma missing_error: "lookup_node fs p = Inl e \<Longrightarrow> err_is e is_not_exist \<Longrightarrow> e = ENotExist"
  by (auto simp: lookup_node_def split: if_splits option.splits)

lemma config_dir_Inr:
  assumes "config_dir E A dir w = (Inr there, w')"
  shows "same_fs w w' \<and> (\<not> there \<longrightarrow> lookup_node (wFs w) dir = Inl ENotExist)"
proof -
  have "same_fs w w'" using config_dir_same assms by (rule iokeepsD)
  moreover have "lookup_node (wFs w) dir = Inl ENotExist" if "\<not> there"
  proof -
    from assms that obtain e where e: "os_Lstat E A dir w = (Inl e, w')" "err_is e is_not_exist"
      by (auto simp: config_dir_def split: prod.splits sum.splits option.splits if_splits)
    then show ?thesis
      by (auto simp: os_Lstat_def os_call_def Let_def res_simps dest: missing_error split: option.splits if_splits)
  qed
  ultimately show ?thesis by blast
qed

lemma read_manifest_Inr:
  assumes "read_manifest E A accessDir w = (Inr config, w')"
  obtains data document where
    "data_at (wFs w) (path_Clean (filepath_Join [accessDir, ''manifest.yaml''])) = Some data"
    "int (length data) \<le> maxAccessManifestSize" "decode_manifest A data = Inr document"
    "config = \<lparr>pcEnabled = pcEnabled config, pcDatabase = amDatabase document, pcRealm = amRealm document,
       pcPolicies = amPolicies document\<rparr>"
    "amEnabled document = Some (pcEnabled config)" "pcEnabled config \<Longrightarrow> amPolicies document \<noteq> []"
    "amGeneration document \<noteq> [] \<Longrightarrow> isSHA256 (amGeneration document) \<and>
       (\<exists>g. verified_generation A (wFs w) (filepath_Join [accessDir, ''generations'', amGeneration document]) (amGeneration document) g \<and>
          gmEnabled g = pcEnabled config \<and> gmDatabase g = amDatabase document \<and> gmRealm g = amRealm document \<and>
          list_all2 (policy_in_generation (amGeneration document)) (amPolicies document) (gmPolicies g))"
proof -
  let ?n = "filepath_Join [accessDir, ''manifest.yaml'']"
  obtain w1 w2 data document enabled where 1: "manifest_info E A ?n w = (Inr (), w1)"
      and 2: "os_ReadFile E ?n w1 = (Inr data, w2)" "int (length data) \<le> maxAccessManifestSize"
      and 3: "decode_manifest A data = Inr document" "amEnabled document = Some enabled"
      and g: "(if amGeneration document \<noteq> [] then check_generation E A accessDir document enabled else ioret ()) w2 = (Inr (), w')"
      and c: "enabled \<longrightarrow> amPolicies document \<noteq> []"
        "config = \<lparr>pcEnabled = enabled, pcDatabase = amDatabase document, pcRealm = amRealm document, pcPolicies = amPolicies document\<rparr>"
    using assms unfolding read_manifest_def Let_def
    by (auto simp: res_simps iowrap_Inr simp del: filepath_Join.simps split: option.splits)
  have fs: "wFs w1 = wFs w" "wFs w2 = wFs w1"
    using iokeepsD [OF manifest_info_same 1] iokeepsD [OF os_ReadFile_same 2(1)] by (simp_all add: same_fs_def)
  have gen: "isSHA256 (amGeneration document) \<and>
       (\<exists>g. verified_generation A (wFs w) (filepath_Join [accessDir, ''generations'', amGeneration document]) (amGeneration document) g \<and>
          gmEnabled g = enabled \<and> gmDatabase g = amDatabase document \<and> gmRealm g = amRealm document \<and>
          list_all2 (policy_in_generation (amGeneration document)) (amPolicies document) (gmPolicies g))"
    if "amGeneration document \<noteq> []"
  proof -
    from g that obtain m w3 where "isSHA256 (amGeneration document)"
      "readAndVerifyGeneration E A (filepath_Join [accessDir, ''generations'', amGeneration document]) (amGeneration document) w2 = (Inr m, w3)"
      "gmEnabled m = enabled" "gmDatabase m = amDatabase document" "gmRealm m = amRealm document"
      "list_all2 (policy_in_generation (amGeneration document)) (amPolicies document) (gmPolicies m)"
      by (auto simp: check_generation_def res_simps iowrap_Inr simp del: filepath_Join.simps)
    with readAndVerifyGeneration_Inr fs show ?thesis by metis
  qed
  from os_ReadFile_data [OF 2(1)] fs 2(2) 3 c gen show ?thesis
    by (intro that [of data document]) auto
qed

end
