(* ===== verification/AccessGeneration.thy ===== *)
theory AccessGeneration
  imports AccessManifest Transaction RootedFiles Ddl
begin

text \<open>
  Publication and recovery of owner-policy generations (\<open>access_generation.go\<close>): a generation is
  built, staged beside its final place, renamed there, committed with a compare and swap of the
  Git head, and only then made the working one. The file calls are those of the model; the name
  of a temporary file or directory is the last one the library tries, and \<open>Lstat\<close> sees the links
  of the environment. Directory synchronisation is the Unix one.
\<close>

section \<open>Files and directories\<close>

definition fd_call :: "osenv \<Rightarrow> ('b world_scheme, dberr, unit) io" where
  "fd_call E = os_call E intact (\<lambda>fs. (Inr (), fs))"

definition create_temp :: "osenv \<Rightarrow> 'p access_api \<Rightarrow> string \<Rightarrow> string \<Rightarrow> ('b world_scheme, dberr, string) io" where
  "create_temp E A dir pattern w =
     (let name = filepath_Join [dir, pattern @ acTemp A (wTick w)]; act = open_node E name [O_RDWR, O_CREATE, O_EXCL] 384 in
      iobind (os_call E (maybe_done act) act) (\<lambda>_. ioret name) w)"

definition mkdir_temp :: "osenv \<Rightarrow> 'p access_api \<Rightarrow> string \<Rightarrow> string \<Rightarrow> ('b world_scheme, dberr, string) io" where
  "mkdir_temp E A dir pattern w =
     (let name = filepath_Join [dir, pattern @ acTemp A (wTick w)] in
      iobind (os_call E (maybe_done (mkdir_node name)) (mkdir_node name)) (\<lambda>_. ioret name) w)"

definition chmod_node :: "string \<Rightarrow> nat \<Rightarrow> fs \<Rightarrow> unit res \<times> fs" where
  "chmod_node p mode fs =
     (case lookup_node fs p of
        Inr (NFile m d) \<Rightarrow> (Inr (), go_set (path_Clean p) (NFile mode d) fs)
      | _ \<Rightarrow> (Inl (EIO ''bad file descriptor''), fs))"

definition fd_chmod :: "osenv \<Rightarrow> string \<Rightarrow> nat \<Rightarrow> ('b world_scheme, dberr, unit) io" where
  "fd_chmod E p mode = os_call E intact (chmod_node p mode)"

definition fd_put :: "osenv \<Rightarrow> string \<Rightarrow> string \<Rightarrow> ('b world_scheme, dberr, unit) io" where
  "fd_put E p c =
     os_call E (\<lambda>t fs. case t of None \<Rightarrow> fs | Some k \<Rightarrow> snd (write_node False 0 p (take k c) fs)) (write_node False 0 p c)"

definition os_Rename :: "osenv \<Rightarrow> string \<Rightarrow> string \<Rightarrow> ('b world_scheme, dberr, unit) io" where
  "os_Rename E a b = os_call E (maybe_done (rename_node a b)) (rename_node a b)"

text \<open>
  Renaming a directory moves everything under it; the keys of the tree are cleaned paths. What
  was at the new place, an empty directory at most, is gone. The two names differ in every call.
\<close>

definition at_or_under :: "string \<Rightarrow> string \<Rightarrow> bool" where
  "at_or_under d q \<longleftrightarrow> path_Clean q = q \<and> (q = path_Clean d \<or> strictly_inside d q)"

definition moved_path :: "string \<Rightarrow> string \<Rightarrow> string \<Rightarrow> string" where
  "moved_path a b q =
     (if at_or_under a q then render (rooted b) (csegs b @ drop (length (csegs a)) (csegs q)) else q)"

definition move_tree :: "string \<Rightarrow> string \<Rightarrow> fs \<Rightarrow> fs" where
  "move_tree a b fs = map (\<lambda>(q, n). (moved_path a b q, n)) (filter (\<lambda>(q, n). \<not> at_or_under b q) fs)"

definition rename_dir :: "string \<Rightarrow> string \<Rightarrow> fs \<Rightarrow> unit res \<times> fs" where
  "rename_dir a b fs =
     (case lookup_node fs a of
        Inr NDir \<Rightarrow>
          if at_or_under a (path_Clean b) then (Inl (EIO ''invalid argument''), fs)
          else (case lookup_node fs b of
             Inr NDir \<Rightarrow>
               if has_children fs b then (Inl (EIO ''directory not empty''), fs)
               else (Inr (), move_tree a b fs)
           | Inr (NFile m d) \<Rightarrow> (Inl (EIO ''not a directory''), fs)
           | Inl e \<Rightarrow>
               if e = ENotExist \<and> parent_ok fs b then (Inr (), move_tree a b fs)
               else (Inl e, fs))
      | Inr (NFile m d) \<Rightarrow> (Inl (EIO ''not a directory''), fs)
      | Inl e \<Rightarrow> (Inl e, fs))"

definition os_RenameDir :: "osenv \<Rightarrow> string \<Rightarrow> string \<Rightarrow> ('b world_scheme, dberr, unit) io" where
  "os_RenameDir E a b = os_call E (maybe_done (rename_dir a b)) (rename_dir a b)"

definition sync_directory :: "osenv \<Rightarrow> string \<Rightarrow> ('b world_scheme, dberr, unit) io" where
  "sync_directory E name =
     iobind (os_call E intact (\<lambda>fs. (rbind (lookup_node fs name) (\<lambda>_. Inr ()), fs))) (\<lambda>_.
       deferred (fd_call E) (fd_call E))"

text \<open>Mode, content and synchronisation of a new file; it is closed in every case.\<close>

definition fill_file :: "osenv \<Rightarrow> string \<Rightarrow> string \<Rightarrow> nat \<Rightarrow> ('b world_scheme, dberr, unit) io" where
  "fill_file E tmp data mode w =
     (case iobind (fd_chmod E tmp mode) (\<lambda>_. iobind (fd_put E tmp data) (\<lambda>_. fd_call E)) w of
        (r, w1) \<Rightarrow> (case fd_call E w1 of (closeErr, w2) \<Rightarrow> (case r of Inl e \<Rightarrow> Inl e | Inr _ \<Rightarrow> closeErr, w2)))"

definition atomicWriteFile ::
  "osenv \<Rightarrow> 'p access_api \<Rightarrow> string \<Rightarrow> string \<Rightarrow> nat \<Rightarrow> ('b world_scheme, dberr, unit) io" where
  "atomicWriteFile E A name data mode =
     iobind (os_MkdirAll E (path_Dir name)) (\<lambda>_.
     iobind (create_temp E A (path_Dir name) ''.tmp-'') (\<lambda>tmp.
       deferred (os_Remove E tmp) (
         iobind (fill_file E tmp data mode) (\<lambda>_.
         iobind (os_Rename E tmp name) (\<lambda>_.
           sync_directory E (path_Dir name))))))"

fun reject_links :: "osenv \<Rightarrow> 'p access_api \<Rightarrow> string \<Rightarrow> string list \<Rightarrow> ('b world_scheme, dberr, unit) io" where
  "reject_links E A current [] = ioret ()"
| "reject_links E A current (part # parts) =
     (let next = filepath_Join [current, part] in
      (\<lambda>w. case os_Lstat E A next w of
         (Inl e, w') \<Rightarrow> if err_is e is_not_exist then (Inr (), w') else (Inl e, w')
       | (Inr None, w') \<Rightarrow> (Inl (EMsg ''symlink ancestor'' [next]), w')
       | (Inr (Some n), w') \<Rightarrow> reject_links E A next parts w'))"

definition rejectSymlinkAncestors :: "osenv \<Rightarrow> 'p access_api \<Rightarrow> string \<Rightarrow> string \<Rightarrow> ('b world_scheme, dberr, unit) io" where
  "rejectSymlinkAncestors E A base path =
     (case filepath_Rel base path of
        None \<Rightarrow> iofail (EMsg ''path escapes project'' [])
      | Some rel \<Rightarrow>
          if strings_HasPrefix rel ''..'' then iofail (EMsg ''path escapes project'' [])
          else reject_links E A base (strings_Split slash rel))"

definition publication_hook :: "'p access_api \<Rightarrow> string \<Rightarrow> ('b, dberr, unit) io" where
  "publication_hook A stage = (case acHook A stage of None \<Rightarrow> ioret () | Some e \<Rightarrow> iofail e)"

section \<open>Building a generation\<close>

record OwnerPolicyGeneration =
  ogEnabled :: bool
  ogDatabase :: string
  ogRealm :: string
  ogPolicies :: "string list"

fun build_policies ::
  "'p access_api \<Rightarrow> string \<Rightarrow> string list \<Rightarrow> generationPolicy list \<Rightarrow> string go_map \<Rightarrow>
     (generationPolicy list \<times> string go_map) res" where
  "build_policies A database [] policies sources = Inr (policies, sources)"
| "build_policies A database (item # items) policies sources =
     rbind (ParseTugQLPolicy A item) (\<lambda>doc.
       let pid = pdName doc; policyFile = filepath_Join [''policies'', pid @ ''.yaml''] in
       if \<not> safePolicyID pid then Inl (EMsg ''unsafe policy id'' [pid])
       else if pdDatabase doc \<noteq> database then Inl (EMsg ''policy targets wrong database'' [pid])
       else rbind (MarshalTugQLPolicyJSON A doc) (\<lambda>canonical.
         if go_get sources policyFile \<noteq> None then Inl (EMsg ''duplicate policy id'' [pid])
         else rbind (MarshalTugQLPolicyYAML A doc) (\<lambda>source.
           build_policies A database items
             (policies @ [\<lparr>gpID = pid, gpFile = policyFile, gpDigest = acSha256 A canonical\<rparr>])
             (go_set policyFile source sources))))"

definition buildGeneration ::
  "'p access_api \<Rightarrow> OwnerPolicyGeneration \<Rightarrow> (generationManifest \<times> string go_map \<times> string) res" where
  "buildGeneration A candidate =
     (if ogDatabase candidate = [] \<or> \<not> ogEnabled candidate \<or> ogPolicies candidate = []
      then Inl (EMsg ''enabled generation requires database and policies'' [])
      else if length (ogPolicies candidate) > 100 then Inl (EMsg ''owner generation exceeds 100 policies'' [])
      else if ogRealm candidate \<noteq> [] \<and>
              (strings_TrimSpace (ogRealm candidate) \<noteq> ogRealm candidate \<or> length (ogRealm candidate) > 256)
      then Inl (EMsg ''owner generation realm must be canonical and at most 256 bytes'' [])
      else rbind (build_policies A (ogDatabase candidate) (ogPolicies candidate) [] []) (\<lambda>(policies, sources).
        let manifest = \<lparr>gmAPIVersion = generationAPIVersion, gmEnabled = True, gmDatabase = ogDatabase candidate,
                        gmRealm = ogRealm candidate, gmPolicies = SliceStable (key_less gpID) policies\<rparr> in
        rbind (yamlMarshalGeneration A manifest) (\<lambda>encoded. Inr (manifest, sources, acSha256 A encoded))))"

definition generation_base :: "string \<Rightarrow> string \<Rightarrow> string" where
  "generation_base base revision = filepath_Join [base, accessConfigDir, ''generations'', revision]"

text \<open>A directory beside the final place, filled, synchronised and renamed.\<close>

definition stage_generation ::
  "osenv \<Rightarrow> 'p access_api \<Rightarrow> string \<Rightarrow> string \<Rightarrow> string go_map \<Rightarrow> ('b world_scheme, dberr, string list) io" where
  "stage_generation E A dest manifestBytes sources =
     iobind (os_MkdirAll E (path_Dir dest)) (\<lambda>_.
     iobind (mkdir_temp E A (path_Dir dest) ''.generation-'') (\<lambda>tmp.
       deferred (os_RemoveAll E tmp) (
         iobind (ioeach (\<lambda>(name, data). atomicWriteFile E A (filepath_Join [tmp, name]) data 420) sources) (\<lambda>_.
         iobind (atomicWriteFile E A (filepath_Join [tmp, ''manifest.yaml'']) manifestBytes 420) (\<lambda>_.
         iobind (sync_directory E tmp) (\<lambda>_.
         iobind (publication_hook A ''generation_files_synced'') (\<lambda>_.
         iobind (os_RenameDir E tmp dest) (\<lambda>_.
         iobind (publication_hook A ''generation_renamed'') (\<lambda>_.
         iobind (sync_directory E (path_Dir dest)) (\<lambda>_.
         iobind (publication_hook A ''generation_parent_synced'') (\<lambda>_.
           ioret (map (\<lambda>(name, data). filepath_Join [dest, name]) sources @ [filepath_Join [dest, ''manifest.yaml'']]))))))))))))"

definition materializeGeneration ::
  "osenv \<Rightarrow> 'p access_api \<Rightarrow> string \<Rightarrow> string \<Rightarrow> generationManifest \<Rightarrow> string go_map \<Rightarrow>
     ('b world_scheme, dberr, string list) io" where
  "materializeGeneration E A base revision manifest sources w =
     (let dest = generation_base base revision;
          manifestBytes = (case yamlMarshalGeneration A manifest of Inr b \<Rightarrow> b | Inl _ \<Rightarrow> []) in
      case os_Lstat E A dest w of
        (Inr (Some NDir), w') \<Rightarrow>
          iobind (iowrap ''existing generation invalid'' (verifyGeneration E A dest revision)) (\<lambda>_.
            ioret (filepath_Join [dest, ''manifest.yaml''] #
                   map (\<lambda>p. filepath_Join [dest, gpFile p]) (gmPolicies manifest))) w'
      | (Inr _, w') \<Rightarrow> (Inl (EMsg ''generation path must be a non-symlink directory'' []), w')
      | (Inl _, w') \<Rightarrow> stage_generation E A dest manifestBytes sources w')"

section \<open>Git\<close>

definition active_path :: string where
  "active_path = filepath_Join [accessConfigDir, ''manifest.yaml'']"

definition gitBlob :: "gitenv \<Rightarrow> string \<Rightarrow> string \<Rightarrow> (txworld, dberr, string) io" where
  "gitBlob G base path =
     iobind (git_run G base None [] [''show'', ''HEAD:'' @ path]) (\<lambda>(ok, out).
       if ok then ioret out else iofail (EIO ''git show''))"

definition committedGenerationRevisionAt ::
  "'p access_api \<Rightarrow> gitenv \<Rightarrow> string \<Rightarrow> string \<Rightarrow> (txworld, dberr, string) io" where
  "committedGenerationRevisionAt A G base ref =
     (if ref = [] then ioret []
      else iobind (git_run G base None [] [''show'', ref @ '':'' @ active_path]) (\<lambda>(ok, out).
        ioret (if \<not> ok then []
               else case yamlActiveLoose A out of Inl _ \<Rightarrow> [] | Inr m \<Rightarrow> amGeneration m)))"

definition committedGenerationRevision :: "'p access_api \<Rightarrow> gitenv \<Rightarrow> string \<Rightarrow> (txworld, dberr, string) io" where
  "committedGenerationRevision A G base = committedGenerationRevisionAt A G base ''HEAD''"

definition gitCommitPolicyCAS ::
  "'p access_api \<Rightarrow> gitenv \<Rightarrow> string \<Rightarrow> string list \<Rightarrow> string \<Rightarrow> string \<Rightarrow> string \<Rightarrow> (txworld, dberr, string) io" where
  "gitCommitPolicyCAS A G base paths active message expectedHead =
     iobind (osCreateTemp G) (\<lambda>index.
     let run = (\<lambda>stdin msg args. git_need G base (Some index) stdin msg args) in
     iobind (if expectedHead \<noteq> [] then run [] ''read tree'' [''read-tree'', expectedHead]
             else run [] ''read tree'' [''read-tree'', ''--empty'']) (\<lambda>_.
     iobind (run [] ''stage policy generation'' ([''add'', ''--''] @ paths)) (\<lambda>_.
     iobind (run active ''store active manifest blob'' [''hash-object'', ''-w'', ''--stdin'']) (\<lambda>blobOut.
     iobind (run [] ''stage active manifest''
               [''update-index'', ''--add'', ''--cacheinfo'', ''100644,'' @ strings_TrimSpace blobOut @ '','' @ active_path]) (\<lambda>_.
     iobind (run [] ''write tree'' [''write-tree'']) (\<lambda>tree.
     iobind (run (message @ [CHR 0x0A]) ''create policy commit''
               ([''commit-tree'', strings_TrimSpace tree] @ (if expectedHead \<noteq> [] then [''-p'', expectedHead] else []))) (\<lambda>commit.
     iobind (publication_hook A ''commit_created'') (\<lambda>_.
     iobind (run [] ''publish policy commit''
               [''update-ref'', ''HEAD'', strings_TrimSpace commit, if expectedHead = [] then zero_id else expectedHead]) (\<lambda>_.
       ioret (strings_TrimSpace commit))))))))))"

section \<open>A clean access tree\<close>

text \<open>\<open>strings.Fields\<close>: the maximal runs without white space.\<close>

function field_scan :: "string \<Rightarrow> string \<Rightarrow> string list" where
  "field_scan acc s =
     (case s of
        [] \<Rightarrow> if acc = [] then [] else [acc]
      | c # cs \<Rightarrow>
          if space_len s > 0
          then (if acc = [] then [] else [acc]) @ field_scan [] (drop (space_len s) s)
          else field_scan (acc @ [c]) cs)"
  by pat_completeness auto
termination by (relation "measure (length \<circ> snd)") auto

declare field_scan.simps [simp del]

definition strings_Fields :: "string \<Rightarrow> string list" where
  "strings_Fields s = field_scan [] s"

definition check_tracked :: "osenv \<Rightarrow> gitenv \<Rightarrow> string \<Rightarrow> string \<Rightarrow> (txworld, dberr, unit) io" where
  "check_tracked E G base path =
     iobind (gitBlob G base path) (\<lambda>head.
     iobind (iocatch (os_ReadFile E (filepath_Join [base, path]))
               (\<lambda>_. iofail (EMsg ''policy/config path differs from HEAD'' [path]))) (\<lambda>working.
       ioguard (head = working) (EMsg ''policy/config path differs from HEAD'' [path])))"

text \<open>\<open>os.ReadDir\<close> with its error taken for an empty directory, then the valid generations.\<close>

definition read_dir_names :: "osenv \<Rightarrow> string \<Rightarrow> (txworld, dberr, string list) io" where
  "read_dir_names E dir =
     iocatch (os_call E intact (\<lambda>fs. (rbind (lookup_node fs dir) (\<lambda>n. case n of
                NDir \<Rightarrow> Inr (dir_names fs dir) | NFile m d \<Rightarrow> Inl (EIO ''not a directory'')), fs)))
       (\<lambda>_. ioret [])"

definition succeeds :: "('s, 'e, 'a) io \<Rightarrow> ('s, 'e, bool) io" where
  "succeeds m w = (case m w of (r, w') \<Rightarrow> (Inr (case r of Inl _ \<Rightarrow> False | Inr _ \<Rightarrow> True), w'))"

definition valid_generation :: "osenv \<Rightarrow> 'p access_api \<Rightarrow> string \<Rightarrow> string \<Rightarrow> (txworld, dberr, bool) io" where
  "valid_generation E A genRoot name =
     (if strings_HasPrefix name ''.generation-'' then ioret False
      else if \<not> isSHA256 name then ioret False
      else succeeds (verifyGeneration E A (filepath_Join [genRoot, name]) name))"

definition check_untracked ::
  "osenv \<Rightarrow> 'p access_api \<Rightarrow> string \<Rightarrow> string list \<Rightarrow> string list \<Rightarrow> string \<times> node \<Rightarrow> (txworld, dberr, unit) io" where
  "check_untracked E A base tracked allowed x w =
     (if acLink A (wTick w) (fst x) then (Inl (EMsg ''policy/config subtree contains symlink'' [fst x]), w)
      else if snd x = NDir then os_call E intact (\<lambda>fs. (Inr (), fs)) w
      else case filepath_Rel base (fst x) of
        None \<Rightarrow> (Inl (EMsg ''cannot be made relative'' [fst x]), w)
      | Some rel \<Rightarrow>
          if rel \<in> set tracked \<or> list_ex (strings_HasPrefix rel) allowed \<or> strings_Contains rel ''/generations/.generation-''
          then (Inr (), w)
          else (Inl (EMsg ''policy/config subtree has untracked file'' [rel]), w))"

definition check_rest ::
  "osenv \<Rightarrow> 'p access_api \<Rightarrow> string \<Rightarrow> string \<Rightarrow> string list \<Rightarrow> (txworld, dberr, unit) io" where
  "check_rest E A base dir tracked =
     (let genRoot = filepath_Join [dir, ''generations''] in
      iobind (read_dir_names E genRoot) (\<lambda>entries.
      iobind (iofilter (valid_generation E A genRoot) entries) (\<lambda>names.
      iobind (os_call E intact (\<lambda>fs. (rbind (lookup_node fs dir) (\<lambda>_. Inr (walk_entries fs dir)), fs))) (\<lambda>found.
        ioeach (check_untracked E A base tracked
                  (map (\<lambda>name. filepath_Join [accessConfigDir, ''generations'', name] @ ''/'') names)) found))))"

definition requireCleanAccessTree :: "osenv \<Rightarrow> 'p access_api \<Rightarrow> gitenv \<Rightarrow> string \<Rightarrow> (txworld, dberr, unit) io" where
  "requireCleanAccessTree E A G base =
     iobind (git_run G base None [] [''ls-tree'', ''-r'', ''--name-only'', ''HEAD'', ''--'', accessConfigDir]) (\<lambda>(ok, out).
       if \<not> ok then iofail (EIO ''git ls-tree'')
       else let tracked = strings_Fields out; dir = filepath_Join [base, accessConfigDir] in
         iobind (ioeach (check_tracked E G base) tracked) (\<lambda>_ w.
           case os_Stat E dir w of
             (Inl e, w1) \<Rightarrow>
               if err_is e is_not_exist then (Inr (), w1) else check_rest E A base dir tracked w1
           | (Inr n, w1) \<Rightarrow> check_rest E A base dir tracked w1))"

section \<open>Publication\<close>

record OwnerPolicyPublication =
  opRevision :: string
  opGitCommit :: string

definition active_manifest :: "OwnerPolicyGeneration \<Rightarrow> generationManifest \<Rightarrow> string \<Rightarrow> activeGenerationManifest" where
  "active_manifest candidate manifest revision =
     \<lparr>amEnabled = Some (ogEnabled candidate), amDatabase = ogDatabase candidate, amRealm = ogRealm candidate,
      amGeneration = revision,
      amPolicies = map (\<lambda>p. filepath_Join [''generations'', revision, gpFile p]) (gmPolicies manifest)\<rparr>"

text \<open>The part of \<open>Publish\<close> after the commit: the working pointer.\<close>

definition activate :: "osenv \<Rightarrow> 'p access_api \<Rightarrow> string \<Rightarrow> string \<Rightarrow> ('b world_scheme, dberr, unit) io" where
  "activate E A base activeBytes =
     (let activePath = filepath_Join [base, accessConfigDir, ''manifest.yaml''] in
      iobind (rejectSymlinkAncestors E A base (path_Dir activePath)) (\<lambda>_.
      iowrap ''policy committed but working activation needs recovery'' (atomicWriteFile E A activePath activeBytes 420)))"

definition build_and_materialize ::
  "osenv \<Rightarrow> 'p access_api \<Rightarrow> string \<Rightarrow> OwnerPolicyGeneration \<Rightarrow> ('b world_scheme, dberr, string \<times> string list \<times> string) io" where
  "build_and_materialize E A base candidate =
     iobind (iolift (buildGeneration A candidate)) (\<lambda>(manifest, sources, revision).
     iobind (materializeGeneration E A base revision manifest sources) (\<lambda>paths.
     iobind (publication_hook A ''generation_materialized'') (\<lambda>_.
     iobind (iolift (yamlMarshalActive A (active_manifest candidate manifest revision))) (\<lambda>activeBytes.
       ioret (revision, paths, activeBytes)))))"

definition publish_locked ::
  "osenv \<Rightarrow> 'p access_api \<Rightarrow> gitenv \<Rightarrow> string \<Rightarrow> OwnerPolicyGeneration \<Rightarrow> string \<Rightarrow> string \<Rightarrow>
     (txworld, dberr, OwnerPolicyPublication) io" where
  "publish_locked E A G base candidate expectedRevision message =
     iobind (gitHead E G base) (\<lambda>head.
     let oldHead = (case head of Some h \<Rightarrow> h | None \<Rightarrow> []) in
     iobind (committedGenerationRevisionAt A G base oldHead) (\<lambda>current.
     iobind (ioguard (current = expectedRevision) (EMsg ''owner policy revision conflict'' [expectedRevision, current])) (\<lambda>_.
     iobind (requireCleanAccessTree E A G base) (\<lambda>_.
     iobind (build_and_materialize E A base candidate) (\<lambda>(revision, paths, activeBytes).
     iobind (gitCommitPolicyCAS A G base paths activeBytes message oldHead) (\<lambda>commit.
     iobind (publication_hook A ''head_committed'') (\<lambda>_.
     iobind (activate E A base activeBytes) (\<lambda>_.
     iobind (publication_hook A ''working_pointer_activated'') (\<lambda>_.
       ioret \<lparr>opRevision = revision, opGitCommit = commit\<rparr>)))))))))"

definition Publish ::
  "osenv \<Rightarrow> 'p access_api \<Rightarrow> gitenv \<Rightarrow> string \<Rightarrow> OwnerPolicyGeneration \<Rightarrow> string \<Rightarrow> string \<Rightarrow>
     (txworld, dberr, OwnerPolicyPublication) io" where
  "Publish E A G base candidate expectedRevision message =
     iobind (transactionLockPath E G base) (\<lambda>lock.
       withExclusiveLock E lock (publish_locked E A G base candidate expectedRevision message))"

section \<open>Recovery\<close>

fun fetch_policies ::
  "'p access_api \<Rightarrow> gitenv \<Rightarrow> string \<Rightarrow> string \<Rightarrow> generationPolicy list \<Rightarrow> string go_map \<Rightarrow> (txworld, dberr, string go_map) io" where
  "fetch_policies A G base revision [] blobs = ioret blobs"
| "fetch_policies A G base revision (p # ps) blobs =
     iobind (ioguard (safe_reference p) (EMsg ''unsafe committed policy reference'' [])) (\<lambda>_.
     let path = filepath_Join [accessConfigDir, ''generations'', revision, gpFile p] in
     iobind (gitBlob G base path) (\<lambda>data.
     iobind (iolift (check_policy A ''committed policy mismatch'' p data)) (\<lambda>_.
       fetch_policies A G base revision ps (go_set path data blobs))))"

definition committed_generation ::
  "'p access_api \<Rightarrow> gitenv \<Rightarrow> string \<Rightarrow> string \<Rightarrow> (txworld, dberr, string go_map) io" where
  "committed_generation A G base revision =
     (let genPath = filepath_Join [accessConfigDir, ''generations'', revision, ''manifest.yaml''] in
      iobind (iowrap ''read committed generation'' (gitBlob G base genPath)) (\<lambda>genBytes.
      iobind (ioguard (acSha256 A genBytes = revision) (EMsg ''committed generation digest mismatch'' [])) (\<lambda>_.
      iobind (iolift (yamlGenerationLoose A genBytes)) (\<lambda>generation.
        fetch_policies A G base revision (gmPolicies generation) [(genPath, genBytes)]))))"

definition strings_TrimPrefix :: "string \<Rightarrow> string \<Rightarrow> string" where
  "strings_TrimPrefix s pre = (if prefix pre s then drop (length pre) s else s)"

definition materializeCommittedGeneration ::
  "osenv \<Rightarrow> 'p access_api \<Rightarrow> string \<Rightarrow> string \<Rightarrow> string go_map \<Rightarrow> ('b world_scheme, dberr, unit) io" where
  "materializeCommittedGeneration E A base revision blobs =
     (let parent = filepath_Join [base, accessConfigDir, ''generations''];
          pre = filepath_Join [accessConfigDir, ''generations'', revision] @ ''/'' in
      iobind (rejectSymlinkAncestors E A base parent) (\<lambda>_.
      iobind (os_MkdirAll E parent) (\<lambda>_.
      iobind (mkdir_temp E A parent ''.generation-'') (\<lambda>tmp.
        deferred (os_RemoveAll E tmp) (
          iobind (ioeach (\<lambda>(path, data).
              let rel = strings_TrimPrefix path pre in
              if rel = path then iofail (EMsg ''committed generation path escaped'' [])
              else atomicWriteFile E A (filepath_Join [tmp, rel]) data 420) blobs) (\<lambda>_.
          iobind (sync_directory E tmp) (\<lambda>_.
          iobind (os_RenameDir E tmp (filepath_Join [parent, revision])) (\<lambda>_.
            sync_directory E parent))))))))"

text \<open>A working manifest that differs from the committed one must select a valid generation.\<close>

definition check_current ::
  "osenv \<Rightarrow> 'p access_api \<Rightarrow> string \<Rightarrow> string \<Rightarrow> string \<Rightarrow> (txworld, dberr, string) io" where
  "check_current E A base working wanted w =
     (case os_ReadFile E working w of
        (Inl e, w') \<Rightarrow> if err_is e is_not_exist then (Inr [], w') else (Inl e, w')
      | (Inr current, w') \<Rightarrow>
          if current = wanted then (Inr current, w')
          else let dirty = EMsg ''dirty access manifest is not a recoverable committed generation'' [] in
            case yamlActiveLoose A current of
              Inl _ \<Rightarrow> (Inl dirty, w')
            | Inr old \<Rightarrow>
                if \<not> isSHA256 (amGeneration old) then (Inl dirty, w')
                else iobind (iocatch (verifyGeneration E A (generation_base base (amGeneration old)) (amGeneration old))
                               (\<lambda>_. iofail dirty)) (\<lambda>_. ioret current) w')"

definition check_blob :: "osenv \<Rightarrow> string \<Rightarrow> string \<times> string \<Rightarrow> (txworld, dberr, unit) io" where
  "check_blob E base b =
     iobind (iocatch (os_ReadFile E (filepath_Join [base, fst b]))
               (\<lambda>_. iofail (EMsg ''committed generation working file is dirty or corrupt'' [fst b]))) (\<lambda>got.
       ioguard (got = snd b) (EMsg ''committed generation working file is dirty or corrupt'' [fst b]))"

definition place_generation ::
  "osenv \<Rightarrow> 'p access_api \<Rightarrow> string \<Rightarrow> string \<Rightarrow> string go_map \<Rightarrow> (txworld, dberr, unit) io" where
  "place_generation E A base revision blobs w =
     (case os_Lstat E A (generation_base base revision) w of
        (Inr info, w') \<Rightarrow>
          if info \<noteq> Some NDir then (Inl (EMsg ''committed generation path is not a safe directory'' []), w')
          else ioeach (check_blob E base) blobs w'
      | (Inl e, w') \<Rightarrow>
          if err_is e is_not_exist then materializeCommittedGeneration E A base revision blobs w' else (Inl e, w'))"

definition recover_to ::
  "osenv \<Rightarrow> 'p access_api \<Rightarrow> gitenv \<Rightarrow> string \<Rightarrow> string \<Rightarrow> string \<Rightarrow> (txworld, dberr, unit) io" where
  "recover_to E A G base revision wanted =
     (let working = filepath_Join [base, active_path] in
      iobind (committed_generation A G base revision) (\<lambda>blobs.
      iobind (check_current E A base working wanted) (\<lambda>current.
      iobind (place_generation E A base revision blobs) (\<lambda>_.
        if current = wanted then ioret ()
        else iobind (rejectSymlinkAncestors E A base (path_Dir working)) (\<lambda>_.
          atomicWriteFile E A working wanted 420)))))"

definition recoverCommittedGenerationLocked ::
  "osenv \<Rightarrow> 'p access_api \<Rightarrow> gitenv \<Rightarrow> string \<Rightarrow> (txworld, dberr, unit) io" where
  "recoverCommittedGenerationLocked E A G base w =
     (case gitBlob G base active_path w of
        (Inl _, w') \<Rightarrow> (Inr (), w')
      | (Inr wanted, w') \<Rightarrow>
          (case yamlActive A wanted of
             Inl _ \<Rightarrow> (Inr (), w')
           | Inr (active, _) \<Rightarrow>
               if amGeneration active = [] then (Inr (), w')
               else if \<not> isSHA256 (amGeneration active) then (Inl (EMsg ''committed access generation is invalid'' []), w')
               else recover_to E A G base (amGeneration active) wanted w'))"

definition recoverCommittedGeneration :: "osenv \<Rightarrow> 'p access_api \<Rightarrow> gitenv \<Rightarrow> string \<Rightarrow> (txworld, dberr, unit) io" where
  "recoverCommittedGeneration E A G base =
     iobind (isInsideGitWorkTree G base) (\<lambda>inside.
       if \<not> inside then ioret ()
       else iobind (transactionLockPath E G base) (\<lambda>lock.
         withExclusiveLock E lock (recoverCommittedGenerationLocked E A G base)))"

section \<open>The controller\<close>

record 'p OwnerPolicySnapshot =
  snRevision :: string
  snConfig :: policy_config
  snPolicies :: "'p list"

definition load_policies ::
  "'p access_api \<Rightarrow> string \<Rightarrow> policy_config \<Rightarrow> ('b world_scheme, dberr, 'p list) io" where
  "load_policies A dir config w = (LoadPolicyFiles A (wTick w) (wFs w) dir config, w\<lparr>wTick := Suc (wTick w)\<rparr>)"

definition NewOwnerPolicyController :: "osenv \<Rightarrow> string \<Rightarrow> ('b world_scheme, dberr, string) io" where
  "NewOwnerPolicyController E projectPath w =
     (case os_Stat E projectPath w of
        (Inr NDir, w') \<Rightarrow> (Inr projectPath, w')
      | (_, w') \<Rightarrow> (Inl (EMsg ''invalid owner policy project'' []), w'))"

definition reload_locked :: "osenv \<Rightarrow> 'p access_api \<Rightarrow> gitenv \<Rightarrow> string \<Rightarrow> (txworld, dberr, 'p OwnerPolicySnapshot) io" where
  "reload_locked E A G base =
     iobind (recoverCommittedGenerationLocked E A G base) (\<lambda>_.
     iobind (readAccessManifest E A base) (\<lambda>r.
       case r of
         None \<Rightarrow> iofail (EMsg ''no enabled owner policy generation'' [])
       | Some config \<Rightarrow>
           if \<not> pcEnabled config then iofail (EMsg ''no enabled owner policy generation'' [])
           else iobind (iocatch (committedGenerationRevision A G base)
                          (\<lambda>_. iofail (EMsg ''owner policy generation is not committed'' []))) (\<lambda>revision.
             if revision = [] then iofail (EMsg ''owner policy generation is not committed'' [])
             else iobind (load_policies A (filepath_Join [base, accessConfigDir]) config) (\<lambda>policies.
               ioret \<lparr>snRevision = revision, snConfig = config, snPolicies = policies\<rparr>))))"

definition Reload :: "osenv \<Rightarrow> 'p access_api \<Rightarrow> gitenv \<Rightarrow> string \<Rightarrow> (txworld, dberr, 'p OwnerPolicySnapshot) io" where
  "Reload E A G base =
     iobind (transactionLockPath E G base) (\<lambda>lock. withExclusiveLock E lock (reload_locked E A G base))"

definition ActiveRevision :: "'p access_api \<Rightarrow> gitenv \<Rightarrow> string \<Rightarrow> (txworld, dberr, string) io" where
  "ActiveRevision A G base = committedGenerationRevision A G base"

definition workingGenerationRevision :: "osenv \<Rightarrow> 'p access_api \<Rightarrow> string \<Rightarrow> ('b world_scheme, dberr, string) io" where
  "workingGenerationRevision E A base w =
     (case os_ReadFile E (filepath_Join [base, accessConfigDir, ''manifest.yaml'']) w of
        (Inl e, w') \<Rightarrow> if err_is e is_not_exist then (Inr [], w') else (Inl e, w')
      | (Inr data, w') \<Rightarrow>
          (case yamlActiveLoose A data of
             Inl _ \<Rightarrow> (Inr [], w')
           | Inr active \<Rightarrow>
               if amGeneration active \<noteq> [] \<and> \<not> isSHA256 (amGeneration active)
               then (Inl (EMsg ''invalid working access generation'' []), w')
               else (Inr (amGeneration active), w')))"

end
