(* ===== verification/AccessStore.thy ===== *)
theory AccessStore
  imports AccessGeneration
begin

text \<open>
  What the file calls of the generation store do: an atomic write leaves its data under its name
  and nothing else, a staged directory arrives whole under its new name.
\<close>

declare filepath_Join.simps [simp del]

section \<open>Directories and names\<close>

lemma path_Dir_clean:
  assumes "path_Clean p = p" and "csegs p = ss @ [n]"
  shows "csegs (path_Dir p) = ss" and "rooted (path_Dir p) = rooted p" and "path_Dir p \<noteq> []"
proof -
  have parts: "slash \<notin> set s" "s \<noteq> []" if "s \<in> set (ss @ [n])" for s
    using csegs_parts [of s p] that assms(2) by auto
  have "p = render (rooted p) (ss @ [n])" using assms by (simp add: path_Clean_def)
  then have sp: "strings_Split slash p = (if rooted p then [] # ss @ [n] else ss @ [n])"
    using parts Split_Join [of "ss @ [n]" slash]
    by (metis (no_types, lifting) Nil_is_append_conv Split_slash_cons not_Cons_self2 render_def)
  let ?ws = "(if rooted p then [] # ss else ss) @ [[]]"
  let ?q = "strings_Join ?ws [slash]"
  have q: "path_Dir p = path_Clean ?q" using sp by (auto simp: path_Dir_def butlast_append)
  have "strings_Split slash ?q = ?ws" using parts by (intro Split_Join) auto
  moreover have r: "rooted ?q = rooted p"
  proof (cases "rooted p")
    case True
    then show ?thesis by (cases ss) auto
  next
    case False
    show ?thesis
    proof (cases ss)
      case Nil
      with False show ?thesis by simp
    next
      case (Cons x xs)
      have "\<not> rooted x" using parts [of x] Cons by (cases x) auto
      with False Cons parts [of x] show ?thesis using rooted_Join [of "x # xs @ [[]]" "[slash]"] by simp
    qed
  qed
  moreover have "ok_stack (rooted p) (rev ss)" using csegs_ok [of p] assms(2) ok_stack_tail [of _ "[n]" "rev ss"] by simp
  ultimately have "csegs ?q = ss"
    using ok_stack_fixed [of "rooted p" "rev ss"] by (auto simp: csegs_def clean_stack_append)
  with q r show "csegs (path_Dir p) = ss" "rooted (path_Dir p) = rooted p" "path_Dir p \<noteq> []" by simp_all
qed

lemma Join_rel:
  assumes "d \<noteq> []" and "list_all plain_seg (strings_Split slash rel)"
  shows "csegs (filepath_Join [d, rel]) = csegs d @ strings_Split slash rel"
    and "rooted (filepath_Join [d, rel]) = rooted d" and "path_Clean (filepath_Join [d, rel]) = filepath_Join [d, rel]"
    and "filepath_Join [d, rel] \<noteq> []"
proof -
  show c: "csegs (filepath_Join [d, rel]) = csegs d @ strings_Split slash rel"
    using filepath_Join_segs(1) [OF assms(1), of "[rel]"] assms(2) by (simp add: clean_stack_plain)
  show "rooted (filepath_Join [d, rel]) = rooted d" by (rule filepath_Join_segs(2) [OF assms(1)])
  show n: "filepath_Join [d, rel] \<noteq> []" using c by (auto simp: csegs_def clean_stack_def)
  then show "path_Clean (filepath_Join [d, rel]) = filepath_Join [d, rel]" by (rule Join_is_clean)
qed

text \<open>The temporary names are those of the library: a suffix without separators.\<close>

definition temp_names :: "'p access_api \<Rightarrow> bool" where
  "temp_names A \<longleftrightarrow> (\<forall>n. slash \<notin> set (acTemp A n))"

definition not_temp :: "string \<Rightarrow> bool" where
  "not_temp s \<longleftrightarrow> \<not> prefix ''.tmp-'' s \<and> \<not> prefix ''.generation-'' s"

definition temp_of :: "'p access_api \<Rightarrow> string \<Rightarrow> nat \<Rightarrow> string" where
  "temp_of A name n = filepath_Join [path_Dir name, ''.tmp-'' @ acTemp A n]"

lemma temp_of_segs:
  assumes "temp_names A" and "path_Clean p = p" and "csegs p = ss @ [n]"
  shows "csegs (temp_of A p k) = ss @ [''.tmp-'' @ acTemp A k]" and "rooted (temp_of A p k) = rooted p"
    and "path_Clean (temp_of A p k) = temp_of A p k"
proof -
  have seg: "plain_seg (''.tmp-'' @ acTemp A k)" using assms(1) by (auto simp: plain_seg_def temp_names_def)
  then have sp: "strings_Split slash (''.tmp-'' @ acTemp A k) = [''.tmp-'' @ acTemp A k]"
    by (intro Split_no_sep) (simp add: plain_seg_def)
  have "list_all plain_seg (strings_Split slash (''.tmp-'' @ acTemp A k))" unfolding sp using seg by simp
  note j = Join_rel [OF path_Dir_clean(3) [OF assms(2,3)] this]
  from j show "csegs (temp_of A p k) = ss @ [''.tmp-'' @ acTemp A k]" "rooted (temp_of A p k) = rooted p"
    "path_Clean (temp_of A p k) = temp_of A p k"
    unfolding temp_of_def sp using path_Dir_clean [OF assms(2,3)] by simp_all
qed

section \<open>Moving a tree\<close>

lemma go_get_map_keys:
  assumes "\<And>q. q \<in> fst ` set m \<Longrightarrow> f q = k \<longleftrightarrow> q = j"
  shows "go_get (map (\<lambda>(q, n). (f q, n)) m) k = go_get m j"
  using assms by (induction m) (auto simp: image_iff)

lemma go_get_filter: "go_get (filter (\<lambda>(q, n). P q) m) k = (if P k then go_get m k else None)"
  by (induction m) auto

lemma clean_by_segs: "path_Clean q = q \<Longrightarrow> q = render (rooted q) (csegs q)"
  by (metis path_Clean_def)

lemma inside_segs:
  "strictly_inside d q \<longleftrightarrow> rooted q = rooted d \<and> (\<exists>ss. ss \<noteq> [] \<and> list_all plain_seg ss \<and> csegs q = csegs d @ ss)"
  by (auto simp: strictly_inside_def prefix_def)

lemma at_or_under_segs:
  "at_or_under d q \<longleftrightarrow> path_Clean q = q \<and> rooted q = rooted d \<and>
     (\<exists>ss. list_all plain_seg ss \<and> csegs q = csegs d @ ss)"
proof -
  have "q = path_Clean d \<longleftrightarrow> rooted q = rooted d \<and> csegs q = csegs d" if "path_Clean q = q"
    using Clean_eq_iff [of q d] that by auto
  moreover note inside_segs [of d q]
  moreover have "list_all plain_seg ([] :: string list)" by simp
  ultimately show ?thesis unfolding at_or_under_def by (metis append_Nil2)
qed

lemma ok_stack_plain: "list_all plain_seg ss \<Longrightarrow> ok_stack r st \<Longrightarrow> ok_stack r (rev ss @ st)"
  by (induction ss rule: rev_induct) (auto dest: plain_segD)

lemma render_below:
  assumes "list_all plain_seg ss"
  shows "csegs (render (rooted b) (csegs b @ ss)) = csegs b @ ss" and "rooted (render (rooted b) (csegs b @ ss)) = rooted b"
    and "path_Clean (render (rooted b) (csegs b @ ss)) = render (rooted b) (csegs b @ ss)"
proof -
  have ok: "ok_stack (rooted b) (rev (csegs b @ ss))" using ok_stack_plain [OF assms csegs_ok] by simp
  show c: "csegs (render (rooted b) (csegs b @ ss)) = csegs b @ ss" by (rule csegs_render(1) [OF ok])
  show r: "rooted (render (rooted b) (csegs b @ ss)) = rooted b" by (rule csegs_render(2) [OF ok])
  show "path_Clean (render (rooted b) (csegs b @ ss)) = render (rooted b) (csegs b @ ss)"
    by (simp add: path_Clean_def c r)
qed

lemma moved_under:
  assumes "at_or_under a q" and "list_all plain_seg ss" and "csegs q = csegs a @ ss"
  shows "moved_path a b q = render (rooted b) (csegs b @ ss)" and "at_or_under b (moved_path a b q)"
    and "moved_path b a (moved_path a b q) = q"
proof -
  show m: "moved_path a b q = render (rooted b) (csegs b @ ss)" using assms by (simp add: moved_path_def)
  show u: "at_or_under b (moved_path a b q)"
    unfolding m using render_below [OF assms(2)] assms(2) by (auto simp: at_or_under_segs)
  from u have "moved_path b a (moved_path a b q) = render (rooted a) (csegs a @ ss)"
    by (simp add: moved_path_def [of b a] m render_below [OF assms(2)])
  then show "moved_path b a (moved_path a b q) = q"
    using assms clean_by_segs [of q] by (simp add: at_or_under_segs)
qed

definition apart_dirs :: "string \<Rightarrow> string \<Rightarrow> bool" where
  "apart_dirs a b \<longleftrightarrow> rooted a = rooted b \<and> \<not> prefix (csegs a) (csegs b) \<and> \<not> prefix (csegs b) (csegs a)"

lemma apart_dirs_under: "apart_dirs a b \<Longrightarrow> at_or_under a q \<Longrightarrow> \<not> at_or_under b q"
  unfolding apart_dirs_def at_or_under_segs by (metis prefixI prefix_same_cases)

lemma go_get_moved:
  assumes "apart_dirs a b"
  shows "go_get (move_tree a b fs) k =
    (if at_or_under b k then go_get fs (moved_path b a k) else if at_or_under a k then None else go_get fs k)"
proof -
  let ?fs = "filter (\<lambda>(q, n). \<not> at_or_under b q) fs"
  have out: "\<not> at_or_under b q" if "q \<in> fst ` set ?fs" for q using that by auto
  have parts: "\<exists>ss. list_all plain_seg ss \<and> csegs q = csegs d @ ss" if "at_or_under d q" for d q
    using that by (auto simp: at_or_under_segs)
  show ?thesis
  proof (cases "at_or_under b k")
    case True
    then obtain ss where ss: "list_all plain_seg ss" "csegs k = csegs b @ ss" using parts by blast
    note orig = moved_under [OF True ss, of a]
    have "moved_path a b q = k \<longleftrightarrow> q = moved_path b a k" if "q \<in> fst ` set ?fs" for q
      using out [OF that] orig True parts [of a q] moved_under(3) [of a q _ b] by (metis moved_path_def)
    then have "go_get (move_tree a b fs) k = go_get ?fs (moved_path b a k)"
      unfolding move_tree_def by (rule go_get_map_keys)
    also have "\<dots> = go_get fs (moved_path b a k)"
      using apart_dirs_under [OF assms orig(2)] by (simp add: go_get_filter)
    finally show ?thesis using True by simp
  next
    case False
    show ?thesis
    proof (cases "at_or_under a k")
      case True
      have "\<forall>q. moved_path a b q \<noteq> k"
        using True False parts moved_under(2) by (metis moved_path_def)
      then have "k \<notin> fst ` set (move_tree a b fs)" by (auto simp: move_tree_def)
      with True False show ?thesis by (simp add: go_get_None_iff)
    next
      case no: False
      have "moved_path a b q = k \<longleftrightarrow> q = k" if "q \<in> fst ` set ?fs" for q
        using False no parts [of a q] moved_under(2) [of a q _ b] by (metis moved_path_def)
      then have "go_get (move_tree a b fs) k = go_get ?fs k"
        unfolding move_tree_def by (rule go_get_map_keys)
      with False no show ?thesis by (simp add: go_get_filter)
    qed
  qed
qed

lemma rename_dir_Inr:
  assumes "os_RenameDir E a b w = (Inr u, w')"
  shows "wFs w' = move_tree a b (wFs w)"
  using assms by (auto simp: os_RenameDir_def os_call_Inr rename_dir_def split: sum.splits node.splits if_splits)

section \<open>Calls that keep the files\<close>

lemma fd_call_same: "iokeeps same_fs (fd_call E)"
  by (auto simp: iokeeps_def fd_call_def os_call_def same_fs_def intact_def Let_def split: option.splits)

lemma sync_directory_same: "iokeeps same_fs (sync_directory E p)"
proof -
  have "iokeeps same_fs (os_call E intact (\<lambda>fs. (rbind (lookup_node fs p) (\<lambda>_. Inr ()), fs)))"
    by (auto simp: iokeeps_def os_call_def same_fs_def intact_def Let_def split: option.splits)
  then show ?thesis
    unfolding sync_directory_def by (intro untouched.keeps_bind untouched.frame_deferred fd_call_same)
qed

lemma publication_hook_same: "publication_hook A stage w = (r, w') \<Longrightarrow> w' = w"
  by (auto simp: publication_hook_def io_defs split: option.splits)

lemma hook_keeps: "(\<And>w. R w w) \<Longrightarrow> iokeeps R (publication_hook A stage)"
  by (auto simp: iokeeps_def publication_hook_def io_defs split: option.split)

lemma reject_links_same: "iokeeps same_fs (reject_links E A p parts :: ('b world_scheme, dberr, unit) io)"
proof (induction parts arbitrary: p)
  case (Cons part parts)
  show ?case
  proof
    fix w :: "'b world_scheme"
    obtain r w1 where l: "os_Lstat E A (filepath_Join [p, part]) w = (r, w1)" by (cases "os_Lstat E A (filepath_Join [p, part]) w")
    have 1: "same_fs w w1" using os_Lstat_same l by (rule iokeepsD)
    have 2: "same_fs w1 (snd (reject_links E A (filepath_Join [p, part]) parts w1))"
      using Cons [of "filepath_Join [p, part]"] unfolding iokeeps_def by blast
    show "same_fs w (snd (reject_links E A p (part # parts) w))"
      using l 1 untouched.frame_trans [OF 1 2] by (simp add: Let_def split: sum.split option.split del: filepath_Join.simps)
  qed
qed simp

lemma rejectSymlinkAncestors_same: "iokeeps same_fs (rejectSymlinkAncestors E A base p)"
  unfolding rejectSymlinkAncestors_def by (auto simp: reject_links_same split: option.split)

section \<open>An atomic write\<close>

lemma create_temp_Inr:
  assumes "create_temp E A dir pat w = (Inr t, w')"
  shows "t = filepath_Join [dir, pat @ acTemp A (wTick w)] \<and> go_get (wFs w) (path_Clean t) = None \<and>
         (\<exists>m. wFs w' = go_set (path_Clean t) (NFile m []) (wFs w))"
proof -
  let ?t = "filepath_Join [dir, pat @ acTemp A (wTick w)]"
  have t: "t = ?t" and o: "os_call E (maybe_done (open_node E ?t [O_RDWR, O_CREATE, O_EXCL] 384)) (open_node E ?t [O_RDWR, O_CREATE, O_EXCL] 384) w = (Inr (), w')"
    using assms by (auto simp: create_temp_def Let_def res_simps simp del: filepath_Join.simps)
  then obtain fs where "open_node E ?t [O_RDWR, O_CREATE, O_EXCL] 384 (wFs w) = (Inr (), fs)" "wFs w' = fs"
    by (auto simp: os_call_Inr)
  then have "lookup_node (wFs w) ?t = Inl ENotExist" "?t \<noteq> []" "wFs w' = go_set (path_Clean ?t) (NFile (osUmask E 384) []) (wFs w)"
    by (simp_all add: open_node_def split: sum.splits if_splits)
  with t lookup_node_missing [of ?t "wFs w"] show ?thesis by metis
qed

lemma chmod_Inr:
  assumes "fd_chmod E p mode w = (Inr u, w')"
  shows "\<exists>m d. go_get (wFs w) (path_Clean p) = Some (NFile m d) \<and> wFs w' = go_set (path_Clean p) (NFile mode d) (wFs w)"
  using assms lookup_node_file [of "wFs w" p]
  by (auto simp: fd_chmod_def os_call_Inr chmod_node_def file_at_def split: sum.splits node.splits option.splits)

lemma put_Inr:
  assumes "fd_put E p c w = (Inr u, w')"
  shows "\<exists>m d. go_get (wFs w) (path_Clean p) = Some (NFile m d) \<and> wFs w' = go_set (path_Clean p) (NFile m (splice d 0 c)) (wFs w)"
  using assms lookup_node_file [of "wFs w" p]
  by (auto simp: fd_put_def os_call_Inr write_node_def file_at_def split: sum.splits node.splits option.splits)

lemma fill_file_Inr:
  assumes "fill_file E t data mode w = (Inr u, w')" and "go_get (wFs w) (path_Clean t) = Some (NFile m [])"
  shows "go_get (wFs w') q = (if q = path_Clean t then Some (NFile mode data) else go_get (wFs w) q)"
proof -
  obtain w1 w2 w3 where 1: "fd_chmod E t mode w = (Inr (), w1)" and 2: "fd_put E t data w1 = (Inr (), w2)"
      and 3: "fd_call E w2 = (Inr (), w3)" and 4: "snd (fd_call E w3) = w'"
    using assms(1) by (auto simp: fill_file_def iobind_def split: prod.splits sum.splits)
  have "wFs w3 = wFs w2" "wFs w' = wFs w3"
    using iokeepsD [OF fd_call_same 3] iokeepsD [OF fd_call_same, of E w3 "fst (fd_call E w3)" w'] 4
    by (auto simp: same_fs_def)
  with chmod_Inr [OF 1] put_Inr [OF 2] assms(2) show ?thesis by (auto simp: go_get_set splice_def)
qed

lemma rename_Inr:
  assumes "os_Rename E a b w = (Inr u, w')"
  shows "\<exists>m d. go_get (wFs w) (path_Clean a) = Some (NFile m d) \<and>
           wFs w' = go_set (path_Clean b) (NFile m d) (go_delete (path_Clean a) (wFs w))"
  using assms lookup_node_file [of "wFs w" a]
  by (auto simp: os_Rename_def os_call_Inr rename_node_def file_at_def split: sum.splits node.splits option.splits if_splits)

lemma Remove_absent: "go_get (wFs w) (path_Clean p) = None \<Longrightarrow> wFs (snd (os_Remove E p w)) = wFs w"
  by (auto simp: os_Remove_def os_call_def Let_def intact_def lookup_node_def go_delete_absent split: option.splits sum.splits)

lemma MkdirAll_file_at: "os_MkdirAll E p w = (r, w') \<Longrightarrow> file_at (wFs w') q = file_at (wFs w) q"
  using iokeepsD [OF os_MkdirAll_frame, of E p w r w'] by (simp add: frame_rel_def same_files_but_def)

lemma atomicWriteFile_Inr:
  assumes "atomicWriteFile E A name data mode w = (Inr u, w')"
    and "\<And>n. path_Clean (temp_of A name n) \<noteq> path_Clean name"
  shows "data_at (wFs w') (path_Clean name) = Some data \<and> same_files_but {path_Clean name} (wFs w) (wFs w')"
proof -
  obtain w1 t w2 where 1: "os_MkdirAll E (path_Dir name) w = (Inr (), w1)"
      and 2: "create_temp E A (path_Dir name) ''.tmp-'' w1 = (Inr t, w2)"
      and 3: "deferred (os_Remove E t) (iobind (fill_file E t data mode) (\<lambda>_. iobind (os_Rename E t name) (\<lambda>_.
           sync_directory E (path_Dir name)))) w2 = (Inr u, w')"
    using assms(1) by (auto simp: atomicWriteFile_def res_simps)
  then obtain w3 w4 w5 where 4: "fill_file E t data mode w2 = (Inr (), w3)" and 5: "os_Rename E t name w3 = (Inr (), w4)"
      and 6: "sync_directory E (path_Dir name) w4 = (Inr u, w5)" and 7: "w' = snd (os_Remove E t w5)"
    by (auto simp: deferred_def iobind_def split: prod.splits sum.splits)
  note c = create_temp_Inr [OF 2]
  from c assms(2) have ne: "path_Clean t \<noteq> path_Clean name" by (auto simp: temp_of_def simp del: filepath_Join.simps)
  from c have t2: "\<exists>m. go_get (wFs w2) (path_Clean t) = Some (NFile m [])" by (auto simp: go_get_set)
  from c have w2: "go_get (wFs w2) q = go_get (wFs w1) q" if "q \<noteq> path_Clean t" for q using that by (auto simp: go_get_set)
  have w3: "go_get (wFs w3) q = (if q = path_Clean t then Some (NFile mode data) else go_get (wFs w2) q)" for q
    using fill_file_Inr [OF 4] t2 by blast
  from rename_Inr [OF 5] w3 [of "path_Clean t"]
  have w4: "wFs w4 = go_set (path_Clean name) (NFile mode data) (go_delete (path_Clean t) (wFs w3))" by auto
  have w5: "wFs w5 = wFs w4" using iokeepsD [OF sync_directory_same 6] by (simp add: same_fs_def)
  have "go_get (wFs w5) (path_Clean t) = None" using w4 w5 ne by (simp add: go_get_set go_get_delete)
  then have w': "wFs w' = wFs w4" using 7 w5 Remove_absent by metis
  have "file_at (wFs w') q = file_at (wFs w) q" if "q \<noteq> path_Clean name" for q
  proof (cases "q = path_Clean t")
    case True
    with c have "go_get (wFs w1) q = None" by blast
    then have "file_at (wFs w1) q = None" by (simp add: file_at_def)
    with MkdirAll_file_at [OF 1] True w' w4 ne show ?thesis by (simp add: file_at_def go_get_set go_get_delete)
  next
    case False
    with that w' w4 w3 w2 MkdirAll_file_at [OF 1, of q] show ?thesis by (simp add: file_at_def go_get_set go_get_delete)
  qed
  moreover have "data_at (wFs w') (path_Clean name) = Some data" using w' w4 by (simp add: data_at_def file_at_def go_get_set)
  ultimately show ?thesis by (simp add: same_files_but_def)
qed

section \<open>What staging can change\<close>

lemma node_frames:
  "same_files_but {path_Clean p} fs (snd (open_node E p flags perm fs))"
  "same_files_but {path_Clean p} fs (snd (chmod_node p mode fs))"
  "same_files_but {path_Clean p} fs (snd (write_node app off p c fs))"
  "same_files_but {} fs (snd (mkdir_node p fs))"
  "same_files_but {path_Clean p, path_Clean r} fs (snd (rename_node p r fs))"
  using lookup_node_missing [of p fs]
  by (auto simp: open_node_def chmod_node_def write_node_def mkdir_node_def rename_node_def same_files_but_def file_at_def
      go_get_set go_get_delete split: sum.splits node.splits)

lemma act_frame:
  assumes "\<And>fs. same_files_but P fs (snd (act fs))"
  shows "iokeeps (frame_rel P) (os_call E (maybe_done act) act)"
  by (rule os_call_frame) (auto simp: maybe_done_def assms split: option.split)

lemma frame_weaken: "iokeeps (frame_rel P) m \<Longrightarrow> P \<subseteq> Q \<Longrightarrow> iokeeps (frame_rel Q) m"
  by (erule iokeeps_mono) (erule frame_rel_mono)

lemma same_frame: "iokeeps same_fs m \<Longrightarrow> iokeeps (frame_rel P) m"
  by (erule iokeeps_mono) (rule same_fs_frame)

lemma fill_file_frame: "iokeeps (frame_rel {path_Clean t}) (fill_file E t data mode)"
proof -
  have c: "iokeeps (frame_rel {path_Clean t}) (fd_chmod E t mode)"
    unfolding fd_chmod_def by (rule os_call_frame) (auto simp: intact_def node_frames)
  have p: "iokeeps (frame_rel {path_Clean t}) (fd_put E t data)"
    unfolding fd_put_def by (rule os_call_frame) (auto simp: node_frames split: option.split)
  have f: "iokeeps (frame_rel {path_Clean t}) (fd_call E)" by (rule same_frame [OF fd_call_same])
  have m: "iokeeps (frame_rel {path_Clean t}) (iobind (fd_chmod E t mode) (\<lambda>_. iobind (fd_put E t data) (\<lambda>_. fd_call E)))"
    by (intro touched.keeps_bind c p f)
  show ?thesis
    using touched.frame_deferred [OF f m]
    by (simp add: iokeeps_def fill_file_def deferred_def case_prod_beta)
qed

lemma atomicWriteFile_frame:
  assumes "path_Clean name \<in> P" and "\<And>n. path_Clean (temp_of A name n) \<in> P"
  shows "iokeeps (frame_rel P) (atomicWriteFile E A name data mode :: ('b world_scheme, dberr, unit) io)"
proof
  fix w :: "'b world_scheme"
  have rest: "iokeeps (frame_rel P) (deferred (os_Remove E t) (iobind (fill_file E t data mode) (\<lambda>_. iobind (os_Rename E t name) (\<lambda>_.
      sync_directory E (path_Dir name)))) :: ('b world_scheme, dberr, unit) io)" if "path_Clean t \<in> P" for t
  proof -
    have "iokeeps (frame_rel P) (os_Rename E t name)"
      unfolding os_Rename_def using that assms(1) same_files_but_mono [OF node_frames(5)] by (intro act_frame) blast
    with that show ?thesis
      by (intro touched.frame_deferred touched.keeps_bind frame_weaken [OF os_Remove_frame] frame_weaken [OF fill_file_frame]
          same_frame [OF sync_directory_same]) simp_all
  qed
  have temp: "frame_rel P w1 (snd (create_temp E A (path_Dir name) ''.tmp-'' w1))" for w1 :: "'b world_scheme"
  proof -
    have "iokeeps (frame_rel P) (iobind (os_call E (maybe_done (open_node E (temp_of A name (wTick w1)) [O_RDWR, O_CREATE, O_EXCL] 384))
        (open_node E (temp_of A name (wTick w1)) [O_RDWR, O_CREATE, O_EXCL] 384)) (\<lambda>_. ioret (temp_of A name (wTick w1))))"
      using assms(2) same_files_but_mono [OF node_frames(1)] by (intro touched.keeps_bind act_frame touched.keeps_ret) blast
    then show ?thesis unfolding iokeeps_def create_temp_def Let_def temp_of_def [symmetric] by blast
  qed
  show "frame_rel P w (snd (atomicWriteFile E A name data mode w))"
    unfolding atomicWriteFile_def
  proof (rule touched.bind_at, goal_cases)
    case 1
    show ?case using frame_weaken [OF os_MkdirAll_frame, of P] unfolding iokeeps_def by blast
  next
    case (2 _ w1)
    show ?case
    proof (rule touched.bind_at [OF temp])
      fix t w2
      assume "create_temp E A (path_Dir name) ''.tmp-'' w1 = (Inr t, w2)"
      then have "t = temp_of A name (wTick w1)" using create_temp_Inr by (metis temp_of_def)
      then show "frame_rel P w2 (snd (deferred (os_Remove E t) (iobind (fill_file E t data mode) (\<lambda>_. iobind (os_Rename E t name) (\<lambda>_.
          sync_directory E (path_Dir name)))) w2))"
        using rest [of t] assms(2) unfolding iokeeps_def by blast
    qed
  qed
qed

section \<open>Staging a directory\<close>

definition file_name_ok :: "string \<Rightarrow> bool" where
  "file_name_ok n \<longleftrightarrow> list_all plain_seg (strings_Split slash n) \<and> not_temp (last (strings_Split slash n))"

definition write_all :: "osenv \<Rightarrow> 'p access_api \<Rightarrow> string \<Rightarrow> string go_map \<Rightarrow> ('b world_scheme, dberr, unit) io" where
  "write_all E A tmp fls = ioeach (\<lambda>(name, data). atomicWriteFile E A (filepath_Join [tmp, name]) data 420) fls"

lemma ioeach_append: "ioeach f (xs @ ys) = iobind (ioeach f xs) (\<lambda>_. ioeach f ys)"
  by (induction xs) (auto simp: iobind_def ioret_def fun_eq_iff split: prod.splits sum.splits)

lemma Join_rel_inject:
  assumes "d \<noteq> []" "file_name_ok m" "file_name_ok n" "filepath_Join [d, m] = filepath_Join [d, n]"
  shows "m = n"
proof -
  have "strings_Split slash m = strings_Split slash n"
    using Join_rel(1) [OF assms(1)] assms(2-4) by (metis append_same_eq file_name_ok_def same_append_eq)
  then show ?thesis by (metis Join_Split)
qed

lemma staged_name:
  assumes "temp_names A" "d \<noteq> []" "file_name_ok n"
  shows "csegs (temp_of A (filepath_Join [d, n]) k) = csegs d @ butlast (strings_Split slash n) @ [''.tmp-'' @ acTemp A k]"
    and "rooted (temp_of A (filepath_Join [d, n]) k) = rooted d"
    and "path_Clean (temp_of A (filepath_Join [d, n]) k) = temp_of A (filepath_Join [d, n]) k"
    and "temp_of A (filepath_Join [d, n]) k \<noteq> filepath_Join [d, n]"
proof -
  let ?p = "filepath_Join [d, n]"
  have ok: "list_all plain_seg (strings_Split slash n)" "not_temp (last (strings_Split slash n))"
    using assms(3) by (simp_all add: file_name_ok_def)
  note j = Join_rel [OF assms(2) ok(1)]
  have ne: "strings_Split slash n \<noteq> []" by (rule Split_nonempty)
  then have sp: "csegs ?p = (csegs d @ butlast (strings_Split slash n)) @ [last (strings_Split slash n)]" using j(1) by simp
  note t = temp_of_segs [OF assms(1) j(3) sp, of k]
  from t(1) show "csegs (temp_of A ?p k) = csegs d @ butlast (strings_Split slash n) @ [''.tmp-'' @ acTemp A k]" by simp
  from t(2) j(2) show "rooted (temp_of A ?p k) = rooted d" by simp
  show "path_Clean (temp_of A ?p k) = temp_of A ?p k" by (rule t(3))
  show "temp_of A ?p k \<noteq> ?p"
  proof
    assume "temp_of A ?p k = ?p"
    then have "last (csegs ?p) = ''.tmp-'' @ acTemp A k" using t(1) by simp
    then have "last (strings_Split slash n) = ''.tmp-'' @ acTemp A k" unfolding sp by simp
    with ok(2) show False by (simp add: not_temp_def)
  qed
qed

lemma write_all_Inr:
  assumes "write_all E A tmp fls w = (Inr u, w')" and "temp_names A" and "tmp \<noteq> []"
    and "\<And>n. n \<in> fst ` set fls \<Longrightarrow> file_name_ok n" and "distinct (map fst fls)"
  shows "(\<forall>(n, d) \<in> set fls. data_at (wFs w') (filepath_Join [tmp, n]) = Some d) \<and>
         same_files_but ((\<lambda>n. filepath_Join [tmp, n]) ` fst ` set fls) (wFs w) (wFs w')"
  using assms(1,4,5)
proof (induction fls arbitrary: w)
  case Nil
  then show ?case by (simp add: write_all_def ioret_def)
next
  case (Cons x fls)
  obtain n d where x: "x = (n, d)" by (cases x)
  let ?p = "\<lambda>n. filepath_Join [tmp, n]"
  from Cons.prems(1) x obtain w1 where a: "atomicWriteFile E A (?p n) d 420 w = (Inr (), w1)" and r: "write_all E A tmp fls w1 = (Inr u, w')"
    by (auto simp: write_all_def res_simps)
  have ok: "file_name_ok n" using Cons.prems(2) x by simp
  have cl: "path_Clean (?p n) = ?p n" using Join_rel(3) [OF assms(3)] ok by (simp add: file_name_ok_def)
  have 1: "data_at (wFs w1) (?p n) = Some d" "same_files_but {?p n} (wFs w) (wFs w1)"
    using atomicWriteFile_Inr [OF a] staged_name(3,4) [OF assms(2,3) ok] cl by auto
  have 2: "(\<forall>(n, d) \<in> set fls. data_at (wFs w') (?p n) = Some d)" "same_files_but (?p ` fst ` set fls) (wFs w1) (wFs w')"
    using Cons.IH [OF r] Cons.prems(2,3) x by auto
  have out: "?p n \<notin> ?p ` fst ` set fls"
  proof
    assume "?p n \<in> ?p ` fst ` set fls"
    then obtain m where m: "?p n = ?p m" "m \<in> fst ` set fls" by (rule imageE)
    then have "file_name_ok m" using Cons.prems(2) x by simp
    with Join_rel_inject [OF assms(3) ok _ m(1)] have "n = m" by simp
    with m(2) Cons.prems(3) x show False by simp
  qed
  have "data_at (wFs w') (?p n) = Some d" using 2(2) 1(1) out by (simp add: same_files_but_def data_at_def)
  moreover have "same_files_but (?p ` fst ` set (x # fls)) (wFs w) (wFs w')"
    using same_files_but_trans [OF same_files_but_mono [OF 1(2)] same_files_but_mono [OF 2(2)], of "?p ` fst ` set (x # fls)"] x
    by simp blast
  ultimately show ?case using 2(1) x by simp
qed

lemma moved_file:
  assumes "tmp \<noteq> []" "dest \<noteq> []" "apart_dirs tmp dest" "file_name_ok n"
  shows "go_get (move_tree tmp dest fs) (filepath_Join [dest, n]) = go_get fs (filepath_Join [tmp, n])"
proof -
  have ok: "list_all plain_seg (strings_Split slash n)" using assms(4) by (simp add: file_name_ok_def)
  note d = Join_rel [OF assms(2) ok] and t = Join_rel [OF assms(1) ok]
  have u: "at_or_under dest (filepath_Join [dest, n])" using d ok by (auto simp: at_or_under_segs)
  have "moved_path dest tmp (filepath_Join [dest, n]) = render (rooted tmp) (csegs tmp @ strings_Split slash n)"
    by (rule moved_under(1) [OF u ok d(1)])
  also have "\<dots> = filepath_Join [tmp, n]" using clean_by_segs [OF t(3)] t(1,2) by simp
  finally show ?thesis using go_get_moved [OF assms(3)] u by simp
qed

lemma RemoveAll_frame: "iokeeps (frame_rel {q. q = path_Clean p \<or> strictly_inside p q}) (os_RemoveAll E p)"
proof -
  have get: "go_get (foldr go_delete ks m) q = (if q \<in> set ks then None else go_get m q)" for ks m q
    by (induction ks) (auto simp: go_get_delete)
  have "set (take k (subtree fs p)) \<subseteq> {q. q = path_Clean p \<or> strictly_inside p q}" for k fs
    using set_take_subset [of k "subtree fs p"] by (auto simp: subtree_def)
  then show ?thesis
    unfolding os_RemoveAll_def
    by (intro os_call_frame) (auto simp: same_files_but_def file_at_def get subtree_def split: option.split)
qed

lemma renamed_frame:
  assumes "apart_dirs a b" "\<And>q. at_or_under a q \<or> at_or_under b q \<Longrightarrow> q \<in> P"
  shows "iokeeps (frame_rel P) (os_RenameDir E a b)"
proof -
  have "same_files_but P fs (snd (rename_dir a b fs))" for fs
    using assms by (auto simp: rename_dir_def same_files_but_def file_at_def go_get_moved split: sum.split node.split)
  then show ?thesis unfolding os_RenameDir_def by (rule act_frame)
qed

lemma mkdir_temp_Inr:
  "mkdir_temp E A dir pat w = (Inr t, w') \<Longrightarrow> t = filepath_Join [dir, pat @ acTemp A (wTick w)]"
  by (auto simp: mkdir_temp_def Let_def res_simps)

lemma mkdir_temp_frame: "iokeeps (frame_rel P) (mkdir_temp E A dir pat :: ('b world_scheme, dberr, string) io)"
proof
  fix w :: "'b world_scheme"
  have "iokeeps (frame_rel P) (iobind (os_call E (maybe_done (mkdir_node t)) (mkdir_node t)) (\<lambda>_. ioret t) :: ('b world_scheme, dberr, string) io)" for t
    by (intro touched.keeps_bind act_frame touched.keeps_ret same_files_but_mono [OF node_frames(4)]) simp
  then show "frame_rel P w (snd (mkdir_temp E A dir pat w))" unfolding iokeeps_def mkdir_temp_def Let_def by blast
qed

text \<open>The staging directory and the final one are different entries of one directory.\<close>

definition staging :: "'p access_api \<Rightarrow> string \<Rightarrow> nat \<Rightarrow> string" where
  "staging A dir k = filepath_Join [dir, ''.generation-'' @ acTemp A k]"

lemma Join_seg:
  assumes "d \<noteq> []" "plain_seg s"
  shows "csegs (filepath_Join [d, s]) = csegs d @ [s]" "rooted (filepath_Join [d, s]) = rooted d"
    "filepath_Join [d, s] \<noteq> []" "path_Clean (filepath_Join [d, s]) = filepath_Join [d, s]"
proof -
  have sp: "strings_Split slash s = [s]" using assms(2) by (intro Split_no_sep) (simp add: plain_seg_def)
  have "list_all plain_seg (strings_Split slash s)" unfolding sp using assms(2) by simp
  from Join_rel [OF assms(1) this] show "csegs (filepath_Join [d, s]) = csegs d @ [s]" "rooted (filepath_Join [d, s]) = rooted d"
    "filepath_Join [d, s] \<noteq> []" "path_Clean (filepath_Join [d, s]) = filepath_Join [d, s]"
    unfolding sp by simp_all
qed

lemma staging_seg: "temp_names A \<Longrightarrow> plain_seg (''.generation-'' @ acTemp A k)"
  by (auto simp: plain_seg_def temp_names_def)

lemma staging_apart:
  assumes "temp_names A" "dir \<noteq> []" "plain_seg s" "not_temp s" "csegs dest = csegs dir @ [s]" "rooted dest = rooted dir"
  shows "apart_dirs (staging A dir k) dest"
proof -
  have "s \<noteq> ''.generation-'' @ acTemp A k" using assms(4) by (auto simp: not_temp_def)
  then show ?thesis
    using Join_seg [OF assms(2) staging_seg [OF assms(1), of k]] assms(5,6) by (auto simp: apart_dirs_def staging_def)
qed

lemma arrived:
  assumes "write_all E A tmp fls w = (Inr u, w1)" "same_fs w1 w2" "os_RenameDir E tmp dest w2 = (Inr v, w3)" "same_fs w3 w4"
    and "w' = snd (os_RemoveAll E tmp w4)" and "temp_names A" "tmp \<noteq> []" "dest \<noteq> []" "apart_dirs tmp dest"
    and "\<And>n. n \<in> fst ` set fls \<Longrightarrow> file_name_ok n" "distinct (map fst fls)" "(n, d) \<in> set fls"
  shows "data_at (wFs w') (filepath_Join [dest, n]) = Some d"
proof -
  have ok: "file_name_ok n" using assms(10) [of n] assms(12) by force
  have pl: "list_all plain_seg (strings_Split slash n)" using ok by (simp add: file_name_ok_def)
  have "data_at (wFs w2) (filepath_Join [tmp, n]) = Some d"
    using write_all_Inr [OF assms(1,6,7,10,11)] assms(2,12) by (auto simp: same_fs_def)
  then have 3: "data_at (wFs w3) (filepath_Join [dest, n]) = Some d"
    unfolding rename_dir_Inr [OF assms(3)] data_at_def file_at_def moved_file [OF assms(7,8,9) ok] .
  have "at_or_under dest (filepath_Join [dest, n])"
    using Join_rel [OF assms(8) pl] pl by (auto simp: at_or_under_segs)
  then have "\<not> at_or_under tmp (filepath_Join [dest, n])" using apart_dirs_under [OF assms(9)] by blast
  then have "filepath_Join [dest, n] \<notin> {q. q = path_Clean tmp \<or> strictly_inside tmp q}"
    using Join_rel(3) [OF assms(8) pl] by (simp add: at_or_under_def)
  moreover have "frame_rel {q. q = path_Clean tmp \<or> strictly_inside tmp q} w4 w'"
    using RemoveAll_frame [of tmp E] assms(5) unfolding iokeeps_def by blast
  ultimately have "file_at (wFs w') (filepath_Join [dest, n]) = file_at (wFs w4) (filepath_Join [dest, n])"
    by (simp add: frame_rel_def same_files_but_def)
  with 3 assms(4) show ?thesis by (simp add: data_at_def same_fs_def)
qed

lemma deferred_Inr_split:
  "deferred d m s = (Inr x, s') \<longleftrightarrow> (\<exists>t. m s = (Inr x, t) \<and> s' = snd (d t))"
  by (auto simp: deferred_def split: prod.splits)

lemma stage_generation_Inr:
  assumes "stage_generation E A dest bytes sources w = (Inr paths, w')" and "temp_names A"
    and "path_Clean dest = dest" "csegs dest = ss @ [s]" "plain_seg s" "not_temp s"
    and "\<And>n. n \<in> fst ` set sources \<Longrightarrow> file_name_ok n" "distinct (map fst sources)" "''manifest.yaml'' \<notin> fst ` set sources"
    and "(n, d) \<in> set (sources @ [(''manifest.yaml'', bytes)])"
  shows "data_at (wFs w') (filepath_Join [dest, n]) = Some d"
proof -
  let ?fls = "sources @ [(''manifest.yaml'', bytes)]"
  obtain w0 w1 tmp where 1: "mkdir_temp E A (path_Dir dest) ''.generation-'' w0 = (Inr tmp, w1)"
      and b: "deferred (os_RemoveAll E tmp) (
         iobind (ioeach (\<lambda>(name, data). atomicWriteFile E A (filepath_Join [tmp, name]) data 420) sources) (\<lambda>_.
         iobind (atomicWriteFile E A (filepath_Join [tmp, ''manifest.yaml'']) bytes 420) (\<lambda>_.
         iobind (sync_directory E tmp) (\<lambda>_.
         iobind (publication_hook A ''generation_files_synced'') (\<lambda>_.
         iobind (os_RenameDir E tmp dest) (\<lambda>_.
         iobind (publication_hook A ''generation_renamed'') (\<lambda>_.
         iobind (sync_directory E (path_Dir dest)) (\<lambda>_.
         iobind (publication_hook A ''generation_parent_synced'') (\<lambda>_.
           ioret (map (\<lambda>(name, data). filepath_Join [dest, name]) sources @ [filepath_Join [dest, ''manifest.yaml'']])))))))))) w1 = (Inr paths, w')"
    using assms(1) by (auto simp: stage_generation_def res_simps)
  then obtain v0 v1 v2 v3 v4 v5 v6 v7 where s1: "ioeach (\<lambda>(name, data). atomicWriteFile E A (filepath_Join [tmp, name]) data 420) sources w1 = (Inr (), v0)"
      and s2: "atomicWriteFile E A (filepath_Join [tmp, ''manifest.yaml'']) bytes 420 v0 = (Inr (), v1)"
      and s3: "sync_directory E tmp v1 = (Inr (), v2)" and s4: "publication_hook A ''generation_files_synced'' v2 = (Inr (), v3)"
      and s5: "os_RenameDir E tmp dest v3 = (Inr (), v4)" and s6: "publication_hook A ''generation_renamed'' v4 = (Inr (), v5)"
      and s7: "sync_directory E (path_Dir dest) v5 = (Inr (), v6)" and s8: "publication_hook A ''generation_parent_synced'' v6 = (Inr (), v7)"
      and e: "w' = snd (os_RemoveAll E tmp v7)"
    by (auto simp: deferred_Inr_split res_simps)
  have "write_all E A tmp ?fls w1 = (Inr (), v1)"
    using s1 s2 by (simp add: write_all_def ioeach_append iobind_def ioret_def)
  moreover have "same_fs v1 v3" "same_fs v4 v7"
    using iokeepsD [OF sync_directory_same s3] iokeepsD [OF sync_directory_same s7] publication_hook_same [OF s4]
      publication_hook_same [OF s6] publication_hook_same [OF s8] by simp_all
  moreover have pd: "path_Dir dest \<noteq> []" "csegs dest = csegs (path_Dir dest) @ [s]" "rooted dest = rooted (path_Dir dest)"
    using path_Dir_clean [OF assms(3,4)] assms(4) by simp_all
  moreover have tmp: "tmp = staging A (path_Dir dest) (wTick w0)" using mkdir_temp_Inr [OF 1] by (simp add: staging_def)
  moreover have "apart_dirs tmp dest" unfolding tmp by (rule staging_apart [OF assms(2) pd(1) assms(5,6) pd(2,3)])
  moreover have "tmp \<noteq> []" unfolding tmp staging_def by (rule Join_seg(3) [OF pd(1) staging_seg [OF assms(2)]])
  moreover have "dest \<noteq> []" using assms(3) Clean_not_empty by metis
  moreover have "file_name_ok m" if "m \<in> fst ` set ?fls" for m
    using that assms(7) by (auto simp: file_name_ok_def not_temp_def plain_seg_def)
  moreover have "distinct (map fst ?fls)" using assms(8,9) by auto
  ultimately show ?thesis using arrived [OF _ _ s5 _ e assms(2)] assms(10) by blast
qed

text \<open>Everything a staging does happens inside the directory it works in.\<close>

lemma under_staging:
  assumes "temp_names A" "dir \<noteq> []" "at_or_under (staging A dir k) q"
  shows "strictly_inside dir q"
  using Join_seg [OF assms(2) staging_seg [OF assms(1), of k]] assms(3) staging_seg [OF assms(1), of k]
  by (auto simp: at_or_under_segs inside_segs staging_def)

lemma staging_clean:
  assumes "temp_names A" "dir \<noteq> []"
  shows "path_Clean (staging A dir k) = staging A dir k" "staging A dir k \<noteq> []"
  using Join_seg [OF assms(2) staging_seg [OF assms(1), of k]] by (simp_all add: staging_def)

lemma staged_file_frame:
  assumes "temp_names A" "dir \<noteq> []" "file_name_ok n"
  shows "iokeeps (frame_rel {q. strictly_inside dir q}) (atomicWriteFile E A (filepath_Join [staging A dir k, n]) data mode)"
proof -
  let ?t = "staging A dir k"
  have pl: "list_all plain_seg (strings_Split slash n)" using assms(3) by (simp add: file_name_ok_def)
  note c = staging_clean [OF assms(1,2), of k]
  note j = Join_rel [OF c(2) pl] and tn = staged_name [OF assms(1) c(2) assms(3)]
  have "at_or_under ?t (filepath_Join [?t, n])" using j pl by (auto simp: at_or_under_segs)
  moreover have "at_or_under ?t (temp_of A (filepath_Join [?t, n]) m)" for m
  proof -
    have "list_all plain_seg (butlast (strings_Split slash n) @ [''.tmp-'' @ acTemp A m])"
      using pl assms(1) by (auto simp: list_all_iff plain_seg_def temp_names_def dest: in_set_butlastD)
    with tn(1-3) [of m] show ?thesis by (auto simp: at_or_under_segs)
  qed
  ultimately show ?thesis
    using under_staging [OF assms(1,2)] j(3) tn(3) by (intro atomicWriteFile_frame) auto
qed

lemma removed_staging_frame:
  assumes "temp_names A" "dir \<noteq> []"
  shows "iokeeps (frame_rel {q. strictly_inside dir q}) (os_RemoveAll E (staging A dir k))"
proof (rule frame_weaken [OF RemoveAll_frame], rule subsetI)
  fix q
  assume "q \<in> {q. q = path_Clean (staging A dir k) \<or> strictly_inside (staging A dir k) q}"
  then have "q = staging A dir k \<or> strictly_inside (staging A dir k) q" using staging_clean [OF assms] by auto
  moreover have "strictly_inside dir (staging A dir k)"
    using Join_plain_inside [OF assms(2), of "[''.generation-'' @ acTemp A k]"] staging_seg [OF assms(1), of k]
    by (simp add: staging_def)
  ultimately show "q \<in> {q. strictly_inside dir q}" by (auto simp: inside_segs)
qed

lemma staging_moved_frame:
  assumes "temp_names A" "dir \<noteq> []" "csegs dest = csegs dir @ [s]" "rooted dest = rooted dir" "plain_seg s" "not_temp s"
  shows "iokeeps (frame_rel {q. strictly_inside dir q}) (os_RenameDir E (staging A dir k) dest)"
proof -
  have dst: "strictly_inside dir q" if "at_or_under dest q" for q
    using that assms(3-5) by (auto simp: at_or_under_segs inside_segs)
  show ?thesis
    using under_staging [OF assms(1,2)] dst
    by (intro renamed_frame [OF staging_apart [OF assms(1,2,5,6,3,4)]]) blast
qed

lemma staged_files_frame:
  assumes "temp_names A" "dir \<noteq> []" "\<And>n. n \<in> fst ` set fls \<Longrightarrow> file_name_ok n"
  shows "iokeeps (frame_rel {q. strictly_inside dir q}) (write_all E A (staging A dir k) fls)"
  using assms(3)
proof (induction fls)
  case (Cons x xs)
  then show ?case by (cases x) (auto simp: write_all_def intro!: touched.keeps_bind staged_file_frame [OF assms(1,2)])
qed (simp add: write_all_def)

text \<open>A directory is made, a temporary one inside it, and the work goes on in the latter.\<close>

lemma with_staging_frame:
  fixes w :: "'b world_scheme"
  assumes "\<And>k. iokeeps (frame_rel P) (body (staging A dir k) :: ('b world_scheme, dberr, 'x) io)"
  shows "frame_rel P w (snd (iobind (os_MkdirAll E dir) (\<lambda>_. iobind (mkdir_temp E A dir ''.generation-'') body) w))"
proof (rule touched.bind_at, goal_cases)
  case 1
  show ?case using frame_weaken [OF os_MkdirAll_frame, of P] unfolding iokeeps_def by blast
next
  case (2 _ w1)
  have m: "frame_rel P w1 (snd (mkdir_temp E A dir ''.generation-'' w1))" using mkdir_temp_frame unfolding iokeeps_def by blast
  show ?case
  proof (rule touched.bind_at, goal_cases)
    case 1
    show ?case by (rule m)
  next
    case (2 tmp w2)
    then have "tmp = staging A dir (wTick w1)" using mkdir_temp_Inr by (metis staging_def)
    then show ?case using assms unfolding iokeeps_def by blast
  qed
qed

lemma stage_generation_frame:
  assumes "temp_names A" "path_Clean dest = dest" "csegs dest = ss @ [s]" "plain_seg s" "not_temp s"
    and "\<And>n. n \<in> fst ` set sources \<Longrightarrow> file_name_ok n"
  shows "frame_rel {q. strictly_inside (path_Dir dest) q} w (snd (stage_generation E A dest bytes sources w))"
proof -
  let ?D = "path_Dir dest"
  have pd: "?D \<noteq> []" "csegs dest = csegs ?D @ [s]" "rooted dest = rooted ?D"
    using path_Dir_clean [OF assms(2,3)] assms(3) by simp_all
  have man: "file_name_ok ''manifest.yaml''" by (auto simp: file_name_ok_def not_temp_def plain_seg_def)
  show ?thesis
    unfolding stage_generation_def
    by (rule with_staging_frame)
       (intro touched.frame_deferred removed_staging_frame [OF assms(1) pd(1)] touched.keeps_bind
         staged_files_frame [OF assms(1) pd(1) assms(6), unfolded write_all_def] staging_moved_frame [OF assms(1) pd assms(4,5)]
         staged_file_frame [OF assms(1) pd(1) man] same_frame [OF sync_directory_same] hook_keeps touched.frame_refl touched.keeps_ret)
qed

end
