(* ===== verification/AccessBuild.thy ===== *)
theory AccessBuild
  imports AccessStore
begin

text \<open>
  A generation that has been built and materialised is a verified one: names that are safe as
  path segments, the invariant of the building loop, and the files on disk.
\<close>

section \<open>Safe names\<close>

lemma hex_chars: "hex_DecodeString s = Some bs \<Longrightarrow> c \<in> set s \<Longrightarrow> is_hex c"
  by (induction s arbitrary: bs rule: hex_DecodeString.induct) (auto split: if_splits)

lemma isSHA256_segment:
  assumes "isSHA256 s"
  shows "plain_seg s" and "not_temp s"
proof -
  from assms obtain bs where bs: "hex_DecodeString s = Some bs" "length bs = 32" by (auto simp: isSHA256_def split: option.splits)
  then have hex: "is_hex c" if "c \<in> set s" for c using hex_chars that by blast
  have "\<not> is_hex slash" "\<not> is_hex (CHR ''.'')" by code_simp+
  with hex have c: "slash \<notin> set s" "CHR ''.'' \<notin> set s" by blast+
  moreover have "s \<noteq> []" using bs by auto
  ultimately show "plain_seg s" by (auto simp: plain_seg_def)
  show "not_temp s" using c(2) by (auto simp: not_temp_def prefix_def)
qed

lemma safe_id_segment:
  assumes "safePolicyID s"
  shows "plain_seg (s @ ''.yaml'')" and "not_temp (s @ ''.yaml'')"
proof -
  from assms obtain c cs where s: "s = c # cs" "alnum c" "list_all policy_id_char cs"
    by (auto simp: safePolicyID_def split: list.splits)
  have "\<not> alnum slash" "\<not> alnum (CHR ''.'')" "\<not> policy_id_char slash" by code_simp+
  with s have "slash \<notin> set s" "c \<noteq> CHR ''.''" by (auto simp: list_all_iff)
  with s(1) show "plain_seg (s @ ''.yaml'')" "not_temp (s @ ''.yaml'')" by (auto simp: plain_seg_def not_temp_def)
qed

definition policy_file :: "string \<Rightarrow> string" where
  "policy_file s = ''policies/'' @ s @ ''.yaml''"

lemma policy_file_join: "safePolicyID s \<Longrightarrow> filepath_Join [''policies'', s @ ''.yaml''] = policy_file s"
proof -
  assume s: "safePolicyID s"
  have p: "plain_seg (s @ ''.yaml'')" by (rule safe_id_segment(1) [OF s])
  have d: "(''policies'' :: string) \<noteq> []" "csegs ''policies'' = [''policies'']" "\<not> rooted ''policies''" by code_simp+
  note j = Join_seg [OF d(1) p]
  have "filepath_Join [''policies'', s @ ''.yaml''] = render False [''policies'', s @ ''.yaml'']"
    using clean_by_segs [OF j(4)] j(1,2) d(2,3) by simp
  then show ?thesis by (simp add: render_def policy_file_def)
qed

lemma policy_file_ok:
  assumes "safePolicyID s"
  shows "file_name_ok (policy_file s)" and "policy_file s \<noteq> ''manifest.yaml''"
proof -
  have "strings_Split slash (policy_file s) = [''policies'', s @ ''.yaml'']"
    using Split_app [of "''policies''" "s @ ''.yaml''"] safe_id_segment(1) [OF assms]
    by (simp add: policy_file_def plain_seg_def Split_no_sep)
  then show "file_name_ok (policy_file s)"
    using safe_id_segment [OF assms] by (simp add: file_name_ok_def) (simp add: plain_seg_def)
  show "policy_file s \<noteq> ''manifest.yaml''" by (simp add: policy_file_def)
qed

lemma policy_file_inject [simp]: "policy_file s = policy_file t \<longleftrightarrow> s = t"
  by (simp add: policy_file_def)

section \<open>The building loop\<close>

definition canonical_sources :: "'p access_api \<Rightarrow> string list \<Rightarrow> bool" where
  "canonical_sources A items \<longleftrightarrow>
     (\<forall>item \<in> set items. \<forall>doc s. ParseTugQLPolicy A item = Inr doc \<longrightarrow> MarshalTugQLPolicyYAML A doc = Inr s \<longrightarrow>
        ParseTugQLPolicy A s = Inr doc)"

definition policy_built :: "'p access_api \<Rightarrow> string go_map \<Rightarrow> generationPolicy \<Rightarrow> bool" where
  "policy_built A srcs p \<longleftrightarrow>
     safePolicyID (gpID p) \<and> gpFile p = policy_file (gpID p) \<and>
     (\<exists>doc s. go_get srcs (policy_file (gpID p)) = Some s \<and> ParseTugQLPolicy A s = Inr doc \<and>
        pdName doc = gpID p \<and> canonical_digest A doc = gpDigest p)"

definition built :: "'p access_api \<Rightarrow> generationPolicy list \<Rightarrow> string go_map \<Rightarrow> bool" where
  "built A ps srcs \<longleftrightarrow>
     distinct (map gpID ps) \<and> wf_map srcs \<and> fst ` set srcs = gpFile ` set ps \<and>
     (\<forall>p \<in> set ps. policy_built A srcs p)"

lemma keys_go_set: "fst ` set (go_set k v m) = insert k (fst ` set m)"
proof -
  have "x \<in> fst ` set (go_set k v m) \<longleftrightarrow> x \<in> insert k (fst ` set m)" for x
    using go_get_None_iff [of "go_set k v m" x] go_get_None_iff [of m x] by (simp add: go_get_set split: if_splits)
  then show ?thesis by blast
qed

lemma built_step:
  assumes "built A ps srcs" "safePolicyID (pdName doc)" "go_get srcs (policy_file (pdName doc)) = None"
    and "MarshalTugQLPolicyJSON A doc = Inr canonical" "ParseTugQLPolicy A s = Inr doc"
  shows "built A (ps @ [\<lparr>gpID = pdName doc, gpFile = policy_file (pdName doc), gpDigest = acSha256 A canonical\<rparr>])
           (go_set (policy_file (pdName doc)) s srcs)"
proof -
  let ?f = "policy_file (pdName doc)"
  have files: "gpFile p = policy_file (gpID p)" if "p \<in> set ps" for p
    using assms(1) that by (simp add: built_def policy_built_def)
  have "?f \<notin> gpFile ` set ps" using assms(1,3) by (simp add: built_def go_get_None_iff)
  then have fresh: "pdName doc \<notin> gpID ` set ps" using files by (auto simp: image_iff)
  have old: "policy_built A (go_set ?f s srcs) p" if "p \<in> set ps" for p
  proof -
    have "gpID p \<noteq> pdName doc" using that fresh by (metis image_eqI)
    with assms(1) that show ?thesis by (simp add: built_def policy_built_def go_get_set)
  qed
  have new: "policy_built A (go_set ?f s srcs) \<lparr>gpID = pdName doc, gpFile = ?f, gpDigest = acSha256 A canonical\<rparr>"
    using assms(2,4,5) by (simp add: policy_built_def go_get_set canonical_digest_def)
  from assms(1) fresh old new show ?thesis
    by (simp add: built_def gm.invar_store keys_go_set)
qed

lemma build_policies_ConsE:
  assumes "build_policies A db (item # items) ps srcs = Inr r"
  obtains doc canonical s where "ParseTugQLPolicy A item = Inr doc" "safePolicyID (pdName doc)"
      "MarshalTugQLPolicyJSON A doc = Inr canonical" "go_get srcs (policy_file (pdName doc)) = None"
      "MarshalTugQLPolicyYAML A doc = Inr s"
      "build_policies A db items (ps @ [\<lparr>gpID = pdName doc, gpFile = policy_file (pdName doc),
        gpDigest = acSha256 A canonical\<rparr>]) (go_set (policy_file (pdName doc)) s srcs) = Inr r"
proof -
  from assms obtain doc canonical s where d: "ParseTugQLPolicy A item = Inr doc" "safePolicyID (pdName doc)"
      "MarshalTugQLPolicyJSON A doc = Inr canonical" "go_get srcs (filepath_Join [''policies'', pdName doc @ ''.yaml'']) = None"
      "MarshalTugQLPolicyYAML A doc = Inr s"
      "build_policies A db items (ps @ [\<lparr>gpID = pdName doc, gpFile = filepath_Join [''policies'', pdName doc @ ''.yaml''],
        gpDigest = acSha256 A canonical\<rparr>]) (go_set (filepath_Join [''policies'', pdName doc @ ''.yaml'']) s srcs) = Inr r"
    by (auto simp: Let_def res_simps split: if_splits)
  from d [unfolded policy_file_join [OF d(2)]] show ?thesis by (rule that)
qed

lemma build_policies_built:
  assumes "build_policies A db items ps srcs = Inr (ps', srcs')" "built A ps srcs" "canonical_sources A items"
  shows "built A ps' srcs'"
  using assms
proof (induction items arbitrary: ps srcs)
  case (Cons item items)
  from Cons.prems(1) show ?case
  proof (rule build_policies_ConsE)
    fix doc canonical s
    assume d: "ParseTugQLPolicy A item = Inr doc" "safePolicyID (pdName doc)" "MarshalTugQLPolicyJSON A doc = Inr canonical"
        "go_get srcs (policy_file (pdName doc)) = None" "MarshalTugQLPolicyYAML A doc = Inr s"
      and r: "build_policies A db items (ps @ [\<lparr>gpID = pdName doc, gpFile = policy_file (pdName doc),
        gpDigest = acSha256 A canonical\<rparr>]) (go_set (policy_file (pdName doc)) s srcs) = Inr (ps', srcs')"
    have "ParseTugQLPolicy A s = Inr doc" using Cons.prems(3) d(1,5) unfolding canonical_sources_def by (meson list.set_intros(1))
    moreover have "canonical_sources A items" using Cons.prems(3) unfolding canonical_sources_def by (meson list.set_intros(2))
    ultimately show ?thesis using Cons.IH [OF r] built_step [OF Cons.prems(2) d(2,4,3)] by blast
  qed
qed simp

lemma build_policies_length:
  "build_policies A db items ps srcs = Inr (ps', srcs') \<Longrightarrow> length ps' = length ps + length items"
  by (induction items arbitrary: ps srcs) (auto simp: Let_def res_simps split: if_splits simp del: filepath_Join.simps)

lemma build_policies_names:
  assumes "build_policies A db items ps srcs = Inr (ps', srcs')" "n \<in> fst ` set srcs'" "\<And>n. n \<in> fst ` set srcs \<Longrightarrow> file_name_ok n"
  shows "file_name_ok n"
  using assms
proof (induction items arbitrary: ps srcs)
  case (Cons item items)
  from Cons.prems(1) show ?case
  proof (rule build_policies_ConsE)
    fix doc canonical s
    assume d: "safePolicyID (pdName doc)"
      and r: "build_policies A db items (ps @ [\<lparr>gpID = pdName doc, gpFile = policy_file (pdName doc),
        gpDigest = acSha256 A canonical\<rparr>]) (go_set (policy_file (pdName doc)) s srcs) = Inr (ps', srcs')"
    show ?thesis
      using Cons.IH [OF r Cons.prems(2)] Cons.prems(3) policy_file_ok(1) [OF d] by (auto simp only: keys_go_set insert_iff)
  qed
qed simp

lemma buildGeneration_names:
  "buildGeneration A candidate = Inr (manifest, srcs, revision) \<Longrightarrow> n \<in> fst ` set srcs \<Longrightarrow> file_name_ok n"
  by (auto simp: buildGeneration_def Let_def res_simps split: if_splits elim!: build_policies_names)

lemma buildGeneration_built:
  assumes "buildGeneration A candidate = Inr (manifest, srcs, revision)" "canonical_sources A (ogPolicies candidate)"
  shows "built A (gmPolicies manifest) srcs" and "gmAPIVersion manifest = generationAPIVersion"
    and "\<exists>encoded. yamlMarshalGeneration A manifest = Inr encoded \<and> revision = acSha256 A encoded"
    and "gmDatabase manifest = ogDatabase candidate" and "gmPolicies manifest \<noteq> []"
proof -
  from assms(1) obtain ps encoded where b: "build_policies A (ogDatabase candidate) (ogPolicies candidate) [] [] = Inr (ps, srcs)"
      and m: "manifest = \<lparr>gmAPIVersion = generationAPIVersion, gmEnabled = True, gmDatabase = ogDatabase candidate,
                        gmRealm = ogRealm candidate, gmPolicies = SliceStable (key_less gpID) ps\<rparr>"
        "yamlMarshalGeneration A manifest = Inr encoded" "revision = acSha256 A encoded"
      and ne: "ogPolicies candidate \<noteq> []"
    by (auto simp: buildGeneration_def Let_def res_simps split: if_splits)
  have "built A [] []" by (simp add: built_def wf_map_def)
  from build_policies_built [OF b this assms(2)] have ps: "built A ps srcs" .
  have mset: "mset (gmPolicies manifest) = mset ps" using m(1) by simp
  then have "mset (map gpID (gmPolicies manifest)) = mset (map gpID ps)" by (simp only: mset_map)
  then have "distinct (map gpID (gmPolicies manifest))" using ps by (metis built_def mset_eq_imp_distinct_iff)
  with ps mset_eq_setD [OF mset] show "built A (gmPolicies manifest) srcs"
    unfolding built_def by simp
  show "gmAPIVersion manifest = generationAPIVersion" "gmDatabase manifest = ogDatabase candidate" using m(1) by simp_all
  show "\<exists>encoded. yamlMarshalGeneration A manifest = Inr encoded \<and> revision = acSha256 A encoded" using m by blast
  have "length ps = length (ogPolicies candidate)" using build_policies_length [OF b] by simp
  then show "gmPolicies manifest \<noteq> []" using m(1) ne by (metis generationManifest.select_convs(5) length_0_conv length_SliceStable)
qed

section \<open>A generation that was written is one that verifies\<close>

lemma generation_base_facts:
  assumes "base \<noteq> []" "isSHA256 revision"
  shows "path_Clean (generation_base base revision) = generation_base base revision"
    and "csegs (generation_base base revision) = (csegs base @ [''.ingitdb'', ''access'', ''generations'']) @ [revision]"
    and "rooted (generation_base base revision) = rooted base"
proof -
  note j = filepath_Join_segs [OF assms(1), of "[accessConfigDir, ''generations'', revision]"]
  have sp: "concat (map (strings_Split slash) [accessConfigDir, ''generations'', revision]) =
      [''.ingitdb'', ''access'', ''generations'', revision]"
  proof -
    have "strings_Split slash accessConfigDir = [''.ingitdb'', ''access'']" "strings_Split slash ''generations'' = [''generations'']"
      by code_simp+
    with isSHA256_segment(1) [OF assms(2)] show ?thesis by (simp add: Split_no_sep plain_seg_def)
  qed
  have "list_all plain_seg [''.ingitdb'', ''access'', ''generations'', revision]"
    using isSHA256_segment(1) [OF assms(2)] by (simp add: plain_seg_def)
  with j(1) sp show s: "csegs (generation_base base revision) = (csegs base @ [''.ingitdb'', ''access'', ''generations'']) @ [revision]"
    by (simp add: generation_base_def clean_stack_plain del: concat.simps list.map)
  then have "generation_base base revision \<noteq> []" by (auto simp: csegs_def clean_stack_def)
  then show "path_Clean (generation_base base revision) = generation_base base revision"
    unfolding generation_base_def by (rule Join_is_clean)
  show "rooted (generation_base base revision) = rooted base" using j(2) by (simp add: generation_base_def)
qed

lemma built_sources:
  assumes "built A ps srcs"
  shows "distinct (map fst srcs)" and "''manifest.yaml'' \<notin> fst ` set srcs" and "\<And>n. n \<in> fst ` set srcs \<Longrightarrow> file_name_ok n"
proof -
  show "distinct (map fst srcs)" using assms by (simp add: built_def wf_map_def)
  have *: "\<exists>s. safePolicyID s \<and> n = policy_file s" if "n \<in> fst ` set srcs" for n
    using assms that by (auto simp: built_def policy_built_def)
  show "''manifest.yaml'' \<notin> fst ` set srcs" using * policy_file_ok(2) by metis
  show "file_name_ok n" if "n \<in> fst ` set srcs" for n using * [OF that] policy_file_ok(1) by blast
qed

lemma materializeGeneration_new:
  assumes b: "buildGeneration A candidate = Inr (manifest, srcs, revision)" and c: "canonical_sources A (ogPolicies candidate)"
    and m: "materializeGeneration E A base revision manifest srcs w = (Inr paths, w')"
    and t: "temp_names A" "base \<noteq> []" "isSHA256 revision"
    and y: "\<And>encoded. yamlMarshalGeneration A manifest = Inr encoded \<Longrightarrow> yamlGeneration A encoded = Inr manifest"
    and n: "\<And>w1. os_Lstat E A (generation_base base revision) w \<noteq> (Inr (Some NDir), w1)"
  shows "verified_generation A (wFs w') (generation_base base revision) revision manifest"
proof -
  let ?d = "generation_base base revision"
  note bu = buildGeneration_built [OF b c] and g = generation_base_facts [OF t(2,3)]
  from bu(3) obtain encoded where e: "yamlMarshalGeneration A manifest = Inr encoded" "revision = acSha256 A encoded" by blast
  obtain w1 where sg: "stage_generation E A ?d encoded srcs w1 = (Inr paths, w')"
    using m n e(1) by (auto simp: materializeGeneration_def Let_def split: prod.splits sum.splits option.splits node.splits)
  have clean: "path_Clean (filepath_Join [?d, n]) = filepath_Join [?d, n]" if "file_name_ok n" for n
  proof (rule Join_rel(3))
    show "?d \<noteq> []" using g(1) Clean_not_empty by metis
    show "list_all plain_seg (strings_Split slash n)" using that by (simp add: file_name_ok_def)
  qed
  note st = stage_generation_Inr [OF sg t(1) g(1,2) isSHA256_segment [OF t(3)] built_sources(3) [OF bu(1)] built_sources(1,2) [OF bu(1)]]
  have "data_at (wFs w') (filepath_Join [?d, ''manifest.yaml'']) = Some encoded" by (rule st) auto
  moreover have "policy_verified A (wFs w') ?d p" if p: "p \<in> set (gmPolicies manifest)" for p
  proof -
    from bu(1) p have "policy_built A srcs p" by (simp add: built_def)
    then obtain doc s where d: "safePolicyID (gpID p)" "gpFile p = policy_file (gpID p)" "go_get srcs (policy_file (gpID p)) = Some s"
        "ParseTugQLPolicy A s = Inr doc" "pdName doc = gpID p" "canonical_digest A doc = gpDigest p" by (auto simp: policy_built_def)
    have "(gpFile p, s) \<in> set srcs" using d(2,3) map_of_SomeD by (force simp: go_get_def)
    then have "data_at (wFs w') (filepath_Join [?d, gpFile p]) = Some s" by (intro st) auto
    moreover have "path_Clean (filepath_Join [?d, gpFile p]) = filepath_Join [?d, gpFile p]"
      using clean policy_file_ok(1) [OF d(1)] d(2) by simp
    ultimately show ?thesis using d unfolding policy_verified_def safe_reference_def policy_file_def by auto
  qed
  moreover have "file_name_ok ''manifest.yaml''" by (auto simp: file_name_ok_def not_temp_def plain_seg_def)
  ultimately show ?thesis using e y bu(2) clean by (auto simp: verified_generation_def)
qed

lemma materializeGeneration_verified:
  assumes "buildGeneration A candidate = Inr (manifest, srcs, revision)" "canonical_sources A (ogPolicies candidate)"
    and m: "materializeGeneration E A base revision manifest srcs w = (Inr paths, w')"
    and "temp_names A" "base \<noteq> []" "isSHA256 revision"
    and "\<And>encoded. yamlMarshalGeneration A manifest = Inr encoded \<Longrightarrow> yamlGeneration A encoded = Inr manifest"
  shows "\<exists>g. verified_generation A (wFs w') (generation_base base revision) revision g"
proof (cases "\<exists>w1. os_Lstat E A (generation_base base revision) w = (Inr (Some NDir), w1)")
  case True
  then obtain w1 where l: "os_Lstat E A (generation_base base revision) w = (Inr (Some NDir), w1)" by blast
  with m obtain u where v: "verifyGeneration E A (generation_base base revision) revision w1 = (Inr u, w')"
    by (auto simp: materializeGeneration_def Let_def res_simps iowrap_Inr)
  then obtain g where g: "readAndVerifyGeneration E A (generation_base base revision) revision w1 = (Inr g, w')"
    by (auto simp: verifyGeneration_def res_simps)
  have "wFs w' = wFs w1" using iokeepsD [OF readAndVerifyGeneration_same g] by (simp add: same_fs_def)
  with readAndVerifyGeneration_Inr [OF g] show ?thesis by metis
next
  case False
  with materializeGeneration_new [OF assms] show ?thesis by blast
qed

lemma verifyGeneration_same: "iokeeps same_fs (verifyGeneration E A base revision)"
  unfolding verifyGeneration_def by (intro untouched.keeps_bind untouched.keeps_ret readAndVerifyGeneration_same)

lemma materializeGeneration_frame:
  fixes w :: "'b world_scheme"
  assumes "\<And>n. n \<in> fst ` set srcs \<Longrightarrow> file_name_ok n" "temp_names A" "base \<noteq> []" "isSHA256 revision"
  shows "frame_rel {q. strictly_inside (path_Dir (generation_base base revision)) q} w
           (snd (materializeGeneration E A base revision manifest srcs w))"
proof -
  let ?d = "generation_base base revision"
  let ?P = "{q. strictly_inside (path_Dir ?d) q}"
  note g = generation_base_facts [OF assms(3,4)]
  obtain l w1 where l: "os_Lstat E A ?d w = (l, w1)" by (cases "os_Lstat E A ?d w")
  have 1: "frame_rel ?P w w1" by (rule iokeepsD [OF same_frame [OF os_Lstat_same] l])
  have st: "frame_rel ?P w1 (snd (stage_generation E A ?d bytes srcs w1))" for bytes
    by (rule stage_generation_frame [OF assms(2) g(1,2) isSHA256_segment [OF assms(4)] assms(1)])
  have ver: "frame_rel ?P w1 (snd (iobind (iowrap m (verifyGeneration E A ?d revision)) (\<lambda>_. ioret ps') w1))" for m ps'
    by (rule iokeepsD [OF _ prod.collapse [symmetric]])
       (intro touched.keeps_bind touched.frame_iowrap touched.keeps_ret same_frame verifyGeneration_same)
  have "frame_rel ?P w1 (snd (materializeGeneration E A base revision manifest srcs w))"
    using st ver touched.frame_refl by (auto simp: materializeGeneration_def Let_def l split: sum.splits option.splits node.splits)
  with 1 show ?thesis by (rule touched.frame_trans)
qed

end
