(* ===== verification/AccessPublish.thy ===== *)
theory AccessPublish
  imports AccessBuild
begin

text \<open>
  Publication of an owner generation: which Git runs it makes, on which head it swaps the
  reference, and which files it may change before and after the swap.
\<close>

section \<open>Steps that publish nothing\<close>

definition private_step :: "string set \<Rightarrow> txworld \<Rightarrow> txworld \<Rightarrow> bool" where
  "private_step P w w' \<longleftrightarrow> unpublished w w' \<and> same_files_but P (wFs w) (wFs w')"

interpretation quiet: world_frame "private_step P" for P
  by unfold_locales (auto simp: private_step_def publishing.frame_refl
      intro: publishing.frame_trans same_files_but_trans)

lemma frame_private: "frame_rel P w w' \<Longrightarrow> P \<subseteq> Q \<Longrightarrow> private_step Q w w'"
  by (cases w; cases w') (auto simp: frame_rel_def private_step_def unpublished_def same_files_but_def)

lemma frame_quiet: "iokeeps (frame_rel P) m \<Longrightarrow> P \<subseteq> Q \<Longrightarrow> iokeeps (private_step Q) m"
  by (erule iokeeps_mono) (erule (1) frame_private)

lemma same_quiet: "iokeeps same_fs m \<Longrightarrow> iokeeps (private_step P) m"
  by (rule frame_quiet [OF same_frame subset_refl])

lemma git_run_quiet: "hd args \<noteq> ''update-ref'' \<Longrightarrow> iokeeps (private_step P) (git_run G dir i inp args)"
  using git_run_unpublished [of args G dir i inp] git_run_only [of G dir i inp args]
  by (auto simp: iokeeps_def private_step_def git_only_def)

lemma git_need_quiet: "hd args \<noteq> ''update-ref'' \<Longrightarrow> iokeeps (private_step P) (git_need G dir i inp msg args)"
  by (auto simp: git_need_def intro!: quiet.keeps_bind git_run_quiet quiet.keeps_ret)

lemma gitHead_quiet: "iokeeps (private_step P) (gitHead E G dir)"
  using gitHead_unpublished [of E G dir] gitHead_only [of E G dir] by (auto simp: iokeeps_def private_step_def git_only_def)

lemma osCreateTemp_quiet: "iokeeps (private_step P) (osCreateTemp G)"
  by (auto simp: iokeeps_def osCreateTemp_def private_step_def unpublished_def)

lemma gitBlob_quiet: "iokeeps (private_step P) (gitBlob G base path)"
  unfolding gitBlob_def by (auto intro!: quiet.keeps_bind git_run_quiet quiet.keeps_ret split: if_splits)

lemma succeeds_keeps: "iokeeps R m \<Longrightarrow> iokeeps R (succeeds m)"
  by (simp add: iokeeps_def succeeds_def case_prod_beta)

lemma act_quiet: "iokeeps (private_step P) (os_call E intact (\<lambda>fs. (f fs, fs)))"
  by (rule same_quiet) (auto simp: iokeeps_def os_call_def same_fs_def intact_def Let_def split: option.splits)

lemma check_untracked_quiet: "iokeeps (private_step P) (check_untracked E A base tracked allowed x)"
  using act_quiet [of P E "\<lambda>_. Inr ()"]
  by (auto simp: iokeeps_def check_untracked_def quiet.frame_refl split: option.splits)

lemma check_rest_quiet: "iokeeps (private_step P) (check_rest E A base dir tracked)"
  unfolding check_rest_def Let_def read_dir_names_def valid_generation_def
  by (intro quiet.keeps_bind quiet.keeps_each quiet.keeps_filter quiet.keeps_catch act_quiet check_untracked_quiet quiet.keeps_ret
        succeeds_keeps same_quiet verifyGeneration_same) (auto intro!: quiet.keeps_ret succeeds_keeps same_quiet verifyGeneration_same)

lemma requireCleanAccessTree_quiet: "iokeeps (private_step P) (requireCleanAccessTree E A G base)"
proof -
  have tracked: "iokeeps (private_step P) (check_tracked E G base p)" for p
    unfolding check_tracked_def
    by (intro quiet.keeps_bind gitBlob_quiet quiet.keeps_catch same_quiet os_ReadFile_same)
       (auto simp: ioguard_def split: if_splits)
  have rest: "iokeeps (private_step P) (\<lambda>w. case os_Stat E dir w of
       (Inl e, w1) \<Rightarrow> if err_is e is_not_exist then (Inr (), w1) else check_rest E A base dir tracked w1
     | (Inr n, w1) \<Rightarrow> check_rest E A base dir tracked w1)" for dir tracked
  proof
    fix w :: txworld
    obtain r w1 where s: "os_Stat E dir w = (r, w1)" by (cases "os_Stat E dir w")
    have 1: "private_step P w w1" by (rule iokeepsD [OF same_quiet [OF os_Stat_same] s])
    have "private_step P w1 (snd (check_rest E A base dir tracked w1))"
      by (rule iokeepsD [OF check_rest_quiet prod.collapse [symmetric]])
    with 1 show "private_step P w (snd (case os_Stat E dir w of
       (Inl e, w1) \<Rightarrow> if err_is e is_not_exist then (Inr (), w1) else check_rest E A base dir tracked w1
     | (Inr n, w1) \<Rightarrow> check_rest E A base dir tracked w1))"
      by (auto simp: s split: sum.splits intro: quiet.frame_trans)
  qed
  show ?thesis
    unfolding requireCleanAccessTree_def Let_def
    by (intro quiet.keeps_bind git_run_quiet) (auto intro!: quiet.keeps_bind quiet.keeps_each tracked rest)
qed

section \<open>The compare and swap\<close>

text \<open>The runs of a policy commit that succeeded.\<close>

definition policy_script :: "string list \<Rightarrow> string \<Rightarrow> string \<Rightarrow> string \<Rightarrow> string \<Rightarrow> string list list" where
  "policy_script paths head blob tree commit =
     [[''read-tree'', if head = [] then ''--empty'' else head],
      [''add'', ''--''] @ paths,
      [''hash-object'', ''-w'', ''--stdin''],
      [''update-index'', ''--add'', ''--cacheinfo'', ''100644,'' @ blob @ '','' @ active_path],
      [''write-tree''],
      [''commit-tree'', tree] @ (if head \<noteq> [] then [''-p'', head] else []),
      [''update-ref'', ''HEAD'', commit, if head = [] then zero_id else head]]"

definition policy_commit :: "string \<Rightarrow> string list \<Rightarrow> string \<Rightarrow> string \<Rightarrow> string \<Rightarrow> gitcall list \<Rightarrow> bool" where
  "policy_commit base paths active head commit calls \<longleftrightarrow>
     length calls = 7 \<and>
     map gcArgs calls = policy_script paths head (strings_TrimSpace (gcOut (calls ! 2))) (strings_TrimSpace (gcOut (calls ! 4))) commit \<and>
     commit = strings_TrimSpace (gcOut (calls ! 5)) \<and> gcStdin (calls ! 2) = active \<and>
     (\<forall>c \<in> set calls. gcOk c \<and> gcDir c = base \<and> gcIndex c \<noteq> None)"

lemma CAS_Inr:
  assumes "gitCommitPolicyCAS A G base paths active msg head w = (Inr commit, w')"
  shows "\<exists>calls. txGitLog w' = txGitLog w @ calls \<and> policy_commit base paths active head commit calls \<and> wFs w' = wFs w"
proof -
  obtain i w1 where "osCreateTemp G w = (Inr i, w1)" "txGitLog w1 = txGitLog w" "wFs w1 = wFs w"
    using assms by (auto simp: gitCommitPolicyCAS_def res_simps osCreateTemp_def)
  with assms obtain c1 c2 c3 c4 c5 c6 c7 where "txGitLog w' = txGitLog w @ [c1, c2, c3, c4, c5, c6, c7]" "wFs w' = wFs w"
      "policy_commit base paths active head commit [c1, c2, c3, c4, c5, c6, c7]"
    by (cases "head = []")
       (auto simp: gitCommitPolicyCAS_def Let_def res_simps git_need_Inr policy_commit_def policy_script_def
          dest!: publication_hook_same)
  then show ?thesis by blast
qed

lemma bind_quiet_Inl:
  assumes "iobind m f w = (Inl e, w')" and "iokeeps (private_step P) m"
    and "\<And>x w1. f x w1 = (Inl e, w') \<Longrightarrow> private_step P w1 w'"
  shows "private_step P w w'"
proof -
  from assms(1) consider "m w = (Inl e, w')" | x w1 where "m w = (Inr x, w1)" "f x w1 = (Inl e, w')"
    by (auto simp: res_simps)
  then show ?thesis by cases (metis assms(2) iokeepsD, metis assms(2,3) iokeepsD quiet.frame_trans)
qed

lemma git_need_Inl_quiet: "git_need G dir i inp msg args w = (Inl e, w') \<Longrightarrow> private_step P w w'"
  using git_need_Inl [of G dir i inp msg args w e w'] iokeepsD [OF git_need_only, of G dir i inp msg args w "Inl e" w']
  by (simp add: private_step_def git_only_def)

lemma CAS_Inl:
  assumes "gitCommitPolicyCAS A G base paths active msg head w = (Inl e, w')"
  shows "private_step P w w'"
  using assms unfolding gitCommitPolicyCAS_def Let_def
  apply (rule bind_quiet_Inl [OF _ osCreateTemp_quiet])
  apply (erule bind_quiet_Inl, simp add: git_need_quiet)
  apply (erule bind_quiet_Inl, simp add: git_need_quiet)
  apply (erule bind_quiet_Inl, simp add: git_need_quiet)
  apply (erule bind_quiet_Inl, simp add: git_need_quiet)
  apply (erule bind_quiet_Inl, simp add: git_need_quiet)
  apply (erule bind_quiet_Inl, simp add: git_need_quiet)
  apply (erule bind_quiet_Inl, simp add: hook_keeps quiet.frame_refl)
  apply (auto simp: res_simps dest: git_need_Inl_quiet)
  done

text \<open>What the publisher has seen before it decides: the head, and the generation its manifest names.\<close>

definition seen_generation :: "'p access_api \<Rightarrow> string \<Rightarrow> string \<Rightarrow> string \<Rightarrow> gitcall list \<Rightarrow> bool" where
  "seen_generation A base head revision calls \<longleftrightarrow>
     (\<exists>c. gcArgs c = [''rev-parse'', ''--verify'', ''HEAD^{commit}''] \<and> gcDir c = base \<and>
        head = (if gcOk c then strings_TrimSpace (gcOut c) else []) \<and>
        (if head = [] then calls = [c] \<and> revision = []
         else \<exists>c'. calls = [c, c'] \<and> gcArgs c' = [''show'', head @ '':'' @ active_path] \<and> gcDir c' = base \<and>
           revision = (if \<not> gcOk c' then [] else case yamlActiveLoose A (gcOut c') of Inl _ \<Rightarrow> [] | Inr m \<Rightarrow> amGeneration m)))"

lemma seen_generation_Inr:
  assumes "gitHead E G base w = (Inr h, w1)" "oldHead = (case h of Some x \<Rightarrow> x | None \<Rightarrow> [])"
    and "committedGenerationRevisionAt A G base oldHead w1 = (r, w2)"
  obtains current calls where "r = Inr current" "txGitLog w2 = txGitLog w @ calls" "seen_generation A base oldHead current calls"
    "wFs w2 = wFs w" "\<forall>c \<in> set calls. \<not> published c"
proof -
  define c where "c = last (txGitLog w1)"
  note c = gitHead_Inr [OF assms(1), folded c_def]
  have fs: "wFs w1 = wFs w" using iokeepsD [OF gitHead_only assms(1)] by (simp add: git_only_def)
  have h: "oldHead = (if gcOk c then strings_TrimSpace (gcOut c) else [])" using assms(2) c(4) by (auto split: if_splits)
  have np: "\<not> published c" using c(3) by (simp add: published_def)
  show ?thesis
  proof (cases "oldHead = []")
    case True
    with assms(3) c h fs np show ?thesis
      by (intro that [of "[]" "[c]"]) (auto simp: committedGenerationRevisionAt_def ioret_def seen_generation_def)
  next
    case False
    obtain ok out where g: "gRun G (wTick w1) base None [] [''show'', oldHead @ '':'' @ active_path] = (ok, out)" by force
    define c' where "c' = \<lparr>gcDir = base, gcArgs = [''show'', oldHead @ '':'' @ active_path], gcIndex = None, gcStdin = [],
      gcOk = ok, gcOut = out\<rparr>"
    define current where "current = (if \<not> gcOk c' then [] else case yamlActiveLoose A (gcOut c') of Inl _ \<Rightarrow> [] | Inr m \<Rightarrow> amGeneration m)"
    have "r = Inr current" "txGitLog w2 = txGitLog w1 @ [c']" "wFs w2 = wFs w1"
        "gcArgs c' = [''show'', oldHead @ '':'' @ active_path]" "gcDir c' = base"
      using assms(3) False g
      by (auto simp: committedGenerationRevisionAt_def git_run_def iobind_def ioret_def c'_def current_def)
    with False c h fs np show ?thesis
      by (intro that [of current "[c, c']"]) (simp_all add: seen_generation_def published_def current_def)
  qed
qed

section \<open>Publication\<close>

definition generations_dir :: "string \<Rightarrow> string" where
  "generations_dir base = filepath_Join [base, accessConfigDir, ''generations'']"

definition manifest_path :: "string \<Rightarrow> string" where
  "manifest_path base = filepath_Join [base, accessConfigDir, ''manifest.yaml'']"

lemma access_paths:
  assumes "base \<noteq> []"
  shows "csegs (manifest_path base) = csegs base @ [''.ingitdb'', ''access'', ''manifest.yaml'']"
    and "rooted (manifest_path base) = rooted base" and "path_Clean (manifest_path base) = manifest_path base"
    and "csegs (generations_dir base) = csegs base @ [''.ingitdb'', ''access'', ''generations'']"
    and "rooted (generations_dir base) = rooted base" and "path_Clean (generations_dir base) = generations_dir base"
    and "isSHA256 revision \<Longrightarrow> path_Dir (generation_base base revision) = generations_dir base"
proof -
  have sp: "concat (map (strings_Split slash) [accessConfigDir, n]) = [''.ingitdb'', ''access'', n]" if "plain_seg n" for n
  proof -
    have "strings_Split slash accessConfigDir = [''.ingitdb'', ''access'']" by code_simp
    with that show ?thesis by (simp add: Split_no_sep plain_seg_def)
  qed
  have j: "csegs (filepath_Join [base, accessConfigDir, n]) = csegs base @ [''.ingitdb'', ''access'', n]"
      "rooted (filepath_Join [base, accessConfigDir, n]) = rooted base"
      "path_Clean (filepath_Join [base, accessConfigDir, n]) = filepath_Join [base, accessConfigDir, n]" if n: "plain_seg n" for n
  proof -
    have "list_all plain_seg [''.ingitdb'', ''access'', n]" using n by (simp add: plain_seg_def)
    then show c: "csegs (filepath_Join [base, accessConfigDir, n]) = csegs base @ [''.ingitdb'', ''access'', n]"
      using filepath_Join_segs(1) [OF assms, of "[accessConfigDir, n]"] unfolding sp [OF n] by (simp add: clean_stack_plain)
    show "rooted (filepath_Join [base, accessConfigDir, n]) = rooted base" by (rule filepath_Join_segs(2) [OF assms])
    from c have "filepath_Join [base, accessConfigDir, n] \<noteq> []" by (auto simp: csegs_def clean_stack_def)
    then show "path_Clean (filepath_Join [base, accessConfigDir, n]) = filepath_Join [base, accessConfigDir, n]" by (rule Join_is_clean)
  qed
  have p: "plain_seg ''manifest.yaml''" "plain_seg ''generations''" by (auto simp: plain_seg_def)
  from j [OF p(1)] show "csegs (manifest_path base) = csegs base @ [''.ingitdb'', ''access'', ''manifest.yaml'']"
    "rooted (manifest_path base) = rooted base" "path_Clean (manifest_path base) = manifest_path base" by (simp_all add: manifest_path_def)
  from j [OF p(2)] show g: "csegs (generations_dir base) = csegs base @ [''.ingitdb'', ''access'', ''generations'']"
    "rooted (generations_dir base) = rooted base" "path_Clean (generations_dir base) = generations_dir base" by (simp_all add: generations_dir_def)
  show "path_Dir (generation_base base revision) = generations_dir base" if r: "isSHA256 revision"
  proof -
    let ?d = "path_Dir (generation_base base revision)"
    have "path_Clean ?d = ?d" by (simp add: path_Dir_def)
    then have "?d = render (rooted ?d) (csegs ?d)" by (rule clean_by_segs)
    also have "\<dots> = render (rooted (generations_dir base)) (csegs (generations_dir base))"
      using path_Dir_clean(1,2) [OF generation_base_facts(1,2) [OF assms r]] generation_base_facts(3) [OF assms r] g(1,2) by simp
    also have "\<dots> = generations_dir base" using clean_by_segs [OF g(3)] by simp
    finally show ?thesis .
  qed
qed

text \<open>What the working pointer may disturb: itself and the temporary files beside it.\<close>

definition pointer_files :: "'p access_api \<Rightarrow> string \<Rightarrow> string set" where
  "pointer_files A base = insert (manifest_path base) (range (\<lambda>n. path_Clean (temp_of A (manifest_path base) n)))"

lemma pointer_outside:
  assumes "temp_names A" "base \<noteq> []" "q \<in> pointer_files A base"
  shows "\<not> strictly_inside (generations_dir base) q"
proof -
  note a = access_paths [OF assms(2)]
  have sp: "csegs (manifest_path base) = (csegs base @ [''.ingitdb'', ''access'']) @ [''manifest.yaml'']" using a(1) by simp
  note t = temp_of_segs [OF assms(1) a(3) sp]
  from assms(3) obtain x where "csegs q = csegs base @ [''.ingitdb'', ''access'', x]"
    using a(1) t by (auto simp: pointer_files_def)
  with a(4) show ?thesis by (auto simp: inside_segs)
qed

lemma activate_frame:
  assumes "base \<noteq> []"
  shows "iokeeps (frame_rel (pointer_files A base)) (activate E A base active :: ('b world_scheme, dberr, unit) io)"
  unfolding activate_def Let_def manifest_path_def [symmetric]
  by (intro touched.keeps_bind touched.frame_iowrap same_frame rejectSymlinkAncestors_same atomicWriteFile_frame)
     (auto simp: pointer_files_def access_paths(3) [OF assms])

lemma activate_Inr:
  fixes w :: "'b world_scheme"
  assumes "activate E A base active w = (Inr u, w')" "temp_names A" "base \<noteq> []"
  shows "data_at (wFs w') (manifest_path base) = Some active \<and> same_files_but {manifest_path base} (wFs w) (wFs w') \<and>
    world.more w' = world.more w"
proof -
  note a = access_paths [OF assms(3)]
  obtain w1 where 1: "rejectSymlinkAncestors E A base (path_Dir (manifest_path base)) w = (Inr (), w1)"
      and 2: "atomicWriteFile E A (manifest_path base) active 420 w1 = (Inr u, w')"
    using assms(1) by (auto simp: activate_def Let_def manifest_path_def [symmetric] res_simps iowrap_Inr)
  have sp: "csegs (manifest_path base) = (csegs base @ [''.ingitdb'', ''access'']) @ [''manifest.yaml'']" using a(1) by simp
  have "path_Clean (temp_of A (manifest_path base) n) \<noteq> path_Clean (manifest_path base)" for n
    using temp_of_segs [OF assms(2) a(3) sp, of n] a(1,3) by auto
  from atomicWriteFile_Inr [OF 2 this] a(3)
  have "data_at (wFs w') (manifest_path base) = Some active" "same_files_but {manifest_path base} (wFs w1) (wFs w')" by simp_all
  moreover have "same_fs w w1" using rejectSymlinkAncestors_same 1 by (rule iokeepsD)
  moreover have "world.more w' = world.more w" using iokeepsD [OF activate_frame [OF assms(3)] assms(1)] by (simp add: frame_rel_def)
  ultimately show ?thesis by (simp add: same_fs_def)
qed

text \<open>A verified generation is unaffected by changes outside the generations.\<close>

lemma generation_file_kept:
  assumes "base \<noteq> []" "isSHA256 revision" "same_files_but P fs fs'" "\<And>q. q \<in> P \<Longrightarrow> \<not> strictly_inside (generations_dir base) q"
  shows "file_name_ok n \<Longrightarrow> data_at fs' (path_Clean (filepath_Join [generation_base base revision, n])) =
      data_at fs (path_Clean (filepath_Join [generation_base base revision, n]))"
    and "policy_verified A fs (generation_base base revision) p \<Longrightarrow> policy_verified A fs' (generation_base base revision) p"
proof -
  let ?d = "generation_base base revision"
  note g = generation_base_facts [OF assms(1,2)] and a = access_paths [OF assms(1)]
  have ne: "?d \<noteq> []" using g(1) Clean_not_empty by metis
  have same: "data_at fs' (path_Clean (filepath_Join [?d, n])) = data_at fs (path_Clean (filepath_Join [?d, n]))" if "file_name_ok n" for n
  proof -
    have pl: "list_all plain_seg (strings_Split slash n)" using that by (simp add: file_name_ok_def)
    note j = Join_rel [OF ne pl]
    have "strictly_inside (generations_dir base) (filepath_Join [?d, n])"
      using j g a pl isSHA256_segment(1) [OF assms(2)] by (auto simp: inside_segs)
    then have "filepath_Join [?d, n] \<notin> P" using assms(4) by blast
    with assms(3) j(3) show ?thesis by (simp add: same_files_but_def data_at_def)
  qed
  then show "file_name_ok n \<Longrightarrow> data_at fs' (path_Clean (filepath_Join [?d, n])) = data_at fs (path_Clean (filepath_Join [?d, n]))" .
  have p: "file_name_ok (gpFile p)" if "safe_reference p" for p
    using that policy_file_ok(1) [of "gpID p"] by (simp add: safe_reference_def policy_file_def)
  show "policy_verified A fs' ?d p" if "policy_verified A fs ?d p"
    using that same [OF p [of p]] by (auto simp: policy_verified_def)
qed

lemma manifest_name_ok: "file_name_ok ''manifest.yaml''"
  by (auto simp: file_name_ok_def not_temp_def plain_seg_def)

lemma verified_generation_kept:
  assumes "verified_generation A fs (generation_base base revision) revision g" "base \<noteq> []" "isSHA256 revision"
    and "same_files_but P fs fs'" "\<And>q. q \<in> P \<Longrightarrow> \<not> strictly_inside (generations_dir base) q"
  shows "verified_generation A fs' (generation_base base revision) revision g"
  using assms(1) generation_file_kept(1) [OF assms(2-5) manifest_name_ok] generation_file_kept(2) [OF assms(2-5), of A]
  by (auto simp: verified_generation_def)

text \<open>
  The whole publication under the lock. Either nothing was published and only the
  generations changed, or the last run swapped the reference, away from the head whose
  manifest named the expected revision.
\<close>

definition swapped :: "'p access_api \<Rightarrow> string \<Rightarrow> string \<Rightarrow> string \<Rightarrow> gitcall list \<Rightarrow> bool" where
  "swapped A base expected commit calls \<longleftrightarrow>
     (\<exists>head seen others swap. calls = seen @ others @ [swap] \<and> seen_generation A base head expected seen \<and>
        (\<forall>c \<in> set (seen @ others). \<not> published c) \<and> gcOk swap \<and> gcDir swap = base \<and>
        gcArgs swap = [''update-ref'', ''HEAD'', commit, if head = [] then zero_id else head])"

lemma policy_commit_last:
  assumes "policy_commit base paths active head commit calls"
  obtains others swap where "calls = others @ [swap]" "\<forall>c \<in> set others. \<not> published c" "gcOk swap" "gcDir swap = base"
    "gcArgs swap = [''update-ref'', ''HEAD'', commit, if head = [] then zero_id else head]"
proof -
  from assms have "length calls = 7" by (simp add: policy_commit_def)
  then obtain c1 c2 c3 c4 c5 c6 c7 where c: "calls = [c1, c2, c3, c4, c5, c6, c7]"
    by (auto simp: numeral_eq_Suc length_Suc_conv)
  show ?thesis
    by (rule that [of "[c1, c2, c3, c4, c5, c6]" c7]) (use assms in \<open>auto simp: c policy_commit_def policy_script_def published_def\<close>)
qed

definition generation_files :: "string \<Rightarrow> string set" where
  "generation_files base = {q. strictly_inside (generations_dir base) q}"

lemma publish_tail:
  fixes w :: txworld
  assumes "iobind (publication_hook A s1) (\<lambda>_. iobind (activate E A base active) (\<lambda>_. iobind (publication_hook A s2) (\<lambda>_. ioret pub))) w = (r, w')"
    and "base \<noteq> []"
  shows "frame_rel (pointer_files A base) w w'"
proof -
  have "iokeeps (frame_rel (pointer_files A base)) (iobind (publication_hook A s1) (\<lambda>_. iobind (activate E A base active) (\<lambda>_.
      iobind (publication_hook A s2) (\<lambda>_. ioret pub))))"
    by (intro touched.keeps_bind hook_keeps touched.frame_refl activate_frame assms(2) touched.keeps_ret)
  then show ?thesis using assms(1) by (rule iokeepsD)
qed

lemma iokeeps_at: "iokeeps R m \<Longrightarrow> R w (snd (m w))"
  by (simp add: iokeeps_def)

lemma build_quiet:
  assumes "temp_names A" "base \<noteq> []" "\<forall>x. isSHA256 (acSha256 A x)"
  shows "iokeeps (private_step (generation_files base)) (build_and_materialize E A base candidate)"
proof (cases "buildGeneration A candidate")
  case (Inl e)
  then show ?thesis by (simp add: build_and_materialize_def iolift_def iokeeps_def iobind_def io_defs quiet.frame_refl)
next
  case (Inr x)
  obtain manifest sources revision where x: "x = (manifest, sources, revision)" by (cases x)
  note b = Inr [unfolded x]
  have sha: "isSHA256 revision" using b assms(3) by (auto simp: buildGeneration_def Let_def res_simps split: if_splits)
  have "iokeeps (private_step (generation_files base)) (materializeGeneration E A base revision manifest sources)"
  proof
    fix w :: txworld
    have "frame_rel {q. strictly_inside (generations_dir base) q} w (snd (materializeGeneration E A base revision manifest sources w))"
      using materializeGeneration_frame [OF buildGeneration_names [OF b] assms(1,2) sha, where w = w]
      unfolding access_paths(7) [OF assms(2) sha] .
    then show "private_step (generation_files base) w (snd (materializeGeneration E A base revision manifest sources w))"
      by (rule frame_private) (simp add: generation_files_def)
  qed
  then show ?thesis
    unfolding build_and_materialize_def b iobind_io case_prod_conv
    by (intro quiet.keeps_bind hook_keeps quiet.frame_refl) (simp_all add: iokeeps_def iolift_def ioret_def quiet.frame_refl)
qed

lemma publish_before_swap:
  assumes "publish_locked E A G base candidate expected msg w = (r, w')"
    and "temp_names A" "base \<noteq> []" "\<forall>x. isSHA256 (acSha256 A x)"
  obtains (kept) e where "r = Inl e" "private_step (generation_files base) w w'"
    | (ready) oldHead seen w2 revision paths active w3 where "seen_generation A base oldHead expected seen"
        "txGitLog w2 = txGitLog w @ seen" "private_step (generation_files base) w w2" "\<forall>c \<in> set seen. \<not> published c"
        "private_step (generation_files base) w2 w3" 
        "iobind (gitCommitPolicyCAS A G base paths active msg oldHead) (\<lambda>commit. iobind (publication_hook A ''head_committed'') (\<lambda>_.
           iobind (activate E A base active) (\<lambda>_. iobind (publication_hook A ''working_pointer_activated'') (\<lambda>_.
             ioret \<lparr>opRevision = revision, opGitCommit = commit\<rparr>)))) w3 = (r, w')"
        "\<exists>wb. build_and_materialize E A base candidate wb = (Inr (revision, paths, active), w3)"
proof -
  let ?P = "generation_files base"
  let ?f = "\<lambda>oldHead (revision, paths, active). iobind (gitCommitPolicyCAS A G base paths active msg oldHead) (\<lambda>commit.
     iobind (publication_hook A ''head_committed'') (\<lambda>_. iobind (activate E A base active) (\<lambda>_.
     iobind (publication_hook A ''working_pointer_activated'') (\<lambda>_. ioret \<lparr>opRevision = revision, opGitCommit = commit\<rparr>))))"
  let ?rest = "iobind (requireCleanAccessTree E A G base) (\<lambda>_. build_and_materialize E A base candidate)"
  have split: "publish_locked E A G base candidate expected msg w =
      iobind (gitHead E G base) (\<lambda>head. let oldHead = (case head of Some h \<Rightarrow> h | None \<Rightarrow> []) in
        iobind (committedGenerationRevisionAt A G base oldHead) (\<lambda>current.
        iobind (ioguard (current = expected) (EMsg ''owner policy revision conflict'' [expected, current])) (\<lambda>_.
        iobind ?rest (?f oldHead)))) w"
    by (simp add: publish_locked_def iobind_assoc)
  obtain h0 w1 where h0: "gitHead E G base w = (h0, w1)" by (cases "gitHead E G base w")
  have q1: "private_step ?P w w1" by (rule iokeepsD [OF gitHead_quiet h0])
  show ?thesis
  proof (cases h0)
    case (Inl e)
    with split h0 q1 assms(1) show ?thesis by (intro kept [of e]) (auto simp: iobind_def)
  next
    case (Inr h)
    define old where "old = (case h of Some x \<Rightarrow> x | None \<Rightarrow> [])"
    obtain c0 w2 where c0: "committedGenerationRevisionAt A G base old w1 = (c0, w2)" by (cases "committedGenerationRevisionAt A G base old w1")
    from seen_generation_Inr [OF h0 [unfolded Inr] old_def c0] obtain current seen where
      s: "c0 = Inr current" "txGitLog w2 = txGitLog w @ seen" "seen_generation A base old current seen" "wFs w2 = wFs w"
        "\<forall>c \<in> set seen. \<not> published c" .
    have q2: "private_step ?P w w2" using s by (auto simp: private_step_def unpublished_def)
    have p: "iobind (ioguard (current = expected) (EMsg ''owner policy revision conflict'' [expected, current])) (\<lambda>_.
        iobind ?rest (?f old)) w2 = (r, w')"
      using assms(1) h0 Inr c0 s(1) unfolding split by (simp add: iobind_step Let_def old_def)
    show ?thesis
    proof (cases "current = expected")
      case False
      with p q2 show ?thesis by (intro kept) (auto simp: iobind_def ioguard_def io_defs)
    next
      case True
      with p have p: "iobind ?rest (?f old) w2 = (r, w')" by (simp add: ioguard_def iobind_def io_defs)
      obtain b w3 where b: "?rest w2 = (b, w3)" by (cases "?rest w2")
      have q3: "private_step ?P w2 w3"
      proof -
        have "iokeeps (private_step ?P) ?rest" by (intro quiet.keeps_bind requireCleanAccessTree_quiet build_quiet assms(2-4))
        then show ?thesis using b by (rule iokeepsD)
      qed
      show ?thesis
      proof (cases b)
        case (Inl e)
        with p b quiet.frame_trans [OF q2 q3] show ?thesis by (intro kept [of e]) (auto simp: iobind_def)
      next
        case (Inr x)
        obtain revision paths active where x: "x = (revision, paths, active)" by (cases x)
        have "\<exists>wb. build_and_materialize E A base candidate wb = (Inr x, w3)" using b Inr by (auto simp: res_simps)
        with p b Inr x s q2 q3 True show ?thesis by (intro ready [of old seen w2 w3 paths active revision]) (auto simp: iobind_def)
      qed
    qed
  qed
qed

text \<open>A publication either publishes nothing, or makes exactly the one guarded swap as its last run.\<close>

lemma publish_locked_swap:
  assumes "publish_locked E A G base candidate expected msg w = (r, w')"
    and "temp_names A" "base \<noteq> []" "\<forall>x. isSHA256 (acSha256 A x)"
  obtains (kept) e where "r = Inl e" "private_step (generation_files base) w w'"
    | (swapped) commit calls revision paths active and wb w3 w4 :: txworld where "txGitLog w' = txGitLog w @ calls" "swapped A base expected commit calls"
        "build_and_materialize E A base candidate wb = (Inr (revision, paths, active), w3)"
        "wFs w4 = wFs w3" "same_files_but (generation_files base) (wFs w) (wFs w4)"
        "iobind (publication_hook A ''head_committed'') (\<lambda>_. iobind (activate E A base active) (\<lambda>_.
           iobind (publication_hook A ''working_pointer_activated'') (\<lambda>_.
             ioret \<lparr>opRevision = revision, opGitCommit = commit\<rparr>))) w4 = (r, w')"
  using assms
proof (cases rule: publish_before_swap)
  case (ready oldHead seen w2 revision paths active w3)
  let ?P = "generation_files base"
  have q: "private_step ?P w w3" using ready(3,5) by (rule quiet.frame_trans)
  obtain c w4 where c: "gitCommitPolicyCAS A G base paths active msg oldHead w3 = (c, w4)"
    by (cases "gitCommitPolicyCAS A G base paths active msg oldHead w3")
  show ?thesis
  proof (cases c)
    case (Inl e)
    with ready(6) c quiet.frame_trans [OF q CAS_Inl] show ?thesis by (intro kept [of e]) (auto simp: iobind_step)
  next
    case (Inr commit)
    from CAS_Inr [OF c [unfolded Inr]] obtain run where run: "txGitLog w4 = txGitLog w3 @ run" "wFs w4 = wFs w3"
        "policy_commit base paths active oldHead commit run" by blast
    from run(3) obtain others swap where o: "run = others @ [swap]" "\<forall>c \<in> set others. \<not> published c" "gcOk swap" "gcDir swap = base"
        "gcArgs swap = [''update-ref'', ''HEAD'', commit, if oldHead = [] then zero_id else oldHead]" by (rule policy_commit_last)
    from ready(5) obtain quiets where qs: "txGitLog w3 = txGitLog w2 @ quiets" "\<forall>c \<in> set quiets. \<not> published c"
      by (auto simp: private_step_def unpublished_def)
    have rest: "iobind (publication_hook A ''head_committed'') (\<lambda>_. iobind (activate E A base active) (\<lambda>_.
           iobind (publication_hook A ''working_pointer_activated'') (\<lambda>_.
             ioret \<lparr>opRevision = revision, opGitCommit = commit\<rparr>))) w4 = (r, w')"
      using ready(6) c Inr by (simp add: iobind_step)
    have "txGitLog w' = txGitLog w4" using publish_tail [OF rest assms(3)] by (cases w'; cases w4) (simp add: frame_rel_def)
    then have 1: "txGitLog w' = txGitLog w @ (seen @ (quiets @ others) @ [swap])" using ready(2) qs(1) run(1) o(1) by simp
    have 2: "swapped A base expected commit (seen @ (quiets @ others) @ [swap])"
      unfolding swapped_def using ready(1,4) qs(2) o by (intro exI conjI) auto
    have 5: "same_files_but ?P (wFs w) (wFs w4)" using q run(2) by (simp add: private_step_def)
    obtain wb where 3: "build_and_materialize E A base candidate wb = (Inr (revision, paths, active), w3)" using ready(7) ..
    show ?thesis by (rule swapped [OF 1 2 3 run(2) 5 rest])
  qed
qed (erule kept, assumption)

text \<open>The manifest that is built decodes to itself.\<close>

definition generation_codec :: "'p access_api \<Rightarrow> OwnerPolicyGeneration \<Rightarrow> bool" where
  "generation_codec A candidate \<longleftrightarrow>
     (\<forall>manifest sources revision encoded. buildGeneration A candidate = Inr (manifest, sources, revision) \<longrightarrow>
        yamlMarshalGeneration A manifest = Inr encoded \<longrightarrow> yamlGeneration A encoded = Inr manifest)"

lemma publish_locked_Inr:
  assumes "publish_locked E A G base candidate expected msg w = (Inr pub, w')"
    and "temp_names A" "base \<noteq> []" "\<forall>x. isSHA256 (acSha256 A x)" "canonical_sources A (ogPolicies candidate)"
    and "generation_codec A candidate"
  obtains manifest sources active g where "buildGeneration A candidate = Inr (manifest, sources, opRevision pub)"
    "yamlMarshalActive A (active_manifest candidate manifest (opRevision pub)) = Inr active"
    "data_at (wFs w') (manifest_path base) = Some active"
    "verified_generation A (wFs w') (generation_base base (opRevision pub)) (opRevision pub) g"
    "same_files_but (insert (manifest_path base) (generation_files base)) (wFs w) (wFs w')"
  using assms(1-4)
proof (cases rule: publish_locked_swap)
  case (swapped commit calls revision paths active wb w3 w4)
  from swapped(6) obtain w5 where p: "pub = \<lparr>opRevision = revision, opGitCommit = commit\<rparr>" and a: "activate E A base active w4 = (Inr (), w5)"
      and w5: "w' = w5"
    by (auto simp: res_simps dest!: publication_hook_same)
  from swapped(3) obtain manifest sources wc where b: "buildGeneration A candidate = Inr (manifest, sources, revision)"
      and m: "materializeGeneration E A base revision manifest sources wb = (Inr paths, wc)" and w3: "w3 = wc"
      and y: "yamlMarshalActive A (active_manifest candidate manifest revision) = Inr active"
    by (auto simp: build_and_materialize_def res_simps dest!: publication_hook_same)
  have sha: "isSHA256 revision" using b assms(4) by (auto simp: buildGeneration_def Let_def res_simps split: if_splits)
  have codec: "yamlGeneration A encoded = Inr manifest" if "yamlMarshalGeneration A manifest = Inr encoded" for encoded
    using assms(6) b that by (auto simp: generation_codec_def)
  obtain g where g: "verified_generation A (wFs wc) (generation_base base revision) revision g"
    using materializeGeneration_verified [OF b assms(5) m assms(2,3) sha codec] by blast
  note act = activate_Inr [OF a assms(2,3)]
  have "verified_generation A (wFs w5) (generation_base base revision) revision g"
  proof (rule verified_generation_kept [OF _ assms(3) sha])
    show "verified_generation A (wFs w4) (generation_base base revision) revision g" using g swapped(4) w3 by simp
    show "same_files_but {manifest_path base} (wFs w4) (wFs w5)" using act by blast
    show "\<not> strictly_inside (generations_dir base) q" if "q \<in> {manifest_path base}" for q
      using pointer_outside [OF assms(2,3), of q] that by (simp add: pointer_files_def)
  qed
  moreover have "same_files_but (insert (manifest_path base) (generation_files base)) (wFs w) (wFs w5)"
    using act swapped(5) by (auto simp: same_files_but_def)
  ultimately show ?thesis using that [of manifest sources active g] b y act p w5 by simp
qed simp

end
