(* ===== verification/AccessRecovery.thy ===== *)
theory AccessRecovery
  imports AccessPublish
begin

text \<open>
  Recovery after a publication that stopped between the commit and the working pointer:
  the committed generation is fetched from Git, checked, placed in the working tree, and
  only then the committed manifest becomes the working one.
\<close>

section \<open>Names of committed files\<close>

definition committed_name :: "string \<Rightarrow> string \<Rightarrow> string" where
  "committed_name revision n = filepath_Join [accessConfigDir, ''generations'', revision, n]"

lemma committed_name_eq:
  assumes "isSHA256 revision" "file_name_ok n"
  shows "committed_name revision n = filepath_Join [accessConfigDir, ''generations'', revision] @ ''/'' @ n"
    and "strings_Split slash (committed_name revision n) = [''.ingitdb'', ''access'', ''generations'', revision] @ strings_Split slash n"
proof -
  have ne: "accessConfigDir \<noteq> []" "csegs accessConfigDir = [''.ingitdb'', ''access'']" "\<not> rooted accessConfigDir" by code_simp+
  have g: "strings_Split slash ''generations'' = [''generations'']" by code_simp
  have r: "strings_Split slash revision = [revision]" "plain_seg revision"
    using isSHA256_segment(1) [OF assms(1)] by (simp_all add: Split_no_sep plain_seg_def)
  have pl: "list_all plain_seg (strings_Split slash n)" using assms(2) by (simp add: file_name_ok_def)
  have pg: "plain_seg ''generations''" by (simp add: plain_seg_def)
  have j: "filepath_Join (accessConfigDir # es) =
      strings_Join ([''.ingitdb'', ''access''] @ concat (map (strings_Split slash) es)) [slash]"
    if "list_all plain_seg (concat (map (strings_Split slash) es))" for es
  proof -
    have "csegs (filepath_Join (accessConfigDir # es)) = [''.ingitdb'', ''access''] @ concat (map (strings_Split slash) es)"
      using filepath_Join_segs(1) [OF ne(1), of es] that ne(2) by (simp add: clean_stack_plain)
    moreover from this have "filepath_Join (accessConfigDir # es) \<noteq> []" by (auto simp: csegs_def clean_stack_def)
    moreover have "\<not> rooted (filepath_Join (accessConfigDir # es))" using filepath_Join_segs(2) [OF ne(1)] ne(3) by simp
    ultimately show ?thesis using clean_by_segs [OF Join_is_clean, of "accessConfigDir # es"] by (simp add: render_def)
  qed
  have 1: "committed_name revision n = strings_Join ([''.ingitdb'', ''access'', ''generations'', revision] @ strings_Split slash n) [slash]"
    unfolding committed_name_def using j [of "[''generations'', revision, n]"] g r pl pg by simp
  also have "\<dots> = strings_Join [''.ingitdb'', ''access'', ''generations'', revision] [slash] @ [slash] @ n"
    using Join_append [of "[''.ingitdb'', ''access'', ''generations'', revision]" "strings_Split slash n" "[slash]"] Split_nonempty Join_Split by simp
  also have "strings_Join [''.ingitdb'', ''access'', ''generations'', revision] [slash] = filepath_Join [accessConfigDir, ''generations'', revision]"
    using j [of "[''generations'', revision]"] g r pg by simp
  finally show "committed_name revision n = filepath_Join [accessConfigDir, ''generations'', revision] @ ''/'' @ n" by simp
  show "strings_Split slash (committed_name revision n) = [''.ingitdb'', ''access'', ''generations'', revision] @ strings_Split slash n"
    unfolding 1 using r pl pg by (intro Split_Join) (auto simp: list_all_iff plain_seg_def)
qed

lemma committed_place:
  assumes "isSHA256 revision" "file_name_ok n" "base \<noteq> []"
  shows "filepath_Join [base, committed_name revision n] = filepath_Join [generation_base base revision, n]"
    and "path_Clean (filepath_Join [generation_base base revision, n]) = filepath_Join [generation_base base revision, n]"
    and "strings_TrimPrefix (committed_name revision n) (filepath_Join [accessConfigDir, ''generations'', revision] @ ''/'') = n"
    and "n \<noteq> committed_name revision n"
proof -
  have pl: "list_all plain_seg (strings_Split slash n)" using assms(2) by (simp add: file_name_ok_def)
  have "plain_seg revision" by (rule isSHA256_segment(1) [OF assms(1)])
  then have pc: "list_all plain_seg (strings_Split slash (committed_name revision n))"
    unfolding committed_name_eq(2) [OF assms(1,2)] using pl by (simp add: plain_seg_def)
  note g = generation_base_facts [OF assms(3,1)]
  have ne: "generation_base base revision \<noteq> []" using g(1) Clean_not_empty by metis
  note a = Join_rel [OF assms(3) pc] and b = Join_rel [OF ne pl]
  show "path_Clean (filepath_Join [generation_base base revision, n]) = filepath_Join [generation_base base revision, n]" by (rule b(3))
  have "filepath_Join [base, committed_name revision n] = render (rooted base) (csegs base @ strings_Split slash (committed_name revision n))"
    using clean_by_segs [OF a(3)] a(1,2) by simp
  also have "\<dots> = render (rooted (generation_base base revision)) (csegs (generation_base base revision) @ strings_Split slash n)"
    using g committed_name_eq(2) [OF assms(1,2)] by simp
  also have "\<dots> = filepath_Join [generation_base base revision, n]" using clean_by_segs [OF b(3)] b(1,2) by simp
  finally show "filepath_Join [base, committed_name revision n] = filepath_Join [generation_base base revision, n]" .
  show "strings_TrimPrefix (committed_name revision n) (filepath_Join [accessConfigDir, ''generations'', revision] @ ''/'') = n"
    by (simp add: strings_TrimPrefix_def committed_name_eq(1) [OF assms(1,2)])
  show "n \<noteq> committed_name revision n" by (simp add: committed_name_eq(1) [OF assms(1,2)])
qed

section \<open>What was fetched\<close>

text \<open>Every fetched file has the name of a file of the generation.\<close>

definition fetched_names :: "string \<Rightarrow> string go_map \<Rightarrow> bool" where
  "fetched_names revision blobs \<longleftrightarrow>
     wf_map blobs \<and> (\<forall>k \<in> fst ` set blobs. \<exists>n. file_name_ok n \<and> k = committed_name revision n)"

definition policy_fetched :: "'p access_api \<Rightarrow> string \<Rightarrow> string go_map \<Rightarrow> generationPolicy \<Rightarrow> bool" where
  "policy_fetched A revision blobs p \<longleftrightarrow>
     safe_reference p \<and> (\<exists>data doc. go_get blobs (committed_name revision (gpFile p)) = Some data \<and>
        ParseTugQLPolicy A data = Inr doc \<and> pdName doc = gpID p \<and> canonical_digest A doc = gpDigest p)"

lemma safe_reference_file: "safe_reference p \<Longrightarrow> gpFile p = policy_file (gpID p) \<and> file_name_ok (gpFile p) \<and> gpFile p \<noteq> ''manifest.yaml''"
  using policy_file_ok [of "gpID p"] by (simp add: safe_reference_def policy_file_def)

lemma committed_name_inject:
  "isSHA256 revision \<Longrightarrow> file_name_ok n \<Longrightarrow> file_name_ok m \<Longrightarrow> committed_name revision n = committed_name revision m \<longleftrightarrow> n = m"
  by (simp add: committed_name_eq(1))

lemma fetch_policies_Inr:
  assumes "fetch_policies A G base revision ps blobs w = (Inr blobs', w')" "isSHA256 revision" "fetched_names revision blobs"
  shows "fetched_names revision blobs' \<and> (\<forall>p \<in> set ps. safe_reference p) \<and> wFs w' = wFs w \<and>
    (\<forall>n. file_name_ok n \<longrightarrow> n \<notin> gpFile ` set ps \<longrightarrow>
       go_get blobs' (committed_name revision n) = go_get blobs (committed_name revision n)) \<and>
    (distinct (map gpID ps) \<longrightarrow> (\<forall>p \<in> set ps. policy_fetched A revision blobs' p))"
  using assms(1,3)
proof (induction ps arbitrary: blobs w)
  case (Cons q ps)
  let ?f = "committed_name revision (gpFile q)"
  from Cons.prems(1) obtain data w1 where q: "safe_reference q" "check_policy A ''committed policy mismatch'' q data = Inr ()"
      and g: "gitBlob G base ?f w = (Inr data, w1)"
      and r: "fetch_policies A G base revision ps (go_set ?f data blobs) w1 = (Inr blobs', w')"
    by (auto simp: res_simps Let_def committed_name_def)
  have fs: "wFs w1 = wFs w" using g by (auto simp: gitBlob_def git_run_def iobind_def io_defs split: prod.splits if_splits)
  note qf = safe_reference_file [OF q(1)]
  have "fetched_names revision (go_set ?f data blobs)"
    using Cons.prems(2) qf by (auto simp: fetched_names_def gm.invar_store keys_go_set)
  note IH = Cons.IH [OF r this]
  have old: "go_get blobs' (committed_name revision n) = go_get blobs (committed_name revision n)"
    if "file_name_ok n" "n \<notin> gpFile ` set (q # ps)" for n
    using IH that qf committed_name_inject [OF assms(2) that(1), of "gpFile q"] by (auto simp: go_get_set)
  have new: "policy_fetched A revision blobs' q" if "distinct (map gpID (q # ps))"
  proof -
    have "gpFile q \<notin> gpFile ` set ps"
      using that qf IH safe_reference_file by (force simp: image_iff)
    then have "go_get blobs' ?f = go_get (go_set ?f data blobs) ?f" using IH qf by blast
    then have "go_get blobs' ?f = Some data" by (simp add: go_get_set)
    with q show ?thesis by (auto simp: policy_fetched_def check_policy_def res_simps split: if_splits)
  qed
  show ?case using IH old new q(1) fs by simp
qed (auto simp: ioret_def)

lemma committed_generation_Inr:
  assumes "committed_generation A G base revision w = (Inr blobs, w')" "isSHA256 revision"
  obtains data g where "fetched_names revision blobs" "wFs w' = wFs w"
    "go_get blobs (committed_name revision ''manifest.yaml'') = Some data" "acSha256 A data = revision"
    "yamlGenerationLoose A data = Inr g" "distinct (map gpID (gmPolicies g)) \<Longrightarrow> \<forall>p \<in> set (gmPolicies g). policy_fetched A revision blobs p"
proof -
  let ?m = "committed_name revision ''manifest.yaml''"
  note ok = manifest_name_ok
  from assms(1) obtain data g w1 where b: "gitBlob G base ?m w = (Inr data, w1)" "acSha256 A data = revision" "yamlGenerationLoose A data = Inr g"
      and f: "fetch_policies A G base revision (gmPolicies g) [(?m, data)] w1 = (Inr blobs, w')"
    unfolding committed_generation_def Let_def committed_name_def [symmetric]
    by (simp only: res_simps iowrap_Inr) blast
  have fs: "wFs w1 = wFs w" using b(1) by (auto simp: gitBlob_def git_run_def iobind_def io_defs split: prod.splits if_splits)
  have "fetched_names revision [(?m, data)]" using ok by (auto simp: fetched_names_def wf_map_def)
  note F = fetch_policies_Inr [OF f assms(2) this]
  have "''manifest.yaml'' \<notin> gpFile ` set (gmPolicies g)" 
  proof
    assume "''manifest.yaml'' \<in> gpFile ` set (gmPolicies g)"
    then obtain p where p: "''manifest.yaml'' = gpFile p" "p \<in> set (gmPolicies g)" by (rule imageE)
    from F p(2) have "safe_reference p" by blast
    then show False using safe_reference_file p(1) by metis
  qed
  with F ok have "go_get blobs ?m = go_get [(?m, data)] ?m" by blast
  then have "go_get blobs ?m = Some data" by (simp add: go_get_def)
  with F b fs show ?thesis by (intro that [of data g]) auto
qed

section \<open>Where it was placed\<close>

definition blobs_placed :: "fs \<Rightarrow> string \<Rightarrow> string go_map \<Rightarrow> bool" where
  "blobs_placed fs base blobs \<longleftrightarrow> (\<forall>(k, data) \<in> set blobs. data_at fs (path_Clean (filepath_Join [base, k])) = Some data)"

lemma check_blob_same: "iokeeps same_fs (check_blob E base b)"
  unfolding check_blob_def
  by (intro untouched.keeps_bind untouched.keeps_catch os_ReadFile_same) (auto simp: ioguard_def)

lemma check_blobs_Inr:
  assumes "ioeach (check_blob E base) blobs w = (Inr u, w')"
  shows "blobs_placed (wFs w) base blobs \<and> same_fs w w'"
proof -
  have "data_at (wFs w) (path_Clean (filepath_Join [base, k])) = Some data" if kd: "(k, data) \<in> set blobs" for k data
  proof -
    obtain v v' x where c: "check_blob E base (k, data) v = (Inr x, v')" and v: "same_fs w v"
      using untouched.each_each [OF assms check_blob_same kd] by blast
    then obtain w1 where "os_ReadFile E (filepath_Join [base, k]) v = (Inr data, w1)"
      by (auto simp: check_blob_def res_simps iocatch_fail_Inr)
    with os_ReadFile_data v show ?thesis by (fastforce simp: same_fs_def)
  qed
  moreover have "same_fs w w'" using untouched.keeps_each [OF check_blob_same] assms by (rule iokeepsD)
  ultimately show ?thesis by (auto simp: blobs_placed_def)
qed

lemma ioeach_cong: "(\<And>x. x \<in> set xs \<Longrightarrow> f x = g x) \<Longrightarrow> ioeach f xs = ioeach g xs"
  by (induction xs) auto

lemma ioeach_map: "ioeach f (map g xs) = ioeach (f \<circ> g) xs"
  by (induction xs) auto

lemma fetched_files:
  assumes "fetched_names revision blobs" "isSHA256 revision"
  defines "fls \<equiv> map (\<lambda>(k, d). (strings_TrimPrefix k (filepath_Join [accessConfigDir, ''generations'', revision] @ ''/''), d)) blobs"
  shows "n \<in> fst ` set fls \<Longrightarrow> file_name_ok n" and "distinct (map fst fls)"
    and "(k, d) \<in> set blobs \<Longrightarrow> \<exists>n. file_name_ok n \<and> k = committed_name revision n \<and> (n, d) \<in> set fls"
    and "ioeach (\<lambda>(path, data).
            let rel = strings_TrimPrefix path (filepath_Join [accessConfigDir, ''generations'', revision] @ ''/'') in
            if rel = path then iofail e else atomicWriteFile E A (filepath_Join [tmp, rel]) data 420) blobs = write_all E A tmp fls"
proof -
  let ?t = "\<lambda>k. strings_TrimPrefix k (filepath_Join [accessConfigDir, ''generations'', revision] @ ''/'')"
  have k: "\<exists>n. file_name_ok n \<and> k = committed_name revision n \<and> ?t k = n \<and> n \<noteq> k" if "k \<in> fst ` set blobs" for k
    using assms(1) that committed_place(3,4) [OF assms(2), of _ "''x''"] by (fastforce simp: fetched_names_def)
  show "file_name_ok n" if "n \<in> fst ` set fls"
  proof -
    from that obtain k d where "(k, d) \<in> set blobs" "n = ?t k" unfolding fls_def by auto
    with k [of k] show ?thesis by force
  qed
  have "inj_on ?t (fst ` set blobs)" by (rule inj_onI) (metis k)
  moreover have "distinct (map fst blobs)" using assms(1) by (simp add: fetched_names_def wf_map_def)
  moreover have "map fst fls = map ?t (map fst blobs)" by (simp add: fls_def case_prod_beta)
  ultimately show "distinct (map fst fls)" by (simp only: distinct_map set_map)
  show "\<exists>n. file_name_ok n \<and> k = committed_name revision n \<and> (n, d) \<in> set fls" if kd: "(k, d) \<in> set blobs" for k d
  proof -
    from kd have "k \<in> fst ` set blobs" by force
    with k [of k] obtain n where "file_name_ok n" "k = committed_name revision n" "?t k = n" by blast
    moreover have "(?t k, d) \<in> set fls" using kd by (force simp: fls_def)
    ultimately show ?thesis by metis
  qed
  show "ioeach (\<lambda>(path, data). let rel = ?t path in
      if rel = path then iofail e else atomicWriteFile E A (filepath_Join [tmp, rel]) data 420) blobs = write_all E A tmp fls"
    unfolding write_all_def fls_def ioeach_map
  proof (rule ioeach_cong)
    fix x
    assume "x \<in> set blobs"
    then have "?t (fst x) \<noteq> fst x" using k [of "fst x"] by auto
    then show "(case x of (path, data) \<Rightarrow> let rel = ?t path in
        if rel = path then iofail e else atomicWriteFile E A (filepath_Join [tmp, rel]) data 420) =
      ((\<lambda>(name, data). atomicWriteFile E A (filepath_Join [tmp, name]) data 420) \<circ> (\<lambda>(k, d). (?t k, d))) x"
      by (simp add: case_prod_beta)
  qed
qed

lemma materializeCommitted_Inr:
  assumes "materializeCommittedGeneration E A base revision blobs w = (Inr u, w')" "temp_names A" "base \<noteq> []" "isSHA256 revision"
    and "fetched_names revision blobs"
  shows "blobs_placed (wFs w') base blobs"
proof -
  let ?p = "generations_dir base" and ?d = "generation_base base revision"
  let ?fls = "map (\<lambda>(k, d). (strings_TrimPrefix k (filepath_Join [accessConfigDir, ''generations'', revision] @ ''/''), d)) blobs"
  note a = access_paths [OF assms(3)] and g = generation_base_facts [OF assms(3,4)] and seg = isSHA256_segment [OF assms(4)]
  note fl = fetched_files [OF assms(5,4)]
  have pne: "?p \<noteq> []" using a(6) Clean_not_empty by metis
  have dne: "?d \<noteq> []" using g(1) Clean_not_empty by metis
  have dest: "filepath_Join [?p, revision] = ?d"
  proof -
    note j = Join_seg [OF pne seg(1)]
    have "filepath_Join [?p, revision] = render (rooted base) (csegs ?d)"
      using clean_by_segs [OF j(4)] j(1,2) a(4,5) g(2) by simp
    also have "\<dots> = ?d" using clean_by_segs [OF g(1)] g(3) by simp
    finally show ?thesis .
  qed
  obtain w0 w1 tmp where 1: "mkdir_temp E A ?p ''.generation-'' w0 = (Inr tmp, w1)"
      and b: "deferred (os_RemoveAll E tmp) (iobind (write_all E A tmp ?fls) (\<lambda>_. iobind (sync_directory E tmp) (\<lambda>_.
          iobind (os_RenameDir E tmp ?d) (\<lambda>_. sync_directory E ?p)))) w1 = (Inr u, w')"
    using assms(1) unfolding materializeCommittedGeneration_def Let_def generations_dir_def [symmetric] dest
      fl(4) [unfolded Let_def]
    by (auto simp: res_simps)
  then obtain v1 v2 v3 v4 where s: "write_all E A tmp ?fls w1 = (Inr (), v1)" "sync_directory E tmp v1 = (Inr (), v2)"
      "os_RenameDir E tmp ?d v2 = (Inr (), v3)" "sync_directory E ?p v3 = (Inr u, v4)" "w' = snd (os_RemoveAll E tmp v4)"
    by (auto simp: deferred_Inr_split res_simps)
  have tmp: "tmp = staging A ?p (wTick w0)" using mkdir_temp_Inr [OF 1] by (simp add: staging_def)
  have apart: "apart_dirs tmp ?d" unfolding tmp by (rule staging_apart [OF assms(2) pne seg]) (simp_all add: a g)
  have tne: "tmp \<noteq> []" unfolding tmp by (rule staging_clean(2) [OF assms(2) pne])
  note arr = arrived [OF s(1) iokeepsD [OF sync_directory_same s(2)] s(3) iokeepsD [OF sync_directory_same s(4)] s(5) assms(2) tne dne apart fl(1,2)]
  have "data_at (wFs w') (path_Clean (filepath_Join [base, k])) = Some d" if kd: "(k, d) \<in> set blobs" for k d
  proof -
    from fl(3) [OF kd] obtain n where n: "file_name_ok n" "k = committed_name revision n" "(n, d) \<in> set ?fls" by blast
    show ?thesis unfolding n(2) committed_place(1,2) [OF assms(4) n(1) assms(3)] by (rule arr [OF _ n(3)])
  qed
  then show ?thesis by (auto simp: blobs_placed_def)
qed

lemma place_generation_Inr:
  assumes "place_generation E A base revision blobs w = (Inr u, w')" "temp_names A" "base \<noteq> []" "isSHA256 revision"
    and "fetched_names revision blobs"
  shows "blobs_placed (wFs w') base blobs"
proof -
  obtain l w1 where l: "os_Lstat E A (generation_base base revision) w = (l, w1)" by (cases "os_Lstat E A (generation_base base revision) w")
  show ?thesis
  proof (cases l)
    case (Inl e)
    with assms(1) l have "materializeCommittedGeneration E A base revision blobs w1 = (Inr u, w')"
      by (auto simp: place_generation_def split: if_splits)
    then show ?thesis by (rule materializeCommitted_Inr [OF _ assms(2-5)])
  next
    case (Inr i)
    with assms(1) l have "ioeach (check_blob E base) blobs w1 = (Inr u, w')"
      by (auto simp: place_generation_def split: if_splits)
    from check_blobs_Inr [OF this] show ?thesis by (simp add: same_fs_def)
  qed
qed

lemma materializeCommitted_frame:
  fixes w :: "'b world_scheme"
  assumes "temp_names A" "base \<noteq> []" "isSHA256 revision" "fetched_names revision blobs"
  shows "frame_rel (generation_files base) w (snd (materializeCommittedGeneration E A base revision blobs w))"
proof -
  let ?p = "generations_dir base"
  note a = access_paths [OF assms(2)] and seg = isSHA256_segment [OF assms(3)]
  note fl = fetched_files [OF assms(4,3)]
  have pne: "?p \<noteq> []" using a(6) Clean_not_empty by metis
  have d: "csegs (filepath_Join [?p, revision]) = csegs ?p @ [revision]" "rooted (filepath_Join [?p, revision]) = rooted ?p"
    using Join_seg [OF pne seg(1)] by simp_all
  show ?thesis
    unfolding materializeCommittedGeneration_def Let_def generations_dir_def [symmetric] fl(4) [unfolded Let_def] generation_files_def
  proof (rule touched.bind_at, goal_cases)
    case 1
    show ?case by (rule iokeeps_at [OF same_frame [OF rejectSymlinkAncestors_same]])
  next
    case (2 x w1)
    show ?case
      by (rule with_staging_frame)
         (intro touched.frame_deferred removed_staging_frame [OF assms(1) pne] touched.keeps_bind
           staged_files_frame [OF assms(1) pne fl(1)] staging_moved_frame [OF assms(1) pne d seg] same_frame [OF sync_directory_same])
  qed
qed

lemma place_generation_frame:
  assumes "place_generation E A base revision blobs w = (r, w')" "temp_names A" "base \<noteq> []" "isSHA256 revision"
    and "fetched_names revision blobs"
  shows "frame_rel (generation_files base) w w'"
proof -
  obtain l w1 where l: "os_Lstat E A (generation_base base revision) w = (l, w1)" by (cases "os_Lstat E A (generation_base base revision) w")
  have 1: "frame_rel (generation_files base) w w1" by (rule iokeepsD [OF same_frame [OF os_Lstat_same] l])
  have "iokeeps (frame_rel (generation_files base)) (ioeach (check_blob E base) blobs)"
    by (intro same_frame untouched.keeps_each check_blob_same)
  from iokeeps_at [OF this, of w1] materializeCommitted_frame [OF assms(2-5), of w1 E] touched.frame_refl [of "generation_files base" w1]
  have "frame_rel (generation_files base) w1 w'" using assms(1) l
    by (auto simp: place_generation_def split: sum.splits if_splits)
  with 1 show ?thesis by (rule touched.frame_trans)
qed

section \<open>Recovery\<close>

lemma working_path: "base \<noteq> [] \<Longrightarrow> filepath_Join [base, active_path] = manifest_path base"
proof -
  assume b: "base \<noteq> []"
  have sp: "strings_Split slash active_path = [''.ingitdb'', ''access'', ''manifest.yaml'']" by code_simp
  have "list_all plain_seg (strings_Split slash active_path)" unfolding sp by (simp add: plain_seg_def)
  note j = Join_rel [OF b this] and a = access_paths [OF b]
  have "filepath_Join [base, active_path] = render (rooted base) (csegs (manifest_path base))"
    using clean_by_segs [OF j(3)] j(1,2) sp a(1) by simp
  also have "\<dots> = manifest_path base" using clean_by_segs [OF a(3)] a(2) by simp
  finally show ?thesis .
qed

text \<open>A committed generation that is on disk, file by file, as its manifest says.\<close>

definition recovered_generation :: "'p access_api \<Rightarrow> fs \<Rightarrow> string \<Rightarrow> string \<Rightarrow> generationManifest \<Rightarrow> bool" where
  "recovered_generation A fs base revision g \<longleftrightarrow>
     (\<exists>data. data_at fs (path_Clean (filepath_Join [base, ''manifest.yaml''])) = Some data \<and>
        acSha256 A data = revision \<and> yamlGenerationLoose A data = Inr g) \<and>
     (distinct (map gpID (gmPolicies g)) \<longrightarrow> (\<forall>p \<in> set (gmPolicies g). policy_verified A fs base p))"

lemma blobs_recovered:
  assumes "blobs_placed fs base blobs" "fetched_names revision blobs" "isSHA256 revision" "base \<noteq> []"
    and "go_get blobs (committed_name revision ''manifest.yaml'') = Some data" "acSha256 A data = revision" "yamlGenerationLoose A data = Inr g"
    and "distinct (map gpID (gmPolicies g)) \<Longrightarrow> \<forall>p \<in> set (gmPolicies g). policy_fetched A revision blobs p"
  shows "recovered_generation A fs (generation_base base revision) revision g"
proof -
  have at: "data_at fs (path_Clean (filepath_Join [generation_base base revision, n])) = Some d"
    if "go_get blobs (committed_name revision n) = Some d" "file_name_ok n" for n d
  proof -
    have "(committed_name revision n, d) \<in> set blobs" using that(1) map_of_SomeD by (force simp: go_get_def)
    with assms(1) have "data_at fs (path_Clean (filepath_Join [base, committed_name revision n])) = Some d"
      by (auto simp: blobs_placed_def)
    then show ?thesis unfolding committed_place(1) [OF assms(3) that(2) assms(4)] .
  qed
  note ok = manifest_name_ok
  have "policy_verified A fs (generation_base base revision) p" if "policy_fetched A revision blobs p" for p
    using that at safe_reference_file by (fastforce simp: policy_fetched_def policy_verified_def)
  with at [OF assms(5) ok] assms(6-8) show ?thesis by (auto simp: recovered_generation_def)
qed

lemma check_current_Inr:
  assumes "check_current E A base working wanted w = (Inr current, w')"
  shows "same_fs w w' \<and> (current = [] \<or> data_at (wFs w) (path_Clean working) = Some current)"
proof -
  obtain r w1 where r: "os_ReadFile E working w = (r, w1)" by (cases "os_ReadFile E working w")
  have s: "same_fs w w1" by (rule iokeepsD [OF os_ReadFile_same r])
  show ?thesis
  proof (cases r)
    case (Inl e)
    with assms r s show ?thesis by (auto simp: check_current_def split: if_splits)
  next
    case (Inr d)
    note d = os_ReadFile_data [OF r [unfolded Inr]]
    show ?thesis
    proof (cases "d = wanted")
      case True
      with assms r Inr d show ?thesis by (auto simp: check_current_def)
    next
      case False
      with assms r Inr obtain b v where c: "current = d" and v: "verifyGeneration E A b v w1 = (Inr (), w')"
        by (auto simp: check_current_def Let_def res_simps split: sum.splits if_splits)
      show ?thesis using iokeepsD [OF verifyGeneration_same v] c d by (simp add: same_fs_def)
    qed
  qed
qed

lemma recovered_kept:
  assumes "recovered_generation A fs (generation_base base revision) revision g" "base \<noteq> []" "isSHA256 revision"
    and "same_files_but P fs fs'" "\<And>q. q \<in> P \<Longrightarrow> \<not> strictly_inside (generations_dir base) q"
  shows "recovered_generation A fs' (generation_base base revision) revision g"
  using assms(1) generation_file_kept(1) [OF assms(2-5) manifest_name_ok] generation_file_kept(2) [OF assms(2-5), of A]
  by (auto simp: recovered_generation_def)

lemma recover_to_Inr:
  assumes "recover_to E A G base revision wanted w = (Inr u, w')" "temp_names A" "base \<noteq> []" "isSHA256 revision" "wanted \<noteq> []"
  shows "data_at (wFs w') (manifest_path base) = Some wanted \<and>
    (\<exists>g. recovered_generation A (wFs w') (generation_base base revision) revision g) \<and>
    same_files_but (insert (manifest_path base) (generation_files base)) (wFs w) (wFs w')"
proof -
  let ?m = "manifest_path base"
  obtain blobs current v w1 w2 w3 where 1: "committed_generation A G base revision w = (Inr blobs, w1)"
      and 2: "check_current E A base ?m wanted w1 = (Inr current, w2)"
      and 3: "place_generation E A base revision blobs w2 = (Inr v, w3)"
      and 4: "(if current = wanted then ioret () else iobind (rejectSymlinkAncestors E A base (path_Dir ?m)) (\<lambda>_.
          atomicWriteFile E A ?m wanted 420)) w3 = (Inr u, w')"
    using assms(1) unfolding recover_to_def Let_def working_path [OF assms(3)] by (simp only: res_simps) blast
  obtain data g where c: "fetched_names revision blobs" "wFs w1 = wFs w"
    "go_get blobs (committed_name revision ''manifest.yaml'') = Some data" "acSha256 A data = revision"
    "yamlGenerationLoose A data = Inr g" "distinct (map gpID (gmPolicies g)) \<Longrightarrow> \<forall>p \<in> set (gmPolicies g). policy_fetched A revision blobs p"
    using committed_generation_Inr [OF 1 assms(4)] by blast
  have g: "recovered_generation A (wFs w3) (generation_base base revision) revision g"
    by (rule blobs_recovered [OF place_generation_Inr [OF 3 assms(2-4) c(1)] c(1) assms(4,3) c(3-6)])
  have f: "same_files_but (generation_files base) (wFs w) (wFs w3)"
    using place_generation_frame [OF 3 assms(2-4) c(1)] check_current_Inr [OF 2] c(2) by (simp add: frame_rel_def same_fs_def)
  have out: "\<not> strictly_inside (generations_dir base) ?m"
    using pointer_outside [OF assms(2,3), of ?m] by (simp add: pointer_files_def)
  show ?thesis
  proof (cases "current = wanted")
    case True
    with 4 have w': "w' = w3" by (simp add: ioret_def)
    have "data_at (wFs w1) ?m = Some wanted" using check_current_Inr [OF 2] True assms(5) access_paths(3) [OF assms(3)] by simp
    then have "data_at (wFs w3) ?m = Some wanted"
      using f out c(2) by (simp add: same_files_but_def data_at_def generation_files_def)
    with g f w' show ?thesis by (auto simp: same_files_but_def)
  next
    case False
    with 4 have "activate E A base wanted w3 = (Inr u, w')"
      by (auto simp: activate_def Let_def manifest_path_def [symmetric] res_simps iowrap_Inr)
    note a = activate_Inr [OF this assms(2,3)]
    have "recovered_generation A (wFs w') (generation_base base revision) revision g"
      by (rule recovered_kept [OF g assms(3,4), of "{?m}"]) (use a out in auto)
    with a f show ?thesis by (auto simp: same_files_but_def)
  qed
qed

end
