(* ===== verification/Facade.thy ===== *)
theory Facade
  imports AccessRecovery
begin

text \<open>
  The database facades of \<open>database.go\<close> and the protected mount of \<open>protected.go\<close>:
  what \<open>NewDatabase\<close> hands out for a project, the installed owner snapshot and the
  management operations that replace it, and the policies a protected mount gathers.
  The policy library (securing a database, the enforcement coordinator, the random source)
  is the record \<open>facade_api\<close>. Management calls are serialised by a mutex and so are whole
  transitions here; the snapshot is a field of the secured database, passed and returned.
\<close>

section \<open>Data\<close>

record databaseOptions =
  doStoredOnlyReads :: bool
  doProtectedProfile :: bool
  doRootedFilesScopes :: "string list"

datatype DatabaseOption =
    WithProtectedProfile
  | WithStoredOnlyReads
  | WithRootedFilesScopes "string list"

text \<open>
  The owner state is a pointer that may be nil, to a snapshot that may be withdrawn. A
  provider is called with what it points to at that moment.
\<close>

type_synonym 'p owner_state = "'p OwnerPolicySnapshot option option"

text \<open>A lease of policies, with what releasing it does.\<close>

record 'p PolicyLease =
  plPolicies :: "'p list"
  plRevision :: string
  plRelease :: "txworld \<Rightarrow> txworld"

record 'p MandatoryParticipant =
  mpLayerID :: string
  mpProvider :: "('p owner_state \<Rightarrow> (txworld, dberr, 'p PolicyLease option) io) option"

datatype 'p secure_option =
    DatabasePolicies "'p list"
  | SnapshotProvider
  | LeaseProvider "'p MandatoryParticipant list"
  | Coordinator

record 'p facade_api =
  faSecureDB :: "'p secure_option list \<Rightarrow> unit res"
  faRandom :: "string res"
  faCoordinator :: "'p MandatoryParticipant list \<Rightarrow> unit res"
  faWriteSession :: bool

record 'p securedDatabase =
  sdBackend :: database
  sdController :: "string option"
  sdOwnerState :: "'p owner_state"
  sdSource :: "'p secure_option"

datatype 'p mounted =
    Plain database
  | RootedFilesDatabase database "string list"
  | ProtectedFactory database
  | Secured "'p securedDatabase"

section \<open>Opening a database\<close>

primrec apply_option :: "DatabaseOption \<Rightarrow> databaseOptions \<Rightarrow> databaseOptions" where
  "apply_option WithProtectedProfile s = s\<lparr>doProtectedProfile := True\<rparr>"
| "apply_option WithStoredOnlyReads s = s\<lparr>doStoredOnlyReads := True\<rparr>"
| "apply_option (WithRootedFilesScopes scopes) s = s\<lparr>doRootedFilesScopes := scopes\<rparr>"

text \<open>\<open>None\<close> in the list is a nil option.\<close>

fun apply_options :: "DatabaseOption option list \<Rightarrow> nat \<Rightarrow> databaseOptions \<Rightarrow> databaseOptions res" where
  "apply_options [] i s = Inr s"
| "apply_options (None # os) i s = Inl (EAt ''nil database option'' i (EMsg [] []))"
| "apply_options (Some opt # os) i s = apply_options os (Suc i) (apply_option opt s)"

definition zero_settings :: databaseOptions where
  "zero_settings = \<lparr>doStoredOnlyReads = False, doProtectedProfile = False, doRootedFilesScopes = []\<rparr>"

definition open_unsecured :: "databaseOptions \<Rightarrow> database \<Rightarrow> 'p mounted res" where
  "open_unsecured settings backend =
     (if doProtectedProfile settings then Inr (ProtectedFactory backend)
      else rbind (wrapRootedFilesDatabase (doRootedFilesScopes settings)) (\<lambda>s.
        Inr (case s of None \<Rightarrow> Plain backend | Some ps \<Rightarrow> RootedFilesDatabase backend ps)))"

text \<open>The owner snapshot of a project whose working manifest selects a generation.\<close>

definition open_owner_state ::
  "osenv \<Rightarrow> 'p access_api \<Rightarrow> gitenv \<Rightarrow> string \<Rightarrow> policy_config \<Rightarrow> 'p list \<Rightarrow>
     (txworld, dberr, string option \<times> 'p OwnerPolicySnapshot \<times> 'p secure_option) io" where
  "open_owner_state E A G projectPath config policies =
     iobind (workingGenerationRevision E A projectPath) (\<lambda>revision.
       if revision = []
       then ioret (None, \<lparr>snRevision = [], snConfig = config, snPolicies = policies\<rparr>, DatabasePolicies policies)
       else iobind (NewOwnerPolicyController E projectPath) (\<lambda>controller.
         iobind (Reload E A G controller) (\<lambda>snapshot.
           ioret (Some controller, snapshot, SnapshotProvider))))"

definition open_secured ::
  "osenv \<Rightarrow> 'p access_api \<Rightarrow> 'p facade_api \<Rightarrow> gitenv \<Rightarrow> string \<Rightarrow> database \<Rightarrow> policy_config \<Rightarrow> (txworld, dberr, 'p mounted) io" where
  "open_secured E A F G projectPath backend config =
     iobind (iowrap ''load access policies'' (load_policies A (filepath_Join [projectPath, accessConfigDir]) config)) (\<lambda>policies.
     iobind (open_owner_state E A G projectPath config policies) (\<lambda>(controller, snapshot, source).
     iobind (iowrap ''secure database'' (iolift (faSecureDB F [source]))) (\<lambda>_.
       ioret (Secured \<lparr>sdBackend = backend\<lparr>dbStoredOnly := True\<rparr>, sdController = controller,
                       sdOwnerState = Some (Some snapshot), sdSource = source\<rparr>))))"

definition NewDatabase ::
  "osenv \<Rightarrow> 'p access_api \<Rightarrow> 'p facade_api \<Rightarrow> gitenv \<Rightarrow> string \<Rightarrow>
     (nat \<Rightarrow> fs \<Rightarrow> string \<Rightarrow> collections option res) option \<Rightarrow> DatabaseOption option list \<Rightarrow>
     (txworld, dberr, 'p mounted) io" where
  "NewDatabase E A F G projectPath reader options =
     iobind (ioguard (projectPath \<noteq> []) (EMsg ''projectPath is required'' [])) (\<lambda>_.
     iobind (iowrap (''stat '' @ projectPath) (os_Stat E projectPath)) (\<lambda>info.
     iobind (ioguard (info = NDir) (EMsg ''is not a directory'' [projectPath])) (\<lambda>_.
     iobind (recoverCommittedGeneration E A G projectPath) (\<lambda>_.
     iobind (iolift (apply_options options 0 zero_settings)) (\<lambda>settings.
     let backend = \<lparr>dbProjectPath = projectPath, dbReader = reader, dbStoredOnly = doStoredOnlyReads settings\<rparr> in
     iobind (readAccessManifest E A projectPath) (\<lambda>manifest.
       case manifest of
         None \<Rightarrow> iolift (open_unsecured settings backend)
       | Some config \<Rightarrow>
           if \<not> pcEnabled config then iolift (open_unsecured settings backend)
           else open_secured E A F G projectPath backend config))))))"

section \<open>The owner snapshot\<close>

definition not_enabled :: dberr where
  "not_enabled = EMsg ''owner policy generations are not enabled'' []"

definition ReloadOwnerPolicies ::
  "osenv \<Rightarrow> 'p access_api \<Rightarrow> gitenv \<Rightarrow> 'p securedDatabase \<Rightarrow> txworld \<Rightarrow> string res \<times> 'p securedDatabase \<times> txworld" where
  "ReloadOwnerPolicies E A G db w =
     (case (sdController db, sdOwnerState db) of
        (Some controller, Some _) \<Rightarrow>
          (let closed = db\<lparr>sdOwnerState := Some None\<rparr> in
           case Reload E A G controller w of
             (Inl e, w1) \<Rightarrow> (Inl e, closed, w1)
           | (Inr snap, w1) \<Rightarrow>
               (case acHook A ''reload_before_activation'' of
                  Some e \<Rightarrow> (Inl e, closed, w1)
                | None \<Rightarrow> (Inr (snRevision snap), closed\<lparr>sdOwnerState := Some (Some snap)\<rparr>, w1)))
      | _ \<Rightarrow> (Inl not_enabled, db, w))"

definition no_publication :: OwnerPolicyPublication where
  "no_publication = \<lparr>opRevision = [], opGitCommit = []\<rparr>"

text \<open>The publication and the error are both returned: a committed policy may still need a reload.\<close>

definition PublishOwnerPolicyGeneration ::
  "osenv \<Rightarrow> 'p access_api \<Rightarrow> gitenv \<Rightarrow> 'p securedDatabase \<Rightarrow> OwnerPolicyGeneration \<Rightarrow> string \<Rightarrow> string \<Rightarrow> txworld \<Rightarrow>
     (OwnerPolicyPublication \<times> dberr option) \<times> 'p securedDatabase \<times> txworld" where
  "PublishOwnerPolicyGeneration E A G db candidate expectedRevision message w =
     (case (sdController db, sdOwnerState db) of
        (Some controller, Some _) \<Rightarrow>
          (let closed = db\<lparr>sdOwnerState := Some None\<rparr> in
           case Publish E A G controller candidate expectedRevision message w of
             (Inl err, w1) \<Rightarrow>
               (case Reload E A G controller w1 of
                  (Inl reloadErr, w2) \<Rightarrow>
                    ((no_publication, Some (EWrap ''authoritative policy reload failed closed'' reloadErr)), closed, w2)
                | (Inr snap, w2) \<Rightarrow>
                    ((no_publication, Some err), closed\<lparr>sdOwnerState := Some (Some snap)\<rparr>, w2))
           | (Inr publication, w1) \<Rightarrow>
               (case Reload E A G controller w1 of
                  (Inl err, w2) \<Rightarrow>
                    ((publication, Some (EWrap ''policy committed; live activation requires reload'' err)), closed, w2)
                | (Inr snap, w2) \<Rightarrow>
                    ((publication, acHook A ''snapshot_activated''), closed\<lparr>sdOwnerState := Some (Some snap)\<rparr>, w2)))
      | _ \<Rightarrow> ((no_publication, Some not_enabled), db, w))"

definition GetOwnerPolicySnapshot :: "osenv \<Rightarrow> 'p owner_state \<Rightarrow> ('b world_scheme, dberr, 'p OwnerPolicySnapshot) io" where
  "GetOwnerPolicySnapshot E state =
     iobind (ctx_Err E) (\<lambda>_.
       case state of
         None \<Rightarrow> iofail (EMsg ''owner policies are disabled'' [])
       | Some None \<Rightarrow> iofail (EMsg ''owner policy snapshot unavailable'' [])
       | Some (Some current) \<Rightarrow> ioret current)"

definition AccessPolicies :: "osenv \<Rightarrow> 'p securedDatabase \<Rightarrow> ('b world_scheme, dberr, 'p list) io" where
  "AccessPolicies E db = iobind (GetOwnerPolicySnapshot E (sdOwnerState db)) (\<lambda>snapshot. ioret (snPolicies snapshot))"

text \<open>The provider that \<open>NewDatabase\<close> installs: it reads the owner state at each admission.\<close>

definition snapshot_provider :: "'p securedDatabase \<Rightarrow> 'p list res" where
  "snapshot_provider db =
     (case sdOwnerState db of
        Some (Some current) \<Rightarrow>
          if snPolicies current = [] then Inl (EMsg ''owner policy snapshot unavailable'' []) else Inr (snPolicies current)
      | _ \<Rightarrow> Inl (EMsg ''owner policy snapshot unavailable'' []))"

section \<open>Protected mounts\<close>

definition ownerPolicyLayerID :: string where
  "ownerPolicyLayerID = ''ingitdb''"

definition ownerPolicyLease :: "osenv \<Rightarrow> 'p owner_state \<Rightarrow> (txworld, dberr, 'p PolicyLease option) io" where
  "ownerPolicyLease E state =
     iobind (GetOwnerPolicySnapshot E state) (\<lambda>s.
       ioret (Some \<lparr>plPolicies = snPolicies s, plRevision = snRevision s, plRelease = (\<lambda>w. w)\<rparr>))"

text \<open>
  The policies of all participants. A lease once taken is released when the gathering
  ends, the last one first; a participant without a provider is skipped, an empty lease
  refuses the admission.
\<close>

fun gather_policies :: "'p owner_state \<Rightarrow> 'p MandatoryParticipant list \<Rightarrow> 'p list \<Rightarrow> (txworld, dberr, 'p list) io" where
  "gather_policies state [] all = ioret all"
| "gather_policies state (p # ps) all =
     (case mpProvider p of
        None \<Rightarrow> gather_policies state ps all
      | Some provider \<Rightarrow>
          iobind (provider state) (\<lambda>lease.
            case lease of
              None \<Rightarrow> iofail (EMsg ''empty policy lease'' [])
            | Some l \<Rightarrow>
                if plPolicies l = [] then iofail (EMsg ''empty policy lease'' [])
                else deferred (\<lambda>w. (Inr () :: unit res, plRelease l w)) (gather_policies state ps (all @ plPolicies l))))"

record 'p protectedDatabase =
  pdbBackend :: database
  pdbSecret :: string
  pdbParticipants :: "'p MandatoryParticipant list"

definition configureProtected ::
  "'p facade_api \<Rightarrow> database option \<Rightarrow> 'p MandatoryParticipant option \<Rightarrow> 'p MandatoryParticipant list \<Rightarrow> 'p protectedDatabase res" where
  "configureProtected F backend owner upper =
     (case backend of
        None \<Rightarrow> Inl (EMsg ''protected backend unavailable'' [])
      | Some b \<Rightarrow>
          (let participants = upper @ (case owner of Some p \<Rightarrow> [p] | None \<Rightarrow> []) in
           rbind (case faRandom F of Inl e \<Rightarrow> Inl (EWrap ''protected revision secret'' e) | Inr s \<Rightarrow> Inr s) (\<lambda>secret.
           rbind (faCoordinator F participants) (\<lambda>_.
           rbind (faSecureDB F [LeaseProvider participants, Coordinator]) (\<lambda>_.
             if \<not> faWriteSession F then Inl (EMsg ''secured protected writer unavailable'' [])
             else Inr \<lparr>pdbBackend = b\<lparr>dbStoredOnly := True\<rparr>, pdbSecret = secret, pdbParticipants = participants\<rparr>)))))"

primrec ConfigureProtectedAccess ::
  "osenv \<Rightarrow> 'p facade_api \<Rightarrow> 'p mounted \<Rightarrow> 'p MandatoryParticipant list \<Rightarrow> 'p protectedDatabase res option" where
  "ConfigureProtectedAccess E F (Plain backend) upper = None"
| "ConfigureProtectedAccess E F (RootedFilesDatabase backend scopes) upper = None"
| "ConfigureProtectedAccess E F (ProtectedFactory backend) upper = Some (configureProtected F (Some backend) None upper)"
| "ConfigureProtectedAccess E F (Secured db) upper = Some (
     if sdOwnerState db = None then Inl (EMsg ''owner policy snapshot unavailable'' [])
     else configureProtected F (Some (sdBackend db))
            (Some \<lparr>mpLayerID = ownerPolicyLayerID, mpProvider = Some (ownerPolicyLease E)\<rparr>) upper)"

section \<open>What opening promises\<close>

lemma open_secured_Inr:
  assumes "open_secured E A F G projectPath backend config w = (Inr m, w')"
  obtains db where "m = Secured db" "dbStoredOnly (sdBackend db)" "\<exists>s. sdOwnerState db = Some (Some s)"
    "faSecureDB F [sdSource db] = Inr ()"
    "sdController db = None \<longrightarrow> (\<exists>s. sdSource db = DatabasePolicies s)" "sdController db \<noteq> None \<longrightarrow> sdSource db = SnapshotProvider"
  using assms unfolding open_secured_def open_owner_state_def
  by (auto simp: res_simps iowrap_Inr split: if_splits)

lemma open_unsecured_not: "open_unsecured settings backend = Inr m \<Longrightarrow> m \<noteq> Secured db"
  by (auto simp: open_unsecured_def res_simps split: if_splits option.splits)

section \<open>What a manifest may say\<close>

text \<open>
  The specification of \<open>readAccessManifest\<close>, on the files alone: no configuration only
  when one of the directories is missing, and otherwise a manifest within the size limit
  that decodes, says explicitly whether it is enabled, names policies if it is, and agrees
  with the verified generation it selects.
\<close>

definition manifest_view :: "'p access_api \<Rightarrow> fs \<Rightarrow> string \<Rightarrow> policy_config option \<Rightarrow> bool" where
  "manifest_view A fs projectPath r \<longleftrightarrow>
     (let accessDir = filepath_Join [projectPath, accessConfigDir] in
      case r of
        None \<Rightarrow> lookup_node fs (filepath_Join [projectPath, ''.ingitdb'']) = Inl ENotExist \<or> lookup_node fs accessDir = Inl ENotExist
      | Some config \<Rightarrow>
          \<exists>data document. data_at fs (path_Clean (filepath_Join [accessDir, ''manifest.yaml''])) = Some data \<and>
            int (length data) \<le> maxAccessManifestSize \<and> decode_manifest A data = Inr document \<and>
            amEnabled document = Some (pcEnabled config) \<and> pcDatabase config = amDatabase document \<and>
            pcRealm config = amRealm document \<and> pcPolicies config = amPolicies document \<and>
            (pcEnabled config \<longrightarrow> pcPolicies config \<noteq> []) \<and>
            (amGeneration document \<noteq> [] \<longrightarrow> isSHA256 (amGeneration document) \<and>
               (\<exists>g. verified_generation A fs (filepath_Join [accessDir, ''generations'', amGeneration document]) (amGeneration document) g \<and>
                  gmEnabled g = pcEnabled config \<and> gmDatabase g = pcDatabase config \<and> gmRealm g = pcRealm config \<and>
                  list_all2 (policy_in_generation (amGeneration document)) (pcPolicies config) (gmPolicies g))))"

lemma readAccessManifest_view:
  assumes "readAccessManifest E A projectPath w = (Inr r, w')"
  shows "manifest_view A (wFs w) projectPath r" and "same_fs w w'"
proof -
  show "same_fs w w'" using readAccessManifest_same assms by (rule iokeepsD)
  let ?i = "filepath_Join [projectPath, ''.ingitdb'']" and ?d = "filepath_Join [projectPath, accessConfigDir]"
  from assms obtain there w1 where 1: "config_dir E A ?i w = (Inr there, w1)"
      and k: "(if \<not> there then ioret None else iobind (config_dir E A ?d) (\<lambda>there.
          if \<not> there then ioret None else iobind (read_manifest E A ?d) (\<lambda>config. ioret (Some config)))) w1 = (Inr r, w')"
    by (auto simp: readAccessManifest_def Let_def res_simps)
  note c = config_dir_Inr [OF 1]
  show "manifest_view A (wFs w) projectPath r"
  proof (cases there)
    case False
    with k c show ?thesis by (simp add: manifest_view_def Let_def io_defs)
  next
    case True
    with k obtain there2 w2 where 2: "config_dir E A ?d w1 = (Inr there2, w2)"
      and k2: "(if \<not> there2 then ioret None else iobind (read_manifest E A ?d) (\<lambda>config. ioret (Some config))) w2 = (Inr r, w')"
      by (auto simp: res_simps)
    note c2 = config_dir_Inr [OF 2]
    have fs: "wFs w1 = wFs w" "wFs w2 = wFs w" using c c2 by (simp_all add: same_fs_def)
    show ?thesis
    proof (cases there2)
      case False
      with k2 c2 fs show ?thesis by (auto simp: manifest_view_def Let_def io_defs)
    next
      case there2: True
      with k2 obtain config where r: "r = Some config" and m: "read_manifest E A ?d w2 = (Inr config, w')"
        by (auto simp: res_simps)
      show ?thesis
      proof (rule read_manifest_Inr [OF m])
        fix data document
        assume *: "data_at (wFs w2) (path_Clean (filepath_Join [?d, ''manifest.yaml''])) = Some data"
          "int (length data) \<le> maxAccessManifestSize" "decode_manifest A data = Inr document"
          "config = \<lparr>pcEnabled = pcEnabled config, pcDatabase = amDatabase document, pcRealm = amRealm document,
             pcPolicies = amPolicies document\<rparr>"
          "amEnabled document = Some (pcEnabled config)" "pcEnabled config \<Longrightarrow> amPolicies document \<noteq> []"
          "amGeneration document \<noteq> [] \<Longrightarrow> isSHA256 (amGeneration document) \<and>
             (\<exists>g. verified_generation A (wFs w2) (filepath_Join [?d, ''generations'', amGeneration document]) (amGeneration document) g \<and>
                gmEnabled g = pcEnabled config \<and> gmDatabase g = amDatabase document \<and> gmRealm g = amRealm document \<and>
                list_all2 (policy_in_generation (amGeneration document)) (amPolicies document) (gmPolicies g))"
        have p: "pcDatabase config = amDatabase document" "pcRealm config = amRealm document" "pcPolicies config = amPolicies document"
          by (subst *(4), simp)+
        show ?thesis
          unfolding manifest_view_def Let_def r option.case p
          using *(1-3,5-7) fs(2) by (intro exI [of _ data] exI [of _ document]) simp
      qed
    qed
  qed
qed

section \<open>Opening\<close>

definition admits_plain :: "'p access_api \<Rightarrow> fs \<Rightarrow> string \<Rightarrow> bool" where
  "admits_plain A fs projectPath \<longleftrightarrow>
     manifest_view A fs projectPath None \<or> (\<exists>config. manifest_view A fs projectPath (Some config) \<and> \<not> pcEnabled config)"

lemma NewDatabase_Inr:
  assumes "NewDatabase E A F G projectPath reader options w = (Inr m, w')"
  obtains (plain) "\<And>db. m \<noteq> Secured db" "admits_plain A (wFs w') projectPath"
    | (secured) db config w1 backend where "m = Secured db" "manifest_view A (wFs w1) projectPath (Some config)" "pcEnabled config"
        "dbStoredOnly (sdBackend db)" "open_secured E A F G projectPath backend config w1 = (Inr m, w')"
proof -
  from assms obtain settings backend w1 w2 r where m: "readAccessManifest E A projectPath w1 = (Inr r, w2)"
      and k: "(case r of None \<Rightarrow> iolift (open_unsecured settings backend)
       | Some config \<Rightarrow> if \<not> pcEnabled config then iolift (open_unsecured settings backend)
           else open_secured E A F G projectPath backend config) w2 = (Inr m, w')"
    unfolding NewDatabase_def Let_def by (simp only: res_simps iowrap_Inr) blast
  note v = readAccessManifest_view [OF m]
  show ?thesis
  proof (cases "\<exists>config. r = Some config \<and> pcEnabled config")
    case True
    then obtain config where c: "r = Some config" "pcEnabled config" by blast
    with k have s: "open_secured E A F G projectPath backend config w2 = (Inr m, w')" by simp
    from s obtain db where "m = Secured db" "dbStoredOnly (sdBackend db)" by (rule open_secured_Inr)
    with v c s show ?thesis by (intro secured [of db w2 config backend]) (auto simp: same_fs_def)
  next
    case False
    with k have u: "open_unsecured settings backend = Inr m" "w' = w2" by (auto simp: io_defs split: option.splits if_splits)
    show ?thesis
    proof (rule plain)
      show "m \<noteq> Secured db" for db using open_unsecured_not [OF u(1)] .
      show "admits_plain A (wFs w') projectPath"
        using v u(2) False by (cases r) (auto simp: admits_plain_def same_fs_def)
    qed
  qed
qed

section \<open>The installed snapshot\<close>

definition authoritative :: "'p access_api \<Rightarrow> string \<Rightarrow> 'p OwnerPolicySnapshot \<Rightarrow> bool" where
  "authoritative A base s \<longleftrightarrow>
     snRevision s \<noteq> [] \<and> pcEnabled (snConfig s) \<and>
     (\<exists>fs n. manifest_view A fs base (Some (snConfig s)) \<and>
        LoadPolicyFiles A n fs (filepath_Join [base, accessConfigDir]) (snConfig s) = Inr (snPolicies s))"

lemma Reload_authoritative:
  assumes "Reload E A G base w = (Inr s, w')"
  shows "authoritative A base s"
proof -
  from assms obtain w1 where "reload_locked E A G base w1 = (Inr s, w')"
    by (auto simp: Reload_def res_simps withExclusiveLock_def)
  then obtain w2 r w3 where m: "readAccessManifest E A base w2 = (Inr r, w3)"
      and k: "(case r of None \<Rightarrow> iofail (EMsg ''no enabled owner policy generation'' [])
       | Some config \<Rightarrow>
           if \<not> pcEnabled config then iofail (EMsg ''no enabled owner policy generation'' [])
           else iobind (iocatch (committedGenerationRevision A G base)
                          (\<lambda>_. iofail (EMsg ''owner policy generation is not committed'' []))) (\<lambda>revision.
             if revision = [] then iofail (EMsg ''owner policy generation is not committed'' [])
             else iobind (load_policies A (filepath_Join [base, accessConfigDir]) config) (\<lambda>policies.
               ioret \<lparr>snRevision = revision, snConfig = config, snPolicies = policies\<rparr>))) w3 = (Inr s, w')"
    unfolding reload_locked_def by (simp only: res_simps) blast
  note v = readAccessManifest_view [OF m]
  from k obtain config revision policies w4 where r: "r = Some config" "pcEnabled config" "revision \<noteq> []"
      and c: "committedGenerationRevision A G base w3 = (Inr revision, w4)"
      and l: "LoadPolicyFiles A (wTick w4) (wFs w4) (filepath_Join [base, accessConfigDir]) config = Inr policies"
      and s: "s = \<lparr>snRevision = revision, snConfig = config, snPolicies = policies\<rparr>"
    by (auto simp: res_simps iocatch_fail_Inr load_policies_def split: option.splits if_splits)
  have "wFs w4 = wFs w3" using c
    by (auto simp: committedGenerationRevision_def committedGenerationRevisionAt_def git_run_def iobind_def io_defs
          split: prod.splits if_splits)
  with v r l s show ?thesis by (auto simp: authoritative_def same_fs_def)
qed

text \<open>
  The life of a secured database: management calls, and between them anything that other
  operations and other processes do to the project.
\<close>

inductive owner_step ::
  "osenv \<Rightarrow> 'p access_api \<Rightarrow> gitenv \<Rightarrow> 'p securedDatabase \<times> txworld \<Rightarrow> 'p securedDatabase \<times> txworld \<Rightarrow> bool"
  for E :: osenv and A :: "'p access_api" and G :: gitenv where
  reload: "ReloadOwnerPolicies E A G db w = (r, db', w') \<Longrightarrow> owner_step E A G (db, w) (db', w')"
| publish: "PublishOwnerPolicyGeneration E A G db candidate expected msg w = (r, db', w') \<Longrightarrow> owner_step E A G (db, w) (db', w')"
| outside: "owner_step E A G (db, w) (db, w')"

inductive owner_reach ::
  "osenv \<Rightarrow> 'p access_api \<Rightarrow> gitenv \<Rightarrow> 'p securedDatabase \<times> txworld \<Rightarrow> 'p securedDatabase \<times> txworld \<Rightarrow> bool"
  for E :: osenv and A :: "'p access_api" and G :: gitenv and start :: "'p securedDatabase \<times> txworld" where
  start: "owner_reach E A G start start"
| next_step: "owner_reach E A G start s \<Longrightarrow> owner_step E A G s t \<Longrightarrow> owner_reach E A G start t"

inductive_cases owner_stepE: "owner_step E A G (db, w) (db', w')"

text \<open>What a management call leaves installed: nothing, or what a reload made during the call returned.\<close>

definition installed :: "osenv \<Rightarrow> 'p access_api \<Rightarrow> gitenv \<Rightarrow> 'p securedDatabase \<Rightarrow> 'p securedDatabase \<Rightarrow> txworld \<Rightarrow> bool" where
  "installed E A G db db' w' \<longleftrightarrow>
     (case (sdController db, sdOwnerState db) of
        (Some base, Some _) \<Rightarrow>
          db' = db\<lparr>sdOwnerState := Some None\<rparr> \<or>
          (\<exists>s w1. Reload E A G base w1 = (Inr s, w') \<and> db' = db\<lparr>sdOwnerState := Some (Some s)\<rparr>)
      | _ \<Rightarrow> db' = db)"

lemma reload_installs: "ReloadOwnerPolicies E A G db w = (r, db', w') \<Longrightarrow> installed E A G db db' w'"
  by (auto simp: ReloadOwnerPolicies_def installed_def Let_def split: option.splits prod.splits sum.splits)

lemma publish_installs:
  "PublishOwnerPolicyGeneration E A G db candidate expected msg w = (r, db', w') \<Longrightarrow> installed E A G db db' w'"
  by (auto simp: PublishOwnerPolicyGeneration_def installed_def Let_def split: option.splits prod.splits sum.splits)

definition owner_ok :: "'p access_api \<Rightarrow> string option \<Rightarrow> 'p securedDatabase \<Rightarrow> bool" where
  "owner_ok A base db \<longleftrightarrow>
     sdController db = base \<and> sdOwnerState db \<noteq> None \<and> dbStoredOnly (sdBackend db) \<and>
     (\<forall>b s. base = Some b \<longrightarrow> sdOwnerState db = Some (Some s) \<longrightarrow> authoritative A b s)"

lemma installed_ok: "installed E A G db db' w' \<Longrightarrow> owner_ok A base db \<Longrightarrow> owner_ok A base db'"
  by (auto simp: installed_def owner_ok_def split: option.splits dest: Reload_authoritative)

lemma owner_reach_ok:
  "owner_reach E A G s t \<Longrightarrow> owner_ok A base (fst s) \<Longrightarrow> owner_ok A base (fst t)"
proof (induction rule: owner_reach.induct)
  case (next_step s t)
  then have "owner_ok A base (fst s)" by blast
  with next_step.hyps(2) show ?case
    by (cases rule: owner_step.cases) (auto dest: reload_installs publish_installs intro: installed_ok)
qed

lemma NewOwnerPolicyController_Inr: "NewOwnerPolicyController E projectPath w = (Inr c, w') \<Longrightarrow> c = projectPath"
  by (auto simp: NewOwnerPolicyController_def split: prod.splits sum.splits node.splits)

lemma opened_ok:
  assumes "NewDatabase E A F G projectPath reader options w = (Inr (Secured db), w')"
  shows "owner_ok A (sdController db) db \<and> (sdController db = None \<or> sdController db = Some projectPath)"
proof -
  from assms obtain config w1 backend where "open_secured E A F G projectPath backend config w1 = (Inr (Secured db), w')"
    by (rule NewDatabase_Inr) auto
  then show ?thesis
    unfolding open_secured_def open_owner_state_def
    by (auto simp: res_simps iowrap_Inr owner_ok_def split: if_splits dest!: NewOwnerPolicyController_Inr Reload_authoritative)
qed

end
