(* ===== verification/Protected.thy ===== *)
theory Protected
  imports Facade
begin

text \<open>
  The storage side of a protected mount (\<open>protected.go\<close>): the evidence an enforcement
  coordinator decides on, its revisions, and the execution of an admitted batch with the
  rollback of a failed one. The coordinator is the callback: a tree of its calls on the
  storage it is handed, each continued with the reply. The keyed hash, the kind of lock,
  the iteration order of a Go map and the printed actions are the record \<open>protected_env\<close>.
\<close>

section \<open>Data\<close>

datatype Action = AInsert | ASet | AUpdate | ADelete | AOther string

record ProtectedUpdate =
  puPath :: "string list"
  puValue :: uval
  puDelete :: bool

record ProtectedOperation =
  poID :: string
  poAction :: Action
  poKey :: "key option"
  poData :: "row option"
  poUpdates :: "ProtectedUpdate list"
  poCanonicalTarget :: string

text \<open>The images are maps that may be nil.\<close>

record ProtectedEvidence =
  peOperationID :: string
  peCanonicalTarget :: string
  peSnapshotToken :: string
  peExists :: bool
  pePreImage :: "row option"
  peCandidateImage :: "row option"
  peDataRevision :: string
  peCandidateRevision :: string
  peComplete :: bool

record protected_env =
  prHmac :: "string \<Rightarrow> string \<Rightarrow> string"
  prContextual :: bool
  prLocked :: "nat \<Rightarrow> bool"
  prOrder :: "string list \<Rightarrow> string list"
  prActionName :: "Action \<Rightarrow> string"

record protectedStorage =
  psDb :: database
  psSecret :: string

section \<open>Copies\<close>

primrec cloneImageValue :: "val \<Rightarrow> val" where
  "cloneImageValue VNil = VNil"
| "cloneImageValue (VBool b) = VBool b"
| "cloneImageValue (VNum k n) = VNum k n"
| "cloneImageValue (VFloat32 f) = VFloat32 f"
| "cloneImageValue (VFloat64 f) = VFloat64 f"
| "cloneImageValue (VStr s) = VStr s"
| "cloneImageValue (VBytes s) = VBytes s"
| "cloneImageValue (VList t vs) = VList t (map cloneImageValue vs)"
| "cloneImageValue (VMap m) = VMap (map (map_prod (\<lambda>k. k) cloneImageValue) m)"
| "cloneImageValue (VOther t s) = VOther t s"

definition cloneMap :: "row option \<Rightarrow> row option" where
  "cloneMap m = map_option (map (map_prod (\<lambda>k. k) cloneImageValue)) m"

definition cloneEvidence :: "ProtectedEvidence list \<Rightarrow> ProtectedEvidence list" where
  "cloneEvidence es =
     map (\<lambda>v. v\<lparr>pePreImage := cloneMap (pePreImage v), peCandidateImage := cloneMap (peCandidateImage v)\<rparr>) es"

section \<open>Revisions\<close>

text \<open>\<open>binary.BigEndian.PutUint64\<close> of a length: eight bytes, so its value modulo \<open>2 ^ 64\<close>.\<close>

fun be_bytes :: "nat \<Rightarrow> nat \<Rightarrow> string" where
  "be_bytes 0 n = []"
| "be_bytes (Suc k) n = be_bytes k (n div 256) @ [char_of (n mod 256)]"

definition be64 :: "nat \<Rightarrow> string" where
  "be64 n = be_bytes 8 n"

definition revision_input :: "string \<Rightarrow> bool \<Rightarrow> string \<Rightarrow> string" where
  "revision_input target ex raw = be64 (length target) @ target @ [if ex then CHR 0x01 else CHR 0x00] @ raw"

definition revision :: "protected_env \<Rightarrow> protectedStorage \<Rightarrow> string \<Rightarrow> bool \<Rightarrow> string \<Rightarrow> string" where
  "revision P s target ex raw = hex_EncodeToString (prHmac P (psSecret s) (revision_input target ex raw))"

section \<open>Definitions that a protected mount refuses\<close>

fun check_columns :: "(string \<times> column option) list \<Rightarrow> unit res" where
  "check_columns [] = Inr ()"
| "check_columns ((name, None) # cs) = Inl (EPanic ''nil column'')"
| "check_columns ((name, Some c) # cs) =
     (if cForeignKey c \<noteq> [] then Inl (EMsg ''foreign keys are unsupported under protected profile'' [])
      else check_columns cs)"

definition check_collection :: "coldef \<Rightarrow> unit res" where
  "check_collection col =
     (if orderedComputedColumns (Some col) \<noteq> []
      then Inl (EMsg ''computed columns are unsupported under protected profile'' [])
      else check_columns (cdColumns col))"

function visit_collections :: "collections \<Rightarrow> unit res" where
  "visit_collections [] = Inr ()"
| "visit_collections ((name, col) # rest) =
     rbind (check_collection col) (\<lambda>_.
     rbind (visit_collections (cdSubCollections col)) (\<lambda>_. visit_collections rest))"
  by pat_completeness auto

lemma sub_collections_size: "size_list (size_prod (\<lambda>_. 0) size) (cdSubCollections col) < size col"
  by (cases col) simp

termination visit_collections
  by (relation "measure (size_list (size_prod (\<lambda>_. 0) size))")
     (auto intro: less_trans [OF sub_collections_size] less_le_trans [OF sub_collections_size])

definition validateProtectedDefinition :: "collections option \<Rightarrow> unit res" where
  "validateProtectedDefinition def =
     (case def of None \<Rightarrow> Inl (EPanic ''nil definition'') | Some collections \<Rightarrow> visit_collections collections)"

section \<open>Evidence\<close>

text \<open>The updates of an operation, applied to the copied pre-image; a missing one stays missing.\<close>

definition refused_update :: "ProtectedUpdate \<Rightarrow> bool" where
  "refused_update u \<longleftrightarrow> \<not> puDelete u \<and> (case puValue u of UServerTimestamp \<Rightarrow> True | UTransform n v \<Rightarrow> True | _ \<Rightarrow> False)"

fun candidate_updates :: "api \<Rightarrow> ProtectedUpdate list \<Rightarrow> row option \<Rightarrow> row option res" where
  "candidate_updates A [] candidate = Inr candidate"
| "candidate_updates A (u # us) candidate =
     (if refused_update u then Inl (EMsg ''update transforms are unsupported under protected profile'' [])
      else let value = (if puDelete u then UDeleteField else puValue u) in
        case candidate of
          None \<Rightarrow> candidate_updates A us None
        | Some m \<Rightarrow>
            (case applyFieldUpdate A [] m (puPath u) value of
               (Some e, m') \<Rightarrow> Inl e
             | (None, m') \<Rightarrow> candidate_updates A us (Some m')))"

definition candidate_image :: "api \<Rightarrow> ProtectedOperation \<Rightarrow> row option \<Rightarrow> row option res" where
  "candidate_image A op pre =
     (case poAction op of
        AUpdate \<Rightarrow> candidate_updates A (poUpdates op) (cloneMap pre)
      | ADelete \<Rightarrow> Inr None
      | _ \<Rightarrow> Inr (cloneMap (poData op)))"

record prepared_op =
  ppCol :: coldef
  ppFile :: recfile
  ppKey :: string
  ppCandidate :: "row option"
  ppEvidence :: ProtectedEvidence

text \<open>The bytes of the record file; a missing file has none.\<close>

definition read_raw :: "osenv \<Rightarrow> string \<Rightarrow> ('b world_scheme, dberr, string) io" where
  "read_raw E path =
     iocatch (os_ReadFile E path) (\<lambda>e. if err_is e is_not_exist then ioret [] else iofail e)"

text \<open>The stored record, decoded by \<open>Get\<close> into a fresh map: \<open>None\<close> when there is none.\<close>

definition read_pre ::
  "osenv \<Rightarrow> api \<Rightarrow> txctx \<Rightarrow> key option \<Rightarrow> ('b world_scheme, dberr, row option) io" where
  "read_pre E A tx key w =
     (case Get E A tx \<lparr>rKey = key, rData = VMap [], rErr = None\<rparr> w of
        ((None, rec), w') \<Rightarrow>
          (case DataToMap A (rData rec) of Inl e \<Rightarrow> (Inl e, w') | Inr pre \<Rightarrow> (Inr (Some pre), w'))
      | ((Some e, rec), w') \<Rightarrow> if err_is e is_record_not_found then (Inr None, w') else (Inl e, w'))"

definition prepare_op ::
  "osenv \<Rightarrow> api \<Rightarrow> protected_env \<Rightarrow> protectedStorage \<Rightarrow> txctx \<Rightarrow> ProtectedOperation \<Rightarrow> ('b world_scheme, dberr, prepared_op) io" where
  "prepare_op E A P s tx op =
     iobind (ctx_Err E) (\<lambda>_.
     iobind (iolift (resolveCollection A (txDef tx) (poKey op))) (\<lambda>(col, rf, key).
     iobind (iolift (check_collection col)) (\<lambda>_.
     iobind (read_raw E (resolveRecordPath A col rf key)) (\<lambda>raw.
     iobind (read_pre E A tx (poKey op)) (\<lambda>pre.
     iobind (iolift (candidate_image A op pre)) (\<lambda>candidate.
     let rev = revision P s (poCanonicalTarget op) (pre \<noteq> None) raw in
       ioret \<lparr>ppCol = col, ppFile = rf, ppKey = key, ppCandidate = candidate,
              ppEvidence = \<lparr>peOperationID = poID op, peCanonicalTarget = poCanonicalTarget op, peSnapshotToken = rev,
                            peExists = (pre \<noteq> None), pePreImage = cloneMap pre, peCandidateImage = cloneMap candidate,
                            peDataRevision = rev, peCandidateRevision = [], peComplete = True\<rparr>\<rparr>))))))"

section \<open>The revisions of the candidates\<close>

definition prepared_path :: "api \<Rightarrow> prepared_op \<Rightarrow> string" where
  "prepared_path A p = resolveRecordPath A (ppCol p) (ppFile p) (ppKey p)"

text \<open>The map of records after the operations of the batch on its file, in their order.\<close>

definition batch_records ::
  "api \<Rightarrow> coldef \<Rightarrow> (ProtectedOperation \<times> prepared_op) list \<Rightarrow> row go_map \<Rightarrow> row go_map" where
  "batch_records A col grp records =
     foldl (\<lambda>records (op, p).
         if poAction op = ADelete then go_delete (ppKey p) records
         else case ppCandidate p of
           None \<Rightarrow> records
         | Some m \<Rightarrow> go_set (ppKey p) (ApplyLocaleToWrite A m (cdColumns col)) records) records grp"

definition candidate_content ::
  "osenv \<Rightarrow> api \<Rightarrow> string \<Rightarrow> (ProtectedOperation \<times> prepared_op) list \<Rightarrow> ('b world_scheme, dberr, bool \<times> string) io" where
  "candidate_content E A path grp =
     (let (op, first) = hd grp; col = ppCol first; rf = ppFile first in
      case rfRecordType rf of
        SingleRecord \<Rightarrow>
          (case ppCandidate first of
             Some m \<Rightarrow>
               if poAction op \<noteq> ADelete
               then iobind (iolift (EncodeRecordContentForCollection A m col)) (\<lambda>raw. ioret (True, raw))
               else ioret (False, [])
           | None \<Rightarrow> ioret (False, []))
      | MapOfRecords \<Rightarrow>
          iobind (readMapOfRecordsFile E A path (rfFormat rf)) (\<lambda>records.
          iobind (iolift (EncodeMapOfRecordsContent A (batch_records A col grp records) (rfFormat rf) (cdID col) (cdColumnsOrder col)))
            (\<lambda>raw. ioret (True, raw)))
      | ListOfRecords \<Rightarrow> iofail (EMsg ''protected record type unsupported'' [])
      | OtherRecordType t \<Rightarrow> iofail (EMsg ''protected record type unsupported'' [t]))"

text \<open>
  \<open>byPath\<close> is a Go map: its groups are visited in the order the environment chooses, each
  with its operations in the order of the batch.
\<close>

definition path_revisions ::
  "osenv \<Rightarrow> api \<Rightarrow> protected_env \<Rightarrow> (ProtectedOperation \<times> prepared_op) list \<Rightarrow> ('b world_scheme, dberr, (string \<times> bool \<times> string) list) io" where
  "path_revisions E A P batch =
     iotraverse (\<lambda>path.
       iobind (candidate_content E A path (filter (\<lambda>x. prepared_path A (snd x) = path) batch)) (\<lambda>r. ioret (path, r)))
       (prOrder P (remdups (map (prepared_path A \<circ> snd) batch)))"

definition assignBatchCandidateRevisions ::
  "osenv \<Rightarrow> api \<Rightarrow> protected_env \<Rightarrow> protectedStorage \<Rightarrow> ProtectedOperation list \<Rightarrow> prepared_op list \<Rightarrow>
     ('b world_scheme, dberr, prepared_op list) io" where
  "assignBatchCandidateRevisions E A P s ops prepared =
     iobind (path_revisions E A P (zip ops prepared)) (\<lambda>found.
       ioret (map (\<lambda>(op, p).
         case go_get found (prepared_path A p) of
           None \<Rightarrow> p
         | Some (ex, raw) \<Rightarrow>
             p\<lparr>ppEvidence := (ppEvidence p)\<lparr>peCandidateRevision := revision P s (poCanonicalTarget op) ex raw\<rparr>\<rparr>)
         (zip ops prepared)))"

definition prepare ::
  "osenv \<Rightarrow> api \<Rightarrow> protected_env \<Rightarrow> protectedStorage \<Rightarrow> txctx \<Rightarrow> ProtectedOperation list \<Rightarrow> ('b world_scheme, dberr, prepared_op list) io" where
  "prepare E A P s tx ops =
     iobind (iolift (validateProtectedDefinition (txDef tx))) (\<lambda>_.
     iobind (iotraverse (prepare_op E A P s tx) ops) (\<lambda>prepared.
       assignBatchCandidateRevisions E A P s ops prepared))"

section \<open>Inspection and execution\<close>

text \<open>\<open>TryLockContext\<close>: an error, or whether the lock was obtained.\<close>

definition withProtectedLock ::
  "osenv \<Rightarrow> protected_env \<Rightarrow> string \<Rightarrow> bool \<Rightarrow> ('b world_scheme, dberr, 'a) io \<Rightarrow> ('b world_scheme, dberr, 'a) io" where
  "withProtectedLock E P path shared fn =
     (if \<not> prContextual P then (if shared then withSharedLock E path fn else withExclusiveLock E path fn)
      else iobind (iocatch (flock E path) (\<lambda>e. iofail (EWrap (''acquire protected lock on '' @ path) e))) (\<lambda>_ w.
        if prLocked P (wTick w) then fn w
        else iobind (ctx_Err E) (\<lambda>_. iofail (EMsg ''acquire protected lock on'' [path])) w))"

datatype inspector = IReturn "dberr option" | IEvidence "ProtectedEvidence list res \<Rightarrow> inspector"

datatype executor =
    XReturn "dberr option"
  | XEvidence "ProtectedEvidence list res \<Rightarrow> executor"
  | XExecute "dberr option \<Rightarrow> executor"

definition Evidence :: "osenv \<Rightarrow> ProtectedEvidence list \<Rightarrow> ('b world_scheme, dberr, ProtectedEvidence list) io" where
  "Evidence E evidence = iobind (ctx_Err E) (\<lambda>_. ioret (cloneEvidence evidence))"

primrec run_inspector :: "osenv \<Rightarrow> ProtectedEvidence list \<Rightarrow> inspector \<Rightarrow> txworld \<Rightarrow> dberr option \<times> txworld" where
  "run_inspector E evidence (IReturn err) = (\<lambda>w. (err, w))"
| "run_inspector E evidence (IEvidence k) =
     (\<lambda>w. case Evidence E evidence w of (r, w') \<Rightarrow> run_inspector E evidence (k r) w')"

definition candidate_record :: "ProtectedOperation \<Rightarrow> prepared_op \<Rightarrow> dalrec" where
  "candidate_record op p =
     \<lparr>rKey = poKey op, rData = VMap (case ppCandidate p of Some m \<Rightarrow> m | None \<Rightarrow> []), rErr = None\<rparr>"

text \<open>The errors of package \<open>access\<close>.\<close>

definition ErrProtectedRecordExists :: dberr where
  "ErrProtectedRecordExists = EExternal ''protected record exists''"

definition ErrProtectedResourceUnavailable :: dberr where
  "ErrProtectedResourceUnavailable = EExternal ''protected resource unavailable''"

definition execute_op :: "osenv \<Rightarrow> api \<Rightarrow> txctx \<Rightarrow> ProtectedOperation \<times> prepared_op \<Rightarrow> (txworld, dberr, unit) io" where
  "execute_op E A tx x =
     (let (op, p) = x; ex = peExists (ppEvidence p) in
      iobind (ctx_Err E) (\<lambda>_.
        case poAction op of
          AInsert \<Rightarrow>
            if ex then iofail ErrProtectedRecordExists
            else insert_record E A tx (poKey op) (rData (candidate_record op p))
        | ASet \<Rightarrow> set_record E A tx (poKey op) (rData (candidate_record op p))
        | AUpdate \<Rightarrow>
            if \<not> ex then iofail ErrProtectedResourceUnavailable
            else set_record E A tx (poKey op) (rData (candidate_record op p))
        | ADelete \<Rightarrow>
            if \<not> ex then iofail ErrProtectedResourceUnavailable else Delete_tx E A tx (poKey op)
        | AOther a \<Rightarrow> ioret ()))"

definition execute_ops ::
  "osenv \<Rightarrow> api \<Rightarrow> txctx \<Rightarrow> (ProtectedOperation \<times> prepared_op) list \<Rightarrow> (txworld, dberr, unit) io" where
  "execute_ops E A tx batch = ioeach (execute_op E A tx) batch"

text \<open>\<open>Execute\<close> runs the batch once; a second call is an error.\<close>

primrec run_executor ::
  "osenv \<Rightarrow> api \<Rightarrow> txctx \<Rightarrow> (ProtectedOperation \<times> prepared_op) list \<Rightarrow> executor \<Rightarrow> bool \<Rightarrow> txworld \<Rightarrow> dberr option \<times> txworld" where
  "run_executor E A tx batch (XReturn err) = (\<lambda>called w. (err, w))"
| "run_executor E A tx batch (XEvidence k) =
     (\<lambda>called w. case Evidence E (map (ppEvidence \<circ> snd) batch) w of (r, w') \<Rightarrow> run_executor E A tx batch (k r) called w')"
| "run_executor E A tx batch (XExecute k) =
     (\<lambda>called w.
        if called then run_executor E A tx batch (k (Some (EMsg ''protected execution already called'' []))) called w
        else case execute_ops E A tx batch w of (r, w') \<Rightarrow> run_executor E A tx batch (k (err_of r)) True w')"

definition inspect_locked ::
  "osenv \<Rightarrow> api \<Rightarrow> protected_env \<Rightarrow> protectedStorage \<Rightarrow> ProtectedOperation list \<Rightarrow> inspector \<Rightarrow> (txworld, dberr, unit) io" where
  "inspect_locked E A P s ops f =
     iobind (loadDefinition (psDb s)) (\<lambda>def.
     iobind (prepare E A P s \<lparr>txStoredOnly = dbStoredOnly (psDb s), txDef = def\<rparr> ops) (\<lambda>prepared.
       as_io (run_inspector E (map ppEvidence prepared) f)))"

definition WithinProtectedInspection ::
  "osenv \<Rightarrow> api \<Rightarrow> gitenv \<Rightarrow> protected_env \<Rightarrow> protectedStorage \<Rightarrow> ProtectedOperation list \<Rightarrow> inspector \<Rightarrow> (txworld, dberr, unit) io" where
  "WithinProtectedInspection E A G P s ops f =
     iobind (transactionLockPath E G (dbProjectPath (psDb s))) (\<lambda>lock.
       withProtectedLock E P lock True (inspect_locked E A P s ops f))"

definition execute_locked ::
  "osenv \<Rightarrow> api \<Rightarrow> protected_env \<Rightarrow> protectedStorage \<Rightarrow> ProtectedOperation list \<Rightarrow> executor \<Rightarrow> (txworld, dberr, unit) io" where
  "execute_locked E A P s ops f =
     iobind (loadDefinition (psDb s)) (\<lambda>def.
     let tx = \<lparr>txStoredOnly = dbStoredOnly (psDb s), txDef = def\<rparr> in
     iobind (prepare E A P s tx ops) (\<lambda>prepared.
       as_io (\<lambda>w.
         case run_executor E A tx (zip ops prepared) f False (w\<lparr>txWritten := Some [], txSnapshots := Some []\<rparr>) of
           (Some e, w') \<Rightarrow> roll_back E e w'
         | (None, w') \<Rightarrow> (None, w'))))"

definition WithinProtectedExecution ::
  "osenv \<Rightarrow> api \<Rightarrow> gitenv \<Rightarrow> protected_env \<Rightarrow> protectedStorage \<Rightarrow> ProtectedOperation list \<Rightarrow> executor \<Rightarrow> (txworld, dberr, unit) io" where
  "WithinProtectedExecution E A G P s ops f =
     iobind (transactionLockPath E G (dbProjectPath (psDb s))) (\<lambda>lock.
       withProtectedLock E P lock False (execute_locked E A P s ops f))"

definition validateProtectedCandidate ::
  "osenv \<Rightarrow> api \<Rightarrow> protected_env \<Rightarrow> database \<Rightarrow> ProtectedOperation \<Rightarrow> row \<Rightarrow> (txworld, dberr, unit) io" where
  "validateProtectedCandidate E A P db op candidate =
     iobind (ctx_Err E) (\<lambda>_.
     iobind (loadDefinition db) (\<lambda>def.
     iobind (iolift (resolveCollection A def (poKey op))) (\<lambda>(col, rf, key).
       let collection = (case poKey op of None \<Rightarrow> [] | Some k \<Rightarrow> kCollection k) in
       if poAction op = ADelete then ValidateDelete E A def collection key
       else ValidateWrite E A def (prActionName P (poAction op)) collection col key candidate)))"

end
