(* ===== verification/ProtectedProperties.thy ===== *)
theory ProtectedProperties
  imports Protected
begin

text \<open>
  What a protected mount relies on: copies that equal what they copy, revisions that tell
  different states apart, evidence that leaves the files alone, a failed execution that
  undoes everything, and candidate revisions that name what an execution really stores.
\<close>

section \<open>Copies\<close>

lemma cloneImageValue_id [simp]: "cloneImageValue v = v"
proof (induction v)
  case (VMap m)
  have "map (map_prod (\<lambda>k. k) cloneImageValue) m = m"
    by (rule map_idI) (use VMap in \<open>force simp: prod_set_simps\<close>)
  then show ?case by simp
qed (auto intro: map_idI)

lemma cloneMap_id [simp]: "cloneMap m = m"
proof -
  have "map_prod (\<lambda>k :: string. k) cloneImageValue = (\<lambda>x. x)" by (auto simp: fun_eq_iff)
  then show ?thesis by (simp add: cloneMap_def option.map_ident)
qed

lemma cloneEvidence_id [simp]: "cloneEvidence es = es"
  by (simp add: cloneEvidence_def)

section \<open>Revisions\<close>

lemma length_be_bytes [simp]: "length (be_bytes k n) = k"
  by (induction k arbitrary: n) auto

lemma be_bytes_inject: "be_bytes k n = be_bytes k m \<Longrightarrow> n mod 256 ^ k = m mod 256 ^ k"
proof (induction k arbitrary: n m)
  case (Suc k)
  have split: "x mod 256 ^ Suc k = 256 * (x div 256 mod 256 ^ k) + x mod 256" for x :: nat
    by (metis mod_mult2_eq power_Suc)
  from Suc.prems have c: "be_bytes k (n div 256) = be_bytes k (m div 256)" "(char_of (n mod 256) :: char) = char_of (m mod 256)"
    by simp_all
  then have "(of_char (char_of (n mod 256) :: char) :: nat) = of_char (char_of (m mod 256) :: char)" by simp
  then have "n mod 256 = m mod 256" by simp
  with Suc.IH [OF c(1)] show ?case unfolding split by simp
qed simp

lemma be64_inject:
  assumes "be64 n = be64 m" "n < 2 ^ 64" "m < 2 ^ 64"
  shows "n = m"
  using be_bytes_inject [of 8 n m] assms by (simp add: be64_def)

lemma revision_input_inject:
  assumes "revision_input t x raw = revision_input t' x' raw'" "length t < 2 ^ 64" "length t' < 2 ^ 64"
  shows "t = t' \<and> x = x' \<and> raw = raw'"
proof -
  have l: "length (be64 n) = 8" for n by (simp add: be64_def)
  from assms(1) have "be64 (length t) = be64 (length t')" and r: "t @ [if x then CHR 0x01 else CHR 0x00] @ raw = t' @ [if x' then CHR 0x01 else CHR 0x00] @ raw'"
    using l by (auto simp: revision_input_def append_eq_append_conv)
  then have "length t = length t'" using be64_inject assms(2,3) by blast
  with r show ?thesis by (auto split: if_splits)
qed

section \<open>Evidence is read only\<close>

lemma read_raw_same: "iokeeps same_fs (read_raw E p)"
  unfolding read_raw_def by (intro untouched.keeps_catch os_ReadFile_same) (auto split: if_splits)

lemma read_pre_same: "iokeeps same_fs (read_pre E A tx key :: ('b world_scheme, dberr, row option) io)"
proof
  fix w :: "'b world_scheme"
  show "same_fs w (snd (read_pre E A tx key w))"
    using Get_same [of w E A tx "\<lparr>rKey = key, rData = VMap [], rErr = None\<rparr>"]
    by (auto simp: read_pre_def split: prod.splits option.splits sum.splits)
qed

lemma prepare_op_same: "iokeeps same_fs (prepare_op E A P s tx op)"
  unfolding prepare_op_def
  by (auto simp: Let_def intro!: untouched.keeps_bind ctx_Err_same read_raw_same read_pre_same)

lemma candidate_content_same: "iokeeps same_fs (candidate_content E A path grp)"
  unfolding candidate_content_def Let_def
  by (auto intro!: untouched.keeps_bind readMapOfRecordsFile_same split: prod.splits option.splits record_type.splits)

lemma prepare_same: "iokeeps same_fs (prepare E A P s tx ops)"
  unfolding prepare_def assignBatchCandidateRevisions_def path_revisions_def
  by (intro untouched.keeps_bind untouched.keeps_traverse prepare_op_same candidate_content_same) auto

section \<open>A failed execution is undone\<close>

lemma execute_op_journal: "iokeeps journal_kept (execute_op E A tx x)"
  unfolding execute_op_def Let_def
  by (auto intro!: journaled.keeps_bind keeps_same_journal [OF ctx_Err_same] insert_record_journal set_record_journal
        Delete_tx_journal split: prod.splits Action.splits)

lemma execute_ops_journal: "iokeeps journal_kept (execute_ops E A tx batch)"
  unfolding execute_ops_def by (intro journaled.keeps_each execute_op_journal)

lemma Evidence_same: "iokeeps same_fs (Evidence E es)"
  unfolding Evidence_def by (intro untouched.keeps_bind ctx_Err_same) simp

lemma run_executor_journal: "journal_kept w (snd (run_executor E A tx batch f called w))"
proof (induction f arbitrary: called w)
  case (XReturn e)
  then show ?case by (simp add: journaled.frame_refl)
next
  case (XEvidence k)
  obtain r w1 where e: "Evidence E (map (ppEvidence \<circ> snd) batch) w = (r, w1)" by (cases "Evidence E (map (ppEvidence \<circ> snd) batch) w")
  have "journal_kept w w1" by (rule same_journal [OF iokeepsD [OF Evidence_same e]])
  moreover have "journal_kept w1 (snd (run_executor E A tx batch (k r) called w1))" by (rule XEvidence) simp
  ultimately show ?case using e by (simp add: journaled.frame_trans)
next
  case (XExecute k)
  obtain r w1 where e: "execute_ops E A tx batch w = (r, w1)" by (cases "execute_ops E A tx batch w")
  have "journal_kept w w1" by (rule iokeepsD [OF execute_ops_journal e])
  moreover have "journal_kept w1 (snd (run_executor E A tx batch (k (err_of r)) True w1))" by (rule XExecute) simp
  ultimately have once: "journal_kept w (snd (run_executor E A tx batch (k (err_of r)) True w1))" by (rule journaled.frame_trans)
  have again: "journal_kept w (snd (run_executor E A tx batch (k (Some (EMsg ''protected execution already called'' []))) called w))"
    by (rule XExecute) simp
  show ?case
  proof (cases called)
    case True
    with again show ?thesis by simp
  next
    case False
    with once e show ?thesis by simp
  qed
qed

lemma execute_locked_atomic:
  assumes run: "execute_locked E A P s ops f w = (Inl e, w')" and e: "\<forall>a b. e \<noteq> ERollbackFailed a b"
  shows "data_at (wFs w') q = data_at (wFs w) q \<and> unpublished w w'"
proof -
  obtain r w1 where l: "loadDefinition (psDb s) w = (r, w1)" by (cases "loadDefinition (psDb s) w")
  note same = loadDefinition_tree [OF l]
  show ?thesis
  proof (cases r)
    case (Inl d)
    with run l same show ?thesis by (simp add: execute_locked_def iobind_def unpublished_log)
  next
    case (Inr def)
    let ?tx = "\<lparr>txStoredOnly = dbStoredOnly (psDb s), txDef = def\<rparr>"
    obtain p w2 where p: "prepare E A P s ?tx ops w1 = (p, w2)" by (cases "prepare E A P s ?tx ops w1")
    have same2: "wFs w2 = wFs w" "txGitLog w2 = txGitLog w"
      using iokeepsD [OF prepare_same p] same more_eq_snapshots [of w2 w1] by (simp_all add: same_fs_def)
    show ?thesis
    proof (cases p)
      case (Inl d)
      with run l \<open>r = Inr def\<close> p same2 show ?thesis by (simp add: execute_locked_def iobind_def Let_def unpublished_log)
    next
      case prepared: (Inr prepared)
      let ?w = "w2\<lparr>txWritten := Some [], txSnapshots := Some []\<rparr>"
      obtain err w3 where x: "run_executor E A ?tx (zip ops prepared) f False ?w = (err, w3)"
        by (cases "run_executor E A ?tx (zip ops prepared) f False ?w")
      have "journal_kept ?w w3" using run_executor_journal [of ?w E A ?tx "zip ops prepared" f False] x by simp
      moreover have "journal (wFs w) ?w" by (simp add: journal_def same2)
      ultimately have j: "journal (wFs w) w3" and g: "txGitLog w3 = txGitLog w" using same2 by (simp_all add: journal_kept_def)
      from run l \<open>r = Inr def\<close> p prepared x obtain d where "err = Some d" "roll_back E d w3 = (Some e, w')"
        by (cases err) (auto simp: execute_locked_def iobind_def Let_def as_io_def split: prod.splits option.splits)
      from roll_back_atomic [OF this(2) j e] g show ?thesis by (simp add: unpublished_log)
    qed
  qed
qed

lemma protected_lock_kept:
  fixes fn :: "(txworld, dberr, 'a) io"
  assumes run: "withProtectedLock E P p shared fn w = (r, w')"
    and fn: "\<And>w1. fn w1 = (r, w') \<Longrightarrow> data_kept {path_Clean p} w1 w'"
  shows "data_kept {path_Clean p} w w'"
proof -
  obtain q w1 where l: "flock E p w = (q, w1)" by (cases "flock E p w")
  have k: "data_kept {path_Clean p} w w1" using iokeepsD [OF flock_frame l] by (rule frame_data_kept)
  have c: "data_kept {path_Clean p} w1 (snd ((iobind (ctx_Err E) (\<lambda>_. iofail x) :: (txworld, dberr, 'a) io) w1))" for x :: dberr
  proof -
    have "iokeeps same_fs (iobind (ctx_Err E) (\<lambda>_. iofail x) :: (txworld, dberr, 'a) io)"
      by (intro untouched.keeps_bind ctx_Err_same) simp
    then have "same_fs w1 (snd ((iobind (ctx_Err E) (\<lambda>_. iofail x) :: (txworld, dberr, 'a) io) w1))" by (rule iokeeps_at)
    then show ?thesis by (rule same_data_kept)
  qed
  show ?thesis
  proof (cases q)
    case (Inl d)
    with run l k show ?thesis
      by (auto simp: withProtectedLock_def withSharedLock_def withExclusiveLock_def iobind_def iocatch_def iofail_def split: if_splits)
  next
    case (Inr u)
    with run l consider "fn w1 = (r, w')" | x where "iobind (ctx_Err E) (\<lambda>_. iofail x) w1 = (r, w')"
      by (auto simp: withProtectedLock_def withSharedLock_def withExclusiveLock_def iobind_def iocatch_def split: if_splits)
    then have "data_kept {path_Clean p} w1 w'"
    proof cases
      case 1
      then show ?thesis by (rule fn)
    next
      case (2 x)
      with c [of x] show ?thesis by simp
    qed
    with k show ?thesis by (rule kept.frame_trans)
  qed
qed

lemma under_protected_lock:
  assumes run: "iobind (transactionLockPath E G (dbProjectPath db)) (\<lambda>lock. withProtectedLock E P lock shared fn) w = (r, w')"
    and fn: "\<And>w1 Q. fn w1 = (r, w') \<Longrightarrow> data_kept Q w1 w'"
  shows "data_kept (lock_files E G db w) w w'"
proof -
  obtain t w1 where t: "transactionLockPath E G (dbProjectPath db) w = (t, w1)"
    by (cases "transactionLockPath E G (dbProjectPath db) w")
  have k: "data_kept Q w w1" for Q using transactionLockPath_kept t by (rule iokeepsD)
  show ?thesis
  proof (cases t)
    case (Inl e)
    with run t k show ?thesis by (simp add: iobind_def)
  next
    case (Inr p)
    with run t have "withProtectedLock E P p shared fn w1 = (r, w')" by (simp add: iobind_def)
    then have "data_kept {path_Clean p} w1 w'" by (rule protected_lock_kept) (rule fn)
    with k [of "{path_Clean p}"] have "data_kept {path_Clean p} w w'" by (rule kept.frame_trans)
    with t Inr show ?thesis by (simp add: lock_files_def)
  qed
qed

lemma run_inspector_same: "same_fs w (snd (run_inspector E es f w))"
proof (induction f arbitrary: w)
  case (IEvidence k)
  obtain r w1 where e: "Evidence E es w = (r, w1)" by (cases "Evidence E es w")
  have "same_fs w w1" by (rule iokeepsD [OF Evidence_same e])
  moreover have "same_fs w1 (snd (run_inspector E es (k r) w1))" by (rule IEvidence) simp
  ultimately show ?case using e by (simp add: untouched.frame_trans)
qed (simp add: untouched.frame_refl)

lemma inspect_locked_same: "iokeeps same_fs (inspect_locked E A P s ops f)"
  unfolding inspect_locked_def
  by (intro untouched.keeps_bind loadDefinition_same prepare_same as_io_keeps run_inspector_same)

section \<open>Candidate revisions\<close>

text \<open>What an operation that writes leaves in its file, from the tree it starts on.\<close>

definition records_at :: "api \<Rightarrow> fs \<Rightarrow> string \<Rightarrow> record_format \<Rightarrow> row go_map \<Rightarrow> bool" where
  "records_at A fs path format rs \<longleftrightarrow>
     (case data_at fs (path_Clean path) of None \<Rightarrow> rs = [] | Some c \<Rightarrow> ParseMapOfRecordsContent A c format = Inr rs)"

definition stores :: "api \<Rightarrow> fs \<Rightarrow> prepared_op \<Rightarrow> row \<Rightarrow> string \<Rightarrow> bool" where
  "stores A fs p m raw \<longleftrightarrow>
     (case rfRecordType (ppFile p) of
        SingleRecord \<Rightarrow> EncodeRecordContentForCollection A m (ppCol p) = Inr raw
      | MapOfRecords \<Rightarrow>
          (\<exists>rs. records_at A fs (prepared_path A p) (rfFormat (ppFile p)) rs \<and>
             EncodeMapOfRecordsContent A (go_set (ppKey p) (ApplyLocaleToWrite A m (cdColumns (ppCol p))) rs)
               (rfFormat (ppFile p)) (cdID (ppCol p)) (cdColumnsOrder (ppCol p)) = Inr raw)
      | _ \<Rightarrow> False)"

lemma records_at_unique: "records_at A fs p f rs \<Longrightarrow> records_at A fs p f rs' \<Longrightarrow> rs = rs'"
  by (auto simp: records_at_def split: option.splits)

lemma stores_unique: "stores A fs p m raw \<Longrightarrow> stores A fs p m raw' \<Longrightarrow> raw = raw'"
  by (auto simp: stores_def split: record_type.splits dest: records_at_unique)

lemma records_at_cong:
  "data_at fs' (path_Clean p) = data_at fs (path_Clean p) \<Longrightarrow> records_at A fs' p f rs = records_at A fs p f rs"
  by (simp add: records_at_def)

lemma stores_cong:
  "data_at fs' (path_Clean (prepared_path A p)) = data_at fs (path_Clean (prepared_path A p)) \<Longrightarrow> stores A fs' p m raw = stores A fs p m raw"
  by (simp add: stores_def records_at_cong [of fs' "prepared_path A p" fs] split: record_type.split)

lemma read_records_at:
  assumes "readMapOfRecordsFile E A p fmt w = (Inr rs, w')" "p \<noteq> []"
  shows "records_at A (wFs w) p fmt rs"
  using readMapOfRecordsFile_Inr [OF assms(1)] assms(2)
  by (auto simp: records_at_def data_at_def file_at_def split: sum.splits dest: lookup_node_missing lookup_node_file)

lemma not_empty_path: "lookup_node fs p = Inr n \<Longrightarrow> p \<noteq> []"
  by (auto simp: lookup_node_def)

lemma map_write_stores:
  assumes "rfRecordType (ppFile p) = MapOfRecords"
    and "readMapOfRecordsFile E A (prepared_path A p) (rfFormat (ppFile p)) w = (Inr rs, w1)"
    and "writeMapOfRecordsFile E A (prepared_path A p) (ppCol p) (ppFile p)
           (go_set (ppKey p) (ApplyLocaleToWrite A m (cdColumns (ppCol p))) rs) w1 = (Inr v, w2)"
  shows "\<exists>raw n. stores A (wFs w) p m raw \<and> lookup_node (wFs w2) (prepared_path A p) = Inr (NFile n raw)"
proof -
  from writeMapOfRecordsFile_Inr [OF assms(3)] obtain n c where
    c: "EncodeMapOfRecordsContent A (go_set (ppKey p) (ApplyLocaleToWrite A m (cdColumns (ppCol p))) rs) (rfFormat (ppFile p))
          (cdID (ppCol p)) (cdColumnsOrder (ppCol p)) = Inr c" "lookup_node (wFs w2) (prepared_path A p) = Inr (NFile n c)" by blast
  from read_records_at [OF assms(2) not_empty_path [OF c(2)]] c assms(1) show ?thesis by (auto simp: stores_def)
qed

lemma set_file_stores:
  assumes "set_file E A (ppCol p) (ppFile p) (ppKey p) m (prepared_path A p) w = (Inr u, w')"
  shows "\<exists>raw n. stores A (wFs w) p m raw \<and> lookup_node (wFs w') (prepared_path A p) = Inr (NFile n raw)"
proof (cases "rfRecordType (ppFile p)")
  case SingleRecord
  with assms show ?thesis by (auto simp: set_file_def stores_def res_simps dest!: track_tree writeSingleRecordFile_Inr)
next
  case MapOfRecords
  with assms obtain rs v w1 w2 where "readMapOfRecordsFile E A (prepared_path A p) (rfFormat (ppFile p)) w = (Inr rs, w1)"
      "writeMapOfRecordsFile E A (prepared_path A p) (ppCol p) (ppFile p)
         (go_set (ppKey p) (ApplyLocaleToWrite A m (cdColumns (ppCol p))) rs) w1 = (Inr v, w2)" "wFs w' = wFs w2"
    by (auto simp: set_file_def res_simps dest!: track_tree)
  with map_write_stores [OF MapOfRecords] show ?thesis by metis
qed (use assms in \<open>auto simp: set_file_def res_simps\<close>)

lemma insert_file_stores:
  assumes "insert_file E A (ppCol p) (ppFile p) (ppKey p) m (prepared_path A p) w = (Inr u, w')"
  shows "\<exists>raw n. stores A (wFs w) p m raw \<and> lookup_node (wFs w') (prepared_path A p) = Inr (NFile n raw)"
proof (cases "rfRecordType (ppFile p)")
  case SingleRecord
  with assms show ?thesis
    by (auto simp: insert_file_def stores_def res_simps split: if_splits dest!: track_tree writeSingleRecordFile_Inr)
next
  case MapOfRecords
  with assms obtain rs v w1 w2 where "readMapOfRecordsFile E A (prepared_path A p) (rfFormat (ppFile p)) w = (Inr rs, w1)"
      "writeMapOfRecordsFile E A (prepared_path A p) (ppCol p) (ppFile p)
         (go_set (ppKey p) (ApplyLocaleToWrite A m (cdColumns (ppCol p))) rs) w1 = (Inr v, w2)" "wFs w' = wFs w2"
    by (auto simp: insert_file_def res_simps split: if_splits dest!: track_tree)
  with map_write_stores [OF MapOfRecords] show ?thesis by metis
qed (use assms in \<open>auto simp: insert_file_def res_simps\<close>)

definition writes :: "ProtectedOperation \<Rightarrow> bool" where
  "writes op \<longleftrightarrow> poAction op \<in> {AInsert, ASet, AUpdate}"

lemma written_record:
  assumes "iobind (prepare_write E A tx name key (VMap m)) (\<lambda>(colDef, rf, recordKey, data).
        let path = resolveRecordPath A colDef rf recordKey in
        iobind (snapshot E path) (\<lambda>_. F colDef rf recordKey data path)) w = (Inr u, w')"
    and "resolveCollection A (txDef tx) key = Inr (ppCol p, ppFile p, ppKey p)" "DataToMap A (VMap m) = Inr m"
  obtains w1 where "wFs w1 = wFs w" "F (ppCol p) (ppFile p) (ppKey p) m (prepared_path A p) w1 = (Inr u, w')"
proof -
  from assms(1) obtain cd rf k data w1 w2 v where p: "prepare_write E A tx name key (VMap m) w = (Inr (cd, rf, k, data), w1)"
      and s: "snapshot E (resolveRecordPath A cd rf k) w1 = (Inr v, w2)"
      and f: "F cd rf k data (resolveRecordPath A cd rf k) w2 = (Inr u, w')"
    by (auto simp: res_simps Let_def)
  from prepare_write_Inr [OF p] assms(2,3) have "cd = ppCol p" "rf = ppFile p" "k = ppKey p" "data = m" "wFs w1 = wFs w"
    by (auto simp: same_fs_def)
  with f snapshot_same_tree [OF s] show ?thesis by (intro that [of w2]) (auto simp: prepared_path_def)
qed

lemma execute_write:
  assumes x: "execute_op E A tx (op, p) w = (Inr u, w')" and "writes op" and m: "ppCandidate p = Some m"
    and r: "resolveCollection A (txDef tx) (poKey op) = Inr (ppCol p, ppFile p, ppKey p)" and d: "DataToMap A (VMap m) = Inr m"
  shows "\<exists>raw. stores A (wFs w) p m raw \<and> data_at (wFs w') (path_Clean (prepared_path A p)) = Some raw \<and>
    same_files_but {path_Clean (prepared_path A p)} (wFs w) (wFs w') \<and> prepared_path A p \<noteq> []"
proof -
  from assms(1-3) obtain w1 where c: "ctx_Err E w = (Inr (), w1)"
      and k: "set_record E A tx (poKey op) (VMap m) w1 = (Inr u, w') \<or> insert_record E A tx (poKey op) (VMap m) w1 = (Inr u, w')"
    by (cases "poAction op") (auto simp: execute_op_def writes_def candidate_record_def res_simps Let_def split: if_splits)
  have fs: "wFs w1 = wFs w" using iokeepsD [OF ctx_Err_same c] by (simp add: same_fs_def)
  have frame: "same_files_but {path_Clean (prepared_path A p)} (wFs w1) (wFs w')"
    using k set_record_frame [of A tx "poKey op" w1 E "VMap m"] insert_record_frame [of A tx "poKey op" w1 E "VMap m"] r
    by (auto simp: only_record_file_def prepared_path_def)
  obtain w2 :: txworld and raw n where "wFs w2 = wFs w1" "stores A (wFs w2) p m raw" "lookup_node (wFs w') (prepared_path A p) = Inr (NFile n raw)"
    using k
  proof
    assume "set_record E A tx (poKey op) (VMap m) w1 = (Inr u, w')"
    note q = this [unfolded set_record_def]
    show ?thesis by (rule written_record [OF q r d]) (metis set_file_stores that)
  next
    assume "insert_record E A tx (poKey op) (VMap m) w1 = (Inr u, w')"
    note q = this [unfolded insert_record_def]
    show ?thesis by (rule written_record [OF q r d]) (metis insert_file_stores that)
  qed
  with fs frame show ?thesis by (auto simp: data_at_def dest: lookup_node_file not_empty_path)
qed

lemma candidate_content_stores:
  assumes "candidate_content E A (prepared_path A p) [(op, p)] w = (Inr (x, raw), w')" "writes op" "ppCandidate p = Some m"
    and "prepared_path A p \<noteq> []"
  shows "x \<and> stores A (wFs w) p m raw"
proof (cases "rfRecordType (ppFile p)")
  case MapOfRecords
  from assms(2) have na: "poAction op \<noteq> ADelete" by (auto simp: writes_def)
  with assms(1,3) MapOfRecords obtain rs w1 where r: "readMapOfRecordsFile E A (prepared_path A p) (rfFormat (ppFile p)) w = (Inr rs, w1)"
      and e: "EncodeMapOfRecordsContent A (go_set (ppKey p) (ApplyLocaleToWrite A m (cdColumns (ppCol p))) rs)
               (rfFormat (ppFile p)) (cdID (ppCol p)) (cdColumnsOrder (ppCol p)) = Inr raw" and x
    by (auto simp: candidate_content_def Let_def batch_records_def res_simps)
  with read_records_at [OF r assms(4)] MapOfRecords show ?thesis by (auto simp: stores_def)
qed (use assms in \<open>auto simp: candidate_content_def Let_def stores_def writes_def res_simps\<close>)

definition permutes_keys :: "protected_env \<Rightarrow> bool" where
  "permutes_keys P \<longleftrightarrow> (\<forall>ks. mset (prOrder P ks) = mset ks)"

lemma filter_unique:
  assumes "distinct (map f xs)" "x \<in> set xs"
  shows "filter (\<lambda>y. f y = f x) xs = [x]"
  using assms
proof (induction xs)
  case (Cons y ys)
  show ?case
  proof (cases "y = x")
    case True
    with Cons.prems have "\<forall>z \<in> set ys. f z \<noteq> f x" by (metis distinct.simps(2) image_eqI list.simps(9) set_map)
    then have "filter (\<lambda>y. f y = f x) ys = []" by (simp add: filter_empty_conv)
    with True show ?thesis by simp
  next
    case False
    with Cons show ?thesis by (auto simp: image_iff)
  qed
qed simp

lemma path_revisions_Inr:
  assumes "path_revisions E A P batch w = (Inr found, w')" "permutes_keys P" "(op, p) \<in> set batch"
    and "distinct (map (prepared_path A \<circ> snd) batch)"
  obtains r u v where "go_get found (prepared_path A p) = Some r" "same_fs w u" "candidate_content E A (prepared_path A p) [(op, p)] u = (Inr r, v)"
proof -
  let ?paths = "map (prepared_path A \<circ> snd) batch" and ?q = "prepared_path A p"
  let ?f = "\<lambda>path. iobind (candidate_content E A path (filter (\<lambda>x. prepared_path A (snd x) = path) batch)) (\<lambda>r. ioret (path, r))"
  have same: "iokeeps same_fs (?f path)" for path by (intro untouched.keeps_bind candidate_content_same) simp
  let ?ks = "prOrder P (remdups ?paths)"
  have ms: "mset ?ks = mset ?paths" using assms(2,4) by (simp add: permutes_keys_def distinct_remdups_id)
  have l: "list_all2 (\<lambda>path y. \<exists>u v. same_fs w u \<and> ?f path u = (Inr y, v)) ?ks found"
    by (rule untouched.traverse_each [OF assms(1) [unfolded path_revisions_def] same])
  then have fst: "map fst found = ?ks"
    by (induction rule: list_all2_induct) (auto simp: res_simps)
  have dist: "distinct (map fst found)" using fst ms assms(4) by (metis mset_eq_imp_distinct_iff)
  have "?q \<in> set ?ks" using assms(3) mset_eq_setD [OF ms] by force
  then obtain i where i: "i < length ?ks" "?ks ! i = ?q" by (auto simp: in_set_conv_nth)
  from list_all2_nthD [OF l i(1)] obtain u v where u: "same_fs w u" "?f ?q u = (Inr (found ! i), v)" unfolding i(2) by blast
  then obtain r where r: "found ! i = (?q, r)" "candidate_content E A ?q (filter (\<lambda>x. prepared_path A (snd x) = ?q) batch) u = (Inr r, v)"
    by (auto simp: res_simps)
  have "filter (\<lambda>x. prepared_path A (snd x) = ?q) batch = [(op, p)]"
    using filter_unique [OF assms(4,3)] by (simp add: comp_def)
  moreover have "go_get found ?q = Some r"
    using dist r(1) i list_all2_lengthD [OF l] by (metis go_get_def map_of_eq_Some_iff nth_mem)
  ultimately show ?thesis using that u(1) r(2) by simp
qed

lemma prepare_op_Inr:
  assumes "prepare_op E A P s tx op w = (Inr p, w')"
  shows "resolveCollection A (txDef tx) (poKey op) = Inr (ppCol p, ppFile p, ppKey p)"
    and "peExists (ppEvidence p) \<longleftrightarrow> pePreImage (ppEvidence p) \<noteq> None"
    and "peCandidateImage (ppEvidence p) = ppCandidate p" and "peCanonicalTarget (ppEvidence p) = poCanonicalTarget op"
  using assms by (auto simp: prepare_op_def res_simps Let_def)

text \<open>A prepared batch, and where each of its candidate revisions comes from.\<close>

lemma prepare_Inr:
  assumes "prepare E A P s tx ops w = (Inr prepared, w')"
  shows "list_all2 (\<lambda>op p. resolveCollection A (txDef tx) (poKey op) = Inr (ppCol p, ppFile p, ppKey p)) ops prepared"
    and "\<lbrakk>permutes_keys P; distinct (map (prepared_path A) prepared); (op, p) \<in> set (zip ops prepared); writes op;
          ppCandidate p = Some m; prepared_path A p \<noteq> []\<rbrakk> \<Longrightarrow>
         \<exists>raw. stores A (wFs w) p m raw \<and> peCandidateRevision (ppEvidence p) = revision P s (poCanonicalTarget op) True raw"
proof -
  from assms obtain qs found w1 w2 where t: "iotraverse (prepare_op E A P s tx) ops w1 = (Inr qs, w2)" and w1: "wFs w1 = wFs w"
      and f: "path_revisions E A P (zip ops qs) w2 = (Inr found, w')"
      and pr: "prepared = map (\<lambda>(op, p). case go_get found (prepared_path A p) of None \<Rightarrow> p
         | Some (x, raw) \<Rightarrow> p\<lparr>ppEvidence := (ppEvidence p)\<lparr>peCandidateRevision := revision P s (poCanonicalTarget op) x raw\<rparr>\<rparr>) (zip ops qs)"
    by (auto simp: prepare_def assignBatchCandidateRevisions_def res_simps)
  have l: "list_all2 (\<lambda>op q. \<exists>u v. same_fs w1 u \<and> prepare_op E A P s tx op u = (Inr q, v)) ops qs"
    by (rule untouched.traverse_each [OF t prepare_op_same])
  have len: "length qs = length ops" using list_all2_lengthD [OF l] by simp
  have w2: "wFs w2 = wFs w" using iokeepsD [OF untouched.keeps_traverse [OF prepare_op_same] t] w1 by (simp add: same_fs_def)
  have nth: "prepared ! i = (case go_get found (prepared_path A (qs ! i)) of None \<Rightarrow> qs ! i
         | Some (x, raw) \<Rightarrow> (qs ! i)\<lparr>ppEvidence := (ppEvidence (qs ! i))\<lparr>peCandidateRevision := revision P s (poCanonicalTarget (ops ! i)) x raw\<rparr>\<rparr>)"
    if "i < length ops" for i using that len unfolding pr by simp
  have lenp: "length prepared = length ops" using len unfolding pr by simp
  have keeps: "ppCol (prepared ! i) = ppCol (qs ! i)" "ppFile (prepared ! i) = ppFile (qs ! i)" "ppKey (prepared ! i) = ppKey (qs ! i)"
      "ppCandidate (prepared ! i) = ppCandidate (qs ! i)" "prepared_path A (prepared ! i) = prepared_path A (qs ! i)"
    if "i < length ops" for i
    unfolding nth [OF that] prepared_path_def by (auto split: option.splits)
  show "list_all2 (\<lambda>op p. resolveCollection A (txDef tx) (poKey op) = Inr (ppCol p, ppFile p, ppKey p)) ops prepared"
    using list_all2_nthD [OF l] prepare_op_Inr(1) lenp keeps by (fastforce simp: list_all2_conv_all_nth)
  show "\<exists>raw. stores A (wFs w) p m raw \<and> peCandidateRevision (ppEvidence p) = revision P s (poCanonicalTarget op) True raw"
    if P: "permutes_keys P" "distinct (map (prepared_path A) prepared)" "(op, p) \<in> set (zip ops prepared)" "writes op"
      "ppCandidate p = Some m" "prepared_path A p \<noteq> []"
  proof -
    from P(3) obtain i where i: "i < length ops" "op = ops ! i" "p = prepared ! i" by (auto simp: set_zip)
    let ?q = "qs ! i"
    have "map (prepared_path A \<circ> snd) (zip ops qs) = map (prepared_path A) prepared"
      using keeps(5) len lenp by (intro nth_equalityI) auto
    then have d: "distinct (map (prepared_path A \<circ> snd) (zip ops qs))" using P(2) by simp
    have "(op, ?q) \<in> set (zip ops qs)" using i len by (auto simp: set_zip)
    from path_revisions_Inr [OF f P(1) this d] obtain x raw u v where
      c: "go_get found (prepared_path A ?q) = Some (x, raw)" "same_fs w2 u" "candidate_content E A (prepared_path A ?q) [(op, ?q)] u = (Inr (x, raw), v)"
      by (metis prod.exhaust)
    have "x \<and> stores A (wFs u) ?q m raw"
      using candidate_content_stores [OF c(3) P(4)] keeps(4,5) [OF i(1)] P(5,6) i(3) by simp
    moreover have "stores A (wFs w) p m raw \<longleftrightarrow> stores A (wFs u) ?q m raw"
      using keeps [OF i(1)] c(2) w2 unfolding i(3) by (simp add: stores_def same_fs_def split: record_type.split)
    moreover have "peCandidateRevision (ppEvidence p) = revision P s (poCanonicalTarget op) x raw"
      unfolding i nth [OF i(1)] using c(1) by simp
    ultimately show ?thesis by auto
  qed
qed

text \<open>
  The execution of a batch whose operations write records in files of their own: each file
  ends with the content its operation stores, computed from the tree before the batch.
\<close>

lemma execute_ops_stores:
  assumes "execute_ops E A tx batch w = (Inr u, w')"
    and "distinct (map (\<lambda>x. path_Clean (prepared_path A (snd x))) batch)"
    and "\<And>op p. (op, p) \<in> set batch \<Longrightarrow> writes op \<and> (\<exists>m. ppCandidate p = Some m) \<and>
           resolveCollection A (txDef tx) (poKey op) = Inr (ppCol p, ppFile p, ppKey p)"
    and "\<And>m. DataToMap A (VMap m) = Inr m"
  shows "(\<forall>(op, p) \<in> set batch. \<forall>m. ppCandidate p = Some m \<longrightarrow> prepared_path A p \<noteq> [] \<and>
            (\<exists>raw. stores A (wFs w) p m raw \<and> data_at (wFs w') (path_Clean (prepared_path A p)) = Some raw)) \<and>
         same_files_but ((\<lambda>x. path_Clean (prepared_path A (snd x))) ` set batch) (wFs w) (wFs w')"
  using assms(1-3)
proof (induction batch arbitrary: w)
  case Nil
  then show ?case by (simp add: execute_ops_def ioret_def)
next
  case (Cons x batch)
  obtain op p where x: "x = (op, p)" by (cases x)
  let ?q = "path_Clean (prepared_path A p)" and ?qs = "(\<lambda>x. path_Clean (prepared_path A (snd x))) ` set batch"
  from Cons.prems(1) x obtain v w1 where h: "execute_op E A tx (op, p) w = (Inr v, w1)" and r: "execute_ops E A tx batch w1 = (Inr u, w')"
    by (auto simp: execute_ops_def res_simps)
  from Cons.prems(3) [of op p] x obtain m where o: "writes op" "ppCandidate p = Some m"
      "resolveCollection A (txDef tx) (poKey op) = Inr (ppCol p, ppFile p, ppKey p)" by auto
  obtain raw where e: "stores A (wFs w) p m raw" "data_at (wFs w1) ?q = Some raw" "same_files_but {?q} (wFs w) (wFs w1)" "prepared_path A p \<noteq> []"
    using execute_write [OF h o assms(4)] by blast
  have new: "?q \<notin> ?qs" using Cons.prems(2) x by auto
  have IH: "(\<forall>(op, p) \<in> set batch. \<forall>m. ppCandidate p = Some m \<longrightarrow> prepared_path A p \<noteq> [] \<and>
            (\<exists>raw. stores A (wFs w1) p m raw \<and> data_at (wFs w') (path_Clean (prepared_path A p)) = Some raw)) \<and>
         same_files_but ?qs (wFs w1) (wFs w')"
    using Cons.IH [OF r] Cons.prems(2,3) by auto
  have unchanged: "stores A (wFs w1) p' m' raw' = stores A (wFs w) p' m' raw'" if "(op', p') \<in> set batch" for op' p' m' raw'
  proof (rule stores_cong)
    have "path_Clean (prepared_path A p') \<noteq> ?q" using new that by force
    with e(3) show "data_at (wFs w1) (path_Clean (prepared_path A p')) = data_at (wFs w) (path_Clean (prepared_path A p'))"
      by (simp add: same_files_but_def data_at_def)
  qed
  have "data_at (wFs w') ?q = Some raw" using IH new e(2) by (simp add: same_files_but_def data_at_def)
  moreover have "same_files_but (insert ?q ?qs) (wFs w) (wFs w')" using IH e(3) by (auto simp: same_files_but_def)
  ultimately show ?case using IH unchanged e(1,4) o(2) x by fastforce
qed

end
