(* ===== verification/AccessSample.thy ===== *)
theory AccessSample
  imports ProtectedProperties Sample
begin

text \<open>
  A concrete policy library and project, for evaluating the access layer: a policy document
  is its own name, the two manifests are one fixed text each, and Git holds a committed
  generation under \<open>HEAD\<close> while the head the publisher sees has none.
\<close>

definition sample_digest :: string where
  "sample_digest = replicate 64 (CHR ''0'')"

definition sample_generation :: generationManifest where
  "sample_generation =
     \<lparr>gmAPIVersion = generationAPIVersion, gmEnabled = True, gmDatabase = ''db'', gmRealm = [],
      gmPolicies = [\<lparr>gpID = ''p'', gpFile = ''policies/p.yaml'', gpDigest = sample_digest\<rparr>]\<rparr>"

definition sample_active :: activeGenerationManifest where
  "sample_active =
     \<lparr>amEnabled = Some True, amDatabase = ''db'', amRealm = [], amGeneration = sample_digest,
      amPolicies = [''generations/'' @ sample_digest @ ''/policies/p.yaml'']\<rparr>"

definition sample_access :: "string access_api" where
  "sample_access =
     \<lparr>acLink = (\<lambda>_ _. False), acTemp = (\<lambda>_. ''x''), acHook = (\<lambda>_. None), acSha256 = (\<lambda>_. sample_digest),
      yamlActive = (\<lambda>s. if s = ''active'' then Inr (sample_active, Some EEOF) else Inl (EExternal ''yaml'')),
      yamlActiveLoose = (\<lambda>s. if s = ''active'' then Inr sample_active else Inl (EExternal ''yaml'')),
      yamlGeneration = (\<lambda>s. if s = ''gen'' then Inr sample_generation else Inl (EExternal ''yaml'')),
      yamlGenerationLoose = (\<lambda>s. if s = ''gen'' then Inr sample_generation else Inl (EExternal ''yaml'')),
      yamlMarshalActive = (\<lambda>_. Inr ''active''), yamlMarshalGeneration = (\<lambda>_. Inr ''gen''),
      ParseTugQLPolicy = (\<lambda>s. Inr \<lparr>pdName = s, pdDatabase = ''db'', pdBody = []\<rparr>),
      MarshalTugQLPolicyJSON = (\<lambda>d. Inr (pdName d)), MarshalTugQLPolicyYAML = (\<lambda>d. Inr (pdName d)),
      LoadPolicyFiles = (\<lambda>_ _ _ c. Inr (pcPolicies c))\<rparr>"

definition sample_candidate :: OwnerPolicyGeneration where
  "sample_candidate = \<lparr>ogEnabled = True, ogDatabase = ''db'', ogRealm = [], ogPolicies = [''p'']\<rparr>"

definition sample_policy_git :: gitenv where
  "sample_policy_git = sample_git\<lparr>gRun := (\<lambda>n dir i inp args.
     if args = [''rev-parse'', ''--git-path'', ''dalgo2ingitdb/transaction.lock''] then (True, ''/git/lock'')
     else if args = [''show'', ''c0ffee:'' @ active_path] then (False, [])
     else if args = [''show'', ''HEAD:'' @ active_path] then (True, ''active'')
     else if args = [''show'', ''HEAD:'' @ committed_name sample_digest ''manifest.yaml''] then (True, ''gen'')
     else if args = [''show'', ''HEAD:'' @ committed_name sample_digest ''policies/p.yaml''] then (True, ''p'')
     else if hd args = ''ls-tree'' then (True, [])
     else (True, ''c0ffee''))\<rparr>"

definition empty_project :: txworld where
  "empty_project = \<lparr>wFs = [(''/'', NDir), (''/db'', NDir)], wTick = 0, txSnapshots = None, txWritten = None, txGitLog = []\<rparr>"

text \<open>A project that has the generation on disk and selects it.\<close>

definition sample_generation_dir :: string where
  "sample_generation_dir = ''/db/.ingitdb/access/generations/'' @ sample_digest"

definition guarded_project :: txworld where
  "guarded_project =
     \<lparr>wFs = [(''/'', NDir), (''/db'', NDir), (''/db/.ingitdb'', NDir), (''/db/.ingitdb/access'', NDir),
             (''/db/.ingitdb/access/manifest.yaml'', NFile 420 ''active''), (''/db/.ingitdb/access/generations'', NDir),
             (sample_generation_dir, NDir), (sample_generation_dir @ ''/manifest.yaml'', NFile 420 ''gen''),
             (sample_generation_dir @ ''/policies'', NDir), (sample_generation_dir @ ''/policies/p.yaml'', NFile 420 ''p'')],
      wTick = 0, txSnapshots = None, txWritten = None, txGitLog = []\<rparr>"

definition sample_facade :: "string facade_api" where
  "sample_facade = \<lparr>faSecureDB = (\<lambda>_. Inr ()), faRandom = Inr ''s'', faCoordinator = (\<lambda>_. Inr ()), faWriteSession = True\<rparr>"

text \<open>A Git outside a work tree, a database whose controller serves no snapshot yet, and a protected store.\<close>

definition no_git :: gitenv where
  "no_git = sample_git\<lparr>gRun := (\<lambda>n dir i inp args. (False, []))\<rparr>"

definition closed_database :: "string securedDatabase" where
  "closed_database = \<lparr>sdBackend = sample_db\<lparr>dbStoredOnly := True\<rparr>, sdController = Some ''/db'', sdOwnerState = Some None, sdSource = SnapshotProvider\<rparr>"

definition sample_protected :: protected_env where
  "sample_protected =
     \<lparr>prHmac = (\<lambda>k m. m), prContextual = False, prLocked = (\<lambda>_. True), prOrder = (\<lambda>ks. ks), prActionName = (\<lambda>_. ''write'')\<rparr>"

definition sample_store :: protectedStorage where
  "sample_store =
     \<lparr>psDb = sample_db\<lparr>dbReader := Some (\<lambda>_ _ _. Inr (Some [(''teams'', teams)]))\<rparr>, psSecret = ''k''\<rparr>"

definition sample_protected_tx :: txctx where
  "sample_protected_tx = \<lparr>txStoredOnly = False, txDef = Some [(''teams'', teams)]\<rparr>"

definition sample_set :: ProtectedOperation where
  "sample_set =
     \<lparr>poID = ''1'', poAction = ASet, poKey = sample_key ''teams'' ''red'', poData = Some [(''team'', VStr ''x'')],
      poUpdates = [], poCanonicalTarget = ''t''\<rparr>"

lemma sample_access_facts:
  "temp_names sample_access" "\<forall>x. isSHA256 (acSha256 sample_access x)" "canonical_sources sample_access items"
  "buildGeneration sample_access sample_candidate = Inr (sample_generation, [(''policies/p.yaml'', ''p'')], sample_digest)"
  "generation_codec sample_access sample_candidate"
proof -
  show "temp_names sample_access" by (simp add: temp_names_def sample_access_def)
  have "isSHA256 sample_digest" by code_simp
  then show "\<forall>x. isSHA256 (acSha256 sample_access x)" by (simp add: sample_access_def)
  show "canonical_sources sample_access items" by (auto simp: canonical_sources_def sample_access_def)
  show b: "buildGeneration sample_access sample_candidate = Inr (sample_generation, [(''policies/p.yaml'', ''p'')], sample_digest)" by code_simp
  show "generation_codec sample_access sample_candidate" by (auto simp: generation_codec_def b) (simp add: sample_access_def)
qed

end
