(* ===== verification/AccessProperties.thy ===== *)
theory AccessProperties
  imports AccessSample
begin

text \<open>
  The properties of the access-policy layer, with their instances on the sample project.
\<close>

text \<open>
  C31. Reading the access manifest refines its specification and changes no file: it answers
  that there is no configuration only when one of the two directories is missing, and a
  configuration only when the manifest is within the size limit, decodes, says explicitly
  whether it is enabled, names policies if it is, and agrees with a generation whose every
  file has been verified against its digest. Everything else is an error.
\<close>

theorem manifest_read_refines_view:
  assumes "readAccessManifest E A projectPath w = (Inr r, w')"
  shows "manifest_view A (wFs w) projectPath r \<and> wFs w' = wFs w"
  using readAccessManifest_view [OF assms] by (simp add: same_fs_def)

theorem manifest_read_refines_view_witness:
  "\<exists>config. pcEnabled config \<and> manifest_view sample_access (wFs guarded_project) ''/db'' (Some config)"
proof -
  let ?r = "readAccessManifest sample_env sample_access ''/db'' guarded_project"
  have "case fst ?r of Inr (Some config) \<Rightarrow> pcEnabled config | _ \<Rightarrow> False" by code_simp
  then obtain config where c: "fst ?r = Inr (Some config)" "pcEnabled config" by (auto split: sum.splits option.splits)
  then have "?r = (Inr (Some config), snd ?r)" by (metis prod.collapse)
  from manifest_read_refines_view [OF this] c(2) show ?thesis by blast
qed

text \<open>
  C34. A publication swaps the Git reference at most once, last, and only away from a head
  whose manifest names the expected revision. If nothing was published, the publication
  failed and changed files of the generations directory only; if it succeeded, the working
  manifest is the encoded pointer to the new revision and that generation verifies on disk.
\<close>

theorem publication_swaps_expected_revision:
  assumes "publish_locked E A G base candidate expected msg w = (r, w')"
    and "temp_names A" "base \<noteq> []" "\<forall>x. isSHA256 (acSha256 A x)"
    and "canonical_sources A (ogPolicies candidate)" "generation_codec A candidate"
  shows "(\<exists>e. r = Inl e \<and> private_step (generation_files base) w w') \<or>
     (\<exists>commit calls. txGitLog w' = txGitLog w @ calls \<and> swapped A base expected commit calls \<and>
        (\<forall>pub. r = Inr pub \<longrightarrow> opGitCommit pub = commit \<and>
           (\<exists>manifest sources active g. buildGeneration A candidate = Inr (manifest, sources, opRevision pub) \<and>
              yamlMarshalActive A (active_manifest candidate manifest (opRevision pub)) = Inr active \<and>
              data_at (wFs w') (manifest_path base) = Some active \<and>
              verified_generation A (wFs w') (generation_base base (opRevision pub)) (opRevision pub) g)))"
proof -
  have ok: "\<exists>manifest sources active g. buildGeneration A candidate = Inr (manifest, sources, opRevision pub) \<and>
              yamlMarshalActive A (active_manifest candidate manifest (opRevision pub)) = Inr active \<and>
              data_at (wFs w') (manifest_path base) = Some active \<and>
              verified_generation A (wFs w') (generation_base base (opRevision pub)) (opRevision pub) g" if "r = Inr pub" for pub
    using publish_locked_Inr [OF assms(1) [unfolded that] assms(2-6)] by metis
  show ?thesis
    using assms(1-4)
  proof (cases rule: publish_locked_swap)
    case (swapped commit calls digest paths active wb w3 w4)
    have "opGitCommit pub = commit" if "r = Inr pub" for pub
      using swapped(6) that by (auto simp: res_simps)
    with ok swapped(1,2) show ?thesis by blast
  qed blast
qed

theorem publication_swaps_expected_revision_witness:
  "let out = publish_locked sample_env sample_access sample_policy_git ''/db'' sample_candidate [] ''m'' empty_project in
     (\<exists>e. fst out = Inl e \<and> private_step (generation_files ''/db'') empty_project (snd out)) \<or>
     (\<exists>commit calls. txGitLog (snd out) = calls \<and> swapped sample_access ''/db'' [] commit calls)"
proof -
  let ?out = "publish_locked sample_env sample_access sample_policy_git ''/db'' sample_candidate [] ''m'' empty_project"
  have "?out = (fst ?out, snd ?out)" "(''/db'' :: string) \<noteq> []" by simp_all
  from publication_swaps_expected_revision [OF this(1) sample_access_facts(1) this(2) sample_access_facts(2,3,5)]
  show ?thesis unfolding Let_def by (auto simp: empty_project_def)
qed

text \<open>
  C35. A generation that was built and materialised is one that verifies: its manifest has the
  digest that names its directory, and every policy it lists is in its file, under its safe
  name, with its identifier and its digest. Only files inside the generations directory
  change.
\<close>

theorem materialized_generation_verifies:
  assumes "buildGeneration A candidate = Inr (manifest, sources, digest)"
    and "materializeGeneration E A base digest manifest sources w = (Inr paths, w')"
    and "temp_names A" "base \<noteq> []" "isSHA256 digest"
    and "canonical_sources A (ogPolicies candidate)" "generation_codec A candidate"
  shows "(\<exists>g. verified_generation A (wFs w') (generation_base base digest) digest g) \<and>
         same_files_but (generation_files base) (wFs w) (wFs w')"
proof -
  have codec: "yamlGeneration A encoded = Inr manifest" if "yamlMarshalGeneration A manifest = Inr encoded" for encoded
    using assms(1,7) that by (auto simp: generation_codec_def)
  have "same_files_but (generation_files base) (wFs w) (wFs w')"
    using materializeGeneration_frame [OF buildGeneration_names [OF assms(1)] assms(3-5), of sources w E manifest] assms(2)
    by (simp add: access_paths(7) [OF assms(4,5)] generation_files_def frame_rel_def)
  with materializeGeneration_verified [OF assms(1,6,2-5) codec] show ?thesis by blast
qed

theorem materialized_generation_verifies_witness:
  "\<exists>fs g. verified_generation sample_access fs (generation_base ''/db'' sample_digest) sample_digest g"
proof -
  let ?r = "materializeGeneration sample_env sample_access ''/db'' sample_digest sample_generation [(''policies/p.yaml'', ''p'')] empty_project"
  have "case fst ?r of Inr paths \<Rightarrow> True | Inl e \<Rightarrow> False" by code_simp
  then obtain paths where "fst ?r = Inr paths" by (auto split: sum.splits)
  then have r: "?r = (Inr paths, snd ?r)" by (metis prod.collapse)
  have "isSHA256 sample_digest" "(''/db'' :: string) \<noteq> []" by code_simp+
  with materialized_generation_verifies [OF sample_access_facts(4) r sample_access_facts(1) _ _ sample_access_facts(3,5)]
  show ?thesis by blast
qed

text \<open>
  C36. A recovery that succeeds while HEAD holds a manifest selecting a generation leaves that
  manifest as the working one and the committed generation on disk, each policy checked
  against the digest its manifest gives, whatever the working tree held before; it changes
  nothing else.
\<close>

theorem recovery_restores_committed_generation:
  assumes "recoverCommittedGenerationLocked E A G base w = (Inr u, w')"
    and "gitBlob G base active_path w = (Inr wanted, w1)" "yamlActive A wanted = Inr (active, rest)"
    and "amGeneration active \<noteq> []" "wanted \<noteq> []" "temp_names A" "base \<noteq> []"
  shows "data_at (wFs w') (manifest_path base) = Some wanted \<and>
    (\<exists>g. recovered_generation A (wFs w') (generation_base base (amGeneration active)) (amGeneration active) g) \<and>
    same_files_but (insert (manifest_path base) (generation_files base)) (wFs w) (wFs w')"
proof -
  from assms(1-4) have "isSHA256 (amGeneration active)" and r: "recover_to E A G base (amGeneration active) wanted w1 = (Inr u, w')"
    by (auto simp: recoverCommittedGenerationLocked_def split: if_splits)
  moreover have "wFs w1 = wFs w"
    using assms(2) by (auto simp: gitBlob_def git_run_def iobind_def io_defs split: prod.splits if_splits)
  ultimately show ?thesis using recover_to_Inr [OF r assms(6,7) _ assms(5)] by simp
qed

theorem recovery_restores_committed_generation_witness:
  "data_at (wFs (snd (recoverCommittedGenerationLocked sample_env sample_access sample_policy_git ''/db'' empty_project)))
     ''/db/.ingitdb/access/manifest.yaml'' = Some ''active''"
proof -
  let ?r = "recoverCommittedGenerationLocked sample_env sample_access sample_policy_git ''/db'' empty_project"
  have "fst ?r = Inr ()" by code_simp
  then have r: "?r = (Inr (), snd ?r)" by (metis prod.collapse)
  have "fst (gitBlob sample_policy_git ''/db'' active_path empty_project) = Inr ''active''" by code_simp
  then have b: "gitBlob sample_policy_git ''/db'' active_path empty_project =
      (Inr ''active'', snd (gitBlob sample_policy_git ''/db'' active_path empty_project))" by (metis prod.collapse)
  have a: "yamlActive sample_access ''active'' = Inr (sample_active, Some EEOF)" "amGeneration sample_active \<noteq> []"
      "(''active'' :: string) \<noteq> []" "(''/db'' :: string) \<noteq> []" "manifest_path ''/db'' = ''/db/.ingitdb/access/manifest.yaml''"
    by code_simp+
  from recovery_restores_committed_generation [OF r b a(1-3) sample_access_facts(1) a(4)] show ?thesis unfolding a(5) by blast
qed





text \<open>
  C37. A protected execution is all or nothing: when it returns an error and the rollback did
  not itself fail, every file other than the lock file holds what it held before and nothing
  was published, whatever the coordinator's callback did with the evidence and the batch.
\<close>

theorem protected_execution_atomic:
  assumes "WithinProtectedExecution E A G P s ops f w = (Inl e, w')" and "\<forall>a b. e \<noteq> ERollbackFailed a b"
  shows "data_kept (lock_files E G (psDb s) w) w w'"
proof (rule under_protected_lock)
  show "iobind (transactionLockPath E G (dbProjectPath (psDb s))) (\<lambda>lock. withProtectedLock E P lock False (execute_locked E A P s ops f)) w = (Inl e, w')"
    using assms(1) by (simp add: WithinProtectedExecution_def)
  show "data_kept Q w1 w'" if "execute_locked E A P s ops f w1 = (Inl e, w')" for w1 Q
    using execute_locked_atomic [OF that assms(2)] by (simp add: data_kept_def)
qed

theorem protected_execution_atomic_witness:
  "let out = WithinProtectedExecution sample_env sample_api sample_git sample_protected sample_store [sample_set]
       (XExecute (\<lambda>_. XReturn (Some (EMsg ''denied'' [])))) sample_world in
     fst out = Inl (EMsg ''denied'' []) \<and> data_kept (lock_files sample_env sample_git (psDb sample_store) sample_world) sample_world (snd out)"
proof -
  let ?out = "WithinProtectedExecution sample_env sample_api sample_git sample_protected sample_store [sample_set]
       (XExecute (\<lambda>_. XReturn (Some (EMsg ''denied'' [])))) sample_world"
  have f: "fst ?out = Inl (EMsg ''denied'' [])" by code_simp
  then have "?out = (Inl (EMsg ''denied'' []), snd ?out)" by (metis prod.collapse)
  from protected_execution_atomic [OF this] f show ?thesis by (simp add: Let_def)
qed




lemma hex_digit_inject: "i < 16 \<Longrightarrow> j < 16 \<Longrightarrow> hex_digit i = hex_digit j \<Longrightarrow> i = j"
proof -
  have "distinct ''0123456789abcdef''" by simp
  then show "i < 16 \<Longrightarrow> j < 16 \<Longrightarrow> hex_digit i = hex_digit j \<Longrightarrow> i = j"
    unfolding hex_digit_def by (subst (asm) nth_eq_iff_index_eq) simp_all
qed

lemma hex_EncodeToString_inject: "hex_EncodeToString xs = hex_EncodeToString ys \<Longrightarrow> xs = ys"
proof (induction xs arbitrary: ys)
  case Nil
  then show ?case by (cases ys) (auto simp: hex_EncodeToString_def)
next
  case (Cons x xs)
  then obtain y zs where ys: "ys = y # zs" by (cases ys) (auto simp: hex_EncodeToString_def)
  have b: "(of_char c :: nat) div 16 < 16" for c :: char by (simp add: of_char_def less_mult_imp_div_less)
  from Cons.prems have "hex_digit (of_char x div 16) = hex_digit (of_char y div 16)" "hex_digit (of_char x mod 16) = hex_digit (of_char y mod 16)"
    and r: "hex_EncodeToString xs = hex_EncodeToString zs"
    by (simp_all add: hex_EncodeToString_def ys)
  then have "(of_char x :: nat) div 16 = of_char y div 16" "(of_char x :: nat) mod 16 = of_char y mod 16"
    using hex_digit_inject b by simp_all
  then have "(of_char x :: nat) = of_char y" by (metis div_mult_mod_eq)
  with Cons.IH [OF r] ys show ?case by simp
qed

text \<open>
  With a collision-free keyed hash, a revision identifies its target, whether the record
  exists, and the bytes of its file: no two different states share one, also where a target
  and a content could be split in two ways.
\<close>

lemma revision_identifies:
  assumes "inj (prHmac P (psSecret s))" and "length t < 2 ^ 64" "length t' < 2 ^ 64"
  shows "revision P s t x raw = revision P s t' x' raw' \<longleftrightarrow> t = t' \<and> x = x' \<and> raw = raw'"
proof
  assume "revision P s t x raw = revision P s t' x' raw'"
  then have "prHmac P (psSecret s) (revision_input t x raw) = prHmac P (psSecret s) (revision_input t' x' raw')"
    unfolding revision_def by (rule hex_EncodeToString_inject)
  with assms(1) have "revision_input t x raw = revision_input t' x' raw'" by (simp add: inj_eq)
  then show "t = t' \<and> x = x' \<and> raw = raw'" using assms(2,3) by (rule revision_input_inject)
qed simp

end
