(* ===== verification/Recordset.thy ===== *)
theory Recordset
  imports Transaction SchemaDef
begin

text \<open>
  Recordsets (\<open>recordset.go\<close>, \<open>accessor.go\<close>) and the queries that return them
  (\<open>tx_readonly.go\<close>, \<open>database.go\<close>). The columns are the adapter's; the columnar recordset that
  holds them is code of package \<open>recordset\<close> and a parameter, \<open>recordset_api\<close>. What its
  documentation promises is the locale \<open>columnar\<close>. A recordset is mutable and a computed
  value is remembered on its first read, so every operation returns the recordset too.
\<close>

section \<open>Columns\<close>

definition IDColumn :: string where
  "IDColumn = ''$id''"

record anyColumn =
  anName :: string
  anValues :: "val list"

definition any_DefaultValue :: "anyColumn \<Rightarrow> val" where
  "any_DefaultValue c = VNil"

definition any_Add :: "anyColumn \<Rightarrow> val \<Rightarrow> anyColumn" where
  "any_Add c value = c\<lparr>anValues := anValues c @ [value]\<rparr>"

definition out_of_range :: "int \<Rightarrow> anyColumn \<Rightarrow> bool" where
  "out_of_range row c \<longleftrightarrow> row < 0 \<or> row \<ge> int (length (anValues c))"

definition any_GetValue :: "anyColumn \<Rightarrow> int \<Rightarrow> val res" where
  "any_GetValue c row =
     (if out_of_range row c then Inl (EMsg ''row out of range'' []) else Inr (anValues c ! nat row))"

definition any_SetValue :: "anyColumn \<Rightarrow> int \<Rightarrow> val \<Rightarrow> anyColumn res" where
  "any_SetValue c row value =
     (if out_of_range row c then Inl (EMsg ''row out of range'' [])
      else Inr (c\<lparr>anValues := (anValues c)[nat row := value]\<rparr>))"

type_synonym evaluator = "row \<Rightarrow> val res"

datatype rs_column = StoredColumn anyColumn | ComputedColumn string evaluator

primrec column_name :: "rs_column \<Rightarrow> string" where
  "column_name (StoredColumn c) = anName c"
| "column_name (ComputedColumn name f) = name"

text \<open>\<open>formulaEvaluator.Eval\<close>: the formula never sees the key of the record.\<close>

definition Eval :: "api \<Rightarrow> string \<Rightarrow> evaluator" where
  "Eval A formula stored =
     (let fields = (if go_get stored IDColumn \<noteq> None then go_delete IDColumn stored else stored) in
      EvaluateFormula A formula fields)"

section \<open>Building a recordset\<close>

record ('rs, 'row) recordset_api =
  NewColumnarRecordset :: "string \<Rightarrow> rs_column list \<Rightarrow> 'rs"
  NewRow :: "'rs \<Rightarrow> 'row \<times> 'rs"
  SetValueByName :: "'row \<Rightarrow> string \<Rightarrow> val \<Rightarrow> 'rs \<Rightarrow> unit res \<times> 'rs"
  GetValueByName :: "'row \<Rightarrow> string \<Rightarrow> 'rs \<Rightarrow> val res \<times> 'rs"
  RowsCount :: "'rs \<Rightarrow> int"
  GetRow :: "'rs \<Rightarrow> int \<Rightarrow> 'row"
  Columns :: "'rs \<Rightarrow> rs_column list"

definition stored_names :: "coldef \<Rightarrow> string list" where
  "stored_names colDef = orderedColumns (Some colDef) (\<lambda>c. cFormula c = [])"

text \<open>The fields that no column declares, in the order they are met, then sorted.\<close>

definition extra_names :: "coldef \<Rightarrow> keyed_stored list \<Rightarrow> string list" where
  "extra_names colDef records =
     (let known = set (stored_names colDef) \<union> set (orderedComputedColumns (Some colDef)) in
      sort_Strings (foldl (\<lambda>extra name. if name \<in> known \<or> name \<in> set extra then extra else extra @ [name]) []
        (concat (map (\<lambda>rec. map fst (ksStored rec)) records))))"

definition formula_of :: "coldef \<Rightarrow> string \<Rightarrow> string" where
  "formula_of colDef name = (case go_get (cdColumns colDef) name of Some (Some c) \<Rightarrow> cFormula c | _ \<Rightarrow> [])"

definition recordset_columns :: "coldef \<Rightarrow> keyed_stored list \<Rightarrow> (string \<Rightarrow> evaluator) \<Rightarrow> rs_column list" where
  "recordset_columns colDef records evalFor =
     map (\<lambda>name. StoredColumn \<lparr>anName = name, anValues = []\<rparr>)
       (IDColumn # stored_names colDef @ extra_names colDef records) @
     map (\<lambda>name. ComputedColumn name (evalFor (formula_of colDef name))) (orderedComputedColumns (Some colDef))"

definition fill_row ::
  "('rs, 'row) recordset_api \<Rightarrow> string set \<Rightarrow> keyed_stored \<Rightarrow> 'rs \<Rightarrow> 'rs" where
  "fill_row R storedSet rec rs =
     (case NewRow R rs of (row, rs1) \<Rightarrow>
        foldl (\<lambda>rs (name, value). if name \<in> storedSet then snd (SetValueByName R row name value rs) else rs)
          (snd (SetValueByName R row IDColumn (VStr (ksKey rec)) rs1)) (ksStored rec))"

definition buildRecordset ::
  "('rs, 'row) recordset_api \<Rightarrow> coldef \<Rightarrow> keyed_stored list \<Rightarrow> (string \<Rightarrow> evaluator) \<Rightarrow> 'rs" where
  "buildRecordset R colDef records evalFor =
     (let storedSet = set (stored_names colDef @ extra_names colDef records) in
      foldl (\<lambda>rs rec. fill_row R storedSet rec rs)
        (NewColumnarRecordset R (cdID colDef) (recordset_columns colDef records evalFor)) records)"

definition BuildRecordset :: "api \<Rightarrow> ('rs, 'row) recordset_api \<Rightarrow> coldef \<Rightarrow> keyed_stored list \<Rightarrow> 'rs" where
  "BuildRecordset A R colDef records = buildRecordset R colDef records (Eval A)"

text \<open>A copy of the definition without the computed columns; reading a nil column panics.\<close>

definition buildStoredOnlyRecordset :: "api \<Rightarrow> ('rs, 'row) recordset_api \<Rightarrow> coldef \<Rightarrow> keyed_stored list \<Rightarrow> 'rs res" where
  "buildStoredOnlyRecordset A R colDef records =
     (if None \<in> snd ` set (cdColumns colDef) then Inl (EPanic ''nil column definition'')
      else Inr (BuildRecordset A R
        (with_Columns (filter (\<lambda>(name, column). case column of Some c \<Rightarrow> cFormula c = [] | None \<Rightarrow> False) (cdColumns colDef))
           (cdColumnsOrder colDef) colDef) records))"

section \<open>Reading a recordset\<close>

record 'rs recordsetReader =
  rrRs :: 'rs
  rrIndex :: nat

definition NewRecordsetReader :: "'rs \<Rightarrow> 'rs recordsetReader" where
  "NewRecordsetReader rs = \<lparr>rrRs = rs, rrIndex = 0\<rparr>"

definition recordset_Next :: "('rs, 'row) recordset_api \<Rightarrow> 'rs recordsetReader \<Rightarrow> 'row option \<times> 'rs recordsetReader" where
  "recordset_Next R r =
     (if int (rrIndex r) \<ge> RowsCount R (rrRs r) then (None, r)
      else (Some (GetRow R (rrRs r) (int (rrIndex r))), r\<lparr>rrIndex := rrIndex r + 1\<rparr>))"

definition RowKey :: "('rs, 'row) recordset_api \<Rightarrow> 'row \<Rightarrow> 'rs \<Rightarrow> string \<times> 'rs" where
  "RowKey R row rs =
     (case GetValueByName R row IDColumn rs of
        (r, rs') \<Rightarrow> (case r of Inr (VStr key) \<Rightarrow> key | _ \<Rightarrow> [], rs'))"

definition AccessValue ::
  "api \<Rightarrow> ('rs, 'row) recordset_api \<Rightarrow> 'row \<Rightarrow> string \<Rightarrow> string \<Rightarrow> string \<Rightarrow> column option \<Rightarrow> 'rs \<Rightarrow> val res \<times> 'rs" where
  "AccessValue A R row collectionID recordKey colName colDef rs =
     (case GetValueByName R row colName rs of
        (raw, rs') \<Rightarrow>
          (map_err (at_column collectionID recordKey colName)
             (rbind raw (\<lambda>raw.
                case colDef of
                  None \<Rightarrow> Inr raw
                | Some c \<Rightarrow> if cFormula c = [] then Inr raw else coerceFormulaResult A raw (cType c))), rs'))"

fun row_data ::
  "api \<Rightarrow> ('rs, 'row) recordset_api \<Rightarrow> 'row \<Rightarrow> string \<Rightarrow> string \<Rightarrow> coldef \<Rightarrow> string list \<Rightarrow> row \<Rightarrow> 'rs \<Rightarrow> row res \<times> 'rs" where
  "row_data A R row collectionID recordKey colDef [] data rs = (Inr data, rs)"
| "row_data A R row collectionID recordKey colDef (name # names) data rs =
     (case AccessValue A R row collectionID recordKey name
             (case go_get (cdColumns colDef) name of Some c \<Rightarrow> c | None \<Rightarrow> None) rs of
        (Inl e, rs') \<Rightarrow> (Inl e, rs')
      | (Inr v, rs') \<Rightarrow>
          row_data A R row collectionID recordKey colDef names (if v = VNil then data else go_set name v data) rs')"

definition RowData ::
  "api \<Rightarrow> ('rs, 'row) recordset_api \<Rightarrow> 'row \<Rightarrow> string \<Rightarrow> string \<Rightarrow> coldef \<Rightarrow> string list \<Rightarrow> 'rs \<Rightarrow> row res \<times> 'rs" where
  "RowData A R row collectionID recordKey colDef names rs = row_data A R row collectionID recordKey colDef names [] rs"

definition AllColumnNames :: "('rs, 'row) recordset_api \<Rightarrow> 'rs \<Rightarrow> string list" where
  "AllColumnNames R rs = filter (\<lambda>name. name \<noteq> IDColumn) (map column_name (Columns R rs))"

definition StoredColumnNames :: "('rs, 'row) recordset_api \<Rightarrow> 'rs \<Rightarrow> string list" where
  "StoredColumnNames R rs =
     map column_name (filter (\<lambda>col. column_name col \<noteq> IDColumn \<and>
       (case col of StoredColumn c \<Rightarrow> True | ComputedColumn n f \<Rightarrow> False)) (Columns R rs))"

section \<open>Queries\<close>

fun set_names :: "('rs, 'row) recordset_api \<Rightarrow> 'row \<Rightarrow> row \<Rightarrow> string list \<Rightarrow> 'rs \<Rightarrow> unit res \<times> 'rs" where
  "set_names R row data [] rs = (Inr (), rs)"
| "set_names R row data (name # names) rs =
     (case SetValueByName R row name (field data name) rs of
        (Inl e, rs') \<Rightarrow> (Inl e, rs')
      | (Inr _, rs') \<Rightarrow> set_names R row data names rs')"

text \<open>
  The loop over an arbitrary reader, whose \<open>Next\<close> answers an error, a record, or the end
  (\<open>Inr None\<close>). A reader may never end: then the loop has no value.
\<close>

partial_function (option) fillProjectedRows ::
  "('r \<Rightarrow> drec option res \<times> 'r) \<Rightarrow> ('rs, 'row) recordset_api \<Rightarrow> string list \<Rightarrow> 'r \<Rightarrow> 'rs \<Rightarrow> (unit res \<times> 'rs) option" where
  "fillProjectedRows nx R names reader rs =
     (case nx reader of
        (Inl e, reader') \<Rightarrow> Some (Inl e, rs)
      | (Inr None, reader') \<Rightarrow> Some (Inr (), rs)
      | (Inr (Some rec), reader') \<Rightarrow>
          (case NewRow R rs of (row, rs1) \<Rightarrow>
             (case set_names R row (dData rec) names rs1 of
                (Inl e, rs2) \<Rightarrow> Some (Inl e, rs2)
              | (Inr _, rs2) \<Rightarrow> fillProjectedRows nx R names reader' rs2)))"

definition projectRecordsFromReader ::
  "(expr \<Rightarrow> string) \<Rightarrow> ('r \<Rightarrow> drec option res \<times> 'r) \<Rightarrow> ('rs, 'row) recordset_api \<Rightarrow> 'r \<Rightarrow> qcolumn list \<Rightarrow>
     'rs recordsetReader res option" where
  "projectRecordsFromReader es nx R reader columns =
     (let names = map (columnOutKey es) columns;
          rs = NewColumnarRecordset R ''query'' (map (\<lambda>name. StoredColumn \<lparr>anName = name, anValues = []\<rparr>) names) in
      case fillProjectedRows nx R names reader rs of
        None \<Rightarrow> None
      | Some (Inl e, rs') \<Rightarrow> Some (Inl e)
      | Some (Inr _, rs') \<Rightarrow> Some (Inr (NewRecordsetReader rs')))"

definition slice_reader :: "sliceRecordsReader \<Rightarrow> drec option res \<times> sliceRecordsReader" where
  "slice_reader r = (case slice_Next r of (x, r') \<Rightarrow> (Inr x, r'))"

text \<open>The value \<open>None\<close> of these queries is a loop that does not end.\<close>

definition projectedRecordset ::
  "osenv \<Rightarrow> api \<Rightarrow> (expr \<Rightarrow> string) \<Rightarrow> condeval \<Rightarrow> ('rs, 'row) recordset_api \<Rightarrow> txctx \<Rightarrow> query \<Rightarrow> qcolumn list \<Rightarrow>
     ('b world_scheme, dberr, 'rs recordsetReader option) io" where
  "projectedRecordset E A es C R tx q columns =
     iobind (executeQueryToRecordsReader E A es C tx q) (\<lambda>reader.
       case projectRecordsFromReader es slice_reader R reader columns of
         None \<Rightarrow> ioret None
       | Some r \<Rightarrow> iolift (rbind r (\<lambda>reader. Inr (Some reader))))"

definition wholeRecordset ::
  "osenv \<Rightarrow> api \<Rightarrow> ('rs, 'row) recordset_api \<Rightarrow> txctx \<Rightarrow> query \<Rightarrow> ('b world_scheme, dberr, 'rs recordsetReader option) io" where
  "wholeRecordset E A R tx q =
     iobind (iolift (collectionFromQuery A (txDef tx) q)) (\<lambda>(colDef, rf, sq).
     iobind (readAllStoredRecords E A colDef rf) (\<lambda>stored.
       if txStoredOnly tx
       then iobind (iolift (buildStoredOnlyRecordset A R colDef stored)) (\<lambda>rs. ioret (Some (NewRecordsetReader rs)))
       else ioret (Some (NewRecordsetReader (BuildRecordset A R colDef stored)))))"

definition ExecuteQueryToRecordsetReader ::
  "osenv \<Rightarrow> api \<Rightarrow> (expr \<Rightarrow> string) \<Rightarrow> condeval \<Rightarrow> ('rs, 'row) recordset_api \<Rightarrow> txctx \<Rightarrow> query \<Rightarrow>
     ('b world_scheme, dberr, 'rs recordsetReader option) io" where
  "ExecuteQueryToRecordsetReader E A es C R tx q =
     (case q of
        OtherQuery t \<Rightarrow> wholeRecordset E A R tx q
      | StructuredQuery sq \<Rightarrow>
          if sqGroupBy sq \<noteq> [] then iofail (ENotSupported ''GROUP BY not supported in recordset reader'')
          else if sqColumns sq \<noteq> [] \<and> list_all (\<lambda>c. \<not> qcWildcard c) (sqColumns sq)
          then projectedRecordset E A es C R tx q (sqColumns sq)
          else wholeRecordset E A R tx q)"

definition db_ExecuteQueryToRecordsetReader ::
  "osenv \<Rightarrow> api \<Rightarrow> engine \<Rightarrow> ('rs, 'row) recordset_api \<Rightarrow> gitenv \<Rightarrow> database \<Rightarrow> query \<Rightarrow>
     (txworld, dberr, 'rs recordsetReader option) io" where
  "db_ExecuteQueryToRecordsetReader E A X R G db q =
     withTransactionReadLock E G db (iobind (loadDefinition db) (\<lambda>def.
       ExecuteQueryToRecordsetReader E A (engExprString X) (engCond X) R
         \<lparr>txStoredOnly = dbStoredOnly db, txDef = def\<rparr> q))"

section \<open>Readers\<close>

definition recordset_remaining :: "('rs, 'row) recordset_api \<Rightarrow> 'rs recordsetReader \<Rightarrow> 'row list" where
  "recordset_remaining R r = map (\<lambda>i. GetRow R (rrRs r) (int i)) [rrIndex r ..< nat (RowsCount R (rrRs r))]"

interpretation reader: row_reader "recordset_Next R" "recordset_remaining R" for R :: "('rs, 'row) recordset_api"
proof
  fix r :: "'rs recordsetReader" and x xs
  assume rest: "recordset_remaining R r = x # xs"
  then have less: "rrIndex r < nat (RowsCount R (rrRs r))"
    by (metis list.simps(3) list.simps(8) not_le recordset_remaining_def upt_conv_Nil)
  with rest have "GetRow R (rrRs r) (int (rrIndex r)) = x"
      "map (\<lambda>i. GetRow R (rrRs r) (int i)) [Suc (rrIndex r) ..< nat (RowsCount R (rrRs r))] = xs"
    by (simp_all add: recordset_remaining_def upt_conv_Cons)
  with less show "fst (recordset_Next R r) = Some x \<and> recordset_remaining R (snd (recordset_Next R r)) = xs"
    by (auto simp: recordset_Next_def recordset_remaining_def)
qed (auto simp: recordset_remaining_def recordset_Next_def)

end
