(* ===== verification/Columnar.thy ===== *)
theory Columnar
  imports Recordset
begin

text \<open>
  The contract of a columnar recordset (\<open>columnar\<close>), what the recordsets of \<open>recordset.go\<close> hold
  and what \<open>accessor.go\<close> reads under it, and an implementation of it in memory on the
  adapter's own columns.
\<close>

section \<open>The contract of a columnar recordset\<close>

text \<open>A column as its users see it: its name, and its evaluator when it is computed.\<close>

primrec shape :: "rs_column \<Rightarrow> string \<times> evaluator option" where
  "shape (StoredColumn c) = (anName c, None)"
| "shape (ComputedColumn name f) = (name, Some f)"

lemma fst_shape [simp]: "fst (shape c) = column_name c"
  by (cases c) simp_all

definition shapes :: "('rs, 'row) recordset_api \<Rightarrow> 'rs \<Rightarrow> (string \<times> evaluator option) list" where
  "shapes R rs = map shape (Columns R rs)"

definition same_table :: "('rs, 'row) recordset_api \<Rightarrow> ('rs \<Rightarrow> bool) \<Rightarrow> ('rs \<Rightarrow> (string \<Rightarrow> val) list) \<Rightarrow> 'rs \<Rightarrow> 'rs \<Rightarrow> bool" where
  "same_table R valid cells rs rs' \<longleftrightarrow> valid rs' \<and> cells rs' = cells rs \<and> shapes R rs' = shapes R rs"

text \<open>A row after the fields of a map in \<open>S\<close> have been set.\<close>

definition over_fields :: "string set \<Rightarrow> row \<Rightarrow> (string \<Rightarrow> val) \<Rightarrow> string \<Rightarrow> val" where
  "over_fields S m old n = (if n \<in> S then (case go_get m n of Some v \<Rightarrow> v | None \<Rightarrow> old n) else old n)"

lemma over_fields_Cons:
  "k \<in> S \<Longrightarrow> go_get m k = None \<Longrightarrow> over_fields S ((k, v) # m) old = over_fields S m (old(k := v))"
  "k \<notin> S \<Longrightarrow> over_fields S ((k, v) # m) old = over_fields S m old"
  by (auto simp: over_fields_def fun_eq_iff split: option.splits)

lemma over_fields_Nil [simp]: "over_fields S [] old = old"
  by (simp add: over_fields_def fun_eq_iff)

text \<open>
  A new row has the default value in every stored column; a set value is the value read; a
  computed value is the evaluator's on the stored values of the row, where a nil value may
  be present or left out.
\<close>

locale columnar =
  fixes R :: "('rs, 'row) recordset_api" and valid :: "'rs \<Rightarrow> bool" and index :: "'row \<Rightarrow> nat"
    and cells :: "'rs \<Rightarrow> (string \<Rightarrow> val) list"
  assumes new: "\<lbrakk>distinct (map column_name cs); \<And>c. StoredColumn c \<in> set cs \<Longrightarrow> anValues c = []\<rbrakk> \<Longrightarrow>
      valid (NewColumnarRecordset R name cs) \<and> cells (NewColumnarRecordset R name cs) = [] \<and>
      shapes R (NewColumnarRecordset R name cs) = map shape cs"
    and new_row: "\<lbrakk>valid rs; NewRow R rs = (row, rs')\<rbrakk> \<Longrightarrow>
      valid rs' \<and> index row = length (cells rs) \<and> cells rs' = cells rs @ [\<lambda>_. VNil] \<and> shapes R rs' = shapes R rs"
    and set_value: "\<lbrakk>valid rs; index row < length (cells rs); (n, None) \<in> set (shapes R rs);
      SetValueByName R row n v rs = (out, rs')\<rbrakk> \<Longrightarrow>
      out = Inr () \<and> valid rs' \<and> cells rs' = (cells rs)[index row := (cells rs ! index row)(n := v)] \<and> shapes R rs' = shapes R rs"
    and rows_count: "valid rs \<Longrightarrow> RowsCount R rs = int (length (cells rs))"
    and get_row: "\<lbrakk>valid rs; i < length (cells rs)\<rbrakk> \<Longrightarrow> index (GetRow R rs (int i)) = i"
    and get_stored: "\<lbrakk>valid rs; index row < length (cells rs); (n, None) \<in> set (shapes R rs);
      GetValueByName R row n rs = (r, rs')\<rbrakk> \<Longrightarrow> r = Inr ((cells rs ! index row) n) \<and> same_table R valid cells rs rs'"
    and get_computed: "\<lbrakk>valid rs; index row < length (cells rs); (n, Some f) \<in> set (shapes R rs);
      GetValueByName R row n rs = (r, rs')\<rbrakk> \<Longrightarrow> same_table R valid cells rs rs' \<and>
      (\<exists>stored. r = f stored \<and> (\<forall>k v. go_get stored k = Some v \<longrightarrow> (k, None) \<in> set (shapes R rs)) \<and>
         (\<forall>k. (k, None) \<in> set (shapes R rs) \<longrightarrow> field stored k = (cells rs ! index row) k))"
begin

lemma set_fields:
  assumes "valid rs" "index row < length (cells rs)" "\<And>n. n \<in> S \<Longrightarrow> (n, None) \<in> set (shapes R rs)" "wf_map m"
  shows "let rs' = foldl (\<lambda>rs (n, v). if n \<in> S then snd (SetValueByName R row n v rs) else rs) rs m in
     valid rs' \<and> shapes R rs' = shapes R rs \<and> cells rs' = (cells rs)[index row := over_fields S m (cells rs ! index row)]"
  using assms
proof (induction m arbitrary: rs)
  case (Cons x m)
  obtain k v where x: "x = (k, v)" by (cases x)
  have m: "wf_map m" "go_get m k = None" using Cons.prems(4) x by (auto simp: wf_map_def go_get_None_iff)
  show ?case
  proof (cases "k \<in> S")
    case True
    obtain r rs1 where s: "SetValueByName R row k v rs = (r, rs1)" by (cases "SetValueByName R row k v rs")
    note 1 = set_value [OF Cons.prems(1,2) Cons.prems(3) [OF True] s]
    have IH: "let rs' = foldl (\<lambda>rs (n, v). if n \<in> S then snd (SetValueByName R row n v rs) else rs) rs1 m in
       valid rs' \<and> shapes R rs' = shapes R rs1 \<and> cells rs' = (cells rs1)[index row := over_fields S m (cells rs1 ! index row)]"
      by (rule Cons.IH) (use 1 Cons.prems(2,3) m(1) in auto)
    with True s 1 Cons.prems(2) x over_fields_Cons(1) [OF True m(2)] show ?thesis by (simp add: Let_def)
  next
    case False
    with Cons.IH [OF Cons.prems(1,2,3) m(1)] x over_fields_Cons(2) [OF False] show ?thesis by (simp add: Let_def)
  qed
qed (simp add: Let_def)

end

text \<open>The cells of a record: its key, its stored fields, and nil elsewhere.\<close>

definition row_cells :: "string set \<Rightarrow> keyed_stored \<Rightarrow> string \<Rightarrow> val" where
  "row_cells S rec n =
     (if n = IDColumn then VStr (ksKey rec) else if n \<in> S then field (ksStored rec) n else VNil)"

context columnar
begin

lemma fill_row_cells:
  assumes "valid rs" "\<And>n. n \<in> insert IDColumn S \<Longrightarrow> (n, None) \<in> set (shapes R rs)" "wf_map (ksStored rec)" "IDColumn \<notin> S"
  shows "valid (fill_row R S rec rs) \<and> shapes R (fill_row R S rec rs) = shapes R rs \<and>
     cells (fill_row R S rec rs) = cells rs @ [row_cells S rec]"
proof -
  obtain row rs1 where n: "NewRow R rs = (row, rs1)" by (cases "NewRow R rs")
  note 1 = new_row [OF assms(1) n]
  obtain r rs2 where s: "SetValueByName R row IDColumn (VStr (ksKey rec)) rs1 = (r, rs2)"
    by (cases "SetValueByName R row IDColumn (VStr (ksKey rec)) rs1")
  have i: "index row < length (cells rs1)" "index row = length (cells rs)" using 1 by simp_all
  have 2: "valid rs2 \<and> cells rs2 = (cells rs1)[index row := (cells rs1 ! index row)(IDColumn := VStr (ksKey rec))] \<and> shapes R rs2 = shapes R rs1"
    using set_value [OF _ i(1) _ s] 1 assms(2) by simp
  have 3: "let rs' = foldl (\<lambda>rs (n, v). if n \<in> S then snd (SetValueByName R row n v rs) else rs) rs2 (ksStored rec) in
     valid rs' \<and> shapes R rs' = shapes R rs2 \<and> cells rs' = (cells rs2)[index row := over_fields S (ksStored rec) (cells rs2 ! index row)]"
    by (rule set_fields) (use 1 2 i assms in auto)
  have "over_fields S (ksStored rec) ((\<lambda>_. VNil)(IDColumn := VStr (ksKey rec))) = row_cells S rec"
    using assms(4) by (auto simp: over_fields_def row_cells_def field_def fun_eq_iff split: option.splits)
  with 1 2 3 i n s show ?thesis by (simp add: fill_row_def Let_def nth_append list_update_append)
qed

lemma fill_rows_cells:
  assumes "valid rs" "\<And>n. n \<in> insert IDColumn S \<Longrightarrow> (n, None) \<in> set (shapes R rs)" "\<forall>rec \<in> set records. wf_map (ksStored rec)"
    and "IDColumn \<notin> S"
  shows "let rs' = foldl (\<lambda>rs rec. fill_row R S rec rs) rs records in
     valid rs' \<and> shapes R rs' = shapes R rs \<and> cells rs' = cells rs @ map (row_cells S) records"
  using assms
proof (induction records arbitrary: rs)
  case (Cons rec records)
  note 1 = fill_row_cells [OF Cons.prems(1,2) _ Cons.prems(4), of rec]
  show ?case using Cons.IH [of "fill_row R S rec rs"] Cons.prems 1 by (simp add: Let_def)
qed (simp add: Let_def)

end

section \<open>The columns of a recordset\<close>

text \<open>A collection whose columns, and whose records, leave the reserved name alone.\<close>

definition plain_columns :: "coldef \<Rightarrow> keyed_stored list \<Rightarrow> bool" where
  "plain_columns colDef records \<longleftrightarrow>
     wf_map (cdColumns colDef) \<and> distinct (cdColumnsOrder colDef) \<and> go_get (cdColumns colDef) IDColumn = None \<and>
     (\<forall>rec \<in> set records. wf_map (ksStored rec) \<and> go_get (ksStored rec) IDColumn = None)"

definition stored_set :: "coldef \<Rightarrow> keyed_stored list \<Rightarrow> string set" where
  "stored_set colDef records = set (stored_names colDef @ extra_names colDef records)"

definition is_computed :: "coldef \<Rightarrow> string \<Rightarrow> bool" where
  "is_computed colDef n \<longleftrightarrow> (\<exists>c. go_get (cdColumns colDef) n = Some (Some c) \<and> cFormula c \<noteq> [])"

lemma extra_loop:
  "set (foldl (\<lambda>extra name. if name \<in> known \<or> name \<in> set extra then extra else extra @ [name]) acc xs) =
     set acc \<union> (set xs - known) \<and>
   (distinct acc \<longrightarrow> distinct (foldl (\<lambda>extra name. if name \<in> known \<or> name \<in> set extra then extra else extra @ [name]) acc xs))"
  by (induction xs arbitrary: acc) auto

lemma extra_names_props:
  "distinct (extra_names colDef records)"
  "set (extra_names colDef records) =
     (\<Union>rec \<in> set records. fst ` set (ksStored rec)) - (set (stored_names colDef) \<union> set (orderedComputedColumns (Some colDef)))"
  using extra_loop [of "set (stored_names colDef) \<union> set (orderedComputedColumns (Some colDef))" "[]"
      "concat (map (\<lambda>rec. map fst (ksStored rec)) records)"]
  by (auto simp: extra_names_def Let_def)

lemma computed_names:
  "plain_columns colDef records \<Longrightarrow> n \<in> set (orderedComputedColumns (Some colDef)) \<longleftrightarrow> is_computed colDef n"
  by (simp add: plain_columns_def orderedComputedColumns_def orderedColumns_iff is_computed_def)

lemma stored_names_iff:
  "plain_columns colDef records \<Longrightarrow>
     n \<in> set (stored_names colDef) \<longleftrightarrow> (\<exists>c. go_get (cdColumns colDef) n = Some (Some c) \<and> cFormula c = [])"
  by (simp add: plain_columns_def stored_names_def orderedColumns_iff)

lemma set_extra_names:
  "plain_columns colDef records \<Longrightarrow>
     n \<in> set (extra_names colDef records) \<longleftrightarrow>
       (\<exists>rec \<in> set records. go_get (ksStored rec) n \<noteq> None) \<and> n \<notin> set (stored_names colDef) \<and> \<not> is_computed colDef n"
  by (simp add: extra_names_props computed_names go_get_None_iff)

lemma stored_set_props:
  assumes "plain_columns colDef records"
  shows "IDColumn \<notin> stored_set colDef records" "n \<in> stored_set colDef records \<Longrightarrow> \<not> is_computed colDef n"
    "\<not> is_computed colDef IDColumn"
    "\<lbrakk>rec \<in> set records; go_get (ksStored rec) n \<noteq> None; \<not> is_computed colDef n\<rbrakk> \<Longrightarrow> n \<in> stored_set colDef records"
  using assms stored_names_iff [OF assms] set_extra_names [OF assms]
  by (auto simp: stored_set_def plain_columns_def is_computed_def)

lemma recordset_columns_props:
  assumes "plain_columns colDef records"
  shows "distinct (map column_name (recordset_columns colDef records ev))"
    "StoredColumn c \<in> set (recordset_columns colDef records ev) \<Longrightarrow> anValues c = []"
    "(n, None) \<in> set (map shape (recordset_columns colDef records ev)) \<longleftrightarrow> n \<in> insert IDColumn (stored_set colDef records)"
    "(n, Some f) \<in> set (map shape (recordset_columns colDef records ev)) \<longleftrightarrow> is_computed colDef n \<and> f = ev (formula_of colDef n)"
proof -
  have "distinct (stored_names colDef)" "distinct (orderedComputedColumns (Some colDef))"
    using assms by (simp_all add: plain_columns_def stored_names_def orderedComputedColumns_def orderedColumns_distinct)
  moreover have "set (stored_names colDef) \<inter> set (orderedComputedColumns (Some colDef)) = {}"
    using stored_names_iff [OF assms] computed_names [OF assms] by (auto simp: is_computed_def)
  ultimately show "distinct (map column_name (recordset_columns colDef records ev))"
    using stored_set_props(1,3) [OF assms] computed_names [OF assms] set_extra_names [OF assms] extra_names_props(1)
    by (auto simp: recordset_columns_def comp_def stored_set_def)
  show "StoredColumn c \<in> set (recordset_columns colDef records ev) \<Longrightarrow> anValues c = []"
    by (auto simp: recordset_columns_def)
  show "(n, None) \<in> set (map shape (recordset_columns colDef records ev)) \<longleftrightarrow> n \<in> insert IDColumn (stored_set colDef records)"
    by (auto simp: recordset_columns_def stored_set_def image_iff)
  show "(n, Some f) \<in> set (map shape (recordset_columns colDef records ev)) \<longleftrightarrow> is_computed colDef n \<and> f = ev (formula_of colDef n)"
    using computed_names [OF assms] by (auto simp: recordset_columns_def image_iff)
qed

text \<open>What a reader of the row expects of a column: the stored field, or what the eager pipeline computes.\<close>

definition lazy_value :: "api \<Rightarrow> coldef \<Rightarrow> keyed_stored \<Rightarrow> string \<Rightarrow> val res" where
  "lazy_value A colDef rec n =
     (if is_computed colDef n then compute_column A (cdColumns colDef) (cdID colDef) (ksKey rec) (ksStored rec) n
      else Inr (field (ksStored rec) n))"

text \<open>
  A formula is evaluated on a Go map, so on its entries only. A record is complete when no
  stored column of the recordset is nil in it and no computed column is stored.
\<close>

definition map_function :: "api \<Rightarrow> bool" where
  "map_function A \<longleftrightarrow> (\<forall>f r r'. go_get r = go_get r' \<longrightarrow> EvaluateFormula A f r = EvaluateFormula A f r')"

definition complete_row :: "coldef \<Rightarrow> keyed_stored list \<Rightarrow> keyed_stored \<Rightarrow> bool" where
  "complete_row colDef records rec \<longleftrightarrow>
     (\<forall>n \<in> stored_set colDef records. field (ksStored rec) n \<noteq> VNil) \<and> (\<forall>n. is_computed colDef n \<longrightarrow> go_get (ksStored rec) n = None)"

lemma formula_fields:
  assumes "plain_columns colDef records" "rec \<in> set records" "complete_row colDef records rec"
    and "\<And>k v. go_get stored k = Some v \<Longrightarrow> k \<in> insert IDColumn (stored_set colDef records)"
    and "\<And>k. k \<in> stored_set colDef records \<Longrightarrow> field stored k = field (ksStored rec) k"
  shows "go_get (if go_get stored IDColumn \<noteq> None then go_delete IDColumn stored else stored) = go_get (ksStored rec)"
proof
  fix k
  let ?f = "if go_get stored IDColumn \<noteq> None then go_delete IDColumn stored else stored"
  note p = stored_set_props [OF assms(1)]
  have f: "go_get ?f k = (if k = IDColumn then None else go_get stored k)" by (auto simp: go_get_delete)
  consider "k = IDColumn" | "k \<in> stored_set colDef records" | "k \<noteq> IDColumn" "k \<notin> stored_set colDef records" by blast
  then show "go_get ?f k = go_get (ksStored rec) k"
  proof cases
    case 1
    with assms(1,2) f show ?thesis by (simp add: plain_columns_def)
  next
    case 2
    with assms(3) have "field (ksStored rec) k \<noteq> VNil" by (simp add: complete_row_def)
    with 2 p(1) assms(5) [OF 2] f show ?thesis by (auto simp: field_def split: option.splits)
  next
    case 3
    have "go_get (ksStored rec) k = None" using 3(2) p(4) [OF assms(2)] assms(3) unfolding complete_row_def by blast
    with 3 assms(4) f show ?thesis by fastforce
  qed
qed

lemma AccessValue_stored:
  "(case colDef of None \<Rightarrow> True | Some c \<Rightarrow> cFormula c = []) \<Longrightarrow> GetValueByName R row n rs = (Inr v, rs') \<Longrightarrow>
     AccessValue A R row cid key n colDef rs = (Inr v, rs')"
  by (auto simp: AccessValue_def split: option.splits)

text \<open>What the eager pipeline returns for one field.\<close>

lemma eager_value:
  assumes "wf_map cols" "ApplyFormulasToRead A data cols cid key = Inr out"
  shows "(if \<exists>c. go_get cols n = Some (Some c) \<and> cFormula c \<noteq> [] then compute_column A cols cid key data n else Inr (field data n)) =
     Inr (field out n)"
proof (cases "computedNames cols = []")
  case True
  with assms set_computedNames [OF assms(1), of n] show ?thesis by (auto simp: ApplyFormulasToRead_def split: if_splits)
next
  case False
  with assms(2) have "compute_loop A cols cid key data (sort_Strings (computedNames cols)) data = Inr out"
    by (auto simp: ApplyFormulasToRead_def split: if_splits)
  from compute_loop_get [OF this, of n] set_computedNames [OF assms(1), of n] show ?thesis
    by (auto simp: field_def split: if_splits)
qed

context columnar
begin

lemma build_cells:
  assumes "plain_columns colDef records"
  shows "valid (buildRecordset R colDef records ev)"
    "cells (buildRecordset R colDef records ev) = map (row_cells (stored_set colDef records)) records"
    "shapes R (buildRecordset R colDef records ev) = map shape (recordset_columns colDef records ev)"
proof -
  let ?rs = "NewColumnarRecordset R (cdID colDef) (recordset_columns colDef records ev)" and ?S = "stored_set colDef records"
  note n = new [OF recordset_columns_props(1,2) [OF assms, where ev = ev], where name = "cdID colDef"]
  have "let rs' = foldl (\<lambda>rs rec. fill_row R ?S rec rs) ?rs records in
     valid rs' \<and> shapes R rs' = shapes R ?rs \<and> cells rs' = cells ?rs @ map (row_cells ?S) records"
    using n recordset_columns_props(3) [OF assms, where ev = ev] stored_set_props(1) [OF assms] assms
    by (intro fill_rows_cells) (auto simp: plain_columns_def)
  then have "valid (buildRecordset R colDef records ev) \<and>
    cells (buildRecordset R colDef records ev) = map (row_cells ?S) records \<and>
    shapes R (buildRecordset R colDef records ev) = map shape (recordset_columns colDef records ev)"
    using n unfolding buildRecordset_def stored_set_def Let_def by simp
  then show "valid (buildRecordset R colDef records ev)"
    "cells (buildRecordset R colDef records ev) = map (row_cells (stored_set colDef records)) records"
    "shapes R (buildRecordset R colDef records ev) = map shape (recordset_columns colDef records ev)" by simp_all
qed

text \<open>Reads of the built recordset, from any state its reads have left it in.\<close>

lemma access_value:
  assumes "plain_columns colDef records" "same_table R valid cells (BuildRecordset A R colDef records) rs"
    and "index row < length records" "rec = records ! index row" "n \<in> stored_set colDef records \<or> is_computed colDef n"
    and "is_computed colDef n \<longrightarrow> map_function A \<and> complete_row colDef records rec"
    and "AccessValue A R row (cdID colDef) (ksKey rec) n (case go_get (cdColumns colDef) n of Some c \<Rightarrow> c | None \<Rightarrow> None) rs = (r, rs')"
  shows "r = lazy_value A colDef rec n \<and> same_table R valid cells (BuildRecordset A R colDef records) rs'"
proof -
  let ?S = "stored_set colDef records"
  obtain v rs1 where g: "GetValueByName R row n rs = (v, rs1)" by (cases "GetValueByName R row n rs")
  note b = build_cells [OF assms(1), of "Eval A"]
  have t: "valid rs" "cells rs = map (row_cells ?S) records" "shapes R rs = map shape (recordset_columns colDef records (Eval A))"
    using assms(2) b by (simp_all add: same_table_def BuildRecordset_def)
  have i: "index row < length (cells rs)" "cells rs ! index row = row_cells ?S rec" "rec \<in> set records" using assms(3,4) t(2) by simp_all
  note c = recordset_columns_props(3,4) [OF assms(1), where ev = "Eval A", folded t(3)]
  note p = stored_set_props [OF assms(1)]
  have same: "same_table R valid cells (BuildRecordset A R colDef records) rs'" if "same_table R valid cells rs rs1" "rs' = rs1"
    using that assms(2) by (simp add: same_table_def)
  show ?thesis
  proof (cases "is_computed colDef n")
    case False
    then have n: "n \<in> ?S" using assms(5) by blast
    with p(1) have "n \<noteq> IDColumn" by blast
    with get_stored [OF t(1) i(1) _ g] c(1) n i(2)
    have g': "GetValueByName R row n rs = (Inr (field (ksStored rec) n), rs1)" and st: "same_table R valid cells rs rs1"
      using g by (simp_all add: row_cells_def)
    have "case (case go_get (cdColumns colDef) n of Some c \<Rightarrow> c | None \<Rightarrow> None) of None \<Rightarrow> True | Some c \<Rightarrow> cFormula c = []"
      using False by (auto simp: is_computed_def split: option.splits)
    from AccessValue_stored [OF this g'] assms(7) have "r = Inr (field (ksStored rec) n)" "rs' = rs1" by (metis prod.inject)+
    with same [OF st] False show ?thesis by (simp add: lazy_value_def)
  next
    case True
    then obtain d where d: "go_get (cdColumns colDef) n = Some (Some d)" "cFormula d \<noteq> []" by (auto simp: is_computed_def)
    have "(n, Some (Eval A (cFormula d))) \<in> set (shapes R rs)" using c(2) True d by (simp add: formula_of_def)
    from get_computed [OF t(1) i(1) this g] obtain stored where
      s: "same_table R valid cells rs rs1" "v = Eval A (cFormula d) stored"
        "\<And>k v. go_get stored k = Some v \<Longrightarrow> k \<in> insert IDColumn ?S" "\<And>k. k \<in> insert IDColumn ?S \<Longrightarrow> field stored k = row_cells ?S rec k"
      unfolding c(1) i(2) by blast
    have f: "field stored k = field (ksStored rec) k" if "k \<in> ?S" for k
      using s(4) [of k] that p(1) by (auto simp: row_cells_def)
    from assms(6) True have m: "map_function A" "complete_row colDef records rec" by simp_all
    have "go_get (if go_get stored IDColumn \<noteq> None then go_delete IDColumn stored else stored) = go_get (ksStored rec)"
      by (rule formula_fields [OF assms(1) i(3) m(2)]) (use s(3) f in auto)
    with m(1) s(2) have "v = EvaluateFormula A (cFormula d) (ksStored rec)"
      unfolding Eval_def Let_def map_function_def by blast
    with True d assms(7) g same [OF s(1)] show ?thesis
      by (auto simp: AccessValue_def lazy_value_def compute_column_def)
  qed
qed

lemma row_data_values:
  assumes "plain_columns colDef records" "index row < length records" "rec = records ! index row"
    and "(\<exists>n \<in> set names. is_computed colDef n) \<longrightarrow> map_function A \<and> complete_row colDef records rec"
    and "set names \<subseteq> {n. n \<in> stored_set colDef records \<or> is_computed colDef n}"
    and "\<And>n. n \<in> set names \<Longrightarrow> lazy_value A colDef rec n = Inr (value n)"
    and "same_table R valid cells (BuildRecordset A R colDef records) rs"
    and "\<And>n. n \<in> set names \<Longrightarrow> field data n \<in> {VNil, value n}"
  shows "\<exists>d. fst (row_data A R row (cdID colDef) (ksKey rec) colDef names data rs) = Inr d \<and>
     (\<forall>n. field d n = (if n \<in> set names then value n else field data n))"
  using assms(4-8)
proof (induction names arbitrary: data rs)
  case (Cons n names)
  let ?c = "case go_get (cdColumns colDef) n of Some c \<Rightarrow> c | None \<Rightarrow> None"
  obtain r rs1 where a: "AccessValue A R row (cdID colDef) (ksKey rec) n ?c rs = (r, rs1)"
    by (cases "AccessValue A R row (cdID colDef) (ksKey rec) n ?c rs")
  have v: "r = Inr (value n)" "same_table R valid cells (BuildRecordset A R colDef records) rs1"
    using access_value [OF assms(1) Cons.prems(4) assms(2,3) _ _ a] Cons.prems(1-3) by auto
  let ?data = "if value n = VNil then data else go_set n (value n) data"
  have f: "field ?data k = (if k = n \<and> value n \<noteq> VNil then value n else field data k)" for k
    by (simp add: field_def go_get_set)
  have "\<exists>d. fst (row_data A R row (cdID colDef) (ksKey rec) colDef names ?data rs1) = Inr d \<and>
     (\<forall>n. field d n = (if n \<in> set names then value n else field ?data n))"
    by (rule Cons.IH) (use Cons.prems v(2) f in auto)
  then obtain d where d: "fst (row_data A R row (cdID colDef) (ksKey rec) colDef names ?data rs1) = Inr d"
      "\<And>k. field d k = (if k \<in> set names then value k else field ?data k)" by blast
  have "field data n = VNil \<or> field data n = value n" using Cons.prems(5) by auto
  with d(2) f have "field d k = (if k \<in> set (n # names) then value k else field data k)" for k by (cases "k = n") auto
  with d(1) a v(1) show ?case by simp
qed simp

end

section \<open>A recordset in memory\<close>

text \<open>An implementation of the contract on the columns of the adapter.\<close>

record mem_recordset =
  mrColumns :: "rs_column list"
  mrRows :: nat

definition mem_find :: "string \<Rightarrow> mem_recordset \<Rightarrow> rs_column option" where
  "mem_find name rs = find (\<lambda>c. column_name c = name) (mrColumns rs)"

definition mem_stored :: "nat \<Rightarrow> mem_recordset \<Rightarrow> row" where
  "mem_stored row rs =
     concat (map (\<lambda>c. case c of
         StoredColumn a \<Rightarrow> (case any_GetValue a (int row) of Inr v \<Rightarrow> [(anName a, v)] | Inl e \<Rightarrow> [])
       | ComputedColumn n f \<Rightarrow> []) (mrColumns rs))"

definition memory :: "(mem_recordset, nat) recordset_api" where
  "memory =
     \<lparr>NewColumnarRecordset = (\<lambda>name cs. \<lparr>mrColumns = cs, mrRows = 0\<rparr>),
      NewRow = (\<lambda>rs. (mrRows rs,
        \<lparr>mrColumns = map (\<lambda>c. case c of StoredColumn a \<Rightarrow> StoredColumn (any_Add a (any_DefaultValue a)) | ComputedColumn n f \<Rightarrow> c)
           (mrColumns rs), mrRows = Suc (mrRows rs)\<rparr>)),
      SetValueByName = (\<lambda>row name v rs.
        case mem_find name rs of
          Some (StoredColumn a) \<Rightarrow>
            (case any_SetValue a (int row) v of
               Inl e \<Rightarrow> (Inl e, rs)
             | Inr a' \<Rightarrow> (Inr (), rs\<lparr>mrColumns := map (\<lambda>c. if column_name c = name then StoredColumn a' else c) (mrColumns rs)\<rparr>))
        | _ \<Rightarrow> (Inl (EMsg ''no such stored column'' [name]), rs)),
      GetValueByName = (\<lambda>row name rs.
        (case mem_find name rs of
           Some (StoredColumn a) \<Rightarrow> any_GetValue a (int row)
         | Some (ComputedColumn n f) \<Rightarrow> f (mem_stored row rs)
         | None \<Rightarrow> Inl (EMsg ''no such column'' [name]), rs)),
      RowsCount = (\<lambda>rs. int (mrRows rs)), GetRow = (\<lambda>rs i. nat i), Columns = mrColumns\<rparr>"

definition mem_valid :: "mem_recordset \<Rightarrow> bool" where
  "mem_valid rs \<longleftrightarrow> distinct (map column_name (mrColumns rs)) \<and>
     (\<forall>a. StoredColumn a \<in> set (mrColumns rs) \<longrightarrow> length (anValues a) = mrRows rs)"

definition mem_cell :: "mem_recordset \<Rightarrow> nat \<Rightarrow> string \<Rightarrow> val" where
  "mem_cell rs i name = (case mem_find name rs of Some (StoredColumn a) \<Rightarrow> anValues a ! i | _ \<Rightarrow> VNil)"

definition mem_cells :: "mem_recordset \<Rightarrow> (string \<Rightarrow> val) list" where
  "mem_cells rs = map (mem_cell rs) [0..<mrRows rs]"

lemma mem_find_iff:
  assumes "distinct (map column_name (mrColumns rs))"
  shows "mem_find n rs = Some c \<longleftrightarrow> c \<in> set (mrColumns rs) \<and> column_name c = n"
proof -
  have "find (\<lambda>c. column_name c = n) cs = Some c \<longleftrightarrow> c \<in> set cs \<and> column_name c = n" if "distinct (map column_name cs)" for cs
    using that by (induction cs) auto
  with assms show ?thesis by (simp add: mem_find_def)
qed

lemma mem_find_name: "mem_find n rs = Some c \<Longrightarrow> column_name c = n"
  by (auto simp: mem_find_def find_Some_iff)

lemma mem_find_length: "mem_valid rs \<Longrightarrow> mem_find n rs = Some (StoredColumn a) \<Longrightarrow> length (anValues a) = mrRows rs"
  by (auto simp: mem_valid_def mem_find_iff)

lemma mem_find_shape:
  assumes "mem_valid rs"
  shows "(n, None) \<in> set (shapes memory rs) \<longleftrightarrow> (\<exists>a. mem_find n rs = Some (StoredColumn a))"
    "(n, Some f) \<in> set (shapes memory rs) \<longleftrightarrow> mem_find n rs = Some (ComputedColumn n f)"
proof -
  have "(n, None) = shape c \<longleftrightarrow> (\<exists>a. c = StoredColumn a \<and> anName a = n)" "(n, Some f) = shape c \<longleftrightarrow> c = ComputedColumn n f" for c
    by (cases c; auto)+
  then show "(n, None) \<in> set (shapes memory rs) \<longleftrightarrow> (\<exists>a. mem_find n rs = Some (StoredColumn a))"
    "(n, Some f) \<in> set (shapes memory rs) \<longleftrightarrow> mem_find n rs = Some (ComputedColumn n f)"
    using assms by (auto simp: shapes_def memory_def mem_valid_def mem_find_iff image_iff)
qed

lemma mem_find_map:
  assumes "\<And>c. column_name (g c) = column_name c"
  shows "mem_find n (rs\<lparr>mrColumns := map g (mrColumns rs)\<rparr>) = map_option g (mem_find n rs)"
proof -
  have "find (\<lambda>c. column_name c = n) (map g cs) = map_option g (find (\<lambda>c. column_name c = n) cs)" for cs
    using assms by (induction cs) auto
  then show ?thesis by (simp add: mem_find_def)
qed

lemma mem_stored_iff:
  assumes "mem_valid rs" "row < mrRows rs"
  shows "go_get (mem_stored row rs) k = (case mem_find k rs of Some (StoredColumn a) \<Rightarrow> Some (anValues a ! row) | _ \<Rightarrow> None)"
proof -
  have "go_get (concat (map (\<lambda>c. case c of
         StoredColumn a \<Rightarrow> (case any_GetValue a (int row) of Inr v \<Rightarrow> [(anName a, v)] | Inl e \<Rightarrow> [])
       | ComputedColumn n f \<Rightarrow> []) cs)) k =
     (case find (\<lambda>c. column_name c = k) cs of Some (StoredColumn a) \<Rightarrow> Some (anValues a ! row) | _ \<Rightarrow> None)"
    if "distinct (map column_name cs)" "\<And>a. StoredColumn a \<in> set cs \<Longrightarrow> length (anValues a) = mrRows rs" for cs
    using that
  proof (induction cs)
    case (Cons c cs)
    have no: "find (\<lambda>c. column_name c = column_name c') cs = None" if "c' = c" for c'
      using Cons.prems(1) that unfolding find_None_iff by (metis distinct.simps(2) image_eqI list.simps(9) set_map)
    show ?case
    proof (cases c)
      case (StoredColumn a)
      then show ?thesis using Cons assms(2) by (auto simp: any_GetValue_def out_of_range_def)
    next
      case (ComputedColumn n f)
      then show ?thesis using Cons no [OF refl] by auto
    qed
  qed simp
  with assms(1) show ?thesis by (simp add: mem_stored_def mem_find_def mem_valid_def)
qed

lemma mem_columns [simp]: "Columns memory rs = mrColumns rs"
  by (simp add: memory_def)

lemma mem_new_row:
  assumes "mem_valid rs" "NewRow memory rs = (row, rs')"
  shows "mem_valid rs' \<and> row = length (mem_cells rs) \<and> mem_cells rs' = mem_cells rs @ [\<lambda>_. VNil] \<and> shapes memory rs' = shapes memory rs"
proof -
  let ?g = "\<lambda>c. case c of StoredColumn a \<Rightarrow> StoredColumn (any_Add a (any_DefaultValue a)) | ComputedColumn n f \<Rightarrow> c"
  have r: "row = mrRows rs" "rs' = \<lparr>mrColumns = map ?g (mrColumns rs), mrRows = Suc (mrRows rs)\<rparr>"
    using assms(2) by (auto simp: memory_def)
  have g: "column_name (?g c) = column_name c" "shape (?g c) = shape c" for c by (cases c; simp add: any_Add_def)+
  have "mem_find n rs' = map_option ?g (mem_find n rs)" for n
    using mem_find_map [of ?g n rs, OF g(1)] r(2) by (simp add: mem_find_def)
  then have cell: "mem_cell rs' i n = (if i < mrRows rs then mem_cell rs i n else VNil)" if "i \<le> mrRows rs" for i n
    using that mem_find_length [OF assms(1), of n]
    by (auto simp: mem_cell_def any_Add_def any_DefaultValue_def nth_append split: option.splits rs_column.splits)
  have "mem_cells rs' = mem_cells rs @ [\<lambda>_. VNil]"
    using cell r(2) by (auto simp: mem_cells_def fun_eq_iff)
  moreover have "mem_valid rs'"
    using assms(1) g(1) unfolding r(2) by (auto simp: mem_valid_def comp_def any_Add_def split: rs_column.splits)
  moreover have "shapes memory rs' = shapes memory rs" using g(2) r(2) by (simp add: shapes_def)
  ultimately show ?thesis using r(1) by (simp add: mem_cells_def)
qed

lemma mem_set_value:
  assumes "mem_valid rs" "row < length (mem_cells rs)" "(n, None) \<in> set (shapes memory rs)" "SetValueByName memory row n v rs = (out, rs')"
  shows "out = Inr () \<and> mem_valid rs' \<and> mem_cells rs' = (mem_cells rs)[row := (mem_cells rs ! row)(n := v)] \<and> shapes memory rs' = shapes memory rs"
proof -
  from assms(1,3) obtain a where a: "mem_find n rs = Some (StoredColumn a)" using mem_find_shape(1) by blast
  with assms(1) have len: "length (anValues a) = mrRows rs" "anName a = n" "StoredColumn a \<in> set (mrColumns rs)"
    by (auto simp: mem_valid_def mem_find_iff)
  have row: "row < mrRows rs" using assms(2) by (simp add: mem_cells_def)
  let ?a = "a\<lparr>anValues := (anValues a)[row := v]\<rparr>" and ?g = "\<lambda>c. if column_name c = n then StoredColumn (a\<lparr>anValues := (anValues a)[row := v]\<rparr>) else c"
  have r: "out = Inr ()" "rs' = rs\<lparr>mrColumns := map ?g (mrColumns rs)\<rparr>"
    using assms(4) a row len(1) by (simp_all add: memory_def any_SetValue_def out_of_range_def)
  have names: "column_name (?g c) = column_name c" for c using len(2) by simp
  have shape: "shape (?g c) = shape c" if "c \<in> set (mrColumns rs)" for c
  proof (cases "column_name c = n")
    case True
    with that assms(1) have "mem_find n rs = Some c" by (simp add: mem_valid_def mem_find_iff)
    with a have "c = StoredColumn a" by simp
    with len(2) show ?thesis by simp
  qed simp
  have "mem_find k rs' = (if k = n then Some (StoredColumn ?a) else mem_find k rs)" for k
    using mem_find_map [of ?g k rs, OF names] r(2) a len(2) mem_find_name [of k rs] by (cases "mem_find k rs") auto
  then have cell: "mem_cell rs' i = (if i = row then (mem_cell rs row)(n := v) else mem_cell rs i)" if "i < mrRows rs" for i
    using that len(1) a by (auto simp: mem_cell_def fun_eq_iff)
  have "mem_cells rs' = (mem_cells rs)[row := (mem_cells rs ! row)(n := v)]"
    using cell row r(2) by (intro nth_equalityI) (auto simp: mem_cells_def nth_list_update)
  moreover have "mem_valid rs'"
    using assms(1) names len(1) unfolding r(2) by (auto simp: mem_valid_def comp_def split: if_splits)
  moreover have "shapes memory rs' = shapes memory rs" using shape r(2) by (simp add: shapes_def)
  ultimately show ?thesis using r(1) by simp
qed

interpretation mem: columnar memory mem_valid "\<lambda>row. row" mem_cells
proof
  fix rs row n r rs' f i cs name
  show "mem_valid (NewColumnarRecordset memory name cs) \<and> mem_cells (NewColumnarRecordset memory name cs) = [] \<and>
      shapes memory (NewColumnarRecordset memory name cs) = map shape cs"
    if "distinct (map column_name cs)" "\<And>c. StoredColumn c \<in> set cs \<Longrightarrow> anValues c = []"
    using that by (simp add: memory_def mem_valid_def mem_cells_def shapes_def)
  show "RowsCount memory rs = int (length (mem_cells rs))" by (simp add: memory_def mem_cells_def)
  show "GetRow memory rs (int i) = i" by (simp add: memory_def)
  show "r = Inr ((mem_cells rs ! row) n) \<and> same_table memory mem_valid mem_cells rs rs'"
    if "mem_valid rs" "row < length (mem_cells rs)" "(n, None) \<in> set (shapes memory rs)" "GetValueByName memory row n rs = (r, rs')"
  proof -
    from that(1,3) obtain a where a: "mem_find n rs = Some (StoredColumn a)" using mem_find_shape(1) by blast
    with that(1) have "length (anValues a) = mrRows rs" by (auto simp: mem_valid_def mem_find_iff)
    with a that(1,2,4) show ?thesis
      by (auto simp: memory_def same_table_def any_GetValue_def out_of_range_def mem_cells_def mem_cell_def)
  qed
  show "same_table memory mem_valid mem_cells rs rs' \<and>
      (\<exists>stored. r = f stored \<and> (\<forall>k v. go_get stored k = Some v \<longrightarrow> (k, None) \<in> set (shapes memory rs)) \<and>
         (\<forall>k. (k, None) \<in> set (shapes memory rs) \<longrightarrow> field stored k = (mem_cells rs ! row) k))"
    if "mem_valid rs" "row < length (mem_cells rs)" "(n, Some f) \<in> set (shapes memory rs)" "GetValueByName memory row n rs = (r, rs')"
  proof -
    have "r = f (mem_stored row rs)" "rs' = rs" using that(3,4) mem_find_shape(2) [OF that(1)] by (auto simp: memory_def)
    with that(1,2) show ?thesis
      by (auto simp: same_table_def mem_cells_def mem_cell_def mem_stored_iff mem_find_shape field_def split: option.splits rs_column.splits)
  qed
qed (fact mem_new_row mem_set_value)+

end
