(* ===== verification/RecordsetProperties.thy ===== *)
theory RecordsetProperties
  imports Columnar Sample
begin

text \<open>
  What a recordset promises: reading a row lazily gives what the eager pipeline computes,
  and every query for a recordset returns, whatever the recordset library does.
\<close>

section \<open>Projections\<close>

lemma slice_reader_steps:
  "slice_remaining r = [] \<Longrightarrow> slice_reader r = (Inr None, r)"
  "slice_remaining r = x # xs \<Longrightarrow> \<exists>r'. slice_reader r = (Inr (Some x), r') \<and> slice_remaining r' = xs"
  using slice.Next_end [of r] slice.Next_row [of r x xs] by (auto simp: slice_reader_def split: prod.splits)

text \<open>The loop ends on every slice reader, whatever the recordset library answers.\<close>

lemma fill_returns: "\<exists>out. fillProjectedRows slice_reader R names r rs = Some out"
proof (induction "slice_remaining r" arbitrary: r rs)
  case Nil
  then show ?case using slice_reader_steps(1) [of r] by (simp add: fillProjectedRows.simps)
next
  case (Cons x xs)
  from slice_reader_steps(2) [OF Cons.hyps(2) [symmetric]] obtain r' where
    r: "slice_reader r = (Inr (Some x), r')" "xs = slice_remaining r'" by auto
  show ?case
    using Cons.hyps(1) [OF r(2)] r(1)
    by (subst fillProjectedRows.simps) (auto split: prod.split sum.split)
qed

context columnar
begin

lemma set_names_cells:
  assumes "valid rs" "index row < length (cells rs)" "\<And>n. n \<in> set names \<Longrightarrow> (n, None) \<in> set (shapes R rs)"
  shows "\<exists>rs'. set_names R row data names rs = (Inr (), rs') \<and> valid rs' \<and> shapes R rs' = shapes R rs \<and>
     cells rs' = (cells rs)[index row := (\<lambda>n. if n \<in> set names then field data n else (cells rs ! index row) n)]"
  using assms
proof (induction names arbitrary: rs)
  case (Cons n names)
  obtain u rs1 where s: "SetValueByName R row n (field data n) rs = (u, rs1)" by (cases "SetValueByName R row n (field data n) rs")
  have 1: "u = Inr () \<and> valid rs1 \<and> cells rs1 = (cells rs)[index row := (cells rs ! index row)(n := field data n)] \<and> shapes R rs1 = shapes R rs"
    using set_value [OF Cons.prems(1,2) _ s] Cons.prems(3) by simp
  have v: "valid rs1" "index row < length (cells rs1)" "\<And>k. k \<in> set names \<Longrightarrow> (k, None) \<in> set (shapes R rs1)"
    using 1 Cons.prems(2,3) by auto
  have over: "(\<lambda>k. if k \<in> set names then field data k else ((cells rs ! index row)(n := field data n)) k) =
      (\<lambda>k. if k \<in> set (n # names) then field data k else (cells rs ! index row) k)" by (auto simp: fun_eq_iff)
  have cell: "cells rs1 ! index row = (cells rs ! index row)(n := field data n)" using 1 Cons.prems(2) by simp
  obtain rs2 where "set_names R row data names rs1 = (Inr (), rs2)" "valid rs2" "shapes R rs2 = shapes R rs1"
      "cells rs2 = (cells rs1)[index row := (\<lambda>k. if k \<in> set (n # names) then field data k else (cells rs ! index row) k)]"
    using Cons.IH [OF v] unfolding cell over by blast
  with 1 s show ?case by auto
qed simp

lemma fill_cells:
  assumes "valid rs" "\<And>n. n \<in> set names \<Longrightarrow> (n, None) \<in> set (shapes R rs)"
  shows "\<exists>rs'. fillProjectedRows slice_reader R names r rs = Some (Inr (), rs') \<and> valid rs' \<and>
     cells rs' = cells rs @ map (\<lambda>rec n. if n \<in> set names then field (dData rec) n else VNil) (slice_remaining r)"
  using assms
proof (induction "slice_remaining r" arbitrary: r rs)
  case Nil
  then show ?case using slice_reader_steps(1) [of r] by (simp add: fillProjectedRows.simps)
next
  case (Cons x xs)
  from slice_reader_steps(2) [OF Cons.hyps(2) [symmetric]] obtain r' where
    r: "slice_reader r = (Inr (Some x), r')" "xs = slice_remaining r'" by auto
  obtain row rs1 where n: "NewRow R rs = (row, rs1)" by (cases "NewRow R rs")
  note 1 = new_row [OF Cons.prems(1) n]
  have cell: "cells rs1 ! index row = (\<lambda>_. VNil)" using 1 by simp
  have "\<exists>rs2. set_names R row (dData x) names rs1 = (Inr (), rs2) \<and> valid rs2 \<and> shapes R rs2 = shapes R rs1 \<and>
     cells rs2 = (cells rs1)[index row := (\<lambda>n. if n \<in> set names then field (dData x) n else (cells rs1 ! index row) n)]"
    by (rule set_names_cells) (use 1 Cons.prems(2) in auto)
  then obtain rs2 where "set_names R row (dData x) names rs1 = (Inr (), rs2)" "valid rs2" "shapes R rs2 = shapes R rs1"
      "cells rs2 = (cells rs1)[index row := (\<lambda>n. if n \<in> set names then field (dData x) n else VNil)]"
    unfolding cell by blast
  with 1 have 2: "set_names R row (dData x) names rs1 = (Inr (), rs2)" "valid rs2" "shapes R rs2 = shapes R rs"
      "cells rs2 = cells rs @ [\<lambda>n. if n \<in> set names then field (dData x) n else VNil]" by simp_all
  have step: "fillProjectedRows slice_reader R names r rs = fillProjectedRows slice_reader R names r' rs2"
    using r(1) n 2(1) by (subst fillProjectedRows.simps) simp
  have "\<exists>rs'. fillProjectedRows slice_reader R names r' rs2 = Some (Inr (), rs') \<and> valid rs' \<and>
     cells rs' = cells rs2 @ map (\<lambda>rec n. if n \<in> set names then field (dData rec) n else VNil) (slice_remaining r')"
    by (rule Cons.hyps(1) [OF r(2) 2(2)]) (use 2(3) Cons.prems(2) in simp)
  then show ?case unfolding step 2(4) Cons.hyps(2) [symmetric] r(2) by simp
qed

text \<open>A projection has one row for each record, with the projected fields in it.\<close>

lemma projection_rows:
  assumes "distinct (map (columnOutKey es) columns)"
  shows "\<exists>rs. projectRecordsFromReader es slice_reader R (newSliceRecordsReader recs) columns = Some (Inr (NewRecordsetReader rs)) \<and>
     cells rs = map (\<lambda>rec n. if n \<in> columnOutKey es ` set columns then field (dData rec) n else VNil) recs"
proof -
  let ?names = "map (columnOutKey es) columns"
  let ?rs = "NewColumnarRecordset R ''query'' (map (\<lambda>name. StoredColumn \<lparr>anName = name, anValues = []\<rparr>) ?names)"
  have n: "valid ?rs \<and> cells ?rs = [] \<and> shapes R ?rs = map shape (map (\<lambda>name. StoredColumn \<lparr>anName = name, anValues = []\<rparr>) ?names)"
    by (rule new) (use assms in \<open>auto simp: comp_def\<close>)
  have "\<exists>rs'. fillProjectedRows slice_reader R ?names (newSliceRecordsReader recs) ?rs = Some (Inr (), rs') \<and> valid rs' \<and>
     cells rs' = cells ?rs @ map (\<lambda>rec n. if n \<in> set ?names then field (dData rec) n else VNil) (slice_remaining (newSliceRecordsReader recs))"
    by (rule fill_cells) (use n in auto)
  with n show ?thesis by (auto simp: projectRecordsFromReader_def slice_remaining_def newSliceRecordsReader_def)
qed

end

section \<open>Properties\<close>

text \<open>
  C40. A query for a recordset always returns, with a reader or with an error, whatever the
  query, the files, the failing calls and the recordset library do, and it changes no file:
  the loop that copies projected rows ends.
\<close>

theorem recordset_query_terminates:
  "fst (ExecuteQueryToRecordsetReader E A es C R tx q w) \<noteq> Inr None \<and>
   wFs (snd (ExecuteQueryToRecordsetReader E A es C R tx q w)) = wFs w"
proof
  have p: "fst (projectedRecordset E A es C R tx q cs w) \<noteq> Inr None" for cs
  proof -
    have some: "\<exists>p. projectRecordsFromReader es slice_reader R reader cs = Some p" for reader
    proof -
      let ?rs = "NewColumnarRecordset R ''query'' (map (\<lambda>name. StoredColumn \<lparr>anName = name, anValues = []\<rparr>) (map (columnOutKey es) cs))"
      obtain u rs' where "fillProjectedRows slice_reader R (map (columnOutKey es) cs) reader ?rs = Some (u, rs')"
        using fill_returns [of R "map (columnOutKey es) cs" reader ?rs] by auto
      then show ?thesis unfolding projectRecordsFromReader_def Let_def by (cases u) simp_all
    qed
    obtain x w' where x: "executeQueryToRecordsReader E A es C tx q w = (x, w')" by (cases "executeQueryToRecordsReader E A es C tx q w")
    show ?thesis
    proof (cases x)
      case (Inr reader)
      obtain p where "projectRecordsFromReader es slice_reader R reader cs = Some p" using some by blast
      with x Inr show ?thesis by (cases p) (simp_all add: projectedRecordset_def iobind_def io_defs)
    qed (use x in \<open>simp add: projectedRecordset_def iobind_def\<close>)
  qed
  moreover have "fst (wholeRecordset E A R tx q w) \<noteq> Inr None"
    by (auto simp: wholeRecordset_def iobind_def io_defs split: prod.splits sum.splits if_splits)
  ultimately show "fst (ExecuteQueryToRecordsetReader E A es C R tx q w) \<noteq> Inr None"
    by (cases q) (simp_all add: ExecuteQueryToRecordsetReader_def iofail_def)
  have "iokeeps same_fs (ExecuteQueryToRecordsetReader E A es C R tx q)"
    unfolding ExecuteQueryToRecordsetReader_def projectedRecordset_def wholeRecordset_def
    by (auto intro!: untouched.keeps_bind executeQueryToRecordsReader_same readAllStoredRecords_same
        split: query.split option.split prod.split)
  then show "wFs (snd (ExecuteQueryToRecordsetReader E A es C R tx q w)) = wFs w"
    by (auto simp: iokeeps_def same_fs_def)
qed

text \<open>
  C39. Reading a row of a recordset lazily is reading the record eagerly: \<open>RowData\<close> on any
  columns returns the fields that \<open>ApplyFormulasToRead\<close> returns for the record, and the row
  carries its key. When computed columns are among them, the record must have a value in
  every stored column, because a recordset may hand a formula nil for a missing field.
\<close>

theorem lazy_row_matches_eager:
  assumes "columnar R valid index cells" and "plain_columns colDef records" and "i < length records" "rec = records ! i"
    and "rs = BuildRecordset A R colDef records" "row = GetRow R rs (int i)"
    and "set names \<subseteq> set (AllColumnNames R rs)"
    and "(\<exists>n \<in> set names. is_computed colDef n) \<longrightarrow> map_function A \<and> complete_row colDef records rec"
    and "ApplyFormulasToRead A (ksStored rec) (cdColumns colDef) (cdID colDef) (ksKey rec) = Inr out"
  shows "fst (RowKey R row rs) = ksKey rec \<and>
    (\<exists>data. fst (RowData A R row (cdID colDef) (ksKey rec) colDef names rs) = Inr data \<and>
       (\<forall>n. field data n = (if n \<in> set names then field out n else VNil)))"
proof -
  note b = columnar.build_cells [OF assms(1,2), of "Eval A", folded BuildRecordset_def, folded assms(5)]
  have row: "index row = i" using columnar.get_row [OF assms(1) b(1)] b(2) assms(3,6) by simp
  have i: "index row < length (cells rs)" "cells rs ! index row = row_cells (stored_set colDef records) rec"
    using b(2) row assms(3,4) by simp_all
  obtain r rs' where g: "GetValueByName R row IDColumn rs = (r, rs')" by (cases "GetValueByName R row IDColumn rs")
  have "(IDColumn, None) \<in> set (shapes R rs)" unfolding b(3) recordset_columns_props(3) [OF assms(2)] by simp
  from columnar.get_stored [OF assms(1) b(1) i(1) this g] i(2) have "r = Inr (VStr (ksKey rec))" by (simp add: row_cells_def)
  with g have key: "fst (RowKey R row rs) = ksKey rec" by (simp add: RowKey_def)
  have len: "index row < length records" and rec: "rec = records ! index row" using assms(3,4) row by simp_all
  have wf: "wf_map (cdColumns colDef)" using assms(2) by (simp add: plain_columns_def)
  have eager: "lazy_value A colDef rec n = Inr (field out n)" for n
    using eager_value [OF wf assms(9)] by (simp add: lazy_value_def is_computed_def)
  have sub: "set names \<subseteq> {n. n \<in> stored_set colDef records \<or> is_computed colDef n}"
  proof
    fix n
    assume "n \<in> set names"
    with assms(7) have "n \<noteq> IDColumn" "n \<in> fst ` set (shapes R rs)" by (auto simp: AllColumnNames_def shapes_def image_image)
    then obtain e where e: "n \<noteq> IDColumn" "(n, e) \<in> set (shapes R rs)" by auto
    note c = recordset_columns_props(3,4) [OF assms(2), where ev = "Eval A", folded b(3)]
    show "n \<in> {n. n \<in> stored_set colDef records \<or> is_computed colDef n}"
      using e c by (cases e) simp_all
  qed
  have nil: "field [] n = VNil" for n by (simp add: field_def)
  have tab: "same_table R valid cells (BuildRecordset A R colDef records) rs"
    using b(1) unfolding assms(5) [symmetric] by (simp add: same_table_def)
  have "\<exists>d. fst (row_data A R row (cdID colDef) (ksKey rec) colDef names [] rs) = Inr d \<and>
     (\<forall>n. field d n = (if n \<in> set names then field out n else field [] n))"
    by (rule columnar.row_data_values [OF assms(1,2) len rec assms(8) sub eager tab]) (simp add: field_def)
  with key show ?thesis unfolding RowData_def nil by blast
qed

lemma sample_map_function: "map_function sample_api"
  by (simp add: map_function_def sample_api_def)

theorem lazy_row_matches_eager_witness:
  "let rs = BuildRecordset sample_api memory people [\<lparr>ksKey = ''ann'', ksStored = [(''team'', VStr ''red'')]\<rparr>] in
     fst (RowKey memory (GetRow memory rs (int 0)) rs) = ''ann'' \<and>
     (\<exists>data. fst (RowData sample_api memory (GetRow memory rs (int 0)) ''people'' ''ann'' people [''team'', ''label''] rs) = Inr data \<and>
        field data ''label'' = VStr ''red'')"
proof -
  let ?rec = "\<lparr>ksKey = ''ann'', ksStored = [(''team'', VStr ''red'')]\<rparr>"
  let ?rs = "BuildRecordset sample_api memory people [?rec]"
  have plain: "plain_columns people [?rec]" by code_simp
  have names: "set [''team'', ''label''] \<subseteq> set (AllColumnNames memory ?rs)" by code_simp
  have complete: "complete_row people [?rec] ?rec"
  proof -
    have "stored_set people [?rec] = {''team''}" by code_simp
    moreover have "go_get (cdColumns people) n = None" if "n \<noteq> ''team''" "n \<noteq> ''label''" for n using that by (simp add: people_def)
    moreover have "\<not> is_computed people ''team''" by (simp add: is_computed_def people_def)
    ultimately show ?thesis by (auto simp: complete_row_def is_computed_def field_def)
  qed
  have eager: "ApplyFormulasToRead sample_api (ksStored ?rec) (cdColumns people) (cdID people) (ksKey ?rec) =
      Inr [(''team'', VStr ''red''), (''label'', VStr ''red'')]" by code_simp
  have at: "(0 :: nat) < length [?rec]" "?rec = [?rec] ! 0" by simp_all
  have id: "cdID people = ''people''" by code_simp
  from lazy_row_matches_eager [OF mem.columnar_axioms plain at refl refl names _ eager] sample_map_function complete id
  show ?thesis by (auto simp: Let_def field_def)
qed

end
