(* ===== verification/FileLocks.thy ===== *)
theory FileLocks
  imports Transaction
begin

text \<open>
  The file whose lock guards a target (\<open>filelock.go\<close>, \<open>filelock_path_other.go\<close>,
  \<open>filelock_path_windows.go\<close>): the target itself where locks are advisory, a sidecar file
  under the user cache where they are mandatory. \<open>strings.ToLower\<close>, the absolute path, the
  cache directory and SHA-256 are parameters.
\<close>

datatype file_locker = Flock string | FailedFileLocker dberr

definition sidecarLockPath ::
  "osenv \<Rightarrow> gitenv \<Rightarrow> (string \<Rightarrow> string) \<Rightarrow> string \<Rightarrow> string \<Rightarrow> bool \<Rightarrow> ('b world_scheme, dberr, string) io" where
  "sidecarLockPath E G lower cacheDir target foldCase =
     iobind (iowrap (''resolve lock target '' @ target) (iolift (gAbs G target))) (\<lambda>abs0.
       let abs = (if foldCase then lower abs0 else abs0);
           dir = filepath_Join [cacheDir, ''dalgo2ingitdb'', ''file-locks''] in
       iobind (iowrap (''create lock directory '' @ dir) (os_MkdirAll E dir)) (\<lambda>_.
         ioret (filepath_Join [dir, gSha256 G abs @ ''.lock''])))"

definition lockFilePath_other :: "string \<Rightarrow> ('s, dberr, string) io" where
  "lockFilePath_other target = ioret target"

definition lockFilePath_windows ::
  "osenv \<Rightarrow> gitenv \<Rightarrow> (string \<Rightarrow> string) \<Rightarrow> string \<Rightarrow> ('b world_scheme, dberr, string) io" where
  "lockFilePath_windows E G lower target =
     iobind (iowrap ''resolve lock cache directory'' (iolift (gCacheDir G))) (\<lambda>cacheDir.
       sidecarLockPath E G lower cacheDir target True)"

definition defaultFileLocker :: "('s, dberr, string) io \<Rightarrow> 's \<Rightarrow> file_locker \<times> 's" where
  "defaultFileLocker lockPath w =
     (case lockPath w of (Inl e, w') \<Rightarrow> (FailedFileLocker e, w') | (Inr p, w') \<Rightarrow> (Flock p, w'))"

primrec locker_Lock :: "osenv \<Rightarrow> file_locker \<Rightarrow> ('b world_scheme, dberr, unit) io" where
  "locker_Lock E (Flock p) = flock E p"
| "locker_Lock E (FailedFileLocker e) = iofail e"

text \<open>\<open>withSharedLock\<close> and \<open>withExclusiveLock\<close> on any platform; \<open>what\<close> names the lock in the error.\<close>

definition with_lock ::
  "osenv \<Rightarrow> (string \<Rightarrow> ('b world_scheme, dberr, string) io) \<Rightarrow> string \<Rightarrow> string \<Rightarrow> ('b world_scheme, dberr, 'a) io \<Rightarrow>
     ('b world_scheme, dberr, 'a) io" where
  "with_lock E lockFilePath what path fn w =
     (case defaultFileLocker (lockFilePath path) w of
        (lk, w') \<Rightarrow>
          iobind (iocatch (locker_Lock E lk) (\<lambda>e. iofail (EWrap (what @ path) e))) (\<lambda>_. fn) w')"

text \<open>Where locks are advisory this is the lock of the rest of the development.\<close>

lemma with_lock_other:
  "with_lock E lockFilePath_other ''acquire shared lock on '' path fn = withSharedLock E path fn"
  "with_lock E lockFilePath_other ''acquire exclusive lock on '' path fn = withExclusiveLock E path fn"
  by (simp_all add: fun_eq_iff with_lock_def lockFilePath_other_def defaultFileLocker_def ioret_def
        withSharedLock_def withExclusiveLock_def)

lemma lockFilePath_windows_Inr:
  assumes "lockFilePath_windows E G lower target w = (Inr p, w')"
  obtains cacheDir abs where "gCacheDir G = Inr cacheDir" "gAbs G target = Inr abs"
    "p = filepath_Join [filepath_Join [cacheDir, ''dalgo2ingitdb'', ''file-locks''], gSha256 G (lower abs) @ ''.lock'']"
  using assms by (auto simp: lockFilePath_windows_def sidecarLockPath_def Let_def res_simps iowrap_Inr)

text \<open>Processes that resolve a target to the same path, up to case, take the same lock.\<close>

lemma same_target_same_lock:
  assumes "lockFilePath_windows E G lower a w1 = (Inr p, w1')" "lockFilePath_windows E' G lower b w2 = (Inr q, w2')"
    and "map_sum id lower (gAbs G a) = map_sum id lower (gAbs G b)"
  shows "p = q"
proof -
  obtain c abs where 1: "gCacheDir G = Inr c" "gAbs G a = Inr abs"
      "p = filepath_Join [filepath_Join [c, ''dalgo2ingitdb'', ''file-locks''], gSha256 G (lower abs) @ ''.lock'']"
    using assms(1) by (rule lockFilePath_windows_Inr)
  obtain c' abs' where 2: "gCacheDir G = Inr c'" "gAbs G b = Inr abs'"
      "q = filepath_Join [filepath_Join [c', ''dalgo2ingitdb'', ''file-locks''], gSha256 G (lower abs') @ ''.lock'']"
    using assms(2) by (rule lockFilePath_windows_Inr)
  from 1(1) 2(1) have "c = c'" by simp
  moreover from 1(2) 2(2) assms(3) have "lower abs = lower abs'" by simp
  ultimately show ?thesis unfolding 1(3) 2(3) by (simp only:)
qed

text \<open>The function under the lock runs only when the lock was taken.\<close>

lemma with_lock_Inr:
  assumes "with_lock E lockFilePath what path fn w = (Inr x, w')"
  obtains p w1 w2 where "lockFilePath path w = (Inr p, w1)" "flock E p w1 = (Inr (), w2)" "fn w2 = (Inr x, w')"
proof -
  obtain r w1 where l: "lockFilePath path w = (r, w1)" by (cases "lockFilePath path w")
  with assms show ?thesis
    by (cases r) (auto simp: with_lock_def defaultFileLocker_def res_simps iocatch_fail_Inr intro: that)
qed

end
