(* ===== verification/Spec2Isabelle.thy ===== *)
theory Spec2Isabelle
  imports KeyProperties StoreProperties QueryProperties BatchParsers RootedProperties RootedLifecycle
    SchemaReader DdlProperties AccessProperties RecordsetProperties FileLocks
begin

text \<open>
  dalgo2ingitdb stores the records of a database as plain files of a Git work tree. This
  development models the adapter and proves what makes it correct.

  \<^bold>\<open>The program and the theories.\<close>

  \<^item> \<open>database.go\<close>, \<open>git_commit.go\<close>: a transaction takes the project lock, loads the definition
    of the collections, runs the caller's worker, commits the written paths and, on a failure,
    restores the files it touched. Theories \<open>Transaction\<close> (state \<open>txworld\<close>: the file tree, a
    call counter, the Git commands issued, the written paths and the snapshots; the worker is a
    tree of calls, \<open>worker\<close>) and \<open>GitCommit\<close> (the Git plumbing on a private index).
  \<^item> \<open>tx_readwrite.go\<close>, \<open>tx_readonly.go\<close>, \<open>write_validation.go\<close>, \<open>foreign_keys.go\<close>: the operations
    of a transaction. Theories \<open>WriteTx\<close>, \<open>Updates\<close>, \<open>ReadTx\<close>, \<open>ForeignKeys\<close>.
  \<^item> \<open>record_io.go\<close>, \<open>collection.go\<close>, \<open>scoped_collection.go\<close>: from a key to a file and back.
    Theories \<open>RecordKeys\<close>, \<open>ScopedCollection\<close>, \<open>RecordIO\<close>.
  \<^item> \<open>query.go\<close>, \<open>formula.go\<close>, \<open>computed_columns.go\<close>, \<open>slice_records_reader.go\<close>: scans,
    conditions, ordering, grouping, computed columns. Theories \<open>Schema\<close>, \<open>Query\<close>, \<open>Glob\<close>, \<open>Scan\<close>.
  \<^item> \<open>recordset.go\<close>, \<open>accessor.go\<close>: records as rows of columns whose computed values are
    evaluated when they are read. Theories \<open>Recordset\<close> and \<open>Columnar\<close>.
  \<^item> \<open>rooted_files.go\<close>, \<open>rooted_files_unix.go\<close>: private JSON and JSON-lines files under a
    directory capability. Theories \<open>JsonLines\<close> (the byte level), \<open>RootedFiles\<close> (the operations),
    \<open>RootedLifecycle\<close> (operations against \<open>Close\<close>, as a step relation).
  \<^item> \<open>batch_parsers.go\<close>: batches of records in four formats. Theory \<open>BatchParsers\<close>.
  \<^item> \<open>schema_modifier.go\<close>, \<open>schema_reader.go\<close>, \<open>registry.go\<close>, \<open>type_mapping.go\<close>: the definition of
    a collection, its description and its changes. Theories \<open>SchemaDef\<close>, \<open>SchemaReader\<close>, \<open>Ddl\<close>.
  \<^item> \<open>access_manifest.go\<close>, \<open>access_generation.go\<close>: the access policies of a project. A generation of
    policies is built, staged, renamed to the directory named by its digest, committed to Git with
    a compare and swap and selected by the manifest; opening a project recovers what Git holds.
    Theories \<open>AccessManifest\<close> (the manifest and the verification of a generation),
    \<open>AccessGeneration\<close> (every operation), \<open>AccessStore\<close>, \<open>AccessBuild\<close>, \<open>AccessPublish\<close> and
    \<open>AccessRecovery\<close> (the lemmas on files, building, publishing and recovering).
  \<^item> \<open>database.go\<close> (\<open>NewDatabase\<close>, \<open>securedDatabase\<close>), \<open>protected.go\<close>: what a caller is handed and
    the owner snapshot it is checked against; the storage side of the enforcement coordinator.
    Theories \<open>Facade\<close> (the snapshot is a field of the record \<open>securedDatabase\<close>, the management
    calls are the steps of \<open>owner_step\<close>), \<open>Protected\<close> and \<open>ProtectedProperties\<close> (the callback of
    the coordinator is a tree of calls, \<open>inspector\<close> and \<open>executor\<close>).

  \<^bold>\<open>Shared theories.\<close> \<open>Prelude\<close> (results, the state-and-error monad \<open>io\<close>, Go maps as association
  lists, the collections of simplification rules), \<open>GoStrings\<close>, \<open>GoPaths\<close>, \<open>GoSort\<close>,
  \<open>GoFloat\<close> (float64 as dyadic rationals with rounding), \<open>GoValues\<close> (the dynamic values),
  \<open>Errors\<close> (one constructor per error the sources create), \<open>FileSystem\<close> (a tree of nodes by
  path, the \<open>os\<close> calls and the file locks), \<open>FileLocks\<close> (the lock file of each platform),
  \<open>Sample\<close> (the concrete project of the witnesses).

  \<^bold>\<open>Failures.\<close> Every call of the operating system and of Git draws its outcome from an
  environment (\<open>osenv\<close>, \<open>gitenv\<close>) at the current call counter, so a theorem over all
  environments covers every pattern of failing calls; a failing write may also have been
  carried out in part. Errors are values of a sum type and a run-time panic is the error \<open>EPanic\<close>.

  \<^bold>\<open>Code outside the repository\<close> is a parameter: the YAML, JSON, CSV and INGR codecs, the
  formula evaluator, the locale mapping and the definition reader (\<open>api\<close>, \<open>schema_api\<close>,
  \<open>ddl_api\<close>, \<open>rooted_api\<close>), the query engine of package \<open>dal\<close> (\<open>engine\<close>), Git (\<open>gitenv\<close>).
  A theorem that needs a law of a codec has it as a hypothesis and a witness that meets it.

  \<^bold>\<open>Interfaces.\<close> Locales state what a client uses of a component and are interpreted on the
  model: \<open>keyed_store\<close> on Go maps, \<open>byte_source\<close> on file reads, \<open>world_frame\<close> on the worlds of
  the transactions and of the rooted files, \<open>row_reader\<close> on the two readers, \<open>columnar\<close> on a
  store of the adapter's columns.

  \<^bold>\<open>Groups of properties.\<close> This theory: atomicity of transactions, the compare and swap of the
  commit, purity of read-only transactions. \<open>StoreProperties\<close>: a write is read back,
  references exist after a write and before a delete, an insert never overwrites, an operation
  touches its own file only, scans are complete. \<open>KeyProperties\<close>: keys and file names are in
  bijection, paths stay in their collection, different keys have different files.
  \<open>QueryProperties\<close>: filtering, ordering, grouping, aggregates, computed columns.
  \<open>RootedProperties\<close>: committed records survive every failure, documents are old or new,
  bounded reads. \<open>RootedLifecycle\<close>: no operation runs on a closed descriptor, \<open>Close\<close> completes.
  \<open>DdlProperties\<close>: a schema is described as it was created, the columns and their order stay
  in step, what is on disk after a schema change. \<open>BatchParsers\<close>: one record per input item.
  \<open>RecordsetProperties\<close>: lazy reads agree with eager ones, recordset queries return.
  \<open>AccessProperties\<close>: the manifest is read as its specification \<open>manifest_view\<close> says, a database
  without policies is handed out only where none are enabled, the installed snapshot stays
  authoritative, a publication swaps one expected revision, what is materialised verifies,
  recovery restores what is committed, protected executions are atomic and store what their
  candidate revisions name. \<open>AccessSample\<close> holds the instance of the witnesses.

  \<^bold>\<open>Bounds.\<close> All loops of the model end by a measure or on a list; no fuel is used. The loop
  over an arbitrary reader is a partial function, shown to return on the readers of the
  adapter. Opening a file for append tries three times, as the code does. Sizes of buffers are
  natural numbers checked against \<open>maxInt\<close>, Go integers in rows keep their kind.

  \<^bold>\<open>Not modelled.\<close> Symbolic links in record directories (the tree has directories and files
  only), the waiting of a lock for another process, time stamps and the contents of messages
  beyond their arguments, the platform variant \<open>rooted_files_other.go\<close>, the methods of the
  facades that only forward a call, and the code of package \<open>access\<close> behind the facades
  (evaluating a policy, the coordinator), which is a parameter (\<open>access_api\<close>, \<open>facade_api\<close>,
  \<open>protected_env\<close>). Symbolic links are part of the environment in the access
  theories only, where \<open>Lstat\<close> may see one at any call.
\<close>

text \<open>
  C1. A read-write transaction that fails, because the worker returned an error or because
  the Git commit failed, leaves every file outside its lock file with the content it had
  before and moves no Git reference, for every worker and every pattern of failing calls;
  the only exception is the error that says the rollback itself failed.
\<close>

theorem failed_transaction_restores:
  assumes "RunReadwriteTransaction E A X G db msg f w = (Inl e, w')"
    and "\<forall>a b. e \<noteq> ERollbackFailed a b"
  shows "(\<forall>q. q \<notin> lock_files E G db w \<longrightarrow> data_at (wFs w') q = data_at (wFs w) q) \<and>
         (\<exists>calls. txGitLog w' = txGitLog w @ calls \<and> (\<forall>c \<in> set calls. \<not> published c))"
  using RunReadwriteTransaction_atomic [OF assms] by (simp add: data_kept_def unpublished_def)

theorem failed_transaction_restores_witness:
  "data_at (wFs (snd (RunReadwriteTransaction sample_env sample_api sample_engine sample_git sample_db ''m''
      sample_worker sample_world))) ''/db/people/bob.txt'' = None"
proof -
  let ?r = "RunReadwriteTransaction sample_env sample_api sample_engine sample_git sample_db ''m'' sample_worker sample_world"
  have "fst ?r = Inl (EForeignKeyViolation ''team'' ''teams'' ''blue'')" by code_simp
  then have r: "?r = (Inl (EForeignKeyViolation ''team'' ''teams'' ''blue''), snd ?r)" by (metis prod.collapse)
  have "case fst (transactionLockPath sample_env sample_git ''/db'' sample_world) of
      Inr p \<Rightarrow> path_Clean p = ''/git/lock'' | Inl _ \<Rightarrow> False" by code_simp
  then have "''/db/people/bob.txt'' \<notin> lock_files sample_env sample_git sample_db sample_world"
    by (auto simp: lock_files_def sample_db_def split: prod.splits sum.splits)
  moreover have "data_at (wFs sample_world) ''/db/people/bob.txt'' = None" by code_simp
  ultimately show ?thesis using failed_transaction_restores [OF r] by simp
qed

text \<open>
  C2. The commit of a transaction publishes last and by compare and swap: when it succeeds it
  either had nothing to commit, or is outside a work tree, or has run, on its private index,
  read-tree of the head it saw, add of exactly the written paths, write-tree and commit-tree
  with that head as parent, and finally update-ref of HEAD guarded by that same head (by the
  zero ID on an unborn branch).
\<close>

theorem commit_compare_and_swap:
  assumes "gitCommitPaths E G dir paths msg w = (Inr u, w')"
  shows "wFs w' = wFs w \<and>
     (\<exists>calls. txGitLog w' = txGitLog w @ calls \<and>
        (calls = [] \<and> paths = [] \<or>
         (\<exists>c. calls = [c] \<and> \<not> gcOk c) \<or>
         (\<exists>c rest. calls = c # rest \<and> commit_log dir (map (abs_or_same G) (dedupeStrings paths)) msg rest)))"
proof -
  have fs: "wFs w' = wFs w" using iokeepsD [OF gitCommitPaths_only assms] by (simp add: git_only_def)
  show ?thesis
  proof (cases "paths = []")
    case True
    with assms fs show ?thesis by (simp add: gitCommitPaths_def dedupeStrings_def ioret_def)
  next
    case False
    then have ne: "dedupeStrings paths \<noteq> []" by (metis dedupeStrings_spec(2) set_empty)
    obtain ok out where a: "gRun G (wTick w) dir None [] [''rev-parse'', ''--is-inside-work-tree''] = (ok, out)"
      by (metis prod.exhaust)
    let ?c = "\<lparr>gcDir = dir, gcArgs = [''rev-parse'', ''--is-inside-work-tree''], gcIndex = None, gcStdin = [],
                gcOk = ok, gcOut = out\<rparr>"
    let ?w1 = "w\<lparr>wTick := Suc (wTick w), txGitLog := txGitLog w @ [?c]\<rparr>"
    have inside: "isInsideGitWorkTree G dir w = (Inr ok, ?w1)"
      using a by (simp add: isInsideGitWorkTree_def git_run_def iobind_def ioret_def)
    show ?thesis
    proof (cases ok)
      case False
      with assms ne inside fs show ?thesis
        by (auto simp: gitCommitPaths_def iobind_def ioret_def)
    next
      case True
      with assms ne inside obtain i w2 where i: "osCreateTemp G ?w1 = (Inr i, w2)"
        and c: "commit_with_index E G dir (map (abs_or_same G) (dedupeStrings paths)) msg i w2 = (Inr u, w')"
        by (auto simp: gitCommitPaths_def res_simps iobind_step)
      have "txGitLog w2 = txGitLog w @ [?c]" using i by (auto simp: osCreateTemp_def)
      with commit_with_index_Inr [OF c] fs show ?thesis by auto
    qed
  qed
qed

theorem commit_compare_and_swap_witness:
  "\<exists>calls. txGitLog (snd (gitCommitPaths sample_env sample_git ''/db'' [''/db/a''] ''m'' sample_world)) = calls \<and>
     length calls = 7 \<and> wFs (snd (gitCommitPaths sample_env sample_git ''/db'' [''/db/a''] ''m'' sample_world)) = sample_fs"
proof -
  let ?r = "gitCommitPaths sample_env sample_git ''/db'' [''/db/a''] ''m'' sample_world"
  have "fst ?r = Inr ()" by code_simp
  then have r: "?r = (Inr (), snd ?r)" by (metis prod.collapse)
  have "length (txGitLog (snd ?r)) = 7" by code_simp
  with commit_compare_and_swap [OF r] show ?thesis by (auto simp: sample_world_def)
qed

text \<open>
  C13. A read-only transaction, whatever its worker reads and whatever fails, leaves every
  file outside the lock file with its content and moves no Git reference.
\<close>

theorem readonly_transaction_pure:
  assumes "read_only f"
  shows "data_kept (lock_files E G db w) w (snd (RunReadonlyTransaction E A X G db f w))"
  using assms by (rule RunReadonlyTransaction_kept)

theorem readonly_transaction_pure_witness:
  "data_kept (lock_files sample_env sample_git sample_db sample_world) sample_world
     (snd (RunReadonlyTransaction sample_env sample_api sample_engine sample_git sample_db
       (WCall (OpGet (sample_rec ''people'' ''ann'' [])) (\<lambda>_. WReturn None)) sample_world))"
  by (rule readonly_transaction_pure) (simp add: read_op_def)

end
